(* ===== verification/Prelude.thy ===== *)
theory Prelude
  imports Main "HOL-Library.AList" "HOL-Library.Sublist"
begin

section \<open>Prelude: results, key-value lists and searching\<close>

text \<open>
  The vocabulary the component theories share: the outcome of an operation that may throw, the
  association lists that stand for one key family of a storage, weighted sums over their values,
  and the array idioms \<open>find\<close>, \<open>filter (x !== y)\<close> and \<open>map (x === y ? z : x)\<close> of the code.
\<close>

named_theorems store_simps \<open>reading a store field after a write\<close>
named_theorems codec_simps \<open>evaluation of parsers and encoders\<close>

subsection \<open>Thrown errors as values\<close>

text \<open>Every \<open>throw\<close> of the modelled code is one of these; \<open>Inl\<close> is the thrown error.\<close>

datatype js_error = TypeError string | RangeError string | ProtocolError | PlainError string

type_synonym 'a throws = "js_error + 'a"

definition returns :: "'a throws \<Rightarrow> bool" where
  "returns r \<longleftrightarrow> (case r of Inl _ \<Rightarrow> False | Inr _ \<Rightarrow> True)"

lemma returns_simps [simp]: "returns (Inr x)" "\<not> returns (Inl e)"
  by (simp_all add: returns_def)

text \<open>The statements after one that may throw.\<close>

definition and_then :: "'a throws \<Rightarrow> ('a \<Rightarrow> 'b throws) \<Rightarrow> 'b throws" where
  "and_then r f = (case r of Inl e \<Rightarrow> Inl e | Inr x \<Rightarrow> f x)"

lemma and_then_simps [simp]: "and_then (Inl e) f = Inl e" "and_then (Inr x) f = f x"
  by (simp_all add: and_then_def)

lemma and_then_cong [fundef_cong]: "r = r' \<Longrightarrow> (\<And>x. r' = Inr x \<Longrightarrow> f x = g x) \<Longrightarrow> and_then r f = and_then r' g"
  by (simp add: and_then_def split: sum.splits)

lemma and_then_Inr: "and_then r f = Inr y \<longleftrightarrow> (\<exists>x. r = Inr x \<and> f x = Inr y)"
  by (cases r) simp_all

lemma and_thenE:
  assumes "and_then r f = Inr y"
  obtains x where "r = Inr x" "f x = Inr y"
  using assms by (auto simp: and_then_Inr)

subsection \<open>Strings\<close>

text \<open>
  A JavaScript string is a \<open>string\<close> that lists the bytes of its UTF-8 form (a lone surrogate, which
  a JavaScript string may hold, takes the three bytes of its generalised UTF-8 form, as many as the
  replacement character the encoder writes for it).  So the length of the model's string is the
  byte length that \<open>TextEncoder\<close> gives.  \<open>utf16_length\<close> is JavaScript's \<open>length\<close>:
  a lead byte of up to three bytes is one code unit, a lead byte of four bytes is two, and
  a continuation byte is none.
\<close>

definition utf8_length :: "string \<Rightarrow> int" where
  "utf8_length s = int (length s)"

definition utf16_units_of_byte :: "char \<Rightarrow> nat" where
  "utf16_units_of_byte c =
     (let b = of_char c :: nat in if b < 128 then 1 else if b < 192 then 0 else if b < 240 then 1 else 2)"

definition utf16_length :: "string \<Rightarrow> int" where
  "utf16_length s = int (sum_list (map utf16_units_of_byte s))"

lemma utf16_length_le: "utf16_length s \<le> 2 * utf8_length s"
  by (induction s) (auto simp: utf16_length_def utf8_length_def utf16_units_of_byte_def Let_def)

subsection \<open>Key-value lists\<close>

text \<open>
  One key family of a Durable Object storage: reading a key is \<^const>\<open>map_of\<close>, writing it replaces the
  value in place or adds the key.
\<close>

type_synonym 'v kv = "(string \<times> 'v) list"

abbreviation kv_get :: "'v kv \<Rightarrow> string \<Rightarrow> 'v option" where
  "kv_get m k \<equiv> map_of m k"

abbreviation kv_put :: "string \<Rightarrow> 'v \<Rightarrow> 'v kv \<Rightarrow> 'v kv" where
  "kv_put k v m \<equiv> AList.update k v m"

lemma kv_get_put [simp]: "kv_get (kv_put k v m) k' = (if k = k' then Some v else kv_get m k')"
  by (simp add: update_conv')

lemma distinct_kv_put [intro]: "distinct (map fst m) \<Longrightarrow> distinct (map fst (kv_put k v m))"
  by (rule distinct_update)

lemma length_kv_put: "length (kv_put k v m) = length m + (if kv_get m k = None then 1 else 0)"
  by (induction m) (auto split: if_splits)

text \<open>The sum of a weight over all stored values, and how one write changes it.\<close>

definition kv_sum :: "('v \<Rightarrow> int) \<Rightarrow> 'v kv \<Rightarrow> int" where
  "kv_sum f m = sum_list (map (\<lambda>kv. f (snd kv)) m)"

lemma kv_sum_Nil [simp]: "kv_sum f [] = 0"
  by (simp add: kv_sum_def)

lemma kv_sum_Cons [simp]: "kv_sum f ((k, v) # m) = f v + kv_sum f m"
  by (simp add: kv_sum_def)

definition old_weight :: "('v \<Rightarrow> int) \<Rightarrow> 'v option \<Rightarrow> int" where
  "old_weight f o' = (case o' of None \<Rightarrow> 0 | Some v \<Rightarrow> f v)"

lemma old_weight_simps [simp]: "old_weight f None = 0" "old_weight f (Some v) = f v"
  by (simp_all add: old_weight_def)

lemma kv_sum_put [simp]: "kv_sum f (kv_put k v m) = kv_sum f m + f v - old_weight f (kv_get m k)"
  by (induction m) auto

lemma kv_sum_nonneg:
  assumes "\<And>k v. kv_get m k = Some v \<Longrightarrow> 0 \<le> f v" and "distinct (map fst m)"
  shows "0 \<le> kv_sum f m"
  using assms
proof (induction m)
  case Nil
  then show ?case by simp
next
  case (Cons kv m)
  obtain k v where kv: "kv = (k, v)" by (cases kv)
  have "0 \<le> f v" using Cons.prems(1)[of k v] kv by simp
  moreover have "0 \<le> kv_sum f m"
  proof (rule Cons.IH)
    fix k' v' assume g: "kv_get m k' = Some v'"
    then have "k' \<in> fst ` set m" by (metis domI dom_map_of_conv_image_fst)
    with Cons.prems(2) kv have "k' \<noteq> k" by auto
    with g Cons.prems(1)[of k' v'] kv show "0 \<le> f v'" by simp
  next
    show "distinct (map fst m)" using Cons.prems(2) by simp
  qed
  ultimately show ?case using kv by simp
qed

lemma kv_sum_ge_member:
  assumes "kv_get m k = Some v"
    and "\<And>k v. kv_get m k = Some v \<Longrightarrow> 0 \<le> f v" and "distinct (map fst m)"
  shows "f v \<le> kv_sum f m"
  using assms
proof (induction m)
  case Nil
  then show ?case by simp
next
  case (Cons kv m)
  obtain k0 v0 where kv: "kv = (k0, v0)" by (cases kv)
  have sub: "0 \<le> f v'" if g: "kv_get m k' = Some v'" for k' v'
  proof -
    from g have "k' \<in> fst ` set m" by (metis domI dom_map_of_conv_image_fst)
    with Cons.prems(3) kv have "k' \<noteq> k0" by auto
    with g Cons.prems(2)[of k' v'] kv show ?thesis by simp
  qed
  have dist: "distinct (map fst m)" using Cons.prems(3) by simp
  show ?case
  proof (cases "k = k0")
    case True
    with Cons.prems(1) kv kv_sum_nonneg[of m f] sub dist show ?thesis by auto
  next
    case False
    with Cons.prems(1) kv have "kv_get m k = Some v" by simp
    from Cons.IH[OF this] sub dist have "f v \<le> kv_sum f m" by blast
    moreover have "0 \<le> f v0" using Cons.prems(2)[of k0 v0] kv by simp
    ultimately show ?thesis using kv by simp
  qed
qed

lemma kv_sum_cong:
  assumes "\<And>v. v \<in> snd ` set m \<Longrightarrow> f v = g v"
  shows "kv_sum f m = kv_sum g m"
  using assms by (auto simp: kv_sum_def intro!: arg_cong[where f = sum_list])

lemma kv_get_in_set: "distinct (map fst m) \<Longrightarrow> (k, v) \<in> set m \<longleftrightarrow> kv_get m k = Some v"
  by auto

subsection \<open>Array idioms\<close>

text \<open>
  \<open>xs.find(p)\<close> is \<^const>\<open>find\<close>.  Removing or replacing the element that \<open>find\<close> returned, compared by
  identity (\<open>x !== found\<close>), touches the first match only.
\<close>

fun remove_first :: "('a \<Rightarrow> bool) \<Rightarrow> 'a list \<Rightarrow> 'a list" where
  "remove_first p [] = []"
| "remove_first p (x # xs) = (if p x then xs else x # remove_first p xs)"

fun replace_first :: "('a \<Rightarrow> bool) \<Rightarrow> 'a \<Rightarrow> 'a list \<Rightarrow> 'a list" where
  "replace_first p y [] = []"
| "replace_first p y (x # xs) = (if p x then y # xs else x # replace_first p y xs)"

lemma length_replace_first [simp]: "length (replace_first p y xs) = length xs"
  by (induction xs) auto

lemma length_remove_first:
  "length (remove_first p xs) = length xs - (if \<exists>x \<in> set xs. p x then 1 else 0)"
proof (induction xs)
  case (Cons x xs)
  then show ?case by (cases xs) auto
qed simp

lemma set_remove_first: "set (remove_first p xs) \<subseteq> set xs"
  by (induction xs) auto

lemma set_replace_first: "set (replace_first p y xs) \<subseteq> insert y (set xs)"
  by (induction xs) auto

lemma remove_first_keeps: "x \<in> set xs \<Longrightarrow> \<not> p x \<Longrightarrow> x \<in> set (remove_first p xs)"
  by (induction xs) auto

lemma replace_first_keeps: "x \<in> set xs \<Longrightarrow> \<not> p x \<Longrightarrow> x \<in> set (replace_first p y xs)"
  by (induction xs) auto

lemma find_SomeD: "find p xs = Some x \<Longrightarrow> x \<in> set xs \<and> p x"
  by (auto simp: find_Some_iff)

lemma distinct_map_remove_first:
  "distinct (map g xs) \<Longrightarrow> distinct (map g (remove_first p xs))"
  by (induction xs) (use set_remove_first in fastforce)+

lemma map_replace_first:
  assumes "\<And>x. x \<in> set xs \<Longrightarrow> p x \<Longrightarrow> g x = g y"
  shows "map g (replace_first p y xs) = map g xs"
  using assms by (induction xs) auto

lemma filter_length_eq_iff: "length (filter p xs) = length xs \<longleftrightarrow> filter p xs = xs"
  by (metis filter_id_conv length_filter_less less_irrefl)

lemma filter_absorb: "length (filter p xs) = length xs \<Longrightarrow> filter p xs = xs"
  by (simp add: filter_length_eq_iff)

end
