(* ===== verification/Doubles.thy ===== *)
theory Doubles
  imports Complex_Main Prelude "HOL-Library.Log_Nat"
begin

section \<open>Doubles: IEEE doubles and their rounding\<close>

text \<open>
  JavaScript numbers are IEEE 754 doubles.  \<open>fl\<close> is the rounding of an exact rational to the nearest
  double, ties to even, in the normal range; it is what the quotients and products of the quota
  arithmetic (\<open>remaining / limit\<close>, \<open>estimated * 0.05\<close>) go through.  Its lemmas are monotonicity,
  exactness on the integers up to \<open>2^53\<close> and the relative error \<open>2^-53\<close>.
  \<open>jsnum\<close> is a number as a program value: an integral double, another finite double, NaN or an infinity.
\<close>

subsection \<open>Rounding to the nearest double\<close>

definition round_even :: "rat \<Rightarrow> int" where
  "round_even x =
     (let n = \<lfloor>x\<rfloor>; d = x - of_int n
      in if d < 1 / 2 then n else if 1 / 2 < d then n + 1 else if even n then n else n + 1)"

text \<open>The exponent of the binade of a positive rational: \<open>2^e \<le> x < 2^(e+1)\<close>.\<close>

definition binade :: "rat \<Rightarrow> int" where
  "binade x =
     (let (p, q) = quotient_of x;
          k = int (floorlog 2 (nat p)) - int (floorlog 2 (nat q))
      in if (2::rat) powi k \<le> x then k else k - 1)"

definition fl_pos :: "rat \<Rightarrow> rat" where
  "fl_pos x = (let u = (2::rat) powi (binade x - 52) in of_int (round_even (x / u)) * u)"

definition fl :: "rat \<Rightarrow> rat" where
  "fl x = (if x = 0 then 0 else if x < 0 then - fl_pos (- x) else fl_pos x)"

lemma round_even_cases:
  "round_even x = \<lfloor>x\<rfloor> \<and> x - of_int \<lfloor>x\<rfloor> \<le> 1 / 2 \<or>
   round_even x = \<lfloor>x\<rfloor> + 1 \<and> 1 / 2 \<le> x - of_int \<lfloor>x\<rfloor>"
  by (simp add: round_even_def Let_def)

lemma round_even_near: "\<bar>of_int (round_even x) - x\<bar> \<le> 1 / 2"
proof -
  have f: "of_int \<lfloor>x\<rfloor> \<le> x" "x < of_int \<lfloor>x\<rfloor> + 1" by linarith+
  from round_even_cases[of x] show ?thesis
  proof (elim disjE conjE)
    assume "round_even x = \<lfloor>x\<rfloor>" "x - of_int \<lfloor>x\<rfloor> \<le> 1 / 2"
    with f show ?thesis by (simp only: abs_le_iff) linarith
  next
    assume "round_even x = \<lfloor>x\<rfloor> + 1" "1 / 2 \<le> x - of_int \<lfloor>x\<rfloor>"
    with f show ?thesis by (simp only: abs_le_iff of_int_add of_int_1) linarith
  qed
qed

lemma round_even_of_int [simp]: "round_even (of_int n) = n"
  by (simp add: round_even_def)

lemma round_even_mono: "x \<le> y \<Longrightarrow> round_even x \<le> round_even y"
proof -
  assume le: "x \<le> y"
  have fle: "\<lfloor>x\<rfloor> \<le> \<lfloor>y\<rfloor>" by (rule floor_mono[OF le])
  have bnd: "round_even z \<le> \<lfloor>z\<rfloor> + 1" "\<lfloor>z\<rfloor> \<le> round_even z" for z
    by (simp_all add: round_even_def Let_def)
  show ?thesis
  proof (cases "\<lfloor>x\<rfloor> = \<lfloor>y\<rfloor>")
    case True
    with le show ?thesis by (simp add: round_even_def Let_def)
  next
    case False
    with fle have "\<lfloor>x\<rfloor> + 1 \<le> \<lfloor>y\<rfloor>" by linarith
    with bnd(1)[of x] bnd(2)[of y] show ?thesis by linarith
  qed
qed

lemma floorlog_powi_bounds:
  assumes "0 < n"
  shows "(2::rat) powi (int (floorlog 2 n) - 1) \<le> of_nat n" "of_nat n < (2::rat) powi int (floorlog 2 n)"
proof -
  define k where "k = floorlog 2 n"
  have b: "2 ^ (k - 1) \<le> n" "n < 2 ^ k" using floorlog_bounds[of n 2] assms by (simp_all add: k_def)
  have k: "int k - 1 = int (k - 1)" using assms by (simp add: k_def floorlog_def)
  have "(of_nat (2 ^ (k - 1)) :: rat) \<le> of_nat n" using b(1) by (simp only: of_nat_le_iff)
  then show "(2::rat) powi (int (floorlog 2 n) - 1) \<le> of_nat n"
    by (simp only: k_def[symmetric] k power_int_of_nat of_nat_power of_nat_numeral)
  have "(of_nat n :: rat) < of_nat (2 ^ k)" using b(2) by (simp only: of_nat_less_iff)
  then show "of_nat n < (2::rat) powi int (floorlog 2 n)"
    by (simp only: k_def[symmetric] power_int_of_nat of_nat_power of_nat_numeral)
qed

lemma binade_bounds:
  assumes "0 < x"
  shows "2 powi binade x \<le> x" "x < 2 powi (binade x + 1)"
proof -
  obtain p q where pq: "quotient_of x = (p, q)" by fastforce
  have q: "0 < q" using quotient_of_denom_pos[OF pq] .
  have xeq: "x = of_int p / of_int q" using quotient_of_div[OF pq] .
  with assms q have p: "0 < p" by (simp add: zero_less_divide_iff)
  define a b where "a = int (floorlog 2 (nat p))" and "b = int (floorlog 2 (nat q))"
  have pb: "2 powi (a - 1) \<le> (of_int p :: rat)" "(of_int p :: rat) < 2 powi a"
    using floorlog_powi_bounds[of "nat p"] p by (simp_all add: a_def)
  have qb: "2 powi (b - 1) \<le> (of_int q :: rat)" "(of_int q :: rat) < 2 powi b"
    using floorlog_powi_bounds[of "nat q"] q by (simp_all add: b_def)
  have qpos: "(0::rat) < of_int q" using q by simp
  have "x < 2 powi a / 2 powi (b - 1)"
    unfolding xeq by (rule less_le_trans[OF divide_strict_right_mono[OF pb(2) qpos]])
      (rule divide_left_mono[OF qb(1)], use q in simp_all)
  also have "\<dots> = 2 powi (a - b + 1)" by (simp add: power_int_diff power_int_add)
  finally have hi: "x < 2 powi (a - b + 1)" .
  have "2 powi (a - 1) / 2 powi b < x"
    unfolding xeq by (rule less_le_trans[OF divide_strict_left_mono[OF qb(2)] divide_right_mono[OF pb(1)]])
      (use q in simp_all)
  moreover have "(2::rat) powi (a - 1) / 2 powi b = 2 powi (a - b - 1)"
    by (simp add: power_int_diff)
  ultimately have lo: "2 powi (a - b - 1) \<le> x" by simp
  have "binade x = (if (2::rat) powi (a - b) \<le> x then a - b else a - b - 1)"
    by (simp add: binade_def pq a_def b_def)
  with lo hi show "2 powi binade x \<le> x" "x < 2 powi (binade x + 1)" by (auto split: if_splits)
qed

lemma binade_mono: "0 < x \<Longrightarrow> x \<le> y \<Longrightarrow> binade x \<le> binade y"
proof (rule ccontr)
  assume x: "0 < x" "x \<le> y" and "\<not> binade x \<le> binade y"
  then have "binade y + 1 \<le> binade x" by simp
  then have "(2::rat) powi (binade y + 1) \<le> 2 powi binade x" by (simp add: power_int_increasing)
  with binade_bounds(1)[of x] binade_bounds(2)[of y] x show False by linarith
qed

text \<open>A positive rational is a quotient of its unit in the last place between \<open>2^52\<close> and \<open>2^53\<close>.\<close>

lemma binade_quotient:
  assumes "0 < x"
  defines "u \<equiv> (2::rat) powi (binade x - 52)"
  shows "0 < u" "of_int (2 ^ 52) \<le> x / u" "x / u < of_int (2 ^ 53)"
    "of_int (2 ^ 52) * u = 2 powi binade x" "of_int (2 ^ 53) * u = 2 powi (binade x + 1)"
proof -
  show u: "0 < u" by (simp add: u_def)
  have "(2::rat) powi (52 + (binade x - 52)) = 2 powi 52 * u" "(2::rat) powi (53 + (binade x - 52)) = 2 powi 53 * u"
    unfolding u_def by (rule power_int_add, simp)+
  moreover have "(2::rat) powi 52 = of_int (2 ^ 52)" "(2::rat) powi 53 = of_int (2 ^ 53)" by simp_all
  ultimately show e: "of_int (2 ^ 52) * u = 2 powi binade x" "of_int (2 ^ 53) * u = 2 powi (binade x + 1)"
    by (simp_all only: add_diff_eq add_diff_cancel_left' flip: numeral_plus_one) (simp_all add: algebra_simps)
  show "of_int (2 ^ 52) \<le> x / u" "x / u < of_int (2 ^ 53)"
    using binade_bounds[OF assms(1)] u
    by (simp_all only: pos_le_divide_eq[OF u] pos_divide_less_eq[OF u] e)
qed

lemma fl_pos_range:
  assumes "0 < x"
  shows "2 powi binade x \<le> fl_pos x" "fl_pos x \<le> 2 powi (binade x + 1)"
proof -
  define u where "u = (2::rat) powi (binade x - 52)"
  note q = binade_quotient[OF assms, folded u_def]
  have "2 ^ 52 \<le> round_even (x / u)" using round_even_mono[OF q(2)] by (simp only: round_even_of_int)
  moreover have "round_even (x / u) \<le> 2 ^ 53"
    using round_even_mono[OF less_imp_le[OF q(3)]] by (simp only: round_even_of_int)
  ultimately have "of_int (2 ^ 52) * u \<le> of_int (round_even (x / u)) * u"
    "of_int (round_even (x / u)) * u \<le> of_int (2 ^ 53) * u"
    using q(1) by (simp_all only: mult_le_cancel_right_pos of_int_le_iff)
  then show "2 powi binade x \<le> fl_pos x" "fl_pos x \<le> 2 powi (binade x + 1)"
    unfolding q(4,5) by (simp_all only: fl_pos_def u_def[symmetric] Let_def)
qed

lemma fl_pos_pos: "0 < x \<Longrightarrow> 0 < fl_pos x"
  using fl_pos_range(1)[of x] zero_less_power_int[of "2::rat" "binade x"] by linarith

lemma fl_pos_mono:
  assumes "0 < x" "x \<le> y"
  shows "fl_pos x \<le> fl_pos y"
proof (cases "binade x = binade y")
  case True
  define u where "u = (2::rat) powi (binade x - 52)"
  have u: "0 < u" by (simp add: u_def)
  have "round_even (x / u) \<le> round_even (y / u)"
    using assms(2) u by (intro round_even_mono divide_right_mono) simp_all
  with u show ?thesis by (simp add: fl_pos_def Let_def True u_def[symmetric] flip: True)
next
  case False
  with binade_mono[OF assms] have "binade x + 1 \<le> binade y" by simp
  then have "(2::rat) powi (binade x + 1) \<le> 2 powi binade y" by (simp add: power_int_increasing)
  with fl_pos_range(2)[of x] fl_pos_range(1)[of y] assms show ?thesis by linarith
qed

lemma fl_pos_error:
  assumes "0 < x"
  shows "\<bar>fl_pos x - x\<bar> \<le> x / 2 ^ 53"
proof -
  define u where "u = (2::rat) powi (binade x - 52)"
  note q = binade_quotient[OF assms, folded u_def]
  have "\<bar>of_int (round_even (x / u)) - x / u\<bar> * u \<le> 1 / 2 * u"
    by (rule mult_right_mono[OF round_even_near]) (use q in simp)
  moreover have "\<bar>of_int (round_even (x / u)) - x / u\<bar> * u = \<bar>fl_pos x - x\<bar>"
  proof -
    have "\<bar>of_int (round_even (x / u)) - x / u\<bar> * u = \<bar>(of_int (round_even (x / u)) - x / u) * u\<bar>"
      using q(1) by (simp add: abs_mult)
    also have "(of_int (round_even (x / u)) - x / u) * u = fl_pos x - x"
      using q(1) by (simp add: fl_pos_def Let_def u_def[symmetric] left_diff_distrib)
    finally show ?thesis .
  qed
  moreover have "1 / 2 * u \<le> x / 2 ^ 53"
  proof -
    have "2 ^ 52 * u \<le> x" using q(1,2) by (simp add: pos_le_divide_eq)
    then show ?thesis by simp
  qed
  ultimately show ?thesis by linarith
qed

lemma fl_pos_exact:
  assumes "0 < x" "x = of_int m * 2 powi (binade x - 52)"
  shows "fl_pos x = x"
proof -
  define u where "u = (2::rat) powi (binade x - 52)"
  have "0 < u" by (simp add: u_def)
  moreover have "x / u = of_int m" using assms(2) \<open>0 < u\<close> by (simp add: u_def[symmetric] field_simps)
  moreover have "fl_pos x = of_int (round_even (x / u)) * u" by (simp only: fl_pos_def Let_def u_def)
  ultimately show ?thesis using assms(2) by (simp only: u_def[symmetric] round_even_of_int)
qed

lemma fl_pos_of_int:
  assumes "0 < n" "n < 2 ^ 53"
  shows "fl_pos (of_int n) = of_int n"
proof -
  have "binade (of_int n) < 53"
  proof (rule ccontr)
    assume "\<not> binade (of_int n) < 53"
    then have "(2::rat) powi 53 \<le> 2 powi binade (of_int n)" by (intro power_int_increasing) auto
    also have "\<dots> \<le> of_int n" using assms by (intro binade_bounds) simp
    finally have "(of_int (2 ^ 53) :: rat) \<le> of_int n" by simp
    with assms(2) show False by (simp only: of_int_le_iff)
  qed
  then have k: "binade (of_int n) - 52 = - int (nat (52 - binade (of_int n)))" by simp
  show ?thesis
  proof (rule fl_pos_exact[of _ "n * 2 ^ nat (52 - binade (of_int n))"])
    show "(of_int n :: rat) =
        of_int (n * 2 ^ nat (52 - binade (of_int n))) * 2 powi (binade (of_int n) - 52)"
      by (subst k) (simp add: power_int_minus del: int_nat_eq)
  qed (use assms in simp)
qed

lemma fl_simps: "0 < x \<Longrightarrow> fl x = fl_pos x" "fl 0 = 0" "x < 0 \<Longrightarrow> fl x = - fl_pos (- x)"
  by (simp_all add: fl_def)

lemma fl_nonpos: "x \<le> 0 \<Longrightarrow> fl x \<le> 0"
  using fl_pos_pos[of "- x"] by (cases "x = 0") (auto simp: fl_def)

subsection \<open>The decimal constants of the quota arithmetic\<close>

text \<open>
  \<open>0.05\<close>, \<open>0.02\<close> and \<open>0.2\<close> are no doubles; the literals denote the nearest ones, which lie above
  the decimal by a relative error of at most \<open>2^-54\<close>.
\<close>

definition c005 :: rat where "c005 = fl (1 / 20)"
definition c002 :: rat where "c002 = fl (1 / 50)"
definition c02 :: rat where "c02 = fl (1 / 5)"

lemma decimal_literals:
  "c005 = 3602879701896397 / 72057594037927936"
  "c002 = 5764607523034235 / 288230376151711744"
  "c02 = 3602879701896397 / 18014398509481984"
  by code_simp+

text \<open>
  A literal \<open>c\<close> for \<open>1 / d\<close>: comparing a rounded quotient with it decides the exact quotient, and
  rounding a product with it up gives the exact ceiling, for integers up to \<open>2^52\<close>.
\<close>

definition literal_of :: "rat \<Rightarrow> int \<Rightarrow> bool" where
  "literal_of c d \<longleftrightarrow> 0 < d \<and> d \<le> 64 \<and> c = fl (1 / of_int d) \<and>
     1 \<le> c * of_int d \<and> c * of_int d \<le> 1 + 1 / 2 ^ 54"

lemma decimal_literals_of: "literal_of c005 20" "literal_of c002 50" "literal_of c02 5"
proof -
  have "c005 = fl (1 / of_int 20)" "c002 = fl (1 / of_int 50)" "c02 = fl (1 / of_int 5)"
    by (simp_all add: c005_def c002_def c02_def)
  moreover have "1 \<le> c005 * of_int 20" "c005 * of_int 20 \<le> 1 + 1 / 2 ^ 54"
    "1 \<le> c002 * of_int 50" "c002 * of_int 50 \<le> 1 + 1 / 2 ^ 54"
    "1 \<le> c02 * of_int 5" "c02 * of_int 5 \<le> 1 + 1 / 2 ^ 54"
    by (simp_all add: decimal_literals)
  ultimately show "literal_of c005 20" "literal_of c002 50" "literal_of c02 5"
    unfolding literal_of_def by (simp_all only:) simp_all
qed

lemma fl_quotient_le_literal:
  fixes r l d :: int
  assumes lit: "literal_of c d" and l: "0 < l" "l \<le> 2 ^ 52"
  shows "fl (of_int r / of_int l) \<le> c \<longleftrightarrow> d * r \<le> l"
proof
  have d: "0 < d" and c: "c = fl (1 / of_int d)" and chi: "c * of_int d \<le> 1 + 1 / 2 ^ 54"
    using lit unfolding literal_of_def by blast+
  have c_pos: "c = fl_pos (1 / of_int d)" using d by (simp add: c fl_simps)
  have cpos: "0 < c" using fl_pos_pos[of "1 / of_int d"] d by (simp add: c_pos)
  show "fl (of_int r / of_int l) \<le> c" if le: "d * r \<le> l"
  proof (cases "r \<le> 0")
    case True
    then have "(of_int r / of_int l :: rat) \<le> 0" using l by (simp add: divide_le_0_iff)
    from fl_nonpos[OF this] cpos show ?thesis by linarith
  next
    case False
    then have r: "0 < r" by simp
    have "(of_int (d * r) :: rat) \<le> of_int l" using le by (simp only: of_int_le_iff)
    then have "(of_int r / of_int l :: rat) \<le> 1 / of_int d" using d l by (simp add: field_simps)
    with r l have "fl_pos (of_int r / of_int l) \<le> fl_pos (1 / of_int d)" by (intro fl_pos_mono) simp_all
    then show ?thesis using r l by (simp add: fl_simps c_pos)
  qed
  show "d * r \<le> l" if le: "fl (of_int r / of_int l) \<le> c"
  proof (rule ccontr)
    assume "\<not> d * r \<le> l"
    then have dr: "l + 1 \<le> d * r" by simp
    with d l have r: "0 < r" by (metis add_strict_increasing2 le_less_trans less_add_one less_imp_le not_less zero_less_mult_pos)
    define x where "x = (of_int r / of_int l :: rat)"
    have x: "0 < x" using r l by (simp add: x_def)
    have "(of_int (l + 1) :: rat) \<le> of_int (d * r)" using dr by (simp only: of_int_le_iff)
    then have "(of_int (l + 1) / of_int l :: rat) \<le> of_int (d * r) / of_int l" using l by (intro divide_right_mono) simp_all
    moreover have "of_int (l + 1) / of_int l = (1 + 1 / of_int l :: rat)" using l by (simp add: add_divide_distrib)
    moreover have "of_int (d * r) / of_int l = x * of_int d" by (simp add: x_def)
    ultimately have "1 + 1 / of_int l \<le> x * of_int d" by (simp only:)
    moreover have "1 / 2 ^ 52 \<le> (1 / of_int l :: rat)"
    proof (rule divide_left_mono)
      show "of_int l \<le> (2 ^ 52 :: rat)" using l(2) by (metis of_int_le_iff of_int_numeral of_int_power)
    qed (use l in simp_all)
    ultimately have xd: "1 + 1 / 2 ^ 52 \<le> x * of_int d" by linarith
    have "x - x / 2 ^ 53 \<le> fl_pos x" using fl_pos_error[OF x] by (simp only: abs_le_iff) linarith
    then have "(x - x / 2 ^ 53) * of_int d \<le> fl_pos x * of_int d" using d by (simp add: mult_right_mono)
    also have "\<dots> \<le> c * of_int d" using le x d by (simp add: fl_simps x_def[symmetric] mult_right_mono)
    also have "\<dots> \<le> 1 + 1 / 2 ^ 54" by (rule chi)
    finally have "x * of_int d * (1 - 1 / 2 ^ 53) \<le> 1 + 1 / 2 ^ 54" by (simp add: algebra_simps)
    moreover have "(1 + 1 / 2 ^ 52) * (1 - 1 / 2 ^ 53) \<le> x * of_int d * (1 - 1 / 2 ^ 53)"
      by (rule mult_right_mono[OF xd]) simp
    ultimately have "(1 + 1 / 2 ^ 52) * (1 - 1 / 2 ^ 53) \<le> (1 + 1 / 2 ^ 54 :: rat)" by (rule order.trans[rotated])
    then show False by simp
  qed
qed

lemma fl_pos_rounds_to_int:
  assumes n: "0 < n" "n < 2 ^ 53" and x: "of_int n \<le> x" "x \<le> of_int n * (1 + 1 / 2 ^ 54)"
  shows "fl_pos x = of_int n"
proof -
  define N where "N = (of_int n :: rat)"
  have N: "0 < N" using n by (simp add: N_def)
  define b where "b = binade N"
  define u where "u = (2::rat) powi (b - 52)"
  note q = binade_quotient[OF N, folded b_def, folded u_def]
  obtain m where m: "N / u = of_int m"
  proof -
    have "fl_pos N = N" unfolding N_def by (rule fl_pos_of_int[OF n])
    then have "N = of_int (round_even (N / u)) * u" by (simp only: fl_pos_def Let_def b_def u_def)
    then have "N / u = of_int (round_even (N / u))" using q(1) by (metis nonzero_mult_div_cancel_right less_numeral_extra(3))
    then show thesis by (rule that)
  qed
  have d: "(x - N) / u < 1 / 2" "0 \<le> (x - N) / u"
  proof -
    have "x - N \<le> N * (1 / 2 ^ 54)" using x(2) by (simp add: N_def algebra_simps)
    then have "(x - N) / u \<le> N * (1 / 2 ^ 54) / u" using q(1) by (intro divide_right_mono) simp_all
    also have "\<dots> = N / u * (1 / 2 ^ 54)" by simp
    also have "\<dots> < of_int (2 ^ 53) * (1 / 2 ^ 54)" using q(3) by (rule mult_strict_right_mono) simp
    finally show "(x - N) / u < 1 / 2" by simp
    show "0 \<le> (x - N) / u" using x(1) q(1) by (simp add: N_def)
  qed
  have xu: "x / u = of_int m + (x - N) / u" using m by (simp add: diff_divide_distrib)
  then have fl: "\<lfloor>x / u\<rfloor> = m" using d by (intro floor_unique) linarith+
  then have rnd: "round_even (x / u) = m" using d by (simp add: round_even_def xu)
  have "m < 2 ^ 53" using q(3) unfolding m by (simp only: of_int_less_iff)
  then have "m + 1 \<le> 2 ^ 53" by simp
  then have "(of_int (m + 1) :: rat) \<le> of_int (2 ^ 53)" by (simp only: of_int_le_iff)
  then have "of_int m + 1 \<le> (of_int (2 ^ 53) :: rat)" by (simp only: of_int_add of_int_1)
  with d(1) xu have "x / u < of_int (2 ^ 53)" by linarith
  then have "x < of_int (2 ^ 53) * u" using q(1) by (simp add: pos_divide_less_eq)
  then have xhi: "x < 2 powi (b + 1)" by (simp only: q(5))
  have "0 < x" using N x(1) by (simp add: N_def)
  moreover have "b \<le> binade x" using binade_mono[OF N] x(1) by (simp add: N_def b_def)
  moreover have "binade x < b + 1"
  proof (rule ccontr)
    assume "\<not> binade x < b + 1"
    then have "(2::rat) powi (b + 1) \<le> 2 powi binade x" by (simp add: power_int_increasing)
    with xhi binade_bounds(1)[OF \<open>0 < x\<close>] show False by linarith
  qed
  ultimately have "binade x = b" by simp
  then have "fl_pos x = of_int (round_even (x / u)) * u" by (simp only: fl_pos_def Let_def u_def)
  also have "\<dots> = N" using m q(1) by (simp add: rnd field_simps)
  finally show ?thesis by (simp only: N_def)
qed

lemma ceiling_fl_literal:
  fixes e d :: int
  assumes lit: "literal_of c d" and e: "0 \<le> e" "e \<le> 2 ^ 52"
  shows "\<lceil>fl (c * of_int e)\<rceil> = (e + d - 1) div d"
proof (cases "e = 0")
  case True
  then show ?thesis using lit by (simp add: fl_def literal_of_def)
next
  case False
  have d: "0 < d" "d \<le> 64" and clo: "1 \<le> c * of_int d" and chi: "c * of_int d \<le> 1 + 1 / 2 ^ 54"
    using lit unfolding literal_of_def by blast+
  define n where "n = (e + d - 1) div d"
  have "e + d - 1 = d * n + (e + d - 1) mod d" by (simp add: n_def)
  then have ne: "d * n \<le> e + d - 1" "e \<le> d * n"
    using pos_mod_sign[OF d(1), of "e + d - 1"] pos_mod_bound[OF d(1), of "e + d - 1"] by linarith+
  have n: "0 < n"
  proof (rule ccontr)
    assume "\<not> 0 < n"
    then have "d * n \<le> 0" using d(1) by (simp add: mult_nonneg_nonpos)
    with ne(2) False e(1) show False by linarith
  qed
  have nb: "d * n \<le> 2 ^ 52 + 63" using ne(1) e(2) d(2) by linarith
  have "1 * n \<le> d * n" using d(1) n by (intro mult_right_mono) simp_all
  with nb have n53: "n < 2 ^ 53" by simp
  define x where "x = c * of_int e"
  have cpos: "0 < c"
  proof (rule ccontr)
    assume "\<not> 0 < c"
    then have "c * of_int d \<le> 0" using d(1) by (simp add: mult_nonpos_nonneg)
    with clo show False by linarith
  qed
  have x: "0 < x" using cpos e False by (simp add: x_def)
  have xlo: "of_int e \<le> x * of_int d"
    using mult_right_mono[OF clo, of "of_int e"] e by (simp add: x_def algebra_simps)
  have xhi: "x * of_int d \<le> of_int e * (1 + 1 / 2 ^ 54)"
    using mult_right_mono[OF chi, of "of_int e"] e by (simp add: x_def algebra_simps)
  have up: "fl_pos x \<le> of_int n"
  proof (cases "e = d * n")
    case True
    then have "of_int n \<le> x" "x \<le> of_int n * (1 + 1 / 2 ^ 54)" using xlo xhi d(1) by (simp_all add: mult.commute)
    from fl_pos_rounds_to_int[OF n n53 this] show ?thesis by simp
  next
    case False
    with ne(2) have en: "e + 1 \<le> d * n" by simp
    have "of_int e * (1 / 2 ^ 54) \<le> (1 :: rat)"
    proof -
      have "(of_int e :: rat) \<le> of_int (2 ^ 52)" using e(2) by (simp only: of_int_le_iff)
      then show ?thesis by simp
    qed
    then have "x * of_int d \<le> of_int (e + 1)" using xhi by (simp add: algebra_simps)
    also have "\<dots> \<le> of_int (d * n)" using en by (simp only: of_int_le_iff)
    finally have "x \<le> of_int n" using d(1) by (simp add: mult.commute)
    with x have "fl_pos x \<le> fl_pos (of_int n)" by (rule fl_pos_mono)
    then show ?thesis by (simp only: fl_pos_of_int[OF n n53])
  qed
  have lo: "of_int n - 1 < fl_pos x"
  proof -
    have "(of_int (d * n) :: rat) \<le> of_int (e + d - 1)" using ne(1) by (simp only: of_int_le_iff)
    then have dn: "of_int d * of_int n - of_int d + 1 \<le> x * of_int d" using xlo by simp
    have "x - x / 2 ^ 53 \<le> fl_pos x" using fl_pos_error[OF x] by (simp only: abs_le_iff) linarith
    then have "x * of_int d - x * of_int d / 2 ^ 53 \<le> fl_pos x * of_int d"
      using d(1) mult_right_mono[of "x - x / 2 ^ 53" "fl_pos x" "of_int d"] by (simp add: left_diff_distrib)
    moreover have "x * of_int d / 2 ^ 53 < 1"
    proof -
      have "(of_int e :: rat) \<le> of_int (2 ^ 52)" using e(2) by (simp only: of_int_le_iff)
      then have "of_int e * (1 + 1 / 2 ^ 54) \<le> of_int (2 ^ 52) * (1 + 1 / 2 ^ 54 :: rat)" by (rule mult_right_mono) simp
      with xhi show ?thesis by simp
    qed
    ultimately have "(of_int n - 1) * of_int d < fl_pos x * of_int d" using dn by (simp add: algebra_simps)
    then show ?thesis using d(1) by (simp add: mult_less_cancel_right_pos)
  qed
  have "\<lceil>fl_pos x\<rceil> = n" using up lo by (intro ceiling_unique) simp_all
  then show ?thesis using x by (simp add: fl_simps x_def[symmetric] n_def[symmetric])
qed

end
