(* ===== verification/Numbers.thy ===== *)
theory Numbers
  imports Doubles "HOL-Library.Char_ord"
begin

section \<open>Numbers: number values, safe integers and numeric strings\<close>

text \<open>
  A JavaScript number as a program value: an integral double (\<open>JsInt\<close>), another finite double
  (\<open>JsFrac\<close>), NaN or an infinity.  Integral doubles from \<open>2^53\<close> on keep the exact integer that was
  rounded; every use tests \<open>Number.isSafeInteger\<close> first, which no such integer passes.
  \<open>js_number\<close> is \<open>Number(s)\<close> on a string: white space trimmed, the empty string zero, the radix
  prefixes, and decimal literals rounded to the nearest double.
\<close>

datatype jsnum = JsInt int | JsFrac rat | JsNaN | JsInf bool

definition MAX_SAFE_INTEGER :: int where
  "MAX_SAFE_INTEGER = 9007199254740991"

definition safe_int :: "int \<Rightarrow> bool" where
  "safe_int n \<longleftrightarrow> - MAX_SAFE_INTEGER \<le> n \<and> n \<le> MAX_SAFE_INTEGER"

fun is_safe_integer :: "jsnum \<Rightarrow> bool" where
  "is_safe_integer (JsInt n) = safe_int n"
| "is_safe_integer _ = False"

text \<open>The integer of a number that passed the test.\<close>

fun the_int :: "jsnum \<Rightarrow> int" where
  "the_int (JsInt n) = n"
| "the_int _ = 0"

lemma is_safe_integerE:
  assumes "is_safe_integer x"
  obtains n where "x = JsInt n" "safe_int n"
  using assms by (cases x) auto

definition js_of_rat :: "rat \<Rightarrow> jsnum" where
  "js_of_rat q =
     (if q = of_int \<lfloor>q\<rfloor> \<and> \<bar>\<lfloor>q\<rfloor>\<bar> < 2 ^ 53 then JsInt \<lfloor>q\<rfloor>
      else if \<bar>q\<bar> \<le> 1 / 2 ^ 1075 then JsInt 0
      else if 2 ^ 1024 - 2 ^ 970 \<le> \<bar>q\<bar> then JsInf (q < 0)
      else let r = fl q in if r = of_int \<lfloor>r\<rfloor> then JsInt \<lfloor>r\<rfloor> else JsFrac r)"

subsection \<open>White space\<close>

text \<open>
  The number of bytes of the white-space character that starts a string, zero if none does:
  the ASCII controls and the space, no-break space, the Unicode space separators, the line and
  paragraph separators and the byte order mark.
\<close>

fun ws_len :: "nat list \<Rightarrow> nat" where
  "ws_len (a # b # c # _) =
     (if 9 \<le> a \<and> a \<le> 13 \<or> a = 32 then 1
      else if a = 194 \<and> b = 160 then 2
      else if a = 225 \<and> b = 154 \<and> c = 128 \<or> a = 227 \<and> b = 128 \<and> c = 128
         \<or> a = 239 \<and> b = 187 \<and> c = 191 \<or> a = 226 \<and> b = 129 \<and> c = 159
         \<or> a = 226 \<and> b = 128 \<and> (128 \<le> c \<and> c \<le> 138 \<or> c = 168 \<or> c = 169 \<or> c = 175) then 3
      else 0)"
| "ws_len [a, b] =
     (if 9 \<le> a \<and> a \<le> 13 \<or> a = 32 then 1 else if a = 194 \<and> b = 160 then 2 else 0)"
| "ws_len [a] = (if 9 \<le> a \<and> a \<le> 13 \<or> a = 32 then 1 else 0)"
| "ws_len [] = 0"

definition codes :: "string \<Rightarrow> nat list" where
  "codes s = map of_char s"

function trim_start :: "string \<Rightarrow> string" where
  "trim_start s = (let n = ws_len (codes (take 3 s)) in if n = 0 \<or> s = [] then s else trim_start (drop n s))"
  by pat_completeness auto
termination
  by (relation "measure length") auto

declare trim_start.simps [simp del]

text \<open>From the end: the last one, two or three bytes are one white-space character.\<close>

definition ws_end_len :: "string \<Rightarrow> nat" where
  "ws_end_len s =
     (let n = length s; w = (\<lambda>k. k \<le> n \<and> ws_len (codes (drop (n - k) s)) = k)
      in if w 1 then 1 else if w 2 then 2 else if w 3 then 3 else 0)"

function trim_end :: "string \<Rightarrow> string" where
  "trim_end s = (let n = ws_end_len s in if n = 0 \<or> s = [] then s else trim_end (take (length s - n) s))"
  by pat_completeness auto
termination
  by (relation "measure length") auto

declare trim_end.simps [simp del]

definition js_trim :: "string \<Rightarrow> string" where
  "js_trim s = trim_end (trim_start s)"

subsection \<open>Numeric strings\<close>

definition is_digit :: "char \<Rightarrow> bool" where
  "is_digit c \<longleftrightarrow> CHR ''0'' \<le> c \<and> c \<le> CHR ''9''"

text \<open>The value of a digit character in a radix up to sixteen.\<close>

definition digit_value :: "char \<Rightarrow> nat option" where
  "digit_value c =
     (let b = of_char c in
      if 48 \<le> b \<and> b \<le> 57 then Some (b - 48)
      else if 97 \<le> b \<and> b \<le> 102 then Some (b - 87)
      else if 65 \<le> b \<and> b \<le> 70 then Some (b - 55) else None)"

fun radix_value :: "nat \<Rightarrow> int \<Rightarrow> string \<Rightarrow> int option" where
  "radix_value r acc [] = Some acc"
| "radix_value r acc (c # cs) =
     (case digit_value c of None \<Rightarrow> None
      | Some d \<Rightarrow> if d < r then radix_value r (acc * int r + int d) cs else None)"

definition digits_value :: "string \<Rightarrow> int" where
  "digits_value s = (case radix_value 10 0 s of None \<Rightarrow> 0 | Some n \<Rightarrow> n)"

text \<open>The optional exponent part; \<open>None\<close> when the rest of the literal is no exponent.\<close>

definition exponent_value :: "string \<Rightarrow> int option" where
  "exponent_value s =
     (case s of [] \<Rightarrow> Some 0
      | c # cs \<Rightarrow>
          if c \<in> {CHR ''e'', CHR ''E''} then
            (let (sg, ds) = (case cs of
                 CHR ''-'' # r \<Rightarrow> (-1, r) | CHR ''+'' # r \<Rightarrow> (1, r) | _ \<Rightarrow> (1, cs))
             in if ds \<noteq> [] \<and> list_all is_digit ds then Some (sg * digits_value ds) else None)
          else None)"

definition decimal_value :: "string \<Rightarrow> rat option" where
  "decimal_value s =
     (let ip = takeWhile is_digit s; r = dropWhile is_digit s;
          (fp, e) = (case r of CHR ''.'' # r' \<Rightarrow> (takeWhile is_digit r', dropWhile is_digit r') | _ \<Rightarrow> ([], r))
      in if ip = [] \<and> fp = [] then None
         else map_option (\<lambda>x. of_int (digits_value (ip @ fp)) * 10 powi (x - int (length fp))) (exponent_value e))"

definition unsigned_number :: "string \<Rightarrow> jsnum" where
  "unsigned_number s =
     (if s = ''Infinity'' then JsInf False
      else case decimal_value s of None \<Rightarrow> JsNaN | Some q \<Rightarrow> js_of_rat q)"

fun negate_number :: "jsnum \<Rightarrow> jsnum" where
  "negate_number (JsInt n) = JsInt (- n)"
| "negate_number (JsFrac q) = JsFrac (- q)"
| "negate_number JsNaN = JsNaN"
| "negate_number (JsInf b) = JsInf (\<not> b)"

definition radix_number :: "nat \<Rightarrow> string \<Rightarrow> jsnum" where
  "radix_number r ds =
     (if ds = [] then JsNaN
      else case radix_value r 0 ds of None \<Rightarrow> JsNaN | Some n \<Rightarrow> js_of_rat (of_int n))"

definition js_number :: "string \<Rightarrow> jsnum" where
  "js_number raw =
     (let s = js_trim raw in
      case s of
        [] \<Rightarrow> JsInt 0
      | CHR ''0'' # c # ds \<Rightarrow>
          if c \<in> {CHR ''x'', CHR ''X''} then radix_number 16 ds
          else if c \<in> {CHR ''o'', CHR ''O''} then radix_number 8 ds
          else if c \<in> {CHR ''b'', CHR ''B''} then radix_number 2 ds
          else unsigned_number s
      | CHR ''-'' # r \<Rightarrow> negate_number (unsigned_number r)
      | CHR ''+'' # r \<Rightarrow> unsigned_number r
      | _ \<Rightarrow> unsigned_number s)"

text \<open>\<open>Number(v)\<close> of an optional environment variable: \<open>undefined\<close> gives NaN.\<close>

definition js_number_opt :: "string option \<Rightarrow> jsnum" where
  "js_number_opt v = (case v of None \<Rightarrow> JsNaN | Some s \<Rightarrow> js_number s)"

end
