(* ===== verification/Dates.thy ===== *)
theory Dates
  imports Numbers
begin

section \<open>Dates: UTC days and ISO timestamps\<close>

text \<open>
  The part of the standard \<open>Date\<close> the code uses, on milliseconds since the epoch as \<open>int\<close>: the civil
  date of a day number by the day-of-year formulas of the language definition, \<open>toISOString\<close>,
  \<open>Date.UTC\<close> (with its two-digit-year rule), and the reading of \<open>YYYY-MM-DDT00:00:00Z\<close>.
  On top of it the functions of packages/shared/src/pool.ts that name days.  The lemmas show that the
  civil date and the day number determine each other, so the day string of a time parses back to the
  start of its day.
\<close>

definition MS_PER_DAY :: int where
  "MS_PER_DAY = 86400000"

subsection \<open>Civil dates\<close>

definition leap_year :: "int \<Rightarrow> bool" where
  "leap_year y \<longleftrightarrow> y mod 4 = 0 \<and> (y mod 100 \<noteq> 0 \<or> y mod 400 = 0)"

definition day_from_year :: "int \<Rightarrow> int" where
  "day_from_year y = 365 * (y - 1970) + (y - 1969) div 4 - (y - 1901) div 100 + (y - 1601) div 400"

definition year_of_day :: "int \<Rightarrow> int" where
  "year_of_day n =
     (let y = n * 400 div 146097 + 1970
      in if day_from_year (y + 1) \<le> n then y + 1 else if day_from_year y \<le> n then y else y - 1)"

text \<open>Days before a month in its year; months count from one.\<close>

definition month_start :: "bool \<Rightarrow> int \<Rightarrow> int" where
  "month_start lp m =
     (if m \<le> 1 then 0 else if m = 2 then 31 else
       (if lp then 1 else 0) +
       (if m = 3 then 59 else if m = 4 then 90 else if m = 5 then 120 else if m = 6 then 151
        else if m = 7 then 181 else if m = 8 then 212 else if m = 9 then 243 else if m = 10 then 273
        else if m = 11 then 304 else if m = 12 then 334 else 365))"

definition days_in_month :: "bool \<Rightarrow> int \<Rightarrow> int" where
  "days_in_month lp m = month_start lp (m + 1) - month_start lp m"

definition month_of_day :: "bool \<Rightarrow> int \<Rightarrow> int" where
  "month_of_day lp k =
     (if k < month_start lp 2 then 1 else if k < month_start lp 3 then 2
      else if k < month_start lp 4 then 3 else if k < month_start lp 5 then 4
      else if k < month_start lp 6 then 5 else if k < month_start lp 7 then 6
      else if k < month_start lp 8 then 7 else if k < month_start lp 9 then 8
      else if k < month_start lp 10 then 9 else if k < month_start lp 11 then 10
      else if k < month_start lp 12 then 11 else 12)"

definition civil_of_day :: "int \<Rightarrow> int \<times> int \<times> int" where
  "civil_of_day n =
     (let y = year_of_day n; k = n - day_from_year y; lp = leap_year y; m = month_of_day lp k
      in (y, m, k - month_start lp m + 1))"

definition day_of_civil :: "int \<Rightarrow> int \<Rightarrow> int \<Rightarrow> int" where
  "day_of_civil y m d = day_from_year y + month_start (leap_year y) m + d - 1"

definition valid_civil :: "int \<Rightarrow> int \<Rightarrow> int \<Rightarrow> bool" where
  "valid_civil y m d \<longleftrightarrow> 1 \<le> m \<and> m \<le> 12 \<and> 1 \<le> d \<and> d \<le> days_in_month (leap_year y) m"

lemma div_bounds:
  fixes k x :: int
  assumes "0 < k"
  shows "k * (x div k) \<le> x" "x < k * (x div k) + k"
proof -
  note f = pos_mod_sign[OF assms, of x] pos_mod_bound[OF assms, of x] mult_div_mod_eq[of k x]
  show "k * (x div k) \<le> x" using f by linarith
  show "x < k * (x div k) + k" using f by linarith
qed

lemma div_succ:
  fixes k x :: int
  assumes "1 < k"
  shows "(x + 1) div k = x div k + (if (x + 1) mod k = 0 then 1 else 0)"
proof -
  have r: "0 \<le> x mod k" "x mod k < k" using assms by simp_all
  have e: "x + 1 = (x mod k + 1) + (x div k) * k" by simp
  show ?thesis
  proof (cases "x mod k + 1 = k")
    case True
    have "x + 1 = 0 + (x div k + 1) * k" using True by (simp add: algebra_simps) (metis add.commute add.left_commute mult_div_mod_eq)
    then have "(x + 1) mod k = 0" "(x + 1) div k = x div k + 1"
      using assms by (simp_all del: mod_mult_self1 add: mod_mult_self1)
    then show ?thesis by simp
  next
    case False
    then have s: "0 \<le> x mod k + 1" "x mod k + 1 < k" using r by linarith+
    have "(x + 1) mod k = (x mod k + 1) mod k" by (subst e) (rule mod_mult_self1)
    also have "\<dots> = x mod k + 1" using s by (rule mod_pos_pos_trivial)
    finally have m: "(x + 1) mod k \<noteq> 0" using r by linarith
    have "(x + 1) div k = x div k + (x mod k + 1) div k"
      using assms by (subst e) (rule div_mult_self1, simp)
    also have "(x mod k + 1) div k = 0" using s by (rule div_pos_pos_trivial)
    finally show ?thesis using m by simp
  qed
qed

lemma day_from_year_Suc: "day_from_year (y + 1) = day_from_year y + (if leap_year y then 366 else 365)"
proof -
  have e: "y - 1968 = y + (- 492) * 4" "y - 1900 = y + (- 19) * 100" "y - 1600 = y + (- 4) * 400" by simp_all
  have m: "(y - 1968) mod 4 = y mod 4" "(y - 1900) mod 100 = y mod 100" "(y - 1600) mod 400 = y mod 400"
    unfolding e by (rule mod_mult_self1)+
  have t: "y - 1969 + 1 = y - 1968" "y - 1901 + 1 = y - 1900" "y - 1601 + 1 = y - 1600" by simp_all
  have "(y - 1969 + 1) div 4 = (y - 1969) div 4 + (if (y - 1969 + 1) mod 4 = 0 then 1 else 0)"
    "(y - 1901 + 1) div 100 = (y - 1901) div 100 + (if (y - 1901 + 1) mod 100 = 0 then 1 else 0)"
    "(y - 1601 + 1) div 400 = (y - 1601) div 400 + (if (y - 1601 + 1) mod 400 = 0 then 1 else 0)"
    by (rule div_succ, simp)+
  note q = this[unfolded t, unfolded m]
  have l: "y mod 400 = 0 \<Longrightarrow> y mod 100 = 0" "y mod 100 = 0 \<Longrightarrow> y mod 4 = 0"
    by (auto simp: mod_eq_0_iff_dvd elim: dvd_trans[rotated])
  have s: "y + 1 - 1969 = y - 1968" "y + 1 - 1901 = y - 1900" "y + 1 - 1601 = y - 1600" by simp_all
  have t': "y + 1 - 1970 = (y - 1970) + 1" by simp
  show ?thesis
  proof (cases "y mod 400 = 0")
    case True
    then show ?thesis using l unfolding day_from_year_def s q leap_year_def t' by simp
  next
    case False
    then show ?thesis using l unfolding day_from_year_def s q leap_year_def t'
      by (cases "y mod 100 = 0"; cases "y mod 4 = 0") simp_all
  qed
qed

lemma day_from_year_bounds:
  "146097 * (y - 1970) - 800 \<le> 400 * day_from_year y" "400 * day_from_year y \<le> 146097 * (y - 1970) + 800"
proof -
  note f = div_bounds[where k = 4 and x = "y - 1969", OF zero_less_numeral]
    div_bounds[where k = 100 and x = "y - 1901", OF zero_less_numeral]
    div_bounds[where k = 400 and x = "y - 1601", OF zero_less_numeral]
  show "146097 * (y - 1970) - 800 \<le> 400 * day_from_year y" unfolding day_from_year_def using f by (simp add: algebra_simps)
  show "400 * day_from_year y \<le> 146097 * (y - 1970) + 800" unfolding day_from_year_def using f by (simp add: algebra_simps)
qed

lemma day_from_year_mono: "y \<le> z \<Longrightarrow> day_from_year y \<le> day_from_year z"
proof (induction z rule: int_ge_induct)
  case base
  then show ?case by simp
next
  case (step i)
  then show ?case using day_from_year_Suc[of i] by (simp split: if_splits)
qed

lemma year_of_day_bounds: "day_from_year (year_of_day n) \<le> n" "n < day_from_year (year_of_day n + 1)"
proof -
  define y where "y = n * 400 div 146097 + 1970"
  have d: "146097 * (y - 1970) \<le> n * 400" "n * 400 < 146097 * (y - 1970) + 146097"
    using div_bounds[where k = 146097 and x = "n * 400", OF zero_less_numeral] unfolding y_def by simp_all
  have lo: "day_from_year (y - 1) \<le> n" using day_from_year_bounds(2)[of "y - 1"] d by (simp add: algebra_simps)
  have hi: "n < day_from_year (y + 2)" using day_from_year_bounds(1)[of "y + 2"] d by (simp add: algebra_simps)
  have "year_of_day n = (if day_from_year (y + 1) \<le> n then y + 1 else if day_from_year y \<le> n then y else y - 1)"
    by (simp add: year_of_day_def y_def[symmetric])
  with lo hi show "day_from_year (year_of_day n) \<le> n" "n < day_from_year (year_of_day n + 1)"
    by (auto split: if_splits simp: add.assoc)
qed

lemma year_of_day_unique: "day_from_year y \<le> n \<Longrightarrow> n < day_from_year (y + 1) \<Longrightarrow> year_of_day n = y"
  using year_of_day_bounds[of n] day_from_year_mono[of "year_of_day n + 1" y]
    day_from_year_mono[of "y + 1" "year_of_day n"] by linarith

lemma month_start_simps [simp]:
  "month_start lp 1 = 0" "month_start lp 2 = 31" "month_start False 3 = 59" "month_start True 3 = 60"
  "month_start False 4 = 90" "month_start True 4 = 91" "month_start False 5 = 120" "month_start True 5 = 121"
  "month_start False 6 = 151" "month_start True 6 = 152" "month_start False 7 = 181" "month_start True 7 = 182"
  "month_start False 8 = 212" "month_start True 8 = 213" "month_start False 9 = 243" "month_start True 9 = 244"
  "month_start False 10 = 273" "month_start True 10 = 274" "month_start False 11 = 304" "month_start True 11 = 305"
  "month_start False 12 = 334" "month_start True 12 = 335" "month_start False 13 = 365" "month_start True 13 = 366"
  by (simp_all add: month_start_def)

lemma month_cases:
  fixes m :: int
  assumes "1 \<le> m" "m \<le> 12"
  shows "m = 1 \<or> m = 2 \<or> m = 3 \<or> m = 4 \<or> m = 5 \<or> m = 6 \<or> m = 7 \<or> m = 8 \<or> m = 9 \<or> m = 10 \<or> m = 11 \<or> m = 12"
  using assms by presburger

lemma month_of_day_start:
  assumes "1 \<le> m" "m \<le> 12" "1 \<le> d" "d \<le> days_in_month lp m"
  shows "month_of_day lp (month_start lp m + d - 1) = m \<and>
    0 \<le> month_start lp m + d - 1 \<and> month_start lp m + d - 1 < (if lp then 366 else 365)"
  using month_cases[OF assms(1,2)] assms(3,4)
  by (cases lp) (elim disjE, simp_all add: month_of_day_def days_in_month_def)+

lemma if_chain: "(if b then x else y) = z \<Longrightarrow> (b \<Longrightarrow> x = z \<Longrightarrow> P) \<Longrightarrow> (\<not> b \<Longrightarrow> y = z \<Longrightarrow> P) \<Longrightarrow> P"
  by (cases b) simp_all

lemma month_of_day_window:
  assumes "0 \<le> k" "k < (if lp then 366 else 365)"
  shows "1 \<le> month_of_day lp k \<and> month_of_day lp k \<le> 12 \<and>
    month_start lp (month_of_day lp k) \<le> k \<and> k < month_start lp (month_of_day lp k + 1)"
proof -
  have "month_of_day lp k \<in> {1, 2, 3, 4, 5, 6, 7, 8, 9, 10, 11, 12}" by (simp add: month_of_day_def)
  then have m: "1 \<le> month_of_day lp k" "month_of_day lp k \<le> 12" by auto
  obtain j where j: "month_of_day lp k = j" by simp
  have lo: "j = 1 \<or> month_start lp j \<le> k"
    using j unfolding month_of_day_def by (elim if_chain) (simp_all only: not_less simp_thms)
  have hi: "j = 12 \<or> k < month_start lp (j + 1)"
    using j unfolding month_of_day_def by (elim if_chain) simp_all
  have e: "month_start lp 1 = 0" "month_start lp 13 = (if lp then 366 else 365)" by (cases lp; simp)+
  show ?thesis using m lo hi j assms e by auto
qed

lemma month_of_day_valid:
  assumes "0 \<le> k" "k < (if lp then 366 else 365)"
  shows "1 \<le> month_of_day lp k" "month_of_day lp k \<le> 12"
    "1 \<le> k - month_start lp (month_of_day lp k) + 1"
    "k - month_start lp (month_of_day lp k) + 1 \<le> days_in_month lp (month_of_day lp k)"
  using month_of_day_window[OF assms] by (auto simp: days_in_month_def)

lemma civil_of_day_of_civil:
  assumes "valid_civil y m d"
  shows "civil_of_day (day_of_civil y m d) = (y, m, d)"
proof -
  define k where "k = month_start (leap_year y) m + d - 1"
  have n: "day_of_civil y m d = day_from_year y + k" by (simp add: day_of_civil_def k_def)
  have m: "month_of_day (leap_year y) k = m" "0 \<le> k" "k < (if leap_year y then 366 else 365)"
    using assms month_of_day_start[of m d "leap_year y"] unfolding valid_civil_def k_def by blast+
  then have "year_of_day (day_from_year y + k) = y"
    by (intro year_of_day_unique) (simp_all add: day_from_year_Suc)
  with m(1) show ?thesis by (simp add: civil_of_day_def n Let_def) (simp add: k_def)
qed

lemma day_of_civil_of_day:
  assumes "civil_of_day n = (y, m, d)"
  shows "valid_civil y m d" "day_of_civil y m d = n" "y = year_of_day n"
proof -
  have y: "y = year_of_day n" using assms by (simp add: civil_of_day_def Let_def)
  define k where "k = n - day_from_year y"
  have k: "0 \<le> k" "k < (if leap_year y then 366 else 365)"
    using year_of_day_bounds[of n] day_from_year_Suc[of y] by (auto simp: k_def y split: if_splits)
  have m: "m = month_of_day (leap_year y) k" "d = k - month_start (leap_year y) m + 1"
    using assms by (auto simp: civil_of_day_def Let_def k_def y)
  with k show "valid_civil y m d" using month_of_day_valid[OF k] by (simp add: valid_civil_def)
  show "day_of_civil y m d = n" by (simp add: day_of_civil_def m k_def)
  show "y = year_of_day n" by (rule y)
qed


subsection \<open>Characters, digits and fixed-length patterns\<close>

text \<open>
  \<open>matches\<close> is a regular expression \<open>^c1 c2 ... cn$\<close> of single-character classes, which all the
  identifier patterns of the code are.
\<close>

definition matches :: "(char \<Rightarrow> bool) list \<Rightarrow> string \<Rightarrow> bool" where
  "matches ps s = list_all2 (\<lambda>p c. p c) ps s"

lemma matches_length: "matches ps s \<Longrightarrow> length s = length ps"
  by (simp add: matches_def list_all2_lengthD)

definition digit_char :: "int \<Rightarrow> char" where
  "digit_char n = char_of (48 + nat n)"

definition digit_int :: "char \<Rightarrow> int" where
  "digit_int c = int (of_char c) - 48"

lemma digit_int_char [simp]: "0 \<le> n \<Longrightarrow> n < 10 \<Longrightarrow> digit_int (digit_char n) = n"
  by (simp add: digit_int_def digit_char_def)

lemma is_digit_code: "is_digit c \<longleftrightarrow> 48 \<le> (of_char c :: nat) \<and> (of_char c :: nat) \<le> 57"
  by (simp add: is_digit_def less_eq_char_def)

lemma is_digit_char [simp]: "0 \<le> n \<Longrightarrow> n < 10 \<Longrightarrow> is_digit (digit_char n)"
  by (simp add: is_digit_code digit_char_def)

lemma digit_char_int [simp]:
  assumes "is_digit c"
  shows "digit_char (digit_int c) = c"
proof -
  obtain k :: nat where k: "of_char c = k" by simp
  have "48 + nat (int k - 48) = k" using assms unfolding is_digit_code k by arith
  then have "48 + nat (digit_int c) = of_char c" by (simp add: digit_int_def k)
  then show ?thesis by (simp only: digit_char_def char_of_char)
qed

lemma digit_int_bounds: "is_digit c \<Longrightarrow> 0 \<le> digit_int c \<and> digit_int c < 10"
  by (simp add: is_digit_code digit_int_def)

definition num_of :: "string \<Rightarrow> int" where
  "num_of s = foldl (\<lambda>a c. 10 * a + digit_int c) 0 s"

definition pad2 :: "int \<Rightarrow> string" where
  "pad2 n = [digit_char (n div 10), digit_char (n mod 10)]"

definition pad3 :: "int \<Rightarrow> string" where
  "pad3 n = digit_char (n div 100) # pad2 (n mod 100)"

definition pad4 :: "int \<Rightarrow> string" where
  "pad4 n = pad2 (n div 100) @ pad2 (n mod 100)"

lemma length_pad [simp]: "length (pad2 n) = 2" "length (pad3 n) = 3" "length (pad4 n) = 4"
  by (simp_all add: pad2_def pad3_def pad4_def)

lemma num_of_pad2 [simp]: "0 \<le> n \<Longrightarrow> n < 100 \<Longrightarrow> num_of (pad2 n) = n"
  by (simp add: num_of_def pad2_def)

lemma num_of_pad4 [simp]:
  assumes "0 \<le> n" "n < 10000"
  shows "num_of (pad4 n) = n"
proof -
  have a: "0 \<le> n div 100" "n div 100 < 100" using assms by simp_all
  have d: "10 * (n div 100 div 10) + n div 100 mod 10 = n div 100"
    "10 * (n mod 100 div 10) + n mod 100 mod 10 = n mod 100" "100 * (n div 100) + n mod 100 = n" by simp_all
  show ?thesis using a d by (simp add: num_of_def pad2_def pad4_def)
qed

subsection \<open>Timestamps\<close>

text \<open>\<open>new Date(ms).toISOString()\<close>: years outside 0..9999 are written with a sign and six digits.\<close>

definition year_digits :: "int \<Rightarrow> string" where
  "year_digits y =
     (if 0 \<le> y \<and> y \<le> 9999 then pad4 y
      else (if y < 0 then CHR ''-'' else CHR ''+'') # pad2 (\<bar>y\<bar> div 10000) @ pad4 (\<bar>y\<bar> mod 10000))"

definition day_digits :: "int \<Rightarrow> string" where
  "day_digits n = (case civil_of_day n of (y, m, d) \<Rightarrow> year_digits y @ ''-'' @ pad2 m @ ''-'' @ pad2 d)"

definition to_iso_string :: "int \<Rightarrow> string" where
  "to_iso_string ms =
     (let t = ms mod MS_PER_DAY
      in day_digits (ms div MS_PER_DAY) @ ''T'' @ pad2 (t div 3600000) @ '':'' @ pad2 (t div 60000 mod 60)
         @ '':'' @ pad2 (t div 1000 mod 60) @ ''.'' @ pad3 (t mod 1000) @ ''Z'')"

text \<open>\<open>s.replace(p, r)\<close> with a string pattern: the first occurrence.\<close>

fun js_replace :: "string \<Rightarrow> string \<Rightarrow> string \<Rightarrow> string" where
  "js_replace p r [] = (if p = [] then r else [])"
| "js_replace p r (c # cs) =
     (if take (length p) (c # cs) = p then r @ drop (length p) (c # cs) else c # js_replace p r cs)"

text \<open>packages/shared/src/pool.ts: \<open>utcDayOf\<close>.\<close>

definition utc_day_of :: "int \<Rightarrow> string" where
  "utc_day_of ms = take 10 (to_iso_string ms)"

text \<open>\<open>Date.UTC(y, m, d)\<close> with a month that counts from one: years 0 to 99 mean 1900 to 1999.\<close>

definition date_utc :: "int \<Rightarrow> int \<Rightarrow> int \<Rightarrow> int" where
  "date_utc y m d = day_of_civil (if 0 \<le> y \<and> y \<le> 99 then 1900 + y else y) m d * MS_PER_DAY"

definition next_utc_midnight_ms :: "int \<Rightarrow> int" where
  "next_utc_midnight_ms ms = (case civil_of_day (ms div MS_PER_DAY) of (y, m, d) \<Rightarrow> date_utc y m (d + 1))"

text \<open>packages/shared/src/pool.ts: \<open>nextUtcMidnight\<close>.\<close>

definition next_utc_midnight :: "int \<Rightarrow> string" where
  "next_utc_midnight ms = js_replace ''.000Z'' ''Z'' (to_iso_string (next_utc_midnight_ms ms))"

subsection \<open>Reading a day\<close>

text \<open>The pattern \<open>/^[0-9]{4}-[0-9]{2}-[0-9]{2}$/\<close>.\<close>

definition utc_day_pattern :: "string \<Rightarrow> bool" where
  "utc_day_pattern s =
     matches (replicate 4 is_digit @ [(=) CHR ''-''] @ replicate 2 is_digit @ [(=) CHR ''-'']
              @ replicate 2 is_digit) s"

text \<open>
  \<open>new Date(day + "T00:00:00Z").getTime()\<close> for a string of that pattern; \<open>None\<close> is NaN.  A day up to 31
  that its month does not have rolls over into the next month, as V8 reads it.
\<close>

definition parse_utc_day :: "string \<Rightarrow> int option" where
  "parse_utc_day s =
     (let y = num_of (take 4 s); m = num_of (take 2 (drop 5 s)); d = num_of (take 2 (drop 8 s))
      in if utc_day_pattern s \<and> 1 \<le> m \<and> m \<le> 12 \<and> 1 \<le> d \<and> d \<le> 31
         then Some (day_of_civil y m d * MS_PER_DAY) else None)"

subsection \<open>A time's day parses back\<close>

lemma length_day_digits:
  assumes "0 \<le> year_of_day n" "year_of_day n \<le> 9999"
  shows "length (day_digits n) = 10"
  using assms day_of_civil_of_day(3)[of n] by (auto simp: day_digits_def year_digits_def split: prod.splits)

lemma utc_day_of_digits:
  assumes "0 \<le> year_of_day (ms div MS_PER_DAY)" "year_of_day (ms div MS_PER_DAY) \<le> 9999"
  shows "utc_day_of ms = day_digits (ms div MS_PER_DAY)"
  using length_day_digits[OF assms] by (simp add: utc_day_of_def to_iso_string_def Let_def)

lemma days_in_month_le: "1 \<le> m \<Longrightarrow> m \<le> 12 \<Longrightarrow> days_in_month lp m \<le> 31"
  using month_cases[of m] by (cases lp) (auto simp: days_in_month_def)

lemma pad2_digits [simp]: "0 \<le> n \<Longrightarrow> n < 100 \<Longrightarrow> list_all is_digit (pad2 n)"
  by (simp add: pad2_def)

lemma parse_day_digits:
  assumes "valid_civil y m d" "0 \<le> y" "y \<le> 9999"
  shows "parse_utc_day (pad4 y @ ''-'' @ pad2 m @ ''-'' @ pad2 d) = Some (day_of_civil y m d * MS_PER_DAY)"
proof -
  have b: "1 \<le> m" "m \<le> 12" "1 \<le> d" "d \<le> 31"
    using assms days_in_month_le[of m "leap_year y"] by (auto simp: valid_civil_def)
  have y: "0 \<le> y div 100" "y div 100 < 100" using assms by simp_all
  have p: "utc_day_pattern (pad4 y @ ''-'' @ pad2 m @ ''-'' @ pad2 d)"
    using b y unfolding utc_day_pattern_def matches_def pad4_def pad2_def
    by (simp add: numeral_eq_Suc)
  have n: "num_of (take 4 (pad4 y @ ''-'' @ pad2 m @ ''-'' @ pad2 d)) = y"
    "num_of (take 2 (drop 5 (pad4 y @ ''-'' @ pad2 m @ ''-'' @ pad2 d))) = m"
    "num_of (take 2 (drop 8 (pad4 y @ ''-'' @ pad2 m @ ''-'' @ pad2 d))) = d"
    using b assms(2,3) by simp_all
  show ?thesis using p b by (simp only: parse_utc_day_def n Let_def) simp
qed

lemma parse_utc_day_of:
  assumes "0 \<le> year_of_day (ms div MS_PER_DAY)" "year_of_day (ms div MS_PER_DAY) \<le> 9999"
  shows "parse_utc_day (utc_day_of ms) = Some (ms div MS_PER_DAY * MS_PER_DAY)"
proof -
  obtain y m d where c: "civil_of_day (ms div MS_PER_DAY) = (y, m, d)" by (metis prod_cases3)
  note v = day_of_civil_of_day[OF c]
  have "utc_day_of ms = pad4 y @ ''-'' @ pad2 m @ ''-'' @ pad2 d"
    using utc_day_of_digits[OF assms] assms v(3) by (simp add: day_digits_def c year_digits_def)
  then show ?thesis using parse_day_digits[OF v(1)] assms v by simp
qed

text \<open>The strings that are the day of some time: exactly the calendar days.\<close>

lemma day_of_parsed:
  assumes "utc_day_pattern s" "valid_civil (num_of (take 4 s)) (num_of (take 2 (drop 5 s))) (num_of (take 2 (drop 8 s)))"
    and "parse_utc_day s = Some t"
  shows "t mod MS_PER_DAY = 0" "t div MS_PER_DAY = day_of_civil (num_of (take 4 s)) (num_of (take 2 (drop 5 s))) (num_of (take 2 (drop 8 s)))"
  using assms by (auto simp: parse_utc_day_def Let_def MS_PER_DAY_def split: if_splits)

subsection \<open>The next midnight\<close>

lemma js_replace_skip:
  assumes "\<And>c. c \<in> set xs \<Longrightarrow> c \<noteq> p0"
  shows "js_replace (p0 # ps) r (xs @ ys) = xs @ js_replace (p0 # ps) r ys"
  using assms by (induction xs) auto

lemma digit_char_ne [simp]:
  assumes "0 \<le> n" "n < 10"
  shows "digit_char n \<noteq> CHR ''.''" "CHR ''.'' \<noteq> digit_char n"
proof -
  show "digit_char n \<noteq> CHR ''.''"
  proof
    assume "digit_char n = CHR ''.''"
    then have "is_digit (CHR ''.'')" using is_digit_char[OF assms] by simp
    then show False by (simp add: is_digit_code)
  qed
  then show "CHR ''.'' \<noteq> digit_char n" by simp
qed

lemma day_digits_no_dot: 
  assumes "0 \<le> year_of_day n" "year_of_day n \<le> 9999" "c \<in> set (day_digits n)"
  shows "c \<noteq> CHR ''.''"
proof -
  obtain y m d where k: "civil_of_day n = (y, m, d)" by (metis prod_cases3)
  note v = day_of_civil_of_day[OF k]
  have b: "1 \<le> m" "m \<le> 12" "1 \<le> d" "d \<le> 31"
    using v(1) days_in_month_le[of m "leap_year y"] by (auto simp: valid_civil_def)
  have y: "0 \<le> y div 100" "y div 100 < 100" "0 \<le> y" "y \<le> 9999" using assms v(3) by simp_all
  show ?thesis using assms(3) b y by (auto simp: day_digits_def k year_digits_def pad4_def pad2_def)
qed

lemma next_utc_midnight_digits:
  assumes "100 \<le> year_of_day (ms div MS_PER_DAY)" "year_of_day (ms div MS_PER_DAY + 1) \<le> 9999"
  shows "next_utc_midnight ms = day_digits (ms div MS_PER_DAY + 1) @ ''T00:00:00Z''"
    and "next_utc_midnight_ms ms = (ms div MS_PER_DAY + 1) * MS_PER_DAY"
proof -
  obtain y m d where k: "civil_of_day (ms div MS_PER_DAY) = (y, m, d)" by (metis prod_cases3)
  note v = day_of_civil_of_day[OF k]
  have n: "day_of_civil y m (d + 1) = ms div MS_PER_DAY + 1" using v(2) by (simp add: day_of_civil_def)
  show e: "next_utc_midnight_ms ms = (ms div MS_PER_DAY + 1) * MS_PER_DAY"
    using assms(1) unfolding v(3)[symmetric] next_utc_midnight_ms_def k date_utc_def by (simp add: n)
  define q where "q = ms div MS_PER_DAY + 1"
  have m: "q * MS_PER_DAY div MS_PER_DAY = q" "q * MS_PER_DAY mod MS_PER_DAY = 0" by (simp_all add: MS_PER_DAY_def)
  have yq: "0 \<le> year_of_day q" "year_of_day q \<le> 9999"
  proof -
    have "day_from_year 100 \<le> q"
      using year_of_day_bounds(1)[of "ms div MS_PER_DAY"] day_from_year_mono[OF assms(1)] by (simp add: q_def)
    then have "\<not> year_of_day q + 1 \<le> 100"
      using year_of_day_bounds(2)[of q] day_from_year_mono[of "year_of_day q + 1" 100] by linarith
    then show "0 \<le> year_of_day q" by linarith
    show "year_of_day q \<le> 9999" using assms(2) by (simp add: q_def)
  qed
  have z: "pad2 0 = ''00''" "pad3 0 = ''000''" by code_simp+
  have "to_iso_string (q * MS_PER_DAY) = (day_digits q @ ''T00:00:00'') @ ''.000Z''"
    by (simp add: to_iso_string_def m z)
  moreover have nd: "c \<noteq> CHR ''.''" if "c \<in> set (day_digits q @ ''T00:00:00'')" for c
    using that day_digits_no_dot[OF yq] by auto
  have "js_replace ''.000Z'' ''Z'' ((day_digits q @ ''T00:00:00'') @ ''.000Z'')
      = (day_digits q @ ''T00:00:00'') @ js_replace ''.000Z'' ''Z'' ''.000Z''"
    by (rule js_replace_skip[OF nd])
  ultimately have "js_replace ''.000Z'' ''Z'' (to_iso_string (q * MS_PER_DAY)) = (day_digits q @ ''T00:00:00'') @ ''Z''"
    by simp
  then show "next_utc_midnight ms = day_digits (ms div MS_PER_DAY + 1) @ ''T00:00:00Z''"
    by (simp add: next_utc_midnight_def e flip: q_def)
qed

end
