(* ===== verification/Json.thy ===== *)
theory Json
  imports Dates
begin

section \<open>Json: values, strict input handling and the duplicate-key scan\<close>

text \<open>
  A value of type \<open>unknown\<close> that came from \<open>JSON.parse\<close> or over an RPC boundary, the predicates of
  packages/shared/src/relay-json.ts on it, the scan for duplicate object keys, the standard parser
  \<open>JSON.parse\<close> and the fatal UTF-8 decoder it is fed from.  An object is the list of its own properties
  in order, with distinct keys; an absent property reads as \<open>None\<close>.
\<close>

datatype json =
    JNull
  | JBool bool
  | JNum jsnum
  | JStr string
  | JArr "json list"
  | JObj "(string \<times> json) list"

subsection \<open>Predicates\<close>

fun is_record :: "json \<Rightarrow> bool" where
  "is_record (JObj _) = True"
| "is_record _ = False"

fun isSafeInteger :: "json \<Rightarrow> bool" where
  "isSafeInteger (JNum x) = is_safe_integer x"
| "isSafeInteger _ = False"

fun num_of_json :: "json \<Rightarrow> int" where
  "num_of_json (JNum x) = the_int x"
| "num_of_json _ = 0"

fun str_of_json :: "json \<Rightarrow> string" where
  "str_of_json (JStr s) = s"
| "str_of_json _ = []"

fun isSafeNonNegativeInteger :: "json \<Rightarrow> bool" where
  "isSafeNonNegativeInteger v = (isSafeInteger v \<and> 0 \<le> num_of_json v)"

fun isBoundedUtf8 :: "json \<Rightarrow> int \<Rightarrow> bool" where
  "isBoundedUtf8 (JStr s) maxBytes = (utf8_length s \<le> maxBytes)"
| "isBoundedUtf8 _ maxBytes = False"

fun is_string :: "json \<Rightarrow> bool" where
  "is_string (JStr _) = True"
| "is_string _ = False"

fun is_bool :: "json \<Rightarrow> bool" where
  "is_bool (JBool _) = True"
| "is_bool _ = False"

text \<open>\<open>value.key\<close> and \<open>Object.hasOwn\<close> on a record; reading a property of anything else is not done.\<close>

fun js_get :: "json \<Rightarrow> string \<Rightarrow> json option" where
  "js_get (JObj kvs) k = map_of kvs k"
| "js_get _ k = None"

fun own_keys :: "json \<Rightarrow> string list" where
  "own_keys (JObj kvs) = map fst kvs"
| "own_keys _ = []"

definition hasExactKeys :: "json \<Rightarrow> string list \<Rightarrow> bool" where
  "hasExactKeys v keys \<longleftrightarrow> length (own_keys v) = length keys \<and> list_all (\<lambda>k. js_get v k \<noteq> None) keys"

text \<open>
  On an object with distinct keys this is equality of the key sets, as the code's comment says.
\<close>

lemma hasExactKeys_sets:
  assumes "distinct (own_keys v)" "distinct keys" "is_record v"
  shows "hasExactKeys v keys \<longleftrightarrow> set (own_keys v) = set keys"
proof -
  obtain kvs where v: "v = JObj kvs" using assms(3) by (cases v) auto
  have "list_all (\<lambda>k. js_get v k \<noteq> None) keys \<longleftrightarrow> set keys \<subseteq> set (own_keys v)"
    by (auto simp: v list_all_iff map_of_eq_None_iff)
  moreover have "card (set (own_keys v)) = length (own_keys v)" "card (set keys) = length keys"
    using assms by (simp_all add: distinct_card)
  ultimately show ?thesis
    unfolding hasExactKeys_def by (metis List.finite_set card_subset_eq order_refl)
qed

subsection \<open>String tokens\<close>

definition hex_digit :: "char \<Rightarrow> int option" where
  "hex_digit c = map_option int (digit_value c)"

definition hex4 :: "string \<Rightarrow> nat option" where
  "hex4 s = (if length s = 4 then map_option nat (radix_value 16 0 s) else None)"

text \<open>
  \<open>out += String.fromCharCode(u)\<close>: the bytes of one UTF-16 code unit.  A low surrogate that follows a
  high surrogate (three bytes \<open>ED A0..AF xx\<close>) forms one four-byte character with it.
\<close>

definition bytes_of :: "nat list \<Rightarrow> string" where
  "bytes_of ns = map char_of ns"

definition utf8_of_code_point :: "nat \<Rightarrow> string" where
  "utf8_of_code_point u =
     (if u < 128 then bytes_of [u]
      else if u < 2048 then bytes_of [192 + u div 64, 128 + u mod 64]
      else if u < 65536 then bytes_of [224 + u div 4096, 128 + u div 64 mod 64, 128 + u mod 64]
      else bytes_of [240 + u div 262144, 128 + u div 4096 mod 64, 128 + u div 64 mod 64, 128 + u mod 64])"

definition final_high_surrogate :: "string \<Rightarrow> nat option" where
  "final_high_surrogate s =
     (case codes (drop (length s - 3) s) of
        [a, b, c] \<Rightarrow> if a = 237 \<and> 160 \<le> b \<and> b \<le> 175 then Some (53248 + (b - 128) * 64 + (c - 128)) else None
      | _ \<Rightarrow> None)"

definition append_unit :: "string \<Rightarrow> nat \<Rightarrow> string" where
  "append_unit s u =
     (if 56320 \<le> u \<and> u < 57344 then
        (case final_high_surrogate s of
           Some h \<Rightarrow> take (length s - 3) s @ utf8_of_code_point (65536 + (h - 55296) * 1024 + (u - 56320))
         | None \<Rightarrow> s @ utf8_of_code_point u)
      else s @ utf8_of_code_point u)"

text \<open>The table \<open>SIMPLE_ESCAPES\<close>.\<close>

definition SIMPLE_ESCAPES :: "(char \<times> char) list" where
  "SIMPLE_ESCAPES =
     [(CHR 0x22, CHR 0x22), (CHR 0x5C, CHR 0x5C), (CHR ''/'', CHR ''/''), (CHR ''b'', CHR 0x08),
      (CHR ''f'', CHR 0x0C), (CHR ''n'', CHR 0x0A), (CHR ''r'', CHR 0x0D), (CHR ''t'', CHR 0x09)]"

definition isJsonWhitespace :: "char \<Rightarrow> bool" where
  "isJsonWhitespace c \<longleftrightarrow> c \<in> {CHR '' '', CHR 0x09, CHR 0x0A, CHR 0x0D}"

text \<open>
  The characters after an opening quote: the decoded string and the text after the closing quote.
  \<open>JSON.parse\<close> (\<open>strict\<close>) also refuses the control characters that the scan of relay-json.ts lets pass.
\<close>

function json_string :: "bool \<Rightarrow> string \<Rightarrow> string \<Rightarrow> (string \<times> string) option" where
  "json_string strict out [] = None"
| "json_string strict out (c # cs) =
     (if c = CHR 0x22 then Some (out, cs)
      else if c = CHR 0x5C then
        (case cs of
           [] \<Rightarrow> None
         | e # r \<Rightarrow>
             if e = CHR ''u'' then
               (case hex4 (take 4 r) of None \<Rightarrow> None | Some u \<Rightarrow> json_string strict (append_unit out u) (drop 4 r))
             else
               (case map_of SIMPLE_ESCAPES e of None \<Rightarrow> None | Some x \<Rightarrow> json_string strict (out @ [x]) r))
      else if strict \<and> (of_char c :: nat) < 32 then None
      else json_string strict (out @ [c]) cs)"
  by pat_completeness auto
termination
  by (relation "measure (\<lambda>(b, out, s). length s)") auto

definition decodeJsonString :: "string \<Rightarrow> (string \<times> string) option" where
  "decodeJsonString rest = json_string False [] rest"

lemma json_string_shorter:
  assumes "json_string b out s = Some (v, r)"
  shows "length r < length s"
  using assms
proof (induction b out s rule: json_string.induct)
  case (1 strict out)
  then show ?case by simp
next
  case (2 strict out c cs)
  have "(\<exists>r0. cs = CHR ''u'' # r0 \<and> (\<exists>u. json_string strict (append_unit out u) (drop 4 r0) = Some (v, r)
           \<and> hex4 (take 4 r0) = Some u \<and> c = CHR 0x5C))
      \<or> (\<exists>e r0 x. cs = e # r0 \<and> e \<noteq> CHR ''u'' \<and> map_of SIMPLE_ESCAPES e = Some x \<and> c = CHR 0x5C
           \<and> json_string strict (out @ [x]) r0 = Some (v, r))
      \<or> r = cs
      \<or> (c \<noteq> CHR 0x22 \<and> c \<noteq> CHR 0x5C \<and> \<not> (strict \<and> (of_char c :: nat) < 32)
           \<and> json_string strict (out @ [c]) cs = Some (v, r))"
    using "2.prems" unfolding json_string.simps(2)[of strict out c cs]
    by (simp only: split: if_splits list.splits option.splits) auto
  then show ?case
    using "2.IH" by (elim disjE exE conjE) (fastforce dest: less_SucI)+
qed

text \<open>The text after an expected character.\<close>

fun expect :: "char \<Rightarrow> string \<Rightarrow> string option" where
  "expect c [] = None"
| "expect c (d # ds) = (if c = d then Some ds else None)"

lemma expect_Some: "expect c s = Some r \<longleftrightarrow> s = c # r"
  by (cases s) auto

subsection \<open>Duplicate keys\<close>

text \<open>
  \<open>hasDuplicateJsonKeys\<close>: the key stack holds the set of keys of each open object and \<open>None\<close> for
  an open array.
\<close>

function dup_scan :: "string list option list \<Rightarrow> string \<Rightarrow> bool" where
  "dup_scan st [] = False"
| "dup_scan st (c # cs) =
     (if c = CHR 0x22 then
        (case decodeJsonString cs of
           None \<Rightarrow> False
         | Some (key, rest) \<Rightarrow>
             (case st of
                Some ks # st' \<Rightarrow>
                  if expect (CHR '':'') (dropWhile isJsonWhitespace rest) \<noteq> None then
                    (if key \<in> set ks then True else dup_scan (Some (key # ks) # st') rest)
                  else dup_scan st rest
              | _ \<Rightarrow> dup_scan st rest))
      else if c = CHR 0x7B then dup_scan (Some [] # st) cs
      else if c = CHR ''['' then dup_scan (None # st) cs
      else if c = CHR 0x7D \<or> c = CHR '']'' then dup_scan (tl st) cs
      else dup_scan st cs)"
  by pat_completeness auto
termination
  by (relation "measure (\<lambda>(st, s). length s)")
    (auto simp: decodeJsonString_def dest: json_string_shorter less_SucI)

definition hasDuplicateJsonKeys :: "string \<Rightarrow> bool" where
  "hasDuplicateJsonKeys text = dup_scan [] text"

subsection \<open>UTF-8\<close>

text \<open>
  \<open>new TextDecoder("utf-8", { fatal: true })\<close>: the length of the well-formed sequence that starts the
  bytes, by the table of the encoding standard (no overlong forms, no surrogates, at most U+10FFFF).
\<close>

fun utf8_seq :: "nat list \<Rightarrow> nat" where
  "utf8_seq (a # b # c # d # _) =
     (if a < 128 then 1
      else if 194 \<le> a \<and> a \<le> 223 \<and> 128 \<le> b \<and> b \<le> 191 then 2
      else if 224 \<le> a \<and> a \<le> 239 \<and> (if a = 224 then 160 else 128) \<le> b \<and> b \<le> (if a = 237 then 159 else 191)
        \<and> 128 \<le> c \<and> c \<le> 191 then 3
      else if 240 \<le> a \<and> a \<le> 244 \<and> (if a = 240 then 144 else 128) \<le> b \<and> b \<le> (if a = 244 then 143 else 191)
        \<and> 128 \<le> c \<and> c \<le> 191 \<and> 128 \<le> d \<and> d \<le> 191 then 4
      else 0)"
| "utf8_seq ns = 0"

text \<open>Bytes past the end read as zero, which continues no sequence.\<close>

function utf8_valid :: "string \<Rightarrow> bool" where
  "utf8_valid s = (if s = [] then True
     else let n = utf8_seq (codes (take 4 s) @ [0, 0, 0, 0]) in if n = 0 then False else utf8_valid (drop n s))"
  by pat_completeness auto
termination
  by (relation "measure length") auto

declare utf8_valid.simps [simp del]

definition utf8_decode_fatal :: "string \<Rightarrow> string option" where
  "utf8_decode_fatal bytes =
     (if utf8_valid bytes
      then Some (if take 3 bytes = bytes_of [239, 187, 191] then drop 3 bytes else bytes) else None)"

text \<open>\<open>new TextEncoder().encode(s)\<close>: a lone surrogate becomes the replacement character.\<close>

fun utf8_encode :: "string \<Rightarrow> string" where
  "utf8_encode (a # b # c # s) =
     (if of_char a = (237 :: nat) \<and> 160 \<le> (of_char b :: nat) then bytes_of [239, 191, 189] @ utf8_encode s
      else a # utf8_encode (b # c # s))"
| "utf8_encode s = s"

lemma length_utf8_encode [simp]: "length (utf8_encode s) = length s"
  by (induction s rule: utf8_encode.induct) (simp_all add: bytes_of_def)

subsection \<open>\<open>JSON.parse\<close>\<close>

definition skip_ws :: "string \<Rightarrow> string" where
  "skip_ws s = dropWhile isJsonWhitespace s"

definition json_integer_part :: "string \<Rightarrow> (string \<times> string) option" where
  "json_integer_part s =
     (case s of [] \<Rightarrow> None
      | c # cs \<Rightarrow> if c = CHR ''0'' then Some ([c], cs)
                 else if is_digit c then Some (takeWhile is_digit s, dropWhile is_digit s) else None)"

definition json_fraction_part :: "string \<Rightarrow> (string \<times> string) option" where
  "json_fraction_part s =
     (case expect (CHR ''.'') s of None \<Rightarrow> Some ([], s)
      | Some r \<Rightarrow> if takeWhile is_digit r = [] then None
                  else Some (CHR ''.'' # takeWhile is_digit r, dropWhile is_digit r))"

definition json_exponent_part :: "string \<Rightarrow> (string \<times> string) option" where
  "json_exponent_part s =
     (case s of [] \<Rightarrow> Some ([], [])
      | c # cs \<Rightarrow>
          if c \<in> {CHR ''e'', CHR ''E''} then
            (let sg = (if cs \<noteq> [] \<and> hd cs \<in> {CHR ''+'', CHR ''-''} then [hd cs] else []);
                 r = drop (length sg) cs
             in if takeWhile is_digit r = [] then None
                else Some (c # sg @ takeWhile is_digit r, dropWhile is_digit r))
          else Some ([], s))"

definition json_number :: "string \<Rightarrow> (jsnum \<times> string) option" where
  "json_number s =
     (let neg = (expect (CHR ''-'') s \<noteq> None); s0 = (if neg then tl s else s)
      in case json_integer_part s0 of None \<Rightarrow> None
         | Some (i, s1) \<Rightarrow>
             (case json_fraction_part s1 of None \<Rightarrow> None
              | Some (f, s2) \<Rightarrow>
                  (case json_exponent_part s2 of None \<Rightarrow> None
                   | Some (e, s3) \<Rightarrow>
                       let x = unsigned_number (i @ f @ e)
                       in Some (if neg then negate_number x else x, s3))))"

definition json_literal :: "string \<Rightarrow> json \<Rightarrow> string \<Rightarrow> (json \<times> string) option" where
  "json_literal w v s = (if take (length w) s = w then Some (v, drop (length w) s) else None)"

text \<open>
  The value, element and member productions; the first argument bounds the nesting and the number of
  elements.  A repeated key keeps its first place and takes its last value.
\<close>

fun json_value :: "nat \<Rightarrow> string \<Rightarrow> (json \<times> string) option"
  and json_elements :: "nat \<Rightarrow> json list \<Rightarrow> string \<Rightarrow> (json list \<times> string) option"
  and json_members :: "nat \<Rightarrow> (string \<times> json) list \<Rightarrow> string \<Rightarrow> ((string \<times> json) list \<times> string) option" where
  "json_value 0 s = None"
| "json_value (Suc n) s =
     (case skip_ws s of
        [] \<Rightarrow> None
      | c # cs \<Rightarrow>
          if c = CHR 0x22 then map_option (\<lambda>(t, r). (JStr t, r)) (json_string True [] cs)
          else if c = CHR 0x7B then
            (case expect (CHR 0x7D) (skip_ws cs) of
               Some r \<Rightarrow> Some (JObj [], r)
             | None \<Rightarrow> map_option (\<lambda>(m, r). (JObj m, r)) (json_members n [] cs))
          else if c = CHR ''['' then
            (case expect (CHR '']'') (skip_ws cs) of
               Some r \<Rightarrow> Some (JArr [], r)
             | None \<Rightarrow> map_option (\<lambda>(xs, r). (JArr xs, r)) (json_elements n [] cs))
          else if c = CHR ''t'' then json_literal ''true'' (JBool True) (c # cs)
          else if c = CHR ''f'' then json_literal ''false'' (JBool False) (c # cs)
          else if c = CHR ''n'' then json_literal ''null'' JNull (c # cs)
          else map_option (\<lambda>(x, r). (JNum x, r)) (json_number (c # cs)))"
| "json_elements 0 acc s = None"
| "json_elements (Suc n) acc s =
     (case json_value n s of None \<Rightarrow> None
      | Some (v, r) \<Rightarrow>
          (case expect (CHR '','') (skip_ws r) of
             Some r' \<Rightarrow> json_elements n (acc @ [v]) r'
           | None \<Rightarrow> map_option (\<lambda>r'. (acc @ [v], r')) (expect (CHR '']'') (skip_ws r))))"
| "json_members 0 acc s = None"
| "json_members (Suc n) acc s =
     (case expect (CHR 0x22) (skip_ws s) of None \<Rightarrow> None
      | Some cs \<Rightarrow>
          (case json_string True [] cs of None \<Rightarrow> None
           | Some (k, r) \<Rightarrow>
               (case expect (CHR '':'') (skip_ws r) of None \<Rightarrow> None
                | Some r1 \<Rightarrow>
                    (case json_value n r1 of None \<Rightarrow> None
                     | Some (v, r2) \<Rightarrow>
                         (case expect (CHR '','') (skip_ws r2) of
                            Some r3 \<Rightarrow> json_members n (kv_put k v acc) r3
                          | None \<Rightarrow> map_option (\<lambda>r3. (kv_put k v acc, r3)) (expect (CHR 0x7D) (skip_ws r2)))))))"

text \<open>The fuel is more than the productions of a text of that length can use.\<close>

definition json_parse :: "string \<Rightarrow> json option" where
  "json_parse text =
     (case json_value (2 * length text + 2) text of
        Some (v, r) \<Rightarrow> if skip_ws r = [] then Some v else None
      | None \<Rightarrow> None)"

text \<open>packages/shared/src/relay-json.ts: \<open>parseRelayJsonBody\<close>.\<close>

definition parseRelayJsonBody :: "string \<Rightarrow> int \<Rightarrow> json throws" where
  "parseRelayJsonBody bytes maxBytes =
     (if int (length bytes) > maxBytes then Inl ProtocolError
      else case utf8_decode_fatal bytes of None \<Rightarrow> Inl ProtocolError
      | Some text \<Rightarrow>
          if hasDuplicateJsonKeys text then Inl ProtocolError
          else case json_parse text of None \<Rightarrow> Inl ProtocolError | Some v \<Rightarrow> Inr v)"

end
