(* ===== verification/Json_Text.thy ===== *)
theory Json_Text
  imports Json
begin

section \<open>Json_Text: writing JSON, and what the reader and the duplicate-key scan make of it\<close>

text \<open>
  String escapes, \<open>String(n)\<close> of an integer and \<open>JSON.stringify\<close>, with the two facts about the reader
  that the signed tokens and the request bodies rest on: a written value parses back to itself, and on
  any text of the JSON grammar the scan of relay-json.ts answers whether some object repeats a key.
\<close>

subsection \<open>Integers\<close>

fun nat_string :: "nat \<Rightarrow> string" where
  "nat_string n = (if n < 10 then [digit_char (int n)] else nat_string (n div 10) @ [digit_char (int (n mod 10))])"

declare nat_string.simps [simp del]

definition int_string :: "int \<Rightarrow> string" where
  "int_string n = (if n < 0 then CHR ''-'' # nat_string (nat (- n)) else nat_string (nat n))"

lemma digit_value_digit [simp]: "0 \<le> d \<Longrightarrow> d < 10 \<Longrightarrow> digit_value (digit_char d) = Some (nat d)"
  by (simp add: digit_value_def digit_char_def Let_def)

lemma radix_value_append:
  "radix_value r acc (xs @ ys) = (case radix_value r acc xs of None \<Rightarrow> None | Some a \<Rightarrow> radix_value r a ys)"
  by (induction xs arbitrary: acc) (auto split: option.splits)

lemma radix_value_nat_string: "radix_value 10 0 (nat_string n) = Some (int n)"
proof (induction n rule: nat_string.induct)
  case (1 n)
  show ?case
  proof (cases "n < 10")
    case True
    then show ?thesis by (simp add: nat_string.simps[of n])
  next
    case False
    then show ?thesis using 1 by (subst nat_string.simps) (simp add: radix_value_append zdiv_int zmod_int)
  qed
qed

lemma nat_string_digits: "list_all is_digit (nat_string n)"
  by (induction n rule: nat_string.induct) (subst nat_string.simps, simp)

lemma nat_string_ne [simp]: "nat_string n \<noteq> []"
  by (subst nat_string.simps) simp

lemma nat_string_lead: "0 < n \<Longrightarrow> hd (nat_string n) \<noteq> CHR ''0''"
proof (induction n rule: nat_string.induct)
  case (1 n)
  show ?case
  proof (cases "n < 10")
    case True
    have "digit_char (int n) \<noteq> CHR ''0''"
    proof
      assume a: "digit_char (int n) = CHR ''0''"
      have "digit_int (digit_char (int n)) = int n" using True by simp
      then show False using 1(2) a by (simp add: digit_int_def)
    qed
    then show ?thesis using True by (subst nat_string.simps) simp
  next
    case False
    then show ?thesis using 1 by (subst nat_string.simps) (simp add: hd_append)
  qed
qed

lemma takeWhile_digits:
  assumes "list_all is_digit ds" "rest = [] \<or> \<not> is_digit (hd rest)"
  shows "takeWhile is_digit (ds @ rest) = ds" "dropWhile is_digit (ds @ rest) = rest"
  using assms by (induction ds) (cases rest; auto)+

text \<open>What may follow a value inside a text: the end, a comma or a closing bracket.\<close>

definition ends_value :: "string \<Rightarrow> bool" where
  "ends_value rest \<longleftrightarrow> rest = [] \<or> hd rest \<in> {CHR '','', CHR '']'', CHR 0x7D}"

lemma ends_value_simps [simp]:
  "ends_value []" "ends_value (CHR '','' # r)" "ends_value (CHR '']'' # r)" "ends_value (CHR 0x7D # r)"
  by (simp_all add: ends_value_def)

lemma is_digit_simps [simp]:
  "\<not> is_digit (CHR '','')" "\<not> is_digit (CHR '']'')" "\<not> is_digit (CHR 0x7D)" "\<not> is_digit (CHR ''-'')"
  "\<not> is_digit (CHR ''.'')" "\<not> is_digit (CHR ''e'')" "\<not> is_digit (CHR ''E'')" "is_digit (CHR ''0'')"
  "\<not> is_digit (CHR 0x22)" "\<not> is_digit (CHR 0x7B)" "\<not> is_digit (CHR ''['')" "\<not> is_digit (CHR ''t'')"
  "\<not> is_digit (CHR ''f'')" "\<not> is_digit (CHR ''n'')" "\<not> is_digit (CHR '' '')" "\<not> is_digit (CHR 0x09)"
  "\<not> is_digit (CHR 0x0A)" "\<not> is_digit (CHR 0x0D)" "\<not> is_digit (CHR '':'')" "\<not> is_digit (CHR ''I'')"
  by (simp_all add: is_digit_code)

lemma ends_value_cases:
  assumes "ends_value rest"
  obtains "rest = []" | r where "rest = CHR '','' # r" | r where "rest = CHR '']'' # r" | r where "rest = CHR 0x7D # r"
  using assms by (cases rest) (auto simp: ends_value_def)

lemma json_parts_end:
  assumes "ends_value rest"
  shows "json_fraction_part rest = Some ([], rest)" "json_exponent_part rest = Some ([], rest)"
    and "rest = [] \<or> \<not> is_digit (hd rest)"
  using assms by (auto elim!: ends_value_cases simp: json_fraction_part_def json_exponent_part_def)

lemma js_of_rat_int: "\<bar>n\<bar> < 2 ^ 53 \<Longrightarrow> js_of_rat (of_int n) = JsInt n"
  by (simp add: js_of_rat_def)

lemma unsigned_number_nat_string:
  assumes "int n < 2 ^ 53"
  shows "unsigned_number (nat_string n) = JsInt (int n)"
proof -
  have t: "takeWhile is_digit (nat_string n) = nat_string n" "dropWhile is_digit (nat_string n) = []"
    using takeWhile_digits[OF nat_string_digits, of "[]" n] by simp_all
  have "nat_string n \<noteq> ''Infinity''" using nat_string_digits[of n] by auto
  moreover have "decimal_value (nat_string n) = Some (of_nat n)"
    by (simp add: decimal_value_def t exponent_value_def digits_value_def radix_value_nat_string)
  moreover have "js_of_rat (of_nat n) = JsInt (int n)"
    using js_of_rat_int[of "int n"] assms unfolding of_int_of_nat_eq by simp
  ultimately show ?thesis by (simp add: unsigned_number_def)
qed

lemma json_integer_part_nat_string:
  assumes "ends_value rest"
  shows "json_integer_part (nat_string n @ rest) = Some (nat_string n, rest)"
proof (cases "n = 0")
  case True
  have "nat_string 0 = ''0''" by code_simp
  then show ?thesis using True by (simp add: json_integer_part_def)
next
  case False
  obtain c cs where c: "nat_string n = c # cs" by (cases "nat_string n") simp_all
  have "c \<noteq> CHR ''0''" "is_digit c" using nat_string_lead[of n] nat_string_digits[of n] False by (simp_all add: c)
  then show ?thesis
    using takeWhile_digits[OF nat_string_digits json_parts_end(3)[OF assms], of n]
    by (simp add: json_integer_part_def c)
qed

lemma json_number_int_string:
  assumes "ends_value rest" "\<bar>n\<bar> < 2 ^ 53"
  shows "json_number (int_string n @ rest) = Some (JsInt n, rest)"
proof (cases "n < 0")
  case True
  have "unsigned_number (nat_string (nat (- n))) = JsInt (- n)"
    using unsigned_number_nat_string[of "nat (- n)"] True assms(2) by simp
  then show ?thesis using True
    by (simp add: json_number_def int_string_def json_integer_part_nat_string[OF assms(1)] json_parts_end[OF assms(1)])
next
  case False
  have "expect (CHR ''-'') (nat_string (nat n) @ rest) = None"
    using nat_string_digits[of "nat n"] by (cases "nat_string (nat n)") auto
  moreover have "unsigned_number (nat_string (nat n)) = JsInt n"
    using unsigned_number_nat_string[of "nat n"] False assms(2) by simp
  ultimately show ?thesis using False
    by (simp add: json_number_def int_string_def json_integer_part_nat_string[OF assms(1)] json_parts_end[OF assms(1)])
qed

subsection \<open>Strings\<close>

definition hex_char :: "nat \<Rightarrow> char" where
  "hex_char n = char_of (if n < 10 then 48 + n else 87 + n)"

definition hex4_string :: "nat \<Rightarrow> string" where
  "hex4_string u = [hex_char (u div 4096 mod 16), hex_char (u div 256 mod 16), hex_char (u div 16 mod 16), hex_char (u mod 16)]"

lemma length_hex4_string [simp]: "length (hex4_string u) = 4"
  by (simp add: hex4_string_def)

definition escape_char :: "char \<Rightarrow> string" where
  "escape_char c =
     (if c = CHR 0x22 then [CHR 0x5C, CHR 0x22]
      else if c = CHR 0x5C then [CHR 0x5C, CHR 0x5C]
      else if c = CHR 0x08 then [CHR 0x5C, CHR ''b'']
      else if c = CHR 0x09 then [CHR 0x5C, CHR ''t'']
      else if c = CHR 0x0A then [CHR 0x5C, CHR ''n'']
      else if c = CHR 0x0C then [CHR 0x5C, CHR ''f'']
      else if c = CHR 0x0D then [CHR 0x5C, CHR ''r'']
      else if (of_char c :: nat) < 32 then CHR 0x5C # CHR ''u'' # hex4_string (of_char c)
      else [c])"

definition escape_body :: "string \<Rightarrow> string" where
  "escape_body s = concat (map escape_char s)"

text \<open>packages/shared/src/relay-credential.ts: \<open>escapeCanonicalJsonString\<close>.\<close>

definition escapeCanonicalJsonString :: "string \<Rightarrow> string" where
  "escapeCanonicalJsonString s = CHR 0x22 # escape_body s @ [CHR 0x22]"

text \<open>The string quoting of \<open>JSON.stringify\<close>, which also escapes a lone surrogate.\<close>

fun quote_body :: "string \<Rightarrow> string" where
  "quote_body (a # b # c # s) =
     (if of_char a = (237 :: nat) \<and> 160 \<le> (of_char b :: nat)
      then CHR 0x5C # CHR ''u'' # hex4_string (53248 + (of_char b - 128) * 64 + (of_char c - 128)) @ quote_body s
      else escape_char a @ quote_body (b # c # s))"
| "quote_body s = escape_body s"

lemma quote_body_well_formed: "utf8_encode s = s \<Longrightarrow> quote_body s = escape_body s"
  by (induction s rule: quote_body.induct) (auto simp: escape_body_def bytes_of_def split: if_splits)

lemma escape_body_simps [simp]: "escape_body [] = []" "escape_body (c # s) = escape_char c @ escape_body s"
  by (simp_all add: escape_body_def)

lemma digit_value_hex [simp]: "n < 16 \<Longrightarrow> digit_value (hex_char n) = Some n"
  by (simp add: digit_value_def hex_char_def Let_def)

lemma hex4_string_value:
  assumes "u < 65536"
  shows "hex4 (hex4_string u) = Some u"
proof -
  have e: "u div 4096 = u div 16 div 16 div 16" "u div 256 = u div 16 div 16"
    by (simp_all flip: div_mult2_eq)
  define a b where "a = u div 16" and "b = a div 16"
  have s: "u = 16 * a + u mod 16" "a = 16 * b + a mod 16" "b = 16 * (b div 16) + b mod 16" by (simp_all add: a_def b_def)
  have "b div 16 < 16" using assms by (simp add: a_def b_def flip: div_mult2_eq)
  then have r: "radix_value 16 0 (hex4_string u)
      = Some (4096 * int (b div 16) + 256 * int (b mod 16) + int (a mod 16) * 16 + int (u mod 16))"
    unfolding hex4_string_def e a_def[symmetric] b_def[symmetric] by simp
  have "int u = 16 * int a + int (u mod 16)" "int a = 16 * int b + int (a mod 16)"
    "int b = 16 * int (b div 16) + int (b mod 16)"
    using arg_cong[OF s(1), of int] arg_cong[OF s(2), of int] arg_cong[OF s(3), of int]
    by (simp_all only: of_nat_add of_nat_mult of_nat_numeral)
  then have "4096 * int (b div 16) + 256 * int (b mod 16) + int (a mod 16) * 16 + int (u mod 16) = int u"
    by linarith
  with r have "radix_value 16 0 (hex4_string u) = Some (int u)" by simp
  then show ?thesis by (simp add: hex4_def)
qed

lemma control_escape:
  assumes "(of_char c :: nat) < 32"
  shows "hex4 (hex4_string (of_char c)) = Some (of_char c)" "append_unit out (of_char c) = out @ [c]"
proof -
  show "hex4 (hex4_string (of_char c)) = Some (of_char c)" using assms by (intro hex4_string_value) simp
  show "append_unit out (of_char c) = out @ [c]"
    using assms by (simp add: append_unit_def utf8_of_code_point_def bytes_of_def)
qed

lemma escape_char_step:
  "json_string strict out (escape_char c @ s) = json_string strict (out @ [c]) s"
proof (cases "c = CHR 0x22 \<or> c = CHR 0x5C \<or> c = CHR 0x08 \<or> c = CHR 0x09 \<or> c = CHR 0x0A \<or> c = CHR 0x0C \<or> c = CHR 0x0D")
  case True
  then show ?thesis by (elim disjE) (simp_all add: escape_char_def SIMPLE_ESCAPES_def)
next
  case False
  then show ?thesis
    by (cases "(of_char c :: nat) < 32") (simp_all add: escape_char_def control_escape)
qed

lemma json_string_escape_body: "json_string strict out (escape_body s @ CHR 0x22 # rest) = Some (out @ s, rest)"
  by (induction s arbitrary: out) (simp_all add: escape_char_step)

subsection \<open>\<open>JSON.stringify\<close>\<close>

text \<open>
  \<open>JSON.stringify\<close> of a value; the digits of a number that is no integral double come from the
  argument.  An object is written in the order of \<open>Object.keys\<close>: array indices ascending first.
\<close>

definition join :: "string \<Rightarrow> string list \<Rightarrow> string" where
  "join sep ss = (case ss of [] \<Rightarrow> [] | x # xs \<Rightarrow> x @ concat (map (\<lambda>y. sep @ y) xs))"

definition quote :: "string \<Rightarrow> string" where
  "quote s = CHR 0x22 # quote_body s @ [CHR 0x22]"

fun stringify_number :: "(rat \<Rightarrow> string) \<Rightarrow> jsnum \<Rightarrow> string" where
  "stringify_number fs (JsInt n) = int_string n"
| "stringify_number fs (JsFrac q) = fs q"
| "stringify_number fs _ = ''null''"

definition index_key :: "string \<Rightarrow> bool" where
  "index_key k \<longleftrightarrow> k \<noteq> [] \<and> list_all is_digit k \<and> (k = ''0'' \<or> hd k \<noteq> CHR ''0'') \<and> num_of k < 4294967295"

definition keys_in_order :: "(string \<times> 'a) list \<Rightarrow> (string \<times> 'a) list" where
  "keys_in_order m = sort_key (\<lambda>kv. num_of (fst kv)) (filter (\<lambda>kv. index_key (fst kv)) m)
     @ filter (\<lambda>kv. \<not> index_key (fst kv)) m"

fun stringify :: "(rat \<Rightarrow> string) \<Rightarrow> json \<Rightarrow> string" where
  "stringify fs JNull = ''null''"
| "stringify fs (JBool b) = (if b then ''true'' else ''false'')"
| "stringify fs (JNum x) = stringify_number fs x"
| "stringify fs (JStr s) = quote s"
| "stringify fs (JArr xs) = CHR ''['' # join '','' (map (stringify fs) xs) @ '']''"
| "stringify fs (JObj m) =
     CHR 0x7B # join '','' (map (\<lambda>(k, t). quote k @ CHR '':'' # t) (keys_in_order (map (map_prod id (stringify fs)) m)))
     @ [CHR 0x7D]"

text \<open>The values whose text parses back: integral numbers, well-formed strings, keys distinct and no index.\<close>

fun json_plain :: "json \<Rightarrow> bool" where
  "json_plain (JNum (JsInt n)) = (\<bar>n\<bar> < 2 ^ 53)"
| "json_plain (JNum _) = False"
| "json_plain (JStr s) = (utf8_encode s = s)"
| "json_plain (JArr xs) = list_all json_plain xs"
| "json_plain (JObj m) =
     (distinct (map fst m) \<and> list_all (\<lambda>(k, p). utf8_encode k = k \<and> \<not> index_key k \<and> p) (map (map_prod id json_plain) m))"
| "json_plain _ = True"

fun json_fuel :: "json \<Rightarrow> nat" where
  "json_fuel (JArr xs) = Suc (sum_list (map (\<lambda>x. Suc (json_fuel x)) xs))"
| "json_fuel (JObj m) = Suc (sum_list (map (\<lambda>(k, n). Suc n) (map (map_prod id json_fuel) m)))"
| "json_fuel _ = 1"

lemma join_simps [simp]: "join sep [] = []" "join sep [x] = x" "join sep (x # y # ys) = x @ sep @ join sep (y # ys)"
  by (simp_all add: join_def)

lemma isJsonWhitespace_simps [simp]:
  "\<not> isJsonWhitespace (CHR '','')" "\<not> isJsonWhitespace (CHR '']'')" "\<not> isJsonWhitespace (CHR 0x7D)"
  "\<not> isJsonWhitespace (CHR 0x22)" "\<not> isJsonWhitespace (CHR 0x7B)" "\<not> isJsonWhitespace (CHR ''['')"
  "\<not> isJsonWhitespace (CHR '':'')" "\<not> isJsonWhitespace (CHR ''t'')" "\<not> isJsonWhitespace (CHR ''f'')"
  "\<not> isJsonWhitespace (CHR ''n'')" "\<not> isJsonWhitespace (CHR ''-'')"
  by (simp_all add: isJsonWhitespace_def)

lemma digit_not_ws: "is_digit c \<Longrightarrow> \<not> isJsonWhitespace c"
  by (auto simp: isJsonWhitespace_def)

lemma skip_ws_simps [simp]: "skip_ws [] = []" "\<not> isJsonWhitespace c \<Longrightarrow> skip_ws (c # s) = c # s"
  by (simp_all add: skip_ws_def)

lemma keys_in_order_plain: "list_all (\<lambda>kv. \<not> index_key (fst kv)) m \<Longrightarrow> keys_in_order m = m"
  by (simp add: keys_in_order_def list_all_iff filter_id_conv filter_empty_conv)

text \<open>The first character of a written value, which decides the reader's branch.\<close>

lemma int_string_first:
  obtains c cs where "int_string n = c # cs" "c = CHR ''-'' \<or> is_digit c"
proof (cases "n < 0")
  case True
  then show ?thesis using that by (simp add: int_string_def)
next
  case False
  obtain c cs where "nat_string (nat n) = c # cs" by (cases "nat_string (nat n)") simp_all
  then show ?thesis using that[of c cs] False nat_string_digits[of "nat n"] by (simp add: int_string_def)
qed

lemma json_value_int:
  assumes "ends_value rest" "\<bar>n\<bar> < 2 ^ 53"
  shows "json_value (Suc k) (int_string n @ rest) = Some (JNum (JsInt n), rest)"
proof -
  obtain c cs where c: "int_string n = c # cs" "c = CHR ''-'' \<or> is_digit c" by (rule int_string_first)
  have w: "\<not> isJsonWhitespace c" using c(2) digit_not_ws by auto
  have ne: "c \<noteq> CHR 0x22" "c \<noteq> CHR 0x7B" "c \<noteq> CHR ''[''" "c \<noteq> CHR ''t''" "c \<noteq> CHR ''f''" "c \<noteq> CHR ''n''"
    using c(2) by auto
  show ?thesis using json_number_int_string[OF assms] by (simp add: c(1) w ne)
qed

lemma json_string_quote_body:
  "utf8_encode s = s \<Longrightarrow> json_string strict [] (quote_body s @ CHR 0x22 # rest) = Some (s, rest)"
  using json_string_escape_body[of strict "[]" s rest] by (simp add: quote_body_well_formed)

text \<open>The parts of an array and of an object, given that each value in them reads back.\<close>

lemma json_elements_join:
  assumes "\<And>x rest n. x \<in> set xs \<Longrightarrow> ends_value rest \<Longrightarrow> json_fuel x \<le> n \<Longrightarrow> json_value n (f x @ rest) = Some (x, rest)"
    and "xs \<noteq> []" "sum_list (map (\<lambda>x. Suc (json_fuel x)) xs) \<le> n"
  shows "json_elements n acc (join '','' (map f xs) @ CHR '']'' # rest) = Some (acc @ xs, rest)"
  using assms
proof (induction xs arbitrary: n acc)
  case Nil
  then show ?case by simp
next
  case (Cons x xs)
  obtain k where n: "n = Suc k" using Cons.prems(3) by (cases n) auto
  show ?case
  proof (cases xs)
    case Nil
    have "json_value k (f x @ CHR '']'' # rest) = Some (x, CHR '']'' # rest)"
      using Cons.prems n by (intro Cons.prems(1)) auto
    then show ?thesis by (simp add: Nil n)
  next
    case (Cons y ys)
    have v: "json_value k (f x @ CHR '','' # r) = Some (x, CHR '','' # r)" for r
      using Cons.prems n by (intro Cons.prems(1)) auto
    have "json_elements k (acc @ [x]) (join '','' (map f xs) @ CHR '']'' # rest) = Some ((acc @ [x]) @ xs, rest)"
      using Cons.prems n Cons by (intro Cons.IH) auto
    then show ?thesis using v[of "join '','' (map f xs) @ CHR '']'' # rest"] by (simp add: Cons n)
  qed
qed

lemma kv_put_new: "k \<notin> fst ` set m \<Longrightarrow> kv_put k v m = m @ [(k, v)]"
  by (induction m) auto

lemma json_members_join:
  assumes "\<And>k x rest n. (k, x) \<in> set m \<Longrightarrow> ends_value rest \<Longrightarrow> json_fuel x \<le> n
      \<Longrightarrow> json_value n (f x @ rest) = Some (x, rest)"
    and "list_all (\<lambda>kv. utf8_encode (fst kv) = fst kv) m"
    and "m \<noteq> []" "sum_list (map (\<lambda>(k, x). Suc (json_fuel x)) m) \<le> n" "distinct (map fst (acc @ m))"
  shows "json_members n acc (join '','' (map (\<lambda>(k, x). quote k @ CHR '':'' # f x) m) @ CHR 0x7D # rest) = Some (acc @ m, rest)"
  using assms
proof (induction m arbitrary: n acc)
  case Nil
  then show ?case by simp
next
  case (Cons kv m)
  obtain key x where kv: "kv = (key, x)" by (cases kv)
  obtain j where n: "n = Suc j" using Cons.prems(4) kv by (cases n) auto
  have s: "json_string True [] (quote_body key @ CHR 0x22 # r) = Some (key, r)" for r
    using Cons.prems(2) kv by (intro json_string_quote_body) simp
  have p: "kv_put key x acc = acc @ [(key, x)]" using Cons.prems(5) kv by (intro kv_put_new) auto
  show ?case
  proof (cases m)
    case Nil
    have "json_value j (f x @ CHR 0x7D # rest) = Some (x, CHR 0x7D # rest)"
      using Cons.prems n kv by (intro Cons.prems(1)) auto
    then show ?thesis by (simp add: Nil n kv quote_def s p)
  next
    case (Cons y ys)
    have v: "json_value j (f x @ CHR '','' # r) = Some (x, CHR '','' # r)" for r
      using Cons.prems n kv by (intro Cons.prems(1)) auto
    have "json_members j (acc @ [(key, x)]) (join '','' (map (\<lambda>(k, x). quote k @ CHR '':'' # f x) m) @ CHR 0x7D # rest)
        = Some ((acc @ [(key, x)]) @ m, rest)"
      using Cons.prems n kv Cons by (intro Cons.IH) auto
    then show ?thesis
      using v[of "join '','' (map (\<lambda>(k, x). quote k @ CHR '':'' # f x) m) @ CHR 0x7D # rest"]
      by (simp add: Cons n kv quote_def s p)
  qed
qed

lemma json_value_stringify:
  assumes "json_plain v" "ends_value rest" "json_fuel v \<le> n"
  shows "json_value n (stringify fs v @ rest) = Some (v, rest)"
  using assms
proof (induction v arbitrary: rest n)
  case JNull
  then show ?case by (cases n) (simp_all add: json_literal_def)
next
  case (JBool b)
  then show ?case by (cases n; cases b) (simp_all add: json_literal_def)
next
  case (JNum x)
  then obtain i where "x = JsInt i" by (cases x) auto
  with JNum show ?case by (cases n) (simp_all del: json_value.simps add: json_value_int)
next
  case (JStr s)
  then show ?case using json_string_quote_body[of s True rest] by (cases n) (simp_all add: quote_def)
next
  case (JArr xs)
  obtain k where n: "n = Suc k" using JArr.prems(3) by (cases n) auto
  show ?case
  proof (cases "xs = []")
    case True
    then show ?thesis by (simp add: n)
  next
    case False
    have e: "json_elements k [] (join '','' (map (stringify fs) xs) @ CHR '']'' # rest) = Some ([] @ xs, rest)"
      using JArr n False by (intro json_elements_join) (auto simp: list_all_iff)
    obtain c cs where c: "join '','' (map (stringify fs) xs) @ CHR '']'' # rest = c # cs" "c \<noteq> CHR '']''" "\<not> isJsonWhitespace c"
    proof -
      obtain x ys where x: "xs = x # ys" using False by (cases xs) auto
      have "json_elements k [] (join '','' (map (stringify fs) xs) @ CHR '']'' # rest) \<noteq> None" using e by simp
      obtain d ds where "stringify fs x = d # ds" "d \<noteq> CHR '']''" "\<not> isJsonWhitespace d"
      proof (cases x)
        case (JNum y)
        then obtain i where i: "x = JNum (JsInt i)" using JArr.prems(1) x by (cases y) auto
        obtain c cs where "int_string i = c # cs" "c = CHR ''-'' \<or> is_digit c" by (rule int_string_first)
        moreover from this have "c \<noteq> CHR '']''" by auto
        ultimately show ?thesis using that[of c cs] i digit_not_ws[of c] by auto
      next
        case (JBool b)
        then show ?thesis using that by (cases b) simp_all
      qed (use that in \<open>auto simp: quote_def\<close>)
      then show ?thesis using that by (cases ys) (auto simp: x)
    qed
    show ?thesis using e by (simp add: n c c(2)[THEN not_sym])
  qed
next
  case (JObj m)
  obtain k where n: "n = Suc k" using JObj.prems(3) by (cases n) auto
  have ord: "keys_in_order (map (map_prod id (stringify fs)) m) = map (map_prod id (stringify fs)) m"
    using JObj.prems(1) by (intro keys_in_order_plain) (auto simp: list_all_iff)
  have t: "map (\<lambda>(k, t). quote k @ CHR '':'' # t) (map (map_prod id (stringify fs)) m)
      = map (\<lambda>(k, x). quote k @ CHR '':'' # stringify fs x) m" by auto
  show ?case
  proof (cases "m = []")
    case True
    then show ?thesis by (simp add: n keys_in_order_def)
  next
    case False
    have f: "sum_list (map (\<lambda>(k, x). Suc (json_fuel x)) m) \<le> k"
    proof -
      have "map (\<lambda>(k, n). Suc n) (map (map_prod id json_fuel) m) = map (\<lambda>(k, x). Suc (json_fuel x)) m" by auto
      then show ?thesis using JObj.prems(3) n by (simp del: map_map)
    qed
    have e: "json_members k [] (join '','' (map (\<lambda>(k, x). quote k @ CHR '':'' # stringify fs x) m) @ CHR 0x7D # rest)
        = Some ([] @ m, rest)"
      using JObj.prems f False by (intro json_members_join JObj.IH) (fastforce simp: list_all_iff)+
    obtain cs where c: "join '','' (map (\<lambda>(k, x). quote k @ CHR '':'' # stringify fs x) m) @ CHR 0x7D # rest = CHR 0x22 # cs"
    proof -
      obtain kv m' where "m = kv # m'" using False by (cases m) auto
      then show ?thesis using that by (cases kv; cases m') (auto simp: quote_def)
    qed
    show ?thesis using e unfolding stringify.simps ord t by (simp add: n c)
  qed
qed

lemma join_length: "xs \<noteq> [] \<Longrightarrow> length (join '','' xs) + 1 = sum_list (map (\<lambda>x. Suc (length x)) xs)"
proof (induction xs)
  case (Cons x xs)
  then show ?case by (cases xs) simp_all
qed simp

lemma int_string_length: "1 \<le> length (int_string n)"
  by (rule int_string_first[of n]) simp

lemma json_fuel_bound:
  assumes "json_plain v"
  shows "json_fuel v \<le> 2 * length (stringify fs v)"
  using assms
proof (induction v)
  case (JNum x)
  then obtain i where "x = JsInt i" by (cases x) auto
  then show ?case using int_string_length[of i] by simp
next
  case (JArr xs)
  show ?case
  proof (cases "xs = []")
    case False
    have "sum_list (map (\<lambda>x. Suc (json_fuel x)) xs) \<le> sum_list (map (\<lambda>x. 2 * Suc (length (stringify fs x))) xs)"
      using JArr by (intro sum_list_mono) (fastforce simp: list_all_iff)
    also have "\<dots> = 2 * sum_list (map (\<lambda>x. Suc (length (stringify fs x))) xs)" by (simp only: sum_list_const_mult)
    also have "sum_list (map (\<lambda>x. Suc (length (stringify fs x))) xs) = length (join '','' (map (stringify fs) xs)) + 1"
      using False by (subst join_length) (simp_all add: comp_def)
    finally show ?thesis by simp
  qed simp
next
  case (JObj m)
  have ord: "keys_in_order (map (map_prod id (stringify fs)) m) = map (map_prod id (stringify fs)) m"
    using JObj.prems(1) by (intro keys_in_order_plain) (auto simp: list_all_iff)
  show ?case
  proof (cases "m = []")
    case False
    define S where "S = sum_list (map (\<lambda>(k, n). Suc n) (map (map_prod id json_fuel) m))"
    define L where "L = length (join '','' (map (\<lambda>(k, t). quote k @ CHR '':'' # t) (map (map_prod id (stringify fs)) m)))"
    have "S = sum_list (map (\<lambda>kv. Suc (json_fuel (snd kv))) m)"
      unfolding S_def by (rule arg_cong[where f = sum_list]) auto
    also have "\<dots> \<le> sum_list (map (\<lambda>kv. 2 * Suc (length (quote (fst kv) @ CHR '':'' # stringify fs (snd kv)))) m)"
    proof (rule sum_list_mono)
      fix kv assume kv: "kv \<in> set m"
      have "json_plain (snd kv)" using JObj.prems kv by (cases kv) (fastforce simp: list_all_iff)
      then have "json_fuel (snd kv) \<le> 2 * length (stringify fs (snd kv))"
        using JObj.IH[of kv "snd kv"] kv by (cases kv) auto
      then show "Suc (json_fuel (snd kv)) \<le> 2 * Suc (length (quote (fst kv) @ CHR '':'' # stringify fs (snd kv)))" by simp
    qed
    also have "\<dots> = 2 * sum_list (map Suc (map length (map (\<lambda>kv. quote (fst kv) @ CHR '':'' # stringify fs (snd kv)) m)))"
      by (simp add: comp_def flip: sum_list_const_mult)
    also have "map Suc (map length (map (\<lambda>kv. quote (fst kv) @ CHR '':'' # stringify fs (snd kv)) m))
        = map (\<lambda>x. Suc (length x)) (map (\<lambda>(k, t). quote k @ CHR '':'' # t) (map (map_prod id (stringify fs)) m))" by auto
    also have "sum_list \<dots> = length (join '','' (map (\<lambda>(k, t). quote k @ CHR '':'' # t) (map (map_prod id (stringify fs)) m))) + 1"
      using False by (subst join_length) simp_all
    finally have le: "S \<le> 2 * (L + 1)" by (simp only: L_def)
    have a: "json_fuel (JObj m) = Suc S" by (simp only: json_fuel.simps S_def)
    have b: "length (stringify fs (JObj m)) = L + 2"
      unfolding stringify.simps ord L_def by (simp only: length_Cons length_append list.size)
    show ?thesis unfolding a b using le by simp
  qed (simp add: keys_in_order_def)
qed (simp_all add: quote_def)

lemma json_parse_stringify: "json_plain v \<Longrightarrow> json_parse (stringify fs v) = Some v"
  using json_value_stringify[of v "[]" "2 * length (stringify fs v) + 2" fs] json_fuel_bound[of v fs]
  by (simp add: json_parse_def)

subsection \<open>The fuel of the reader is enough\<close>

text \<open>More fuel never changes an answer, and every answer consumes text; so a text that any amount of
  fuel reads is read with the fuel \<open>json_parse\<close> gives.\<close>

lemma json_fuel_more:
  "json_value n s = Some a \<Longrightarrow> json_value (n + k) s = Some a"
  "json_elements n acc s = Some b \<Longrightarrow> json_elements (n + k) acc s = Some b"
  "json_members n m s = Some c \<Longrightarrow> json_members (n + k) m s = Some c"
proof (induction n s and n acc s and n m s arbitrary: a and b and c rule: json_value_json_elements_json_members.induct)
  case (2 n s)
  obtain c cs where c: "skip_ws s = c # cs" using 2(3) by (cases "skip_ws s") simp_all
  consider "c = CHR 0x7B" "expect (CHR 0x7D) (skip_ws cs) = None"
    | "c = CHR ''[''" "expect (CHR '']'') (skip_ws cs) = None"
    | "c \<noteq> CHR 0x7B \<or> expect (CHR 0x7D) (skip_ws cs) \<noteq> None" "c \<noteq> CHR ''['' \<or> expect (CHR '']'') (skip_ws cs) \<noteq> None"
    by blast
  then show ?case
  proof cases
    case 1
    then obtain mr where "json_members n [] cs = Some mr" using 2(3) c by (auto split: option.splits)
    moreover from this have "json_members (n + k) [] cs = Some mr" using 2(1)[OF c] 1 by simp
    ultimately show ?thesis using 2(3) c 1 by simp
  next
    case 2
    then obtain xr where "json_elements n [] cs = Some xr" using \<open>json_value (Suc n) s = Some a\<close> c
      by (auto split: option.splits)
    moreover from this have "json_elements (n + k) [] cs = Some xr" using "2.IH"(2)[OF c] 2 by simp
    ultimately show ?thesis using \<open>json_value (Suc n) s = Some a\<close> c 2 by simp
  next
    case 3
    then have "json_value (Suc (n + k)) s = json_value (Suc n) s"
      by (simp only: json_value.simps c list.case) (auto split: option.split)
    then show ?thesis using \<open>json_value (Suc n) s = Some a\<close> by simp
  qed
next
  case (4 n acc s)
  obtain v r where v: "json_value n s = Some (v, r)" using 4(3) by (auto split: option.splits)
  then have v': "json_value (n + k) s = Some (v, r)" by (rule 4(1))
  show ?case
  proof (cases "expect (CHR '','') (skip_ws r)")
    case None
    then show ?thesis using 4(3) v v' by simp
  next
    case (Some r')
    then show ?thesis using 4(2)[OF v _ Some] 4(3) v v' by simp
  qed
next
  case (6 n m s)
  obtain cs key r r1 v r2 where h: "expect (CHR 0x22) (skip_ws s) = Some cs" "json_string True [] cs = Some (key, r)"
    "expect (CHR '':'') (skip_ws r) = Some r1" "json_value n r1 = Some (v, r2)"
    using 6(3) by (auto split: option.splits)
  have v': "json_value (n + k) r1 = Some (v, r2)" using 6(1)[OF h(1,2) _ h(3,4)] by simp
  show ?case
  proof (cases "expect (CHR '','') (skip_ws r2)")
    case None
    then show ?thesis using 6(3) h v' by simp
  next
    case (Some r3)
    then show ?thesis using 6(2)[OF h(1,2) _ h(3,4) _ Some] 6(3) h v' by simp
  qed
qed simp_all

subsection \<open>The duplicate-key scan on JSON text\<close>

text \<open>
  The texts of a value by the JSON grammar, with any white space and any choice of escapes; an object
  is the list of its members in order, repeated keys included.  A number or a literal is any text
  without quotes, braces, brackets and colons.  \<open>string_token k t\<close>: \<open>t\<close> is a spelling of \<open>k\<close> between quotes.
\<close>

definition string_token :: "string \<Rightarrow> string \<Rightarrow> bool" where
  "string_token k t \<longleftrightarrow> (\<forall>rest. decodeJsonString (t @ CHR 0x22 # rest) = Some (k, rest))"

definition white :: "string \<Rightarrow> bool" where
  "white w \<longleftrightarrow> list_all isJsonWhitespace w"

definition scalar_char :: "char \<Rightarrow> bool" where
  "scalar_char c \<longleftrightarrow> c \<notin> {CHR 0x22, CHR 0x7B, CHR 0x7D, CHR ''['', CHR '']'', CHR '':''}"

fun is_scalar :: "json \<Rightarrow> bool" where
  "is_scalar JNull = True"
| "is_scalar (JBool _) = True"
| "is_scalar (JNum _) = True"
| "is_scalar _ = False"

inductive json_text :: "json \<Rightarrow> string \<Rightarrow> bool"
  and elements_text :: "json list \<Rightarrow> string \<Rightarrow> bool"
  and members_text :: "(string \<times> json) list \<Rightarrow> string \<Rightarrow> bool"
where
  scalar: "is_scalar v \<Longrightarrow> list_all scalar_char t \<Longrightarrow> json_text v t"
| str: "string_token s t \<Longrightarrow> json_text (JStr s) (CHR 0x22 # t @ [CHR 0x22])"
| arr: "elements_text xs t \<Longrightarrow> json_text (JArr xs) (CHR ''['' # t @ [CHR '']''])"
| obj: "members_text m t \<Longrightarrow> json_text (JObj m) (CHR 0x7B # t @ [CHR 0x7D])"
| spaced: "json_text v t \<Longrightarrow> white a \<Longrightarrow> white b \<Longrightarrow> json_text v (a @ t @ b)"
| no_elements: "white w \<Longrightarrow> elements_text [] w"
| element: "json_text v t \<Longrightarrow> elements_text [v] t"
| elements: "json_text v t \<Longrightarrow> elements_text xs u \<Longrightarrow> xs \<noteq> [] \<Longrightarrow> elements_text (v # xs) (t @ CHR '','' # u)"
| no_members: "white w \<Longrightarrow> members_text [] w"
| mem: "string_token k s \<Longrightarrow> white a \<Longrightarrow> white b \<Longrightarrow> json_text v t
    \<Longrightarrow> members_text [(k, v)] (a @ CHR 0x22 # s @ CHR 0x22 # b @ CHR '':'' # t)"
| mems: "string_token k s \<Longrightarrow> white a \<Longrightarrow> white b \<Longrightarrow> json_text v t \<Longrightarrow> members_text m u \<Longrightarrow> m \<noteq> []
    \<Longrightarrow> members_text ((k, v) # m) (a @ CHR 0x22 # s @ CHR 0x22 # b @ CHR '':'' # t @ CHR '','' # u)"

text \<open>Whether some object in a value repeats a key.\<close>

fun repeats_key :: "json \<Rightarrow> bool" where
  "repeats_key (JArr xs) = list_ex repeats_key xs"
| "repeats_key (JObj m) = (\<not> distinct (map fst m) \<or> list_ex snd (map (map_prod id repeats_key) m))"
| "repeats_key _ = False"

lemma repeats_key_obj:
  "repeats_key (JObj m) \<longleftrightarrow> \<not> distinct (map fst m) \<or> list_ex (\<lambda>kv. repeats_key (snd kv)) m"
proof -
  have "list_ex snd (map (map_prod id repeats_key) m) = list_ex (\<lambda>kv. repeats_key (snd kv)) m"
    by (induction m) auto
  then show ?thesis by (simp only: repeats_key.simps)
qed

lemmas repeats_key_simps [simp] = repeats_key.simps(1) repeats_key_obj repeats_key.simps(3-)
declare repeats_key.simps(2) [simp del] dup_scan.simps(2) [simp del]

definition no_colon :: "string \<Rightarrow> bool" where
  "no_colon rest \<longleftrightarrow> expect (CHR '':'') (dropWhile isJsonWhitespace rest) = None"

lemma no_colon_simps [simp]:
  "no_colon []" "no_colon (CHR '','' # r)" "no_colon (CHR '']'' # r)" "no_colon (CHR 0x7D # r)"
  by (simp_all add: no_colon_def)

lemma dropWhile_white: "white w \<Longrightarrow> dropWhile isJsonWhitespace (w @ r) = dropWhile isJsonWhitespace r"
  by (induction w) (simp_all add: white_def)

lemma no_colon_white: "white w \<Longrightarrow> no_colon (w @ r) = no_colon r"
  by (simp add: no_colon_def dropWhile_white)

lemma dup_scan_simps [simp]:
  "dup_scan st (CHR 0x7B # r) = dup_scan (Some [] # st) r"
  "dup_scan st (CHR ''['' # r) = dup_scan (None # st) r"
  "dup_scan st (CHR 0x7D # r) = dup_scan (tl st) r"
  "dup_scan st (CHR '']'' # r) = dup_scan (tl st) r"
  "dup_scan st (CHR '','' # r) = dup_scan st r"
  "dup_scan st (CHR '':'' # r) = dup_scan st r"
  by (simp_all add: dup_scan.simps(2))

lemma dup_scan_plain: "list_all scalar_char t \<Longrightarrow> dup_scan st (t @ r) = dup_scan st r"
  by (induction t) (simp_all add: scalar_char_def dup_scan.simps(2))

lemma white_scalar: "white w \<Longrightarrow> list_all scalar_char w"
  unfolding white_def by (erule list.pred_mono_strong) (auto simp: isJsonWhitespace_def scalar_char_def)

lemmas dup_scan_white = dup_scan_plain[OF white_scalar]

lemma dup_scan_string:
  assumes "string_token s t" "no_colon rest"
  shows "dup_scan st (CHR 0x22 # t @ CHR 0x22 # rest) = dup_scan st rest"
  using assms by (subst dup_scan.simps) (simp add: string_token_def no_colon_def split: list.split option.split)

lemma dup_scan_key:
  assumes "string_token k t" "white b"
  shows "dup_scan (Some ks # st) (CHR 0x22 # t @ CHR 0x22 # b @ CHR '':'' # rest)
    = (k \<in> set ks \<or> dup_scan (Some (k # ks) # st) rest)"
proof -
  have e: "expect (CHR '':'') (dropWhile isJsonWhitespace (b @ CHR '':'' # rest)) = Some rest"
    using assms(2) by (simp add: dropWhile_white)
  have s: "dup_scan (Some (k # ks) # st) (b @ CHR '':'' # rest) = dup_scan (Some (k # ks) # st) rest"
    using assms(2) by (simp add: dup_scan_white)
  have d: "decodeJsonString (t @ CHR 0x22 # b @ CHR '':'' # rest) = Some (k, b @ CHR '':'' # rest)"
    using assms(1) unfolding string_token_def by blast
  show ?thesis unfolding dup_scan.simps(2)[of "Some ks # st" "CHR 0x22"] d by (simp add: e s)
qed

lemma dup_scan_text:
  "json_text v t \<Longrightarrow> no_colon rest \<Longrightarrow> dup_scan st (t @ rest) = (repeats_key v \<or> dup_scan st rest)"
  "elements_text xs t \<Longrightarrow> dup_scan (None # st) (t @ CHR '']'' # rest) = (list_ex repeats_key xs \<or> dup_scan st rest)"
  "members_text m t \<Longrightarrow> dup_scan (Some ks # st) (t @ CHR 0x7D # rest)
     = ((\<exists>k \<in> set (map fst m). k \<in> set ks) \<or> \<not> distinct (map fst m) \<or> list_ex (\<lambda>kv. repeats_key (snd kv)) m
        \<or> dup_scan st rest)"
proof (induction arbitrary: st rest and st rest and st rest ks rule: json_text_elements_text_members_text.inducts)
  case (scalar v t)
  then show ?case by (cases v) (simp_all add: dup_scan_plain)
next
  case (str s t)
  then show ?case using dup_scan_string[of s t rest st] by simp
next
  case (arr xs t)
  then show ?case by simp
next
  case (obj m t)
  then show ?case by simp
next
  case (spaced v t a b)
  have "dup_scan st (t @ b @ rest) = (repeats_key v \<or> dup_scan st (b @ rest))"
    using spaced by (intro spaced.IH) (simp add: no_colon_white)
  then show ?case using spaced by (simp add: dup_scan_white)
next
  case (no_elements w)
  then show ?case by (simp add: dup_scan_white)
next
  case (element v t)
  then show ?case by simp
next
  case (elements v t xs u)
  have "dup_scan (None # st) (CHR '','' # u @ CHR '']'' # rest) = (list_ex repeats_key xs \<or> dup_scan st rest)"
    using elements.IH(2) by simp
  then show ?case using elements.IH(1)[of "CHR '','' # u @ CHR '']'' # rest" "None # st"] by simp
next
  case (no_members w)
  then show ?case by (simp add: dup_scan_white)
next
  case (mem k s a b v t)
  then show ?case
    using dup_scan_key[OF mem(1,3), of ks st "t @ CHR 0x7D # rest"] by (auto simp: dup_scan_white)
next
  case (mems k s a b v t m u)
  have c: "dup_scan (Some (k # ks) # st) (CHR '','' # u @ CHR 0x7D # rest)
      = dup_scan (Some (k # ks) # st) (u @ CHR 0x7D # rest)" by simp
  show ?case
    using dup_scan_key[OF mems(1,3), of ks st "t @ CHR '','' # u @ CHR 0x7D # rest"] mems c
      mems.IH(1)[of "CHR '','' # u @ CHR 0x7D # rest" "Some (k # ks) # st"]
    by (auto simp: dup_scan_white)
qed

end
