(* ===== verification/Pool.thy ===== *)
theory Pool
  imports Json_Text
begin

section \<open>Pool: pools, policy tiers, the token budget and the request parsers of shared\<close>

text \<open>
  packages/shared/src/types.ts (pool and request states), pool.ts, estimate.ts, idempotency.ts,
  tokenization.ts, classify.ts and relay-errors.ts, and the gateway's token-budget.ts.
  Ratios and margins are computed in double precision as the code does; the theorems show that they
  equal the exact integer conditions of the documentation for all sizes below \<open>2^52\<close>.
\<close>

subsection \<open>Types\<close>

datatype pool_name = STANDARD | MINI

datatype policy_tier = NORMAL | CAUTION | STRICT

record pool_state =
  utcDay :: string
  limit :: int
  confirmedTokens :: int
  reservedTokens :: int
  uncertainTokens :: int
  requestCount :: int
  updatedAt :: string

definition POOL_LIMITS :: "pool_name \<Rightarrow> int" where
  "POOL_LIMITS p = (case p of STANDARD \<Rightarrow> 1000000 | MINI \<Rightarrow> 10000000)"

fun pool_name_string :: "pool_name \<Rightarrow> string" where
  "pool_name_string STANDARD = ''STANDARD''"
| "pool_name_string MINI = ''MINI''"

definition parse_pool_name :: "string \<Rightarrow> pool_name option" where
  "parse_pool_name s = (if s = ''STANDARD'' then Some STANDARD else if s = ''MINI'' then Some MINI else None)"

lemma parse_pool_name_string [simp]: "parse_pool_name (pool_name_string p) = Some p"
  by (cases p) (simp_all add: parse_pool_name_def)

lemma parse_pool_name_SomeD: "parse_pool_name s = Some p \<Longrightarrow> s = pool_name_string p"
  by (auto simp: parse_pool_name_def split: if_splits)

definition remainingOf :: "pool_state \<Rightarrow> int" where
  "remainingOf s = limit s - confirmedTokens s - reservedTokens s - uncertainTokens s"

text \<open>
  \<open>tierOf\<close> on the integers of a pool state; they are finite, so the test for it is always passed.
\<close>

definition tierOf :: "int \<Rightarrow> int \<Rightarrow> policy_tier" where
  "tierOf remaining limit' =
     (if limit' \<le> 0 then STRICT
      else let ratio = fl (of_int remaining / of_int limit')
           in if ratio \<le> c005 then STRICT else if ratio \<le> c02 then CAUTION else NORMAL)"

definition quotaIdOf :: "pool_name \<Rightarrow> string \<Rightarrow> string" where
  "quotaIdOf p day = ''quota:'' @ pool_name_string p @ '':'' @ day"

definition toPoolLower :: "pool_name \<Rightarrow> string" where
  "toPoolLower p = (if p = STANDARD then ''standard'' else ''mini'')"

subsection \<open>estimate.ts\<close>

datatype output_limit_mode = REJECT | CLAMP

datatype output_decision = Proceed int | Reject

definition safetyMargin :: "int \<Rightarrow> rat \<Rightarrow> int" where
  "safetyMargin estimatedInput remainingRatio =
     (if remainingRatio \<le> c02 then max 512 \<lceil>fl (of_int estimatedInput * c005)\<rceil>
      else max 256 \<lceil>fl (of_int estimatedInput * c002)\<rceil>)"

definition upperBoundOf :: "int \<Rightarrow> int \<Rightarrow> int" where
  "upperBoundOf estimatedInput maxOutput =
     estimatedInput + maxOutput + max 512 \<lceil>fl (of_int estimatedInput * c005)\<rceil>"

definition decideOutput :: "int \<Rightarrow> int \<Rightarrow> int \<Rightarrow> int \<Rightarrow> output_limit_mode \<Rightarrow> output_decision" where
  "decideOutput estimatedInput maxOutputTokens margin remaining outputLimitMode =
     (if estimatedInput + maxOutputTokens + margin \<le> remaining then Proceed maxOutputTokens
      else if outputLimitMode = CLAMP then
        (let candidate = remaining - estimatedInput - margin
         in if candidate > 0 then Proceed candidate else Reject)
      else Reject)"

record budget_arguments =
  b_estimatedInput :: jsnum
  b_maxOutputTokens :: jsnum
  b_remaining :: jsnum
  b_limit :: jsnum
  b_outputLimitMode :: output_limit_mode

record budget =
  margin :: int
  upperBound :: int
  maxOutputTokens :: int
  reservation :: int

datatype budget_outcome = Resolved budget | Request_too_large | Quota_exceeded | Arithmetic_error

definition validNonNegativeSafeInteger :: "jsnum \<Rightarrow> bool" where
  "validNonNegativeSafeInteger x \<longleftrightarrow> is_safe_integer x \<and> 0 \<le> the_int x"

definition validRelayBudgetArguments :: "budget_arguments \<Rightarrow> bool" where
  "validRelayBudgetArguments a \<longleftrightarrow>
     validNonNegativeSafeInteger (b_estimatedInput a) \<and> validNonNegativeSafeInteger (b_maxOutputTokens a) \<and>
     validNonNegativeSafeInteger (b_remaining a) \<and> is_safe_integer (b_limit a) \<and> 0 < the_int (b_limit a) \<and>
     the_int (b_remaining a) \<le> the_int (b_limit a)"

text \<open>
  \<open>resolveRelayTokenBudget\<close>.  The integer sums are the double sums as far as the outcome goes: a sum of
  non-negative safe integers that leaves the safe range is rounded to at least \<open>2^53\<close>, which the check
  on it refuses, and below that it is exact.
\<close>

definition resolveRelayTokenBudget :: "budget_arguments \<Rightarrow> budget_outcome" where
  "resolveRelayTokenBudget a =
     (if \<not> validRelayBudgetArguments a then Arithmetic_error
      else
        let e = the_int (b_estimatedInput a); r = the_int (b_remaining a); l = the_int (b_limit a);
            mg = safetyMargin e (fl (of_int r / of_int l));
            ub = upperBoundOf e (the_int (b_maxOutputTokens a))
        in if \<not> (validNonNegativeSafeInteger (JsInt mg) \<and> validNonNegativeSafeInteger (JsInt ub)) then Arithmetic_error
           else if ub > l then Request_too_large
           else case decideOutput e (the_int (b_maxOutputTokens a)) mg r (b_outputLimitMode a) of
                  Reject \<Rightarrow> Quota_exceeded
                | Proceed out \<Rightarrow>
                    let res = e + out + mg
                    in if validNonNegativeSafeInteger (JsInt out) \<and> validNonNegativeSafeInteger (JsInt res)
                       then Resolved \<lparr>margin = mg, upperBound = ub, maxOutputTokens = out, reservation = res\<rparr>
                       else Arithmetic_error)"

text \<open>apps/gateway-worker/src/token-budget.ts.\<close>

definition validArguments :: "budget_arguments \<Rightarrow> bool" where
  "validArguments a \<longleftrightarrow>
     validNonNegativeSafeInteger (b_estimatedInput a) \<and> validNonNegativeSafeInteger (b_maxOutputTokens a) \<and>
     validNonNegativeSafeInteger (b_remaining a) \<and> is_safe_integer (b_limit a) \<and> the_int (b_limit a) > 0 \<and>
     the_int (b_remaining a) \<le> the_int (b_limit a)"

definition resolveTokenBudget :: "budget_arguments \<Rightarrow> budget_outcome" where
  "resolveTokenBudget a =
     (if \<not> validArguments a then Arithmetic_error
      else
        let estimated = the_int (b_estimatedInput a);
            mg = safetyMargin estimated (fl (of_int (the_int (b_remaining a)) / of_int (the_int (b_limit a))));
            ub = upperBoundOf estimated (the_int (b_maxOutputTokens a))
        in if \<not> validNonNegativeSafeInteger (JsInt mg) \<or> \<not> validNonNegativeSafeInteger (JsInt ub) then Arithmetic_error
           else if the_int (b_limit a) < ub then Request_too_large
           else case decideOutput estimated (the_int (b_maxOutputTokens a)) mg (the_int (b_remaining a)) (b_outputLimitMode a) of
                  Proceed out \<Rightarrow>
                    if validNonNegativeSafeInteger (JsInt out) \<and> validNonNegativeSafeInteger (JsInt (estimated + out + mg))
                    then Resolved \<lparr>margin = mg, upperBound = ub, maxOutputTokens = out, reservation = estimated + out + mg\<rparr>
                    else Arithmetic_error
                | Reject \<Rightarrow> Quota_exceeded)"

subsection \<open>idempotency.ts\<close>

definition MAX_IDEMPOTENCY_KEY_BYTES :: int where
  "MAX_IDEMPOTENCY_KEY_BYTES = 255"

datatype parsed_key = Key_absent | Key_invalid | Key_valid string

text \<open>The argument is \<open>undefined\<close> (\<open>None\<close>) or a value.\<close>

definition parseIdempotencyKey :: "json option \<Rightarrow> parsed_key" where
  "parseIdempotencyKey v =
     (case v of
        None \<Rightarrow> Key_absent
      | Some JNull \<Rightarrow> Key_absent
      | Some (JStr s) \<Rightarrow>
          if s = [] then Key_absent
          else if utf8_length s > MAX_IDEMPOTENCY_KEY_BYTES then Key_invalid else Key_valid s
      | Some _ \<Rightarrow> Key_invalid)"

subsection \<open>tokenization.ts\<close>

definition MAX_NORMALIZED_INPUT_BYTES :: int where
  "MAX_NORMALIZED_INPUT_BYTES = 1048576"

definition MAX_INPUT_TEXT_BYTES :: int where
  "MAX_INPUT_TEXT_BYTES = 16 * 1024 * 1024 - 65536"

definition resolveMaxInputBytes :: "string option \<Rightarrow> int" where
  "resolveMaxInputBytes configured =
     (let parsed = js_number_opt configured;
          resolved = (if is_safe_integer parsed \<and> 0 < the_int parsed then the_int parsed else MAX_NORMALIZED_INPUT_BYTES)
      in min resolved MAX_INPUT_TEXT_BYTES)"

text \<open>
  As for the budget, a double sum of non-negative safe integers is safe exactly when the integer sum is.
\<close>

definition estimatedInputTokensOf :: "jsnum \<Rightarrow> jsnum \<Rightarrow> jsnum \<Rightarrow> int throws" where
  "estimatedInputTokensOf baseTokenCount messageCount opaqueInputBytes =
     (let overhead = the_int messageCount * 4;
          estimated = the_int baseTokenCount + the_int opaqueInputBytes + overhead + 3
      in if \<not> is_safe_integer baseTokenCount \<or> the_int baseTokenCount < 0 \<or>
            \<not> is_safe_integer messageCount \<or> the_int messageCount < 0 \<or>
            \<not> is_safe_integer opaqueInputBytes \<or> the_int opaqueInputBytes < 0 \<or>
            \<not> safe_int overhead \<or> \<not> safe_int estimated \<or> estimated < 0
         then Inl (RangeError ''Tokenizer arithmetic overflow.'') else Inr estimated)"

subsection \<open>classify.ts\<close>

datatype complimentary_pool = Complimentary pool_name | No_pool

record registry_entry =
  r_model :: string
  r_provider :: string
  r_complimentary_pool :: complimentary_pool
  r_enabled :: bool
  r_fallback_model :: "string option"
  r_updated_at :: string

definition classifyModel :: "string \<Rightarrow> registry_entry kv \<Rightarrow> complimentary_pool" where
  "classifyModel model registry =
     (case kv_get registry model of
        None \<Rightarrow> No_pool
      | Some entry \<Rightarrow> if \<not> r_enabled entry then No_pool else r_complimentary_pool entry)"

definition TOOL_KEYS :: "string list" where
  "TOOL_KEYS = [''tools'', ''tool_choice'', ''functions'', ''function_call'']"

definition MESSAGE_TOOL_KEYS :: "string list" where
  "MESSAGE_TOOL_KEYS = [''tool_calls'', ''tool_call_id'', ''function_call'']"

definition hasToolUse :: "json \<Rightarrow> bool" where
  "hasToolUse body =
     (if list_ex (\<lambda>key. js_get body key \<noteq> None) TOOL_KEYS then True
      else case js_get body ''messages'' of
             Some (JArr messages) \<Rightarrow>
               list_ex (\<lambda>message. is_record message \<and> list_ex (\<lambda>key. js_get message key \<noteq> None) MESSAGE_TOOL_KEYS) messages
           | _ \<Rightarrow> False)"

subsection \<open>relay-errors.ts\<close>

datatype relay_error_code =
    Invalid_request | Invalid_context | Unauthorized_service | Environment_mismatch | Client_disabled
  | Model_requires_paid | Model_not_allowed | Code_request_too_large | Insufficient_quota
  | Worker_concurrency_exceeded | Duplicate_idempotency_key | Grant_not_found | Grant_expired
  | Grant_replayed | Grant_terminalized | Lease_lost | Upstream_error | Upstream_timeout
  | Upstream_invalid_response | Internal_error

definition RELAY_ERROR_CODES :: "(string \<times> relay_error_code) list" where
  "RELAY_ERROR_CODES =
     [(''invalid_request'', Invalid_request), (''invalid_context'', Invalid_context),
      (''unauthorized_service'', Unauthorized_service), (''environment_mismatch'', Environment_mismatch),
      (''client_disabled'', Client_disabled), (''model_requires_paid'', Model_requires_paid),
      (''model_not_allowed'', Model_not_allowed), (''request_too_large'', Code_request_too_large),
      (''insufficient_quota'', Insufficient_quota), (''worker_concurrency_exceeded'', Worker_concurrency_exceeded),
      (''duplicate_idempotency_key'', Duplicate_idempotency_key), (''grant_not_found'', Grant_not_found),
      (''grant_expired'', Grant_expired), (''grant_replayed'', Grant_replayed),
      (''grant_terminalized'', Grant_terminalized), (''lease_lost'', Lease_lost),
      (''upstream_error'', Upstream_error), (''upstream_timeout'', Upstream_timeout),
      (''upstream_invalid_response'', Upstream_invalid_response), (''internal_error'', Internal_error)]"

definition ACTIVATION_DENIAL_CODES :: "relay_error_code list" where
  "ACTIVATION_DENIAL_CODES =
     [Environment_mismatch, Grant_not_found, Grant_expired, Grant_replayed, Grant_terminalized, Lease_lost]"

datatype grant_state = Authorized | Attempted | Settled | Released | Uncertain | Reconciled_consumed | Reconciled_unused

definition RELAY_GRANT_STATES :: "(string \<times> grant_state) list" where
  "RELAY_GRANT_STATES =
     [(''authorized'', Authorized), (''attempted'', Attempted), (''settled'', Settled), (''released'', Released),
      (''uncertain'', Uncertain), (''reconciled_consumed'', Reconciled_consumed), (''reconciled_unused'', Reconciled_unused)]"

text \<open>The name of a code or state is its entry in the table.\<close>

definition name_in :: "(string \<times> 'a) list \<Rightarrow> 'a \<Rightarrow> string" where
  "name_in table x = (case find (\<lambda>e. snd e = x) table of Some e \<Rightarrow> fst e | None \<Rightarrow> [])"

abbreviation relay_code_name :: "relay_error_code \<Rightarrow> string" where
  "relay_code_name \<equiv> name_in RELAY_ERROR_CODES"

definition isRelayErrorCode :: "json \<Rightarrow> relay_error_code option" where
  "isRelayErrorCode v = (case v of JStr s \<Rightarrow> map_of RELAY_ERROR_CODES s | _ \<Rightarrow> None)"

definition isActivationDenialCode :: "json \<Rightarrow> relay_error_code option" where
  "isActivationDenialCode v =
     (case isRelayErrorCode v of Some c \<Rightarrow> if c \<in> set ACTIVATION_DENIAL_CODES then Some c else None | None \<Rightarrow> None)"

definition isRelayGrantState :: "json \<Rightarrow> grant_state option" where
  "isRelayGrantState v = (case v of JStr s \<Rightarrow> map_of RELAY_GRANT_STATES s | _ \<Rightarrow> None)"

definition relayErrorCodeStatus :: "relay_error_code \<Rightarrow> int" where
  "relayErrorCodeStatus code =
     (case code of
        Invalid_request \<Rightarrow> 400 | Client_disabled \<Rightarrow> 403 | Model_requires_paid \<Rightarrow> 403 | Model_not_allowed \<Rightarrow> 403
      | Duplicate_idempotency_key \<Rightarrow> 409 | Code_request_too_large \<Rightarrow> 413 | Insufficient_quota \<Rightarrow> 429
      | Worker_concurrency_exceeded \<Rightarrow> 429 | _ \<Rightarrow> 500)"

subsection \<open>The tiers and the margin are the documented ones\<close>

lemma fl_mono_nonneg:
  assumes "0 \<le> x" "x \<le> y"
  shows "fl x \<le> fl y"
  using assms fl_pos_mono[of x y] fl_pos_pos[of y] by (cases "x = 0"; cases "y = 0") (simp_all add: fl_def)

lemma literals_ordered: "0 < c002" "c002 \<le> c005"
  by (simp_all add: decimal_literals)

lemma margin_ceilings:
  assumes "0 \<le> e"
  shows "\<lceil>fl (of_int e * c002)\<rceil> \<le> \<lceil>fl (of_int e * c005)\<rceil>" "0 \<le> \<lceil>fl (of_int e * c002)\<rceil>"
proof -
  have p: "(0::rat) \<le> of_int e * c002" "(of_int e * c002 :: rat) \<le> of_int e * c005"
    using assms literals_ordered by (simp_all add: mult_left_mono)
  show "\<lceil>fl (of_int e * c002)\<rceil> \<le> \<lceil>fl (of_int e * c005)\<rceil>" by (intro ceiling_mono fl_mono_nonneg p)
  have "fl 0 \<le> fl (of_int e * c002)" using p(1) by (intro fl_mono_nonneg) simp_all
  then show "0 \<le> \<lceil>fl (of_int e * c002)\<rceil>" by (simp add: fl_def)
qed

lemma safetyMargin_bounds:
  assumes "0 \<le> e"
  shows "256 \<le> safetyMargin e ratio" "safetyMargin e ratio \<le> max 512 \<lceil>fl (of_int e * c005)\<rceil>"
  using margin_ceilings[OF assms] by (auto simp: safetyMargin_def)

text \<open>For limits up to 2^52 the policy tier that \<open>tierOf\<close> computes with a double quotient and the double
  literals 0.05 and 0.2 is the documented one: STRICT exactly when at most one twentieth of the limit remains,
  CAUTION exactly when more than that and at most one fifth remains, NORMAL otherwise.\<close>

lemma tierOf_exact:
  assumes "0 < l" "l \<le> 2 ^ 52"
  shows "tierOf r l = (if 20 * r \<le> l then STRICT else if 5 * r \<le> l then CAUTION else NORMAL)"
  using fl_quotient_le_literal[OF decimal_literals_of(1) assms, of r]
    fl_quotient_le_literal[OF decimal_literals_of(3) assms, of r] assms
  by (simp add: tierOf_def Let_def)

theorem tierOf_exact_witness:
  "tierOf 50000 1000000 = STRICT \<and> tierOf 50001 1000000 = CAUTION \<and> tierOf 200001 1000000 = NORMAL"
  using tierOf_exact[of 1000000 50000] tierOf_exact[of 1000000 50001] tierOf_exact[of 1000000 200001] by simp

lemma safetyMargin_integer:
  assumes "0 \<le> e" "e \<le> 2 ^ 52" "0 < l" "l \<le> 2 ^ 52"
  shows "safetyMargin e (fl (of_int r / of_int l)) =
           (if 5 * r \<le> l then max 512 ((e + 19) div 20) else max 256 ((e + 49) div 50)) \<and>
         upperBoundOf e m = e + m + max 512 ((e + 19) div 20)"
proof -
  have "\<lceil>fl (of_int e * c005)\<rceil> = (e + 19) div 20" "\<lceil>fl (of_int e * c002)\<rceil> = (e + 49) div 50"
    using ceiling_fl_literal[OF decimal_literals_of(1) assms(1,2)] ceiling_fl_literal[OF decimal_literals_of(2) assms(1,2)]
    by (simp_all add: mult.commute)
  then show ?thesis
    using fl_quotient_le_literal[OF decimal_literals_of(3) assms(3,4), of r]
    by (simp add: safetyMargin_def upperBoundOf_def)
qed

text \<open>For estimates up to 2^52 the safety margin and the upper bound, computed with a product of doubles
  and \<open>Math.ceil\<close>, are the documented integer formulas: five per cent rounded up and at least 512 when at
  most a fifth of the pool remains, two per cent rounded up and at least 256 otherwise; the upper bound
  always takes the larger margin.\<close>

lemma safetyMargin_exact:
  assumes "0 \<le> e" "e \<le> 2 ^ 52" "0 < l" "l \<le> 2 ^ 52"
  shows "safetyMargin e (fl (of_int r / of_int l)) =
           (if 5 * r \<le> l then max 512 ((e + 19) div 20) else max 256 ((e + 49) div 50)) \<and>
         upperBoundOf e m = e + m + max 512 ((e + 19) div 20)"
  using assms by (rule safetyMargin_integer)

theorem safetyMargin_exact_witness:
  "safetyMargin 100001 (fl (of_int 900000 / of_int 1000000)) = 2001 \<and> upperBoundOf 100001 4096 = 109098"
  using safetyMargin_exact[of 100001 1000000 900000 4096] by simp

subsection \<open>The token budget\<close>

lemma validNonNegativeSafeInteger_simps [simp]:
  "validNonNegativeSafeInteger (JsInt n) \<longleftrightarrow> safe_int n \<and> 0 \<le> n"
  "\<not> validNonNegativeSafeInteger (JsFrac q)" "\<not> validNonNegativeSafeInteger JsNaN" "\<not> validNonNegativeSafeInteger (JsInf b)"
  by (simp_all add: validNonNegativeSafeInteger_def)

lemma decideOutput_proceed:
  assumes "decideOutput e m mg r mode = Proceed out" "0 \<le> m"
  shows "e + out + mg \<le> r" "0 \<le> out" "out \<le> m" "out < m \<Longrightarrow> mode = CLAMP \<and> out = r - e - mg"
  using assms by (auto simp: decideOutput_def Let_def split: if_splits)

text \<open>The relay's and the gateway's resolver agree; what is proved of one holds of the other.\<close>

text \<open>\<open>resolveTokenBudget\<close> of the gateway and \<open>resolveRelayTokenBudget\<close> of the relay give the same
  outcome on all arguments.\<close>

lemma token_budgets_agree: "resolveTokenBudget a = resolveRelayTokenBudget a"
  by (simp add: resolveTokenBudget_def resolveRelayTokenBudget_def validArguments_def validRelayBudgetArguments_def
      Let_def split: output_decision.split)

text \<open>C21: A resolved token budget is within all its limits: the reservation is the estimate, the granted output
  and a margin of at least 256; it fits into the remaining tokens and under the upper bound, which fits into
  the pool limit; the granted output is not more than requested, and less only in CLAMP mode, where the
  reservation then uses exactly what remains.\<close>

theorem budget_resolved_bounds:
  assumes "resolveRelayTokenBudget a = Resolved b"
  shows "reservation b = the_int (b_estimatedInput a) + maxOutputTokens b + margin b \<and> 256 \<le> margin b \<and>
    reservation b \<le> the_int (b_remaining a) \<and> reservation b \<le> upperBound b \<and> upperBound b \<le> the_int (b_limit a) \<and>
    0 \<le> maxOutputTokens b \<and> maxOutputTokens b \<le> the_int (b_maxOutputTokens a) \<and>
    (maxOutputTokens b < the_int (b_maxOutputTokens a) \<longrightarrow>
       b_outputLimitMode a = CLAMP \<and> reservation b = the_int (b_remaining a))"
proof -
  define e r l m where "e = the_int (b_estimatedInput a)" and "r = the_int (b_remaining a)"
    and "l = the_int (b_limit a)" and "m = the_int (b_maxOutputTokens a)"
  define mg ub where "mg = safetyMargin e (fl (of_int r / of_int l))" and "ub = upperBoundOf e m"
  have v: "validRelayBudgetArguments a" using assms by (auto simp: resolveRelayTokenBudget_def split: if_splits)
  then have em: "0 \<le> e" "0 \<le> m"
    by (simp_all add: validRelayBudgetArguments_def validNonNegativeSafeInteger_def e_def m_def)
  obtain out where out: "decideOutput e m mg r (b_outputLimitMode a) = Proceed out" "ub \<le> l"
    and b: "b = \<lparr>margin = mg, upperBound = ub, maxOutputTokens = out, reservation = e + out + mg\<rparr>"
    using assms unfolding resolveRelayTokenBudget_def Let_def e_def[symmetric] r_def[symmetric] l_def[symmetric]
      m_def[symmetric] mg_def[symmetric] ub_def[symmetric]
    by (auto split: if_splits output_decision.splits)
  note d = decideOutput_proceed[OF out(1) em(2)]
  note mb = safetyMargin_bounds[OF em(1), of "fl (of_int r / of_int l)", folded mg_def]
  have "e + out + mg \<le> ub" using mb(2) d(3) by (simp add: ub_def upperBoundOf_def)
  then show ?thesis
    unfolding e_def[symmetric] r_def[symmetric] l_def[symmetric] m_def[symmetric] b
    using d mb(1) out(2) by auto
qed

theorem budget_resolved_bounds_witness:
  "\<exists>b. resolveRelayTokenBudget \<lparr>b_estimatedInput = JsInt 1000, b_maxOutputTokens = JsInt 5000, b_remaining = JsInt 4000,
        b_limit = JsInt 100000, b_outputLimitMode = CLAMP\<rparr> = Resolved b \<and> reservation b \<le> 4000 \<and> maxOutputTokens b = 2488"
proof -
  let ?a = "\<lparr>b_estimatedInput = JsInt 1000, b_maxOutputTokens = JsInt 5000, b_remaining = JsInt 4000,
        b_limit = JsInt 100000, b_outputLimitMode = CLAMP\<rparr>"
  let ?b = "\<lparr>margin = 512, upperBound = 6512, maxOutputTokens = 2488, reservation = 4000\<rparr>"
  have mg: "safetyMargin 1000 (fl (of_int 4000 / of_int 100000)) = 512" "upperBoundOf 1000 5000 = 6512"
    using safetyMargin_integer[of 1000 100000 4000 5000] by simp_all
  have "resolveRelayTokenBudget ?a = Resolved ?b"
    unfolding resolveRelayTokenBudget_def Let_def budget_arguments.simps the_int.simps mg
    by (simp add: validRelayBudgetArguments_def safe_int_def MAX_SAFE_INTEGER_def decideOutput_def)
  with budget_resolved_bounds[OF this] show ?thesis by fastforce
qed

text \<open>With valid arguments the budget is refused for exactly the documented reasons: as too large when the
  upper bound exceeds the pool limit, as over quota when the request does not fit into the remaining tokens
  and (in CLAMP mode) not even one output token would; sizes whose bound leaves the safe integers are
  arithmetic errors, so nothing is ever resolved from rounded sums.\<close>

lemma budget_refusals:
  assumes "validRelayBudgetArguments a"
    and "e = the_int (b_estimatedInput a)" "m = the_int (b_maxOutputTokens a)" "r = the_int (b_remaining a)"
    and "l = the_int (b_limit a)" "mg = safetyMargin e (fl (of_int r / of_int l))"
  shows "(resolveRelayTokenBudget a = Arithmetic_error \<longleftrightarrow> \<not> safe_int (upperBoundOf e m)) \<and>
    (resolveRelayTokenBudget a = Request_too_large \<longleftrightarrow> safe_int (upperBoundOf e m) \<and> l < upperBoundOf e m) \<and>
    (resolveRelayTokenBudget a = Quota_exceeded \<longleftrightarrow>
       upperBoundOf e m \<le> l \<and> r < e + m + mg \<and> (b_outputLimitMode a = CLAMP \<longrightarrow> r \<le> e + mg))"
proof -
  have em: "0 \<le> e" "0 \<le> m" "safe_int r" "safe_int l" "0 \<le> r" "0 < l"
    using assms(1) by (auto simp: validRelayBudgetArguments_def validNonNegativeSafeInteger_def assms(2-5) elim!: is_safe_integerE)
  note mb = safetyMargin_bounds[OF em(1), of "fl (of_int r / of_int l)", folded assms(6)]
  have ub: "0 \<le> upperBoundOf e m" "mg \<le> upperBoundOf e m" using mb em by (simp_all add: upperBoundOf_def)
  have safe_mg: "safe_int mg" if "safe_int (upperBoundOf e m)" using that ub(2) mb(1) by (simp add: safe_int_def MAX_SAFE_INTEGER_def)
  have safe_ub: "safe_int (upperBoundOf e m)" if "upperBoundOf e m \<le> l"
    using that em(4) ub(1) by (simp add: safe_int_def MAX_SAFE_INTEGER_def)
  have safe_out: "safe_int out \<and> 0 \<le> out \<and> safe_int (e + out + mg) \<and> 0 \<le> e + out + mg"
    if "decideOutput e m mg r (b_outputLimitMode a) = Proceed out" for out
    using decideOutput_proceed[OF that em(2)] em mb(1) by (simp add: safe_int_def MAX_SAFE_INTEGER_def)
  have q: "decideOutput e m mg r (b_outputLimitMode a) = Reject \<longleftrightarrow>
      r < e + m + mg \<and> (b_outputLimitMode a = CLAMP \<longrightarrow> r \<le> e + mg)"
    by (auto simp: decideOutput_def Let_def)
  have res: "resolveRelayTokenBudget a =
      (if \<not> safe_int (upperBoundOf e m) then Arithmetic_error else if l < upperBoundOf e m then Request_too_large
       else case decideOutput e m mg r (b_outputLimitMode a) of Reject \<Rightarrow> Quota_exceeded
            | Proceed out \<Rightarrow> Resolved \<lparr>margin = mg, upperBound = upperBoundOf e m, maxOutputTokens = out, reservation = e + out + mg\<rparr>)"
    unfolding resolveRelayTokenBudget_def Let_def assms(2-5)[symmetric] assms(6)[symmetric]
    using assms(1) safe_mg safe_out ub(1) mb(1)
    by (cases "safe_int (upperBoundOf e m)"; cases "decideOutput e m mg r (b_outputLimitMode a)") simp_all
  show ?thesis unfolding res using q safe_ub by (auto split: output_decision.split)
qed

theorem budget_refusals_witness:
  "resolveRelayTokenBudget \<lparr>b_estimatedInput = JsInt 1000, b_maxOutputTokens = JsInt 5000, b_remaining = JsInt 1512,
        b_limit = JsInt 100000, b_outputLimitMode = CLAMP\<rparr> = Quota_exceeded"
proof -
  let ?a = "\<lparr>b_estimatedInput = JsInt 1000, b_maxOutputTokens = JsInt 5000, b_remaining = JsInt 1512,
        b_limit = JsInt 100000, b_outputLimitMode = CLAMP\<rparr>"
  have mg: "512 = safetyMargin 1000 (fl (of_int 1512 / of_int 100000))" "upperBoundOf 1000 5000 = 6512"
    using safetyMargin_integer[of 1000 100000 1512 5000] by simp_all
  have "validRelayBudgetArguments ?a"
    by (simp add: validRelayBudgetArguments_def safe_int_def MAX_SAFE_INTEGER_def)
  from budget_refusals[OF this, of 1000 5000 1512 100000 512] mg show ?thesis by simp
qed

subsection \<open>Names\<close>

text \<open>Reading the wire name of a relay error code or grant state gives the code back, and a name that reads
  as a code is that code's name.\<close>

lemma relay_code_names:
  "isRelayErrorCode (JStr (relay_code_name c)) = Some c \<and> (isRelayErrorCode (JStr s) = Some c \<longleftrightarrow> s = relay_code_name c)"
proof -
  have a: "isRelayErrorCode (JStr (relay_code_name c)) = Some c"
    by (cases c) (simp_all add: isRelayErrorCode_def RELAY_ERROR_CODES_def name_in_def)
  moreover have "s = relay_code_name c" if "isRelayErrorCode (JStr s) = Some c"
  proof -
    have "(s, c) \<in> set RELAY_ERROR_CODES" using that by (simp add: isRelayErrorCode_def map_of_SomeD)
    then show ?thesis by (auto simp: RELAY_ERROR_CODES_def name_in_def)
  qed
  ultimately show ?thesis by blast
qed

end
