(* ===== verification/Relay_Parse.thy ===== *)
theory Relay_Parse
  imports Pool
begin

section \<open>Relay_Parse: the envelopes of the relay protocol and their strict validators\<close>

text \<open>
  packages/shared/src/relay.ts (limits, patterns, envelope types) and relay-parse.ts.  Every validator
  takes a decoded JSON value and gives the typed envelope or \<open>None\<close>.  The theorems characterise the
  accepted values: exactly the objects that have the properties of an encoded valid envelope.
\<close>

subsection \<open>Limits and patterns\<close>

definition RELAY_CONTEXT_AUDIENCE :: string where "RELAY_CONTEXT_AUDIENCE = ''octg-deno-relay''"
definition RELAY_GRANT_AUDIENCE :: string where "RELAY_GRANT_AUDIENCE = ''octg-worker-relay''"
definition RELAY_MAX_INGRESS_BODY_BYTES :: int where "RELAY_MAX_INGRESS_BODY_BYTES = 1048576"
definition RELAY_MAX_CALLBACK_BODY_BYTES :: int where "RELAY_MAX_CALLBACK_BODY_BYTES = 8192"
definition RELAY_MAX_CONTEXT_HEADER_BYTES :: int where "RELAY_MAX_CONTEXT_HEADER_BYTES = 4096"
definition RELAY_MAX_AUTHORIZATION_HEADER_BYTES :: int where "RELAY_MAX_AUTHORIZATION_HEADER_BYTES = 263"
definition RELAY_MAX_CONTEXT_LIFETIME_MS :: int where "RELAY_MAX_CONTEXT_LIFETIME_MS = 60000"
definition RELAY_GRANT_CREDENTIAL_TTL_MS :: int where "RELAY_GRANT_CREDENTIAL_TTL_MS = 3900000"

definition is_lower_hex :: "char \<Rightarrow> bool" where
  "is_lower_hex c \<longleftrightarrow> is_digit c \<or> CHR ''a'' \<le> c \<and> c \<le> CHR ''f''"

definition is_upper :: "char \<Rightarrow> bool" where
  "is_upper c \<longleftrightarrow> CHR ''A'' \<le> c \<and> c \<le> CHR ''Z''"

definition is_lower :: "char \<Rightarrow> bool" where
  "is_lower c \<longleftrightarrow> CHR ''a'' \<le> c \<and> c \<le> CHR ''z''"

text \<open>The class \<open>[0-9A-HJKMNP-TV-Z]\<close> of a ULID, and \<open>[A-Za-z0-9_-]\<close>.\<close>

definition is_crockford :: "char \<Rightarrow> bool" where
  "is_crockford c \<longleftrightarrow> is_digit c \<or> is_upper c \<and> c \<notin> {CHR ''I'', CHR ''L'', CHR ''O'', CHR ''U''}"

definition is_base64url :: "char \<Rightarrow> bool" where
  "is_base64url c \<longleftrightarrow> is_upper c \<or> is_lower c \<or> is_digit c \<or> c = CHR ''_'' \<or> c = CHR ''-''"

definition RELAY_REQUEST_ID_PATTERN :: "string \<Rightarrow> bool" where
  "RELAY_REQUEST_ID_PATTERN = matches (map (=) ''req_'' @ replicate 26 is_crockford)"

definition RELAY_UUID_PATTERN :: "string \<Rightarrow> bool" where
  "RELAY_UUID_PATTERN = matches (replicate 8 is_lower_hex @ [(=) CHR ''-''] @ replicate 4 is_lower_hex @ [(=) CHR ''-'']
     @ replicate 4 is_lower_hex @ [(=) CHR ''-''] @ replicate 4 is_lower_hex @ [(=) CHR ''-''] @ replicate 12 is_lower_hex)"

definition RELAY_NONCE_PATTERN :: "string \<Rightarrow> bool" where
  "RELAY_NONCE_PATTERN = matches (replicate 43 is_base64url)"

definition RELAY_KEY_HASH_PATTERN :: "string \<Rightarrow> bool" where
  "RELAY_KEY_HASH_PATTERN = matches (replicate 64 is_lower_hex)"

definition RELAY_UTC_DAY_PATTERN :: "string \<Rightarrow> bool" where
  "RELAY_UTC_DAY_PATTERN = utc_day_pattern"

text \<open>The pattern of \<open>resetAt\<close>: a date, \<open>T\<close>, a time, an optional fraction of at least one digit, \<open>Z\<close>.\<close>

definition RELAY_RESET_AT_PATTERN :: "string \<Rightarrow> bool" where
  "RELAY_RESET_AT_PATTERN s \<longleftrightarrow>
     utc_day_pattern (take 10 s) \<and>
     matches ([(=) CHR ''T''] @ replicate 2 is_digit @ [(=) CHR '':''] @ replicate 2 is_digit @ [(=) CHR '':'']
              @ replicate 2 is_digit) (take 9 (drop 10 s)) \<and>
     (let r = drop 19 s; ds = take (length r - 2) (drop 1 r) in
      r = ''Z'' \<or> ds \<noteq> [] \<and> list_all is_digit ds \<and> r = CHR ''.'' # ds @ ''Z'')"

datatype relay_environment = Preview | Production

definition parse_environment :: "string \<Rightarrow> relay_environment option" where
  "parse_environment s = (if s = ''preview'' then Some Preview else if s = ''production'' then Some Production else None)"

fun environment_name :: "relay_environment \<Rightarrow> string" where
  "environment_name Preview = ''preview''"
| "environment_name Production = ''production''"

lemma parse_environment_name [simp]: "parse_environment (environment_name e) = Some e"
  by (cases e) (simp_all add: parse_environment_def)

lemma parse_environment_SomeD: "parse_environment s = Some e \<Longrightarrow> s = environment_name e"
  by (auto simp: parse_environment_def split: if_splits)

subsection \<open>Envelopes\<close>

record request_meta =
  m_model :: string
  m_estimatedInputTokens :: int
  m_maxOutputTokens :: int
  m_inputBytes :: int
  m_rawBodyBytes :: int
  m_isToolUse :: bool
  m_stream :: bool

record quota_snapshot =
  q_pool :: pool_name
  q_limit :: int
  q_used :: int
  q_remaining :: int
  q_resetAt :: string

datatype relay_decision =
    Decision_reject relay_error_code int
  | Decision_allow string string int bool quota_snapshot

text \<open>Activation and renewal requests carry the reference of a grant.\<close>

record grant_reference =
  g_grantId :: string
  g_leaseGeneration :: string

datatype terminal_outcome = Outcome_settle int | Outcome_uncertain | Outcome_release

record relay_terminal =
  t_grantId :: string
  t_leaseGeneration :: string
  t_outcome :: terminal_outcome

record terminal_response =
  tr_accepted :: bool
  tr_state :: "grant_state option"
  tr_code :: "relay_error_code option"

record response_meta =
  rm_requestId :: string
  rm_pool :: pool_name
  rm_limit :: int
  rm_used :: int
  rm_remaining :: int
  rm_resetAt :: string

subsection \<open>Reading properties\<close>

text \<open>The property of a record that has the key; \<open>JNull\<close> stands for an absent one, which no test below accepts.\<close>

definition field :: "json \<Rightarrow> string \<Rightarrow> json" where
  "field v k = (case js_get v k of Some x \<Rightarrow> x | None \<Rightarrow> JNull)"

definition is_one :: "json \<Rightarrow> bool" where
  "is_one v \<longleftrightarrow> v = JNum (JsInt 1)"

definition isGrantId :: "json \<Rightarrow> bool" where
  "isGrantId v \<longleftrightarrow> is_string v \<and> RELAY_UUID_PATTERN (str_of_json v)"

definition pool_of_json :: "json \<Rightarrow> pool_name option" where
  "pool_of_json v = (case v of JStr s \<Rightarrow> parse_pool_name s | _ \<Rightarrow> None)"

definition bool_of_json :: "json \<Rightarrow> bool option" where
  "bool_of_json v = (case v of JBool b \<Rightarrow> Some b | _ \<Rightarrow> None)"

subsection \<open>Validators\<close>

definition RELAY_REQUEST_META_KEYS :: "string list" where
  "RELAY_REQUEST_META_KEYS =
     [''model'', ''estimatedInputTokens'', ''maxOutputTokens'', ''inputBytes'', ''rawBodyBytes'', ''isToolUse'', ''stream'']"

definition parseRelayRequestMeta :: "json \<Rightarrow> request_meta option" where
  "parseRelayRequestMeta v =
     (if \<not> is_record v \<or> \<not> hasExactKeys v RELAY_REQUEST_META_KEYS then None
      else if \<not> isBoundedUtf8 (field v ''model'') 256 \<or> str_of_json (field v ''model'') = [] then None
      else if \<not> isSafeNonNegativeInteger (field v ''estimatedInputTokens'') then None
      else if \<not> isSafeNonNegativeInteger (field v ''maxOutputTokens'') then None
      else if \<not> isSafeNonNegativeInteger (field v ''inputBytes'')
        \<or> num_of_json (field v ''inputBytes'') > RELAY_MAX_INGRESS_BODY_BYTES then None
      else if \<not> isSafeNonNegativeInteger (field v ''rawBodyBytes'')
        \<or> num_of_json (field v ''rawBodyBytes'') > RELAY_MAX_INGRESS_BODY_BYTES then None
      else case (bool_of_json (field v ''isToolUse''), bool_of_json (field v ''stream'')) of
        (Some tool, Some str) \<Rightarrow>
          Some \<lparr>m_model = str_of_json (field v ''model''),
            m_estimatedInputTokens = num_of_json (field v ''estimatedInputTokens''),
            m_maxOutputTokens = num_of_json (field v ''maxOutputTokens''),
            m_inputBytes = num_of_json (field v ''inputBytes''),
            m_rawBodyBytes = num_of_json (field v ''rawBodyBytes''), m_isToolUse = tool, m_stream = str\<rparr>
      | _ \<Rightarrow> None)"

definition parseRelayQuotaSnapshot :: "json \<Rightarrow> quota_snapshot option" where
  "parseRelayQuotaSnapshot v =
     (if \<not> is_record v \<or> \<not> hasExactKeys v [''pool'', ''limit'', ''used'', ''remaining'', ''resetAt''] then None
      else case pool_of_json (field v ''pool'') of
        None \<Rightarrow> None
      | Some p \<Rightarrow>
          if \<not> isSafeNonNegativeInteger (field v ''limit'') then None
          else if \<not> isSafeNonNegativeInteger (field v ''used'') then None
          else if \<not> isSafeNonNegativeInteger (field v ''remaining'') then None
          else if \<not> is_string (field v ''resetAt'') \<or> \<not> RELAY_RESET_AT_PATTERN (str_of_json (field v ''resetAt'')) then None
          else Some \<lparr>q_pool = p, q_limit = num_of_json (field v ''limit''), q_used = num_of_json (field v ''used''),
                     q_remaining = num_of_json (field v ''remaining''), q_resetAt = str_of_json (field v ''resetAt'')\<rparr>)"

definition parseRelayDecisionRequest :: "json \<Rightarrow> request_meta option" where
  "parseRelayDecisionRequest v =
     (if \<not> is_record v \<or> \<not> hasExactKeys v [''version'', ''metadata''] then None
      else if \<not> is_one (field v ''version'') then None
      else parseRelayRequestMeta (field v ''metadata''))"

definition parseRelayDecision :: "json \<Rightarrow> relay_decision option" where
  "parseRelayDecision v =
     (if \<not> is_record v \<or> \<not> is_one (field v ''version'') then None
      else if field v ''kind'' = JStr ''reject'' then
        (if \<not> hasExactKeys v [''version'', ''kind'', ''code'', ''status''] then None
         else case isRelayErrorCode (field v ''code'') of
           None \<Rightarrow> None
         | Some code \<Rightarrow>
             if field v ''status'' \<noteq> JNum (JsInt (relayErrorCodeStatus code)) then None
             else Some (Decision_reject code (relayErrorCodeStatus code)))
      else if field v ''kind'' = JStr ''allow'' then
        (if \<not> hasExactKeys v [''version'', ''kind'', ''grantId'', ''leaseGeneration'', ''maxOutputTokens'', ''cacheEnabled'', ''quota'']
         then None
         else if \<not> isGrantId (field v ''grantId'') \<or> \<not> isGrantId (field v ''leaseGeneration'') then None
         else if \<not> isSafeNonNegativeInteger (field v ''maxOutputTokens'') then None
         else case bool_of_json (field v ''cacheEnabled'') of
           None \<Rightarrow> None
         | Some cache \<Rightarrow>
             (case parseRelayQuotaSnapshot (field v ''quota'') of
                None \<Rightarrow> None
              | Some quota \<Rightarrow>
                  Some (Decision_allow (str_of_json (field v ''grantId'')) (str_of_json (field v ''leaseGeneration''))
                          (num_of_json (field v ''maxOutputTokens'')) cache quota)))
      else None)"

definition RELAY_GRANT_REFERENCE_KEYS :: "string list" where
  "RELAY_GRANT_REFERENCE_KEYS = [''version'', ''grantId'', ''leaseGeneration'']"

definition parseGrantReferenceEnvelope :: "json \<Rightarrow> string list \<Rightarrow> grant_reference option" where
  "parseGrantReferenceEnvelope v keys =
     (if \<not> is_record v \<or> \<not> hasExactKeys v keys then None
      else if \<not> is_one (field v ''version'') then None
      else if \<not> isGrantId (field v ''grantId'') \<or> \<not> isGrantId (field v ''leaseGeneration'') then None
      else Some \<lparr>g_grantId = str_of_json (field v ''grantId''), g_leaseGeneration = str_of_json (field v ''leaseGeneration'')\<rparr>)"

definition parseRelayActivation :: "json \<Rightarrow> grant_reference option" where
  "parseRelayActivation v = parseGrantReferenceEnvelope v RELAY_GRANT_REFERENCE_KEYS"

definition parseRelayRenewal :: "json \<Rightarrow> grant_reference option" where
  "parseRelayRenewal v = parseGrantReferenceEnvelope v RELAY_GRANT_REFERENCE_KEYS"

text \<open>An activation response: \<open>None\<close> when activated, otherwise the denial.\<close>

definition parseRelayActivationResponse :: "json \<Rightarrow> relay_error_code option option" where
  "parseRelayActivationResponse v =
     (if \<not> is_record v \<or> \<not> hasExactKeys v [''version'', ''activated'', ''code''] then None
      else if \<not> is_one (field v ''version'') then None
      else case bool_of_json (field v ''activated'') of
        None \<Rightarrow> None
      | Some True \<Rightarrow> if field v ''code'' \<noteq> JNull then None else Some None
      | Some False \<Rightarrow> (case isActivationDenialCode (field v ''code'') of None \<Rightarrow> None | Some c \<Rightarrow> Some (Some c)))"

definition parseRelayRenewalResponse :: "json \<Rightarrow> (bool \<times> relay_error_code option) option" where
  "parseRelayRenewalResponse v =
     (if \<not> is_record v \<or> \<not> hasExactKeys v [''version'', ''renewed'', ''code''] then None
      else if \<not> is_one (field v ''version'') then None
      else case bool_of_json (field v ''renewed'') of
        None \<Rightarrow> None
      | Some renewed \<Rightarrow>
          if field v ''code'' = JNull then Some (renewed, None)
          else (case isRelayErrorCode (field v ''code'') of None \<Rightarrow> None | Some c \<Rightarrow> Some (renewed, Some c)))"

definition RELAY_TERMINAL_KEYS :: "string list" where
  "RELAY_TERMINAL_KEYS = [''version'', ''grantId'', ''leaseGeneration'', ''outcome'', ''totalTokens'']"

definition parseRelayTerminal :: "json \<Rightarrow> relay_terminal option" where
  "parseRelayTerminal v =
     (if \<not> is_record v \<or> \<not> hasExactKeys v RELAY_TERMINAL_KEYS then None
      else if \<not> is_one (field v ''version'') then None
      else if \<not> isGrantId (field v ''grantId'') \<or> \<not> isGrantId (field v ''leaseGeneration'') then None
      else
        let mk = (\<lambda>oc. \<lparr>t_grantId = str_of_json (field v ''grantId''),
                        t_leaseGeneration = str_of_json (field v ''leaseGeneration''), t_outcome = oc\<rparr>)
        in if field v ''outcome'' = JStr ''settle'' then
             (if \<not> isSafeNonNegativeInteger (field v ''totalTokens'') then None
              else Some (mk (Outcome_settle (num_of_json (field v ''totalTokens'')))))
           else if field v ''outcome'' = JStr ''uncertain'' then
             (if field v ''totalTokens'' \<noteq> JNull then None else Some (mk Outcome_uncertain))
           else if field v ''outcome'' = JStr ''release'' then
             (if field v ''totalTokens'' \<noteq> JNull then None else Some (mk Outcome_release))
           else None)"

definition parseRelayTerminalResponse :: "json \<Rightarrow> terminal_response option" where
  "parseRelayTerminalResponse v =
     (if \<not> is_record v \<or> \<not> hasExactKeys v [''version'', ''accepted'', ''state'', ''code''] then None
      else if \<not> is_one (field v ''version'') then None
      else case bool_of_json (field v ''accepted'') of
        None \<Rightarrow> None
      | Some accepted \<Rightarrow>
          if field v ''code'' = JNull then
            (if \<not> accepted then None
             else case isRelayGrantState (field v ''state'') of
               None \<Rightarrow> None | Some s \<Rightarrow> Some \<lparr>tr_accepted = True, tr_state = Some s, tr_code = None\<rparr>)
          else (case isRelayErrorCode (field v ''code'') of
              None \<Rightarrow> None
            | Some c \<Rightarrow>
                if accepted then None
                else if field v ''state'' = JNull then Some \<lparr>tr_accepted = accepted, tr_state = None, tr_code = Some c\<rparr>
                else (case isRelayGrantState (field v ''state'') of
                    None \<Rightarrow> None | Some s \<Rightarrow> Some \<lparr>tr_accepted = accepted, tr_state = Some s, tr_code = Some c\<rparr>)))"

definition RELAY_RESPONSE_META_KEYS :: "string list" where
  "RELAY_RESPONSE_META_KEYS =
     [''version'', ''requestId'', ''pool'', ''limit'', ''used'', ''remaining'', ''resetAt'', ''route'']"

definition parseRelayResponseMeta :: "json \<Rightarrow> response_meta option" where
  "parseRelayResponseMeta v =
     (if \<not> is_record v \<or> \<not> hasExactKeys v RELAY_RESPONSE_META_KEYS then None
      else if \<not> is_one (field v ''version'') \<or> field v ''route'' \<noteq> JStr ''responses'' then None
      else if \<not> is_string (field v ''requestId'') \<or> \<not> RELAY_REQUEST_ID_PATTERN (str_of_json (field v ''requestId'')) then None
      else case pool_of_json (field v ''pool'') of
        None \<Rightarrow> None
      | Some p \<Rightarrow>
          if \<not> isSafeInteger (field v ''limit'') \<or> \<not> isSafeInteger (field v ''used'') \<or> \<not> isSafeInteger (field v ''remaining'')
          then None
          else if \<not> is_string (field v ''resetAt'') \<or> \<not> RELAY_RESET_AT_PATTERN (str_of_json (field v ''resetAt'')) then None
          else Some \<lparr>rm_requestId = str_of_json (field v ''requestId''), rm_pool = p, rm_limit = num_of_json (field v ''limit''),
                 rm_used = num_of_json (field v ''used''), rm_remaining = num_of_json (field v ''remaining''),
                 rm_resetAt = str_of_json (field v ''resetAt'')\<rparr>)"

definition parseRelayInternalError :: "json \<Rightarrow> relay_error_code option" where
  "parseRelayInternalError v =
     (if \<not> is_record v \<or> \<not> hasExactKeys v [''version'', ''error''] then None
      else if \<not> is_one (field v ''version'') then None
      else if \<not> is_record (field v ''error'') \<or> \<not> hasExactKeys (field v ''error'') [''code''] then None
      else isRelayErrorCode (field (field v ''error'') ''code''))"

subsection \<open>Strictness\<close>

text \<open>\<open>v\<close> is a record with the same properties as \<open>w\<close>, in any order.\<close>

definition same_props :: "json \<Rightarrow> json \<Rightarrow> bool" where
  "same_props v w \<longleftrightarrow> is_record v \<and> (\<forall>k. js_get v k = js_get w k)"

lemma js_get_own: "is_record v \<Longrightarrow> js_get v k \<noteq> None \<longleftrightarrow> k \<in> set (own_keys v)"
  by (cases v) (auto simp: map_of_eq_None_iff)

lemma same_props_iff:
  assumes "distinct (own_keys v)" "distinct (map fst m)"
  shows "same_props v (JObj m) \<longleftrightarrow>
    is_record v \<and> hasExactKeys v (map fst m) \<and> list_all (\<lambda>kx. field v (fst kx) = snd kx) m"
proof (cases "is_record v")
  case rec: True
  show ?thesis
  proof
    assume s: "same_props v (JObj m)"
    then have g: "js_get v k = map_of m k" for k by (simp add: same_props_def)
    have "k \<in> set (own_keys v) \<longleftrightarrow> k \<in> set (map fst m)" for k
      using js_get_own[OF rec, of k] by (simp add: g map_of_eq_None_iff)
    then have "set (own_keys v) = set (map fst m)" by blast
    then have "hasExactKeys v (map fst m)" using assms rec by (simp add: hasExactKeys_sets)
    moreover have "field v (fst kx) = snd kx" if "kx \<in> set m" for kx
    proof -
      have "map_of m (fst kx) = Some (snd kx)" using that assms(2) by (intro map_of_is_SomeI) simp_all
      then show ?thesis by (simp add: field_def g)
    qed
    ultimately show "is_record v \<and> hasExactKeys v (map fst m) \<and> list_all (\<lambda>kx. field v (fst kx) = snd kx) m"
      using rec by (simp add: list_all_iff)
  next
    assume a: "is_record v \<and> hasExactKeys v (map fst m) \<and> list_all (\<lambda>kx. field v (fst kx) = snd kx) m"
    then have keys: "set (own_keys v) = set (map fst m)" using hasExactKeys_sets[OF assms rec] by blast
    have "js_get v k = map_of m k" for k
    proof (cases "map_of m k")
      case None
      then have "k \<notin> set (own_keys v)" using keys by (simp add: map_of_eq_None_iff)
      then have "js_get v k = None" using js_get_own[OF rec, of k] by blast
      then show ?thesis by (simp only: None)
    next
      case (Some x)
      then have m: "(k, x) \<in> set m" by (rule map_of_SomeD)
      then have "k \<in> set (own_keys v)" using keys by force
      then obtain y where y: "js_get v k = Some y" using js_get_own[OF rec, of k] by auto
      have "field v k = x" using a m by (auto simp: list_all_iff)
      then show ?thesis using Some y by (simp add: field_def)
    qed
    then show "same_props v (JObj m)" using rec by (simp add: same_props_def)
  qed
qed (simp add: same_props_def)

lemma isSafeNonNegativeInteger_iff: "isSafeNonNegativeInteger v \<longleftrightarrow> (\<exists>n. v = JNum (JsInt n) \<and> safe_int n \<and> 0 \<le> n)"
  by (cases v) (auto elim!: is_safe_integerE)

lemma isSafeInteger_iff: "isSafeInteger v \<longleftrightarrow> (\<exists>n. v = JNum (JsInt n) \<and> safe_int n)"
  by (cases v) (auto elim!: is_safe_integerE)

lemma isBoundedUtf8_iff: "isBoundedUtf8 v n \<longleftrightarrow> (\<exists>s. v = JStr s \<and> utf8_length s \<le> n)"
  by (cases v) simp_all

lemma is_string_iff: "is_string v \<longleftrightarrow> (\<exists>s. v = JStr s)"
  by (cases v) simp_all

lemma bool_of_json_iff: "bool_of_json v = Some b \<longleftrightarrow> v = JBool b"
  by (cases v) (simp_all add: bool_of_json_def)

lemma pool_of_json_iff: "pool_of_json v = Some p \<longleftrightarrow> v = JStr (pool_name_string p)"
  by (cases v) (auto simp: pool_of_json_def dest: parse_pool_name_SomeD)

lemma isGrantId_iff: "isGrantId v \<longleftrightarrow> (\<exists>s. v = JStr s \<and> RELAY_UUID_PATTERN s)"
  by (auto simp: isGrantId_def is_string_iff)

lemmas json_iff = isSafeNonNegativeInteger_iff isSafeInteger_iff isBoundedUtf8_iff is_string_iff bool_of_json_iff
  pool_of_json_iff isGrantId_iff is_one_def

declare isSafeNonNegativeInteger.simps [simp del]

text \<open>The JSON value of an envelope, as the other side writes it, and the values the protocol allows.\<close>

definition meta_json :: "request_meta \<Rightarrow> json" where
  "meta_json m = JObj
     [(''model'', JStr (m_model m)), (''estimatedInputTokens'', JNum (JsInt (m_estimatedInputTokens m))),
      (''maxOutputTokens'', JNum (JsInt (m_maxOutputTokens m))), (''inputBytes'', JNum (JsInt (m_inputBytes m))),
      (''rawBodyBytes'', JNum (JsInt (m_rawBodyBytes m))), (''isToolUse'', JBool (m_isToolUse m)), (''stream'', JBool (m_stream m))]"

definition valid_count :: "int \<Rightarrow> bool" where
  "valid_count n \<longleftrightarrow> safe_int n \<and> 0 \<le> n"

definition valid_meta :: "request_meta \<Rightarrow> bool" where
  "valid_meta m \<longleftrightarrow> utf8_length (m_model m) \<le> 256 \<and> m_model m \<noteq> [] \<and> valid_count (m_estimatedInputTokens m) \<and>
     valid_count (m_maxOutputTokens m) \<and> 0 \<le> m_inputBytes m \<and> m_inputBytes m \<le> RELAY_MAX_INGRESS_BODY_BYTES \<and>
     0 \<le> m_rawBodyBytes m \<and> m_rawBodyBytes m \<le> RELAY_MAX_INGRESS_BODY_BYTES"

lemma parseRelayRequestMeta_iff:
  assumes "distinct (own_keys v)"
  shows "parseRelayRequestMeta v = Some m \<longleftrightarrow> valid_meta m \<and> same_props v (meta_json m)"
proof -
  have keys: "map fst [(''model'', a), (''estimatedInputTokens'', b), (''maxOutputTokens'', c), (''inputBytes'', d),
      (''rawBodyBytes'', e), (''isToolUse'', f), (''stream'', g)] = RELAY_REQUEST_META_KEYS" for a b c d e f g :: json
    by (simp add: RELAY_REQUEST_META_KEYS_def)
  have safe: "0 \<le> n \<Longrightarrow> n \<le> RELAY_MAX_INGRESS_BODY_BYTES \<Longrightarrow> safe_int n" for n
    by (simp add: RELAY_MAX_INGRESS_BODY_BYTES_def safe_int_def MAX_SAFE_INTEGER_def)
  have "distinct RELAY_REQUEST_META_KEYS" by (simp add: RELAY_REQUEST_META_KEYS_def)
  then have s: "same_props v (meta_json m) \<longleftrightarrow> is_record v \<and> hasExactKeys v RELAY_REQUEST_META_KEYS \<and>
      field v ''model'' = JStr (m_model m) \<and> field v ''estimatedInputTokens'' = JNum (JsInt (m_estimatedInputTokens m)) \<and>
      field v ''maxOutputTokens'' = JNum (JsInt (m_maxOutputTokens m)) \<and> field v ''inputBytes'' = JNum (JsInt (m_inputBytes m)) \<and>
      field v ''rawBodyBytes'' = JNum (JsInt (m_rawBodyBytes m)) \<and> field v ''isToolUse'' = JBool (m_isToolUse m) \<and>
      field v ''stream'' = JBool (m_stream m)"
    unfolding meta_json_def by (subst same_props_iff[OF assms]; unfold keys) simp_all
  show ?thesis
  proof
    assume p: "parseRelayRequestMeta v = Some m"
    show "valid_meta m \<and> same_props v (meta_json m)"
      using p unfolding s parseRelayRequestMeta_def
      by (simp split: if_splits option.splits) (auto simp: json_iff valid_meta_def valid_count_def)
  next
    assume "valid_meta m \<and> same_props v (meta_json m)"
    then show "parseRelayRequestMeta v = Some m"
      unfolding s parseRelayRequestMeta_def
      by (simp add: json_iff valid_meta_def valid_count_def safe bool_of_json_def)
  qed
qed

definition terminal_json :: "relay_terminal \<Rightarrow> json" where
  "terminal_json t = JObj
     [(''version'', JNum (JsInt 1)), (''grantId'', JStr (t_grantId t)), (''leaseGeneration'', JStr (t_leaseGeneration t)),
      (''outcome'', JStr (case t_outcome t of Outcome_settle _ \<Rightarrow> ''settle'' | Outcome_uncertain \<Rightarrow> ''uncertain''
                          | Outcome_release \<Rightarrow> ''release'')),
      (''totalTokens'', case t_outcome t of Outcome_settle n \<Rightarrow> JNum (JsInt n) | _ \<Rightarrow> JNull)]"

definition valid_terminal :: "relay_terminal \<Rightarrow> bool" where
  "valid_terminal t \<longleftrightarrow> RELAY_UUID_PATTERN (t_grantId t) \<and> RELAY_UUID_PATTERN (t_leaseGeneration t) \<and>
     (case t_outcome t of Outcome_settle n \<Rightarrow> valid_count n | _ \<Rightarrow> True)"

lemma parseRelayTerminal_iff:
  assumes "distinct (own_keys v)"
  shows "parseRelayTerminal v = Some t \<longleftrightarrow> valid_terminal t \<and> same_props v (terminal_json t)"
proof -
  have keys: "map fst [(''version'', a), (''grantId'', b), (''leaseGeneration'', c), (''outcome'', d), (''totalTokens'', e)]
      = RELAY_TERMINAL_KEYS" for a b c d e :: json
    by (simp add: RELAY_TERMINAL_KEYS_def)
  have "distinct RELAY_TERMINAL_KEYS" by (simp add: RELAY_TERMINAL_KEYS_def)
  then have s: "same_props v (terminal_json t) \<longleftrightarrow> is_record v \<and> hasExactKeys v RELAY_TERMINAL_KEYS \<and>
      field v ''version'' = JNum (JsInt 1) \<and> field v ''grantId'' = JStr (t_grantId t) \<and>
      field v ''leaseGeneration'' = JStr (t_leaseGeneration t) \<and>
      field v ''outcome'' = JStr (case t_outcome t of Outcome_settle _ \<Rightarrow> ''settle'' | Outcome_uncertain \<Rightarrow> ''uncertain''
                          | Outcome_release \<Rightarrow> ''release'') \<and>
      field v ''totalTokens'' = (case t_outcome t of Outcome_settle n \<Rightarrow> JNum (JsInt n) | _ \<Rightarrow> JNull)"
    unfolding terminal_json_def by (subst same_props_iff[OF assms]; unfold keys) simp_all
  show ?thesis
  proof
    assume p: "parseRelayTerminal v = Some t"
    show "valid_terminal t \<and> same_props v (terminal_json t)"
      using p unfolding s parseRelayTerminal_def Let_def
      by (simp split: if_splits) (auto simp: json_iff valid_terminal_def valid_count_def)
  next
    assume "valid_terminal t \<and> same_props v (terminal_json t)"
    then show "parseRelayTerminal v = Some t"
      unfolding s parseRelayTerminal_def
      by (cases "t_outcome t") (simp_all add: json_iff valid_terminal_def valid_count_def)
  qed
qed

end
