(* ===== verification/Relay_Claims.thy ===== *)
theory Relay_Claims
  imports Relay_Parse
begin

section \<open>Relay_Claims: the signed claims\<close>

text \<open>
  packages/shared/src/relay-claims.ts: the context and grant credential claims and their strict parsers.
\<close>

subsection \<open>Claims\<close>

record relay_context =
  c_environment :: relay_environment
  c_requestId :: string
  c_clientId :: string
  c_idempotencyKeyHash :: "string option"
  c_nonce :: string
  c_issuedAtMs :: int
  c_expiresAtMs :: int

record grant_credential =
  k_environment :: relay_environment
  k_requestId :: string
  k_grantId :: string
  k_nonce :: string
  k_clientId :: string
  k_idempotencyKeyHash :: "string option"
  k_model :: string
  k_pool :: pool_name
  k_admissionUtcDay :: string
  k_leaseGeneration :: string
  k_issuedAtMs :: int
  k_expiresAtMs :: int

definition RELAY_CONTEXT_CLAIM_KEYS :: "string list" where
  "RELAY_CONTEXT_CLAIM_KEYS =
     [''version'', ''audience'', ''environment'', ''route'', ''requestId'', ''clientId'', ''idempotencyKeyHash'', ''nonce'',
      ''issuedAtMs'', ''expiresAtMs'']"

definition RELAY_GRANT_CLAIM_KEYS :: "string list" where
  "RELAY_GRANT_CLAIM_KEYS =
     [''version'', ''audience'', ''environment'', ''route'', ''requestId'', ''grantId'', ''nonce'', ''clientId'',
      ''idempotencyKeyHash'', ''model'', ''pool'', ''admissionUtcDay'', ''leaseGeneration'', ''issuedAtMs'', ''expiresAtMs'']"

text \<open>\<open>isIdempotencyKeyHash\<close> with the value it lets pass: null or 64 hex digits.\<close>

definition isIdempotencyKeyHash :: "json \<Rightarrow> string option option" where
  "isIdempotencyKeyHash v =
     (case v of JNull \<Rightarrow> Some None | JStr s \<Rightarrow> if RELAY_KEY_HASH_PATTERN s then Some (Some s) else None | _ \<Rightarrow> None)"

definition isRelayEnvironment :: "json \<Rightarrow> relay_environment option" where
  "isRelayEnvironment v = (case v of JStr s \<Rightarrow> parse_environment s | _ \<Rightarrow> None)"

definition isBoundedNonEmptyUtf8 :: "json \<Rightarrow> int \<Rightarrow> bool" where
  "isBoundedNonEmptyUtf8 v maxBytes \<longleftrightarrow> isBoundedUtf8 v maxBytes \<and> str_of_json v \<noteq> []"

definition parseRelayContext :: "json \<Rightarrow> relay_context option" where
  "parseRelayContext v =
     (if \<not> is_record v \<or> \<not> hasExactKeys v RELAY_CONTEXT_CLAIM_KEYS then None
      else if \<not> is_one (field v ''version'') then None
      else if field v ''audience'' \<noteq> JStr RELAY_CONTEXT_AUDIENCE \<or> field v ''route'' \<noteq> JStr ''responses'' then None
      else case isRelayEnvironment (field v ''environment'') of
        None \<Rightarrow> None
      | Some env \<Rightarrow>
          if \<not> is_string (field v ''requestId'') \<or> \<not> RELAY_REQUEST_ID_PATTERN (str_of_json (field v ''requestId'')) then None
          else if \<not> isBoundedNonEmptyUtf8 (field v ''clientId'') 128 then None
          else (case isIdempotencyKeyHash (field v ''idempotencyKeyHash'') of
            None \<Rightarrow> None
          | Some hash \<Rightarrow>
              if \<not> is_string (field v ''nonce'') \<or> \<not> RELAY_NONCE_PATTERN (str_of_json (field v ''nonce'')) then None
              else if \<not> isSafeNonNegativeInteger (field v ''issuedAtMs'') then None
              else if \<not> isSafeNonNegativeInteger (field v ''expiresAtMs'') then None
              else
                let lifetimeMs = num_of_json (field v ''expiresAtMs'') - num_of_json (field v ''issuedAtMs'')
                in if lifetimeMs \<le> 0 \<or> lifetimeMs > RELAY_MAX_CONTEXT_LIFETIME_MS then None
                   else Some \<lparr>c_environment = env, c_requestId = str_of_json (field v ''requestId''),
                          c_clientId = str_of_json (field v ''clientId''), c_idempotencyKeyHash = hash,
                          c_nonce = str_of_json (field v ''nonce''), c_issuedAtMs = num_of_json (field v ''issuedAtMs''),
                          c_expiresAtMs = num_of_json (field v ''expiresAtMs'')\<rparr>))"

definition parseRelayGrantCredential :: "json \<Rightarrow> grant_credential option" where
  "parseRelayGrantCredential v =
     (if \<not> is_record v \<or> \<not> hasExactKeys v RELAY_GRANT_CLAIM_KEYS then None
      else if \<not> is_one (field v ''version'') then None
      else if field v ''audience'' \<noteq> JStr RELAY_GRANT_AUDIENCE \<or> field v ''route'' \<noteq> JStr ''responses'' then None
      else case isRelayEnvironment (field v ''environment'') of
        None \<Rightarrow> None
      | Some env \<Rightarrow>
          if \<not> is_string (field v ''requestId'') \<or> \<not> RELAY_REQUEST_ID_PATTERN (str_of_json (field v ''requestId'')) then None
          else if \<not> is_string (field v ''grantId'') \<or> \<not> RELAY_UUID_PATTERN (str_of_json (field v ''grantId'')) then None
          else if \<not> is_string (field v ''nonce'') \<or> \<not> RELAY_NONCE_PATTERN (str_of_json (field v ''nonce'')) then None
          else if \<not> isBoundedNonEmptyUtf8 (field v ''clientId'') 128 then None
          else (case isIdempotencyKeyHash (field v ''idempotencyKeyHash'') of
            None \<Rightarrow> None
          | Some hash \<Rightarrow>
              if \<not> isBoundedNonEmptyUtf8 (field v ''model'') 256 then None
              else (case pool_of_json (field v ''pool'') of
                None \<Rightarrow> None
              | Some p \<Rightarrow>
                  if \<not> is_string (field v ''admissionUtcDay'')
                    \<or> \<not> RELAY_UTC_DAY_PATTERN (str_of_json (field v ''admissionUtcDay'')) then None
                  else if \<not> is_string (field v ''leaseGeneration'')
                    \<or> \<not> RELAY_UUID_PATTERN (str_of_json (field v ''leaseGeneration'')) then None
                  else if \<not> isSafeNonNegativeInteger (field v ''issuedAtMs'') then None
                  else if \<not> isSafeNonNegativeInteger (field v ''expiresAtMs'') then None
                  else if num_of_json (field v ''expiresAtMs'') - num_of_json (field v ''issuedAtMs'')
                    \<noteq> RELAY_GRANT_CREDENTIAL_TTL_MS then None
                  else Some \<lparr>k_environment = env, k_requestId = str_of_json (field v ''requestId''),
                         k_grantId = str_of_json (field v ''grantId''), k_nonce = str_of_json (field v ''nonce''),
                         k_clientId = str_of_json (field v ''clientId''), k_idempotencyKeyHash = hash,
                         k_model = str_of_json (field v ''model''), k_pool = p,
                         k_admissionUtcDay = str_of_json (field v ''admissionUtcDay''),
                         k_leaseGeneration = str_of_json (field v ''leaseGeneration''),
                         k_issuedAtMs = num_of_json (field v ''issuedAtMs''),
                         k_expiresAtMs = num_of_json (field v ''expiresAtMs'')\<rparr>)))"

subsection \<open>Strictness of the claims\<close>

definition hash_json :: "string option \<Rightarrow> json" where
  "hash_json h = (case h of None \<Rightarrow> JNull | Some s \<Rightarrow> JStr s)"

definition context_json :: "relay_context \<Rightarrow> json" where
  "context_json c = JObj
     [(''version'', JNum (JsInt 1)), (''audience'', JStr RELAY_CONTEXT_AUDIENCE),
      (''environment'', JStr (environment_name (c_environment c))), (''route'', JStr ''responses''),
      (''requestId'', JStr (c_requestId c)), (''clientId'', JStr (c_clientId c)),
      (''idempotencyKeyHash'', hash_json (c_idempotencyKeyHash c)), (''nonce'', JStr (c_nonce c)),
      (''issuedAtMs'', JNum (JsInt (c_issuedAtMs c))), (''expiresAtMs'', JNum (JsInt (c_expiresAtMs c)))]"

definition grant_claims_json :: "grant_credential \<Rightarrow> json" where
  "grant_claims_json c = JObj
     [(''version'', JNum (JsInt 1)), (''audience'', JStr RELAY_GRANT_AUDIENCE),
      (''environment'', JStr (environment_name (k_environment c))), (''route'', JStr ''responses''),
      (''requestId'', JStr (k_requestId c)), (''grantId'', JStr (k_grantId c)), (''nonce'', JStr (k_nonce c)),
      (''clientId'', JStr (k_clientId c)), (''idempotencyKeyHash'', hash_json (k_idempotencyKeyHash c)),
      (''model'', JStr (k_model c)), (''pool'', JStr (pool_name_string (k_pool c))),
      (''admissionUtcDay'', JStr (k_admissionUtcDay c)), (''leaseGeneration'', JStr (k_leaseGeneration c)),
      (''issuedAtMs'', JNum (JsInt (k_issuedAtMs c))), (''expiresAtMs'', JNum (JsInt (k_expiresAtMs c)))]"

definition valid_hash :: "string option \<Rightarrow> bool" where
  "valid_hash h \<longleftrightarrow> (case h of None \<Rightarrow> True | Some s \<Rightarrow> RELAY_KEY_HASH_PATTERN s)"

definition valid_context :: "relay_context \<Rightarrow> bool" where
  "valid_context c \<longleftrightarrow> RELAY_REQUEST_ID_PATTERN (c_requestId c) \<and> c_clientId c \<noteq> [] \<and> utf8_length (c_clientId c) \<le> 128 \<and>
     valid_hash (c_idempotencyKeyHash c) \<and> RELAY_NONCE_PATTERN (c_nonce c) \<and> valid_count (c_issuedAtMs c) \<and>
     valid_count (c_expiresAtMs c) \<and> c_issuedAtMs c < c_expiresAtMs c \<and>
     c_expiresAtMs c - c_issuedAtMs c \<le> RELAY_MAX_CONTEXT_LIFETIME_MS"

definition valid_credential :: "grant_credential \<Rightarrow> bool" where
  "valid_credential c \<longleftrightarrow> RELAY_REQUEST_ID_PATTERN (k_requestId c) \<and> RELAY_UUID_PATTERN (k_grantId c) \<and>
     RELAY_NONCE_PATTERN (k_nonce c) \<and> k_clientId c \<noteq> [] \<and> utf8_length (k_clientId c) \<le> 128 \<and>
     valid_hash (k_idempotencyKeyHash c) \<and> k_model c \<noteq> [] \<and> utf8_length (k_model c) \<le> 256 \<and>
     RELAY_UTC_DAY_PATTERN (k_admissionUtcDay c) \<and> RELAY_UUID_PATTERN (k_leaseGeneration c) \<and>
     valid_count (k_issuedAtMs c) \<and> valid_count (k_expiresAtMs c) \<and>
     k_expiresAtMs c - k_issuedAtMs c = RELAY_GRANT_CREDENTIAL_TTL_MS"

lemma isRelayEnvironment_iff: "isRelayEnvironment v = Some e \<longleftrightarrow> v = JStr (environment_name e)"
  by (cases v) (auto simp: isRelayEnvironment_def dest: parse_environment_SomeD)

lemma isIdempotencyKeyHash_iff: "isIdempotencyKeyHash v = Some h \<longleftrightarrow> v = hash_json h \<and> valid_hash h"
  by (cases v; cases h) (auto simp: isIdempotencyKeyHash_def hash_json_def valid_hash_def split: if_splits)

lemma isBoundedNonEmptyUtf8_iff: "isBoundedNonEmptyUtf8 v n \<longleftrightarrow> (\<exists>s. v = JStr s \<and> utf8_length s \<le> n \<and> s \<noteq> [])"
  by (cases v) (simp_all add: isBoundedNonEmptyUtf8_def)

lemmas claim_iff = json_iff isRelayEnvironment_iff isIdempotencyKeyHash_iff isBoundedNonEmptyUtf8_iff

lemma isRelayEnvironment_name [simp]: "isRelayEnvironment (JStr (environment_name e)) = Some e"
  by (simp add: isRelayEnvironment_iff)

lemma isIdempotencyKeyHash_json [simp]: "valid_hash h \<Longrightarrow> isIdempotencyKeyHash (hash_json h) = Some h"
  by (simp add: isIdempotencyKeyHash_iff)

lemma pool_of_json_name [simp]: "pool_of_json (JStr (pool_name_string p)) = Some p"
  by (simp add: pool_of_json_iff)

lemma parseRelayContext_iff:
  assumes "distinct (own_keys v)"
  shows "parseRelayContext v = Some c \<longleftrightarrow> valid_context c \<and> same_props v (context_json c)"
proof -
  have keys: "map fst [(''version'', a), (''audience'', b), (''environment'', d), (''route'', e), (''requestId'', f),
      (''clientId'', g), (''idempotencyKeyHash'', h), (''nonce'', i), (''issuedAtMs'', j), (''expiresAtMs'', k)]
      = RELAY_CONTEXT_CLAIM_KEYS" for a b d e f g h i j k :: json
    by (simp add: RELAY_CONTEXT_CLAIM_KEYS_def)
  have "distinct RELAY_CONTEXT_CLAIM_KEYS" by (simp add: RELAY_CONTEXT_CLAIM_KEYS_def)
  then have s: "same_props v (context_json c) \<longleftrightarrow> is_record v \<and> hasExactKeys v RELAY_CONTEXT_CLAIM_KEYS \<and>
      field v ''version'' = JNum (JsInt 1) \<and> field v ''audience'' = JStr RELAY_CONTEXT_AUDIENCE \<and>
      field v ''environment'' = JStr (environment_name (c_environment c)) \<and> field v ''route'' = JStr ''responses'' \<and>
      field v ''requestId'' = JStr (c_requestId c) \<and> field v ''clientId'' = JStr (c_clientId c) \<and>
      field v ''idempotencyKeyHash'' = hash_json (c_idempotencyKeyHash c) \<and> field v ''nonce'' = JStr (c_nonce c) \<and>
      field v ''issuedAtMs'' = JNum (JsInt (c_issuedAtMs c)) \<and> field v ''expiresAtMs'' = JNum (JsInt (c_expiresAtMs c))"
    unfolding context_json_def by (subst same_props_iff[OF assms]; unfold keys) simp_all
  show ?thesis
  proof
    assume p: "parseRelayContext v = Some c"
    show "valid_context c \<and> same_props v (context_json c)"
      using p unfolding s parseRelayContext_def Let_def
      by (simp split: if_splits option.splits) (auto simp: claim_iff valid_context_def valid_count_def)
  next
    assume "valid_context c \<and> same_props v (context_json c)"
    then show "parseRelayContext v = Some c"
      unfolding s parseRelayContext_def
      by (simp add: claim_iff valid_context_def valid_count_def)
  qed
qed

lemma parseRelayGrantCredential_iff:
  assumes "distinct (own_keys v)"
  shows "parseRelayGrantCredential v = Some c \<longleftrightarrow> valid_credential c \<and> same_props v (grant_claims_json c)"
proof -
  have keys: "map fst [(''version'', a), (''audience'', b), (''environment'', d), (''route'', e), (''requestId'', f),
      (''grantId'', f1), (''nonce'', i), (''clientId'', g), (''idempotencyKeyHash'', h), (''model'', f2), (''pool'', f3),
      (''admissionUtcDay'', f4), (''leaseGeneration'', f5), (''issuedAtMs'', j), (''expiresAtMs'', k)]
      = RELAY_GRANT_CLAIM_KEYS" for a b d e f g h i j k f1 f2 f3 f4 f5 :: json
    by (simp add: RELAY_GRANT_CLAIM_KEYS_def)
  have "distinct RELAY_GRANT_CLAIM_KEYS" by (simp add: RELAY_GRANT_CLAIM_KEYS_def)
  then have s: "same_props v (grant_claims_json c) \<longleftrightarrow> is_record v \<and> hasExactKeys v RELAY_GRANT_CLAIM_KEYS \<and>
      field v ''version'' = JNum (JsInt 1) \<and> field v ''audience'' = JStr RELAY_GRANT_AUDIENCE \<and>
      field v ''environment'' = JStr (environment_name (k_environment c)) \<and> field v ''route'' = JStr ''responses'' \<and>
      field v ''requestId'' = JStr (k_requestId c) \<and> field v ''grantId'' = JStr (k_grantId c) \<and>
      field v ''nonce'' = JStr (k_nonce c) \<and> field v ''clientId'' = JStr (k_clientId c) \<and>
      field v ''idempotencyKeyHash'' = hash_json (k_idempotencyKeyHash c) \<and> field v ''model'' = JStr (k_model c) \<and>
      field v ''pool'' = JStr (pool_name_string (k_pool c)) \<and> field v ''admissionUtcDay'' = JStr (k_admissionUtcDay c) \<and>
      field v ''leaseGeneration'' = JStr (k_leaseGeneration c) \<and> field v ''issuedAtMs'' = JNum (JsInt (k_issuedAtMs c)) \<and>
      field v ''expiresAtMs'' = JNum (JsInt (k_expiresAtMs c))"
    unfolding grant_claims_json_def by (subst same_props_iff[OF assms]; unfold keys) simp_all
  show ?thesis
  proof
    assume p: "parseRelayGrantCredential v = Some c"
    show "valid_credential c \<and> same_props v (grant_claims_json c)"
      using p unfolding s parseRelayGrantCredential_def
      by (simp split: if_splits option.splits) (auto simp: claim_iff valid_credential_def valid_count_def)
  next
    assume "valid_credential c \<and> same_props v (grant_claims_json c)"
    then show "parseRelayGrantCredential v = Some c"
      unfolding s parseRelayGrantCredential_def
      by (simp add: claim_iff valid_credential_def valid_count_def)
  qed
qed

end
