(* ===== verification/Relay_Routing.thy ===== *)
theory Relay_Routing
  imports Relay_Claims "HOL-Library.Word" "HOL-Library.More_List"
begin

section \<open>Relay_Routing: shards and the UTC day of a request id\<close>

text \<open>
  packages/shared/src/relay-routing.ts.  The shard is the FNV-1a hash of the UTF-16 code units on
  32-bit words; the UTC day is read from the ULID timestamp of the request id.
\<close>

unbundle bit_operations_syntax

subsection \<open>Code points and code units\<close>

text \<open>\<open>for (const character of s)\<close> visits the code points; a lone surrogate is one of its own.\<close>

function code_points :: "nat list \<Rightarrow> nat list" where
  "code_points s =
     (case s of [] \<Rightarrow> []
      | a # r \<Rightarrow>
          if a < 128 then a # code_points r
          else if a < 224 then ((a - 192) * 64 + (nth_default 128 r 0 - 128)) # code_points (drop 1 r)
          else if a < 240 then
            ((a - 224) * 4096 + (nth_default 128 r 0 - 128) * 64 + (nth_default 128 r 1 - 128)) # code_points (drop 2 r)
          else ((a - 240) * 262144 + (nth_default 128 r 0 - 128) * 4096 + (nth_default 128 r 1 - 128) * 64
                + (nth_default 128 r 2 - 128)) # code_points (drop 3 r))"
  by pat_completeness auto
termination
  by (relation "measure length") auto

declare code_points.simps [simp del]

lemma code_points_ascii: "list_all (\<lambda>a. a < 128) ns \<Longrightarrow> code_points ns = ns"
  by (induction ns) (subst code_points.simps, simp)+

definition utf16_units :: "nat \<Rightarrow> nat list" where
  "utf16_units cp =
     (if cp < 65536 then [cp] else [55296 + (cp - 65536) div 1024, 56320 + (cp - 65536) mod 1024])"

subsection \<open>Shards\<close>

definition FNV_OFFSET_BASIS :: "32 word" where "FNV_OFFSET_BASIS = 2166136261"
definition FNV_PRIME :: "32 word" where "FNV_PRIME = 16777619"
definition SHARD_MASK :: "32 word" where "SHARD_MASK = 63"

text \<open>\<open>Math.imul(hash ^ unit, FNV_PRIME) >>> 0\<close>.\<close>

definition fnv_step :: "32 word \<Rightarrow> nat \<Rightarrow> 32 word" where
  "fnv_step hash u = (hash XOR of_nat u) * FNV_PRIME"

text \<open>The body of the loop: one code point, split into its surrogates above the basic plane.\<close>

definition shard_step :: "32 word \<Rightarrow> nat \<Rightarrow> 32 word" where
  "shard_step hash codePoint =
     (if codePoint > 0xffff then
        let scalar = of_nat (codePoint - 0x10000) :: 32 word;
            h1 = (hash XOR (0xd800 + (drop_bit 10 scalar))) * FNV_PRIME
        in (h1 XOR (0xdc00 + (scalar AND 0x3ff))) * FNV_PRIME
      else (hash XOR of_nat codePoint) * FNV_PRIME)"

definition relayShardIndex :: "string \<Rightarrow> string" where
  "relayShardIndex requestId =
     pad2 (uint (foldl shard_step FNV_OFFSET_BASIS (code_points (codes requestId)) AND SHARD_MASK))"

definition relayDecisionShardName :: "relay_environment \<Rightarrow> string \<Rightarrow> string" where
  "relayDecisionShardName env requestId =
     ''relay-decision:v1:'' @ environment_name env @ '':'' @ relayShardIndex requestId"

definition relayGrantLifecycleShardName :: "relay_environment \<Rightarrow> string \<Rightarrow> string" where
  "relayGrantLifecycleShardName env requestId =
     ''relay-grant-lifecycle:v1:'' @ environment_name env @ '':'' @ relayShardIndex requestId"

lemma shard_step_units:
  assumes "cp < 1114112"
  shows "shard_step h cp = foldl fnv_step h (utf16_units cp)"
proof (cases "cp < 65536")
  case True
  then show ?thesis by (simp add: shard_step_def fnv_step_def utf16_units_def)
next
  case False
  define k where "k = cp - 65536"
  have k: "k < 1048576" using assms False by (simp add: k_def)
  have u: "unat (of_nat k :: 32 word) = k" using k by (simp add: unat_of_nat)
  have "drop_bit 10 (of_nat k :: 32 word) = of_nat (k div 1024)"
    by (rule word_unat_eq_iff[THEN iffD2]) (use k in \<open>simp add: drop_bit_eq_div unat_div u unat_of_nat\<close>)
  moreover have "(of_nat k :: 32 word) AND 0x3ff = of_nat (k mod 1024)"
  proof -
    have m: "(0x3ff :: 32 word) = mask 10" by (simp add: mask_eq_exp_minus_1)
    show ?thesis unfolding m and_mask_bintr
      by (rule word_uint_eq_iff[THEN iffD2]) (use k in \<open>simp add: take_bit_eq_mod uint_word_of_int unsigned_of_nat zmod_int\<close>)
  qed
  ultimately show ?thesis using False
    by (simp add: shard_step_def fnv_step_def utf16_units_def Let_def flip: k_def)
qed

lemma foldl_shard_units:
  "list_all (\<lambda>cp. cp < 1114112) cps \<Longrightarrow> foldl shard_step h cps = foldl fnv_step h (concat (map utf16_units cps))"
  by (induction cps arbitrary: h) (simp_all add: shard_step_units)

lemma uint_and_63: "0 \<le> uint (w AND SHARD_MASK) \<and> uint (w AND SHARD_MASK) < 64"
proof -
  have "w AND SHARD_MASK = w AND mask 6" by (simp add: SHARD_MASK_def mask_eq_exp_minus_1)
  then show ?thesis using and_mask_less'[of 6 w] by (simp add: word_less_def)
qed

subsection \<open>The day of a request id\<close>

definition CROCKFORD_BASE32 :: string where
  "CROCKFORD_BASE32 = ''0123456789ABCDEFGHJKMNPQRSTVWXYZ''"

text \<open>\<open>CROCKFORD_BASE32.indexOf(c)\<close>, \<open>-1\<close> when absent.\<close>

fun index_of :: "char \<Rightarrow> string \<Rightarrow> int" where
  "index_of c [] = -1"
| "index_of c (d # ds) = (if c = d then 0 else let i = index_of c ds in if i < 0 then -1 else i + 1)"

definition MAX_ULID_TIMESTAMP :: int where
  "MAX_ULID_TIMESTAMP = 281474976710655"

fun ulid_timestamp :: "int \<Rightarrow> string \<Rightarrow> int option" where
  "ulid_timestamp acc [] = Some acc"
| "ulid_timestamp acc (c # cs) =
     (let digit = index_of c CROCKFORD_BASE32
      in if digit < 0 then None else ulid_timestamp (acc * 32 + digit) cs)"

text \<open>A time stamp up to the limit is a valid time, so the finiteness test of the code never fails.\<close>

definition relayRequestUtcDayOf :: "string \<Rightarrow> string option" where
  "relayRequestUtcDayOf requestId =
     (if \<not> RELAY_REQUEST_ID_PATTERN requestId then None
      else
        let encoded = take 10 (drop 4 requestId)
        in if index_of (hd encoded) CROCKFORD_BASE32 > 7 then None
           else case ulid_timestamp 0 encoded of
             None \<Rightarrow> None
           | Some timestamp \<Rightarrow>
               if \<not> safe_int timestamp \<or> timestamp > MAX_ULID_TIMESTAMP then None
               else (case civil_of_day (timestamp div MS_PER_DAY) of
                  (y, m, d) \<Rightarrow> if y > 9999 then None else Some (pad4 y @ ''-'' @ pad2 m @ ''-'' @ pad2 d)))"

lemma year_of_day_nonneg: "0 \<le> n \<Longrightarrow> 1970 \<le> year_of_day n"
proof (rule ccontr)
  assume n: "0 \<le> n" and "\<not> 1970 \<le> year_of_day n"
  then have "day_from_year (year_of_day n + 1) \<le> day_from_year 1970" by (intro day_from_year_mono) simp
  moreover have "day_from_year 1970 = 0" by (simp add: day_from_year_def)
  ultimately show False using year_of_day_bounds(2)[of n] n by simp
qed

lemma index_of_crockford: "index_of c CROCKFORD_BASE32 < 32" "-1 \<le> index_of c CROCKFORD_BASE32"
proof -
  have "index_of c s < int (length s) \<and> -1 \<le> index_of c s" for s
    by (induction s) (auto simp: Let_def)
  from this[of CROCKFORD_BASE32] show "index_of c CROCKFORD_BASE32 < 32" "-1 \<le> index_of c CROCKFORD_BASE32"
    by (simp_all add: CROCKFORD_BASE32_def)
qed

lemma ulid_timestamp_nonneg: "ulid_timestamp acc s = Some t \<Longrightarrow> 0 \<le> acc \<Longrightarrow> 0 \<le> t"
  by (induction s arbitrary: acc) (auto simp: Let_def split: if_splits)

text \<open>The shard of a request id is the FNV-1a hash over its UTF-16 code units modulo 64, written with two
  digits; so both kinds of shard name take one of 64 values.\<close>

lemma relayShardIndex_fnv1a:
  assumes "list_all (\<lambda>cp. cp < 1114112) (code_points (codes s))"
  shows "relayShardIndex s =
      pad2 (uint (foldl fnv_step FNV_OFFSET_BASIS (concat (map utf16_units (code_points (codes s))))) mod 64) \<and>
    relayShardIndex s \<in> pad2 ` {0..63}"
proof -
  define h where "h = foldl fnv_step FNV_OFFSET_BASIS (concat (map utf16_units (code_points (codes s))))"
  have m: "h AND SHARD_MASK = h AND mask 6" by (simp add: SHARD_MASK_def mask_eq_exp_minus_1)
  have "uint (h AND SHARD_MASK) = uint h mod 64"
    unfolding m by (simp add: and_mask_bintr take_bit_eq_mod uint_word_of_int)
  moreover have "relayShardIndex s = pad2 (uint (h AND SHARD_MASK))"
    by (simp add: relayShardIndex_def h_def foldl_shard_units[OF assms])
  ultimately show ?thesis using uint_and_63[of h] by (auto simp: h_def)
qed

theorem relayShardIndex_fnv1a_witness:
  "relayShardIndex ''req_01ARZ3NDEKTSV4RRFFQ69G5FAV'' \<in> pad2 ` {0..63}"
proof -
  let ?s = "''req_01ARZ3NDEKTSV4RRFFQ69G5FAV''"
  have a: "list_all (\<lambda>a. a < 128) (codes ?s)" by (simp add: codes_def)
  then have "list_all (\<lambda>cp. cp < 1114112) (code_points (codes ?s))"
    unfolding code_points_ascii[OF a] by (rule list.pred_mono_strong) simp
  from relayShardIndex_fnv1a[OF this] show ?thesis by blast
qed

text \<open>The UTC day of a request id is the day that \<open>utcDayOf\<close> gives for the ULID's time stamp, and it is
  undefined only for ids of another form, time stamps that do not fit 48 bits, and years past 9999.\<close>

lemma relayRequestUtcDayOf_is_utc_day:
  "relayRequestUtcDayOf s = Some d \<longleftrightarrow>
     RELAY_REQUEST_ID_PATTERN s \<and> index_of (s ! 4) CROCKFORD_BASE32 \<le> 7 \<and>
     (\<exists>t. ulid_timestamp 0 (take 10 (drop 4 s)) = Some t \<and> t \<le> MAX_ULID_TIMESTAMP \<and>
          year_of_day (t div MS_PER_DAY) \<le> 9999 \<and> d = utc_day_of t)"
proof (cases "RELAY_REQUEST_ID_PATTERN s")
  case False
  then show ?thesis by (simp add: relayRequestUtcDayOf_def)
next
  case True
  then have "length s = 30" using matches_length[of _ s] by (auto simp: RELAY_REQUEST_ID_PATTERN_def)
  then have h: "hd (take 10 (drop 4 s)) = s ! 4" by (simp add: hd_drop_conv_nth)
  have day: "(case civil_of_day (t div MS_PER_DAY) of (y, m, d) \<Rightarrow> if y > 9999 then None else Some (pad4 y @ ''-'' @ pad2 m @ ''-'' @ pad2 d))
      = (if year_of_day (t div MS_PER_DAY) \<le> 9999 then Some (utc_day_of t) else None)" if "0 \<le> t" for t
  proof -
    obtain y m d where c: "civil_of_day (t div MS_PER_DAY) = (y, m, d)" by (metis prod_cases3)
    have "0 \<le> t div MS_PER_DAY" using that by (simp add: MS_PER_DAY_def pos_imp_zdiv_nonneg_iff)
    then have "1970 \<le> y" using year_of_day_nonneg day_of_civil_of_day(3)[OF c] by simp
    then show ?thesis
      using utc_day_of_digits[of t] day_of_civil_of_day(3)[OF c] by (auto simp: c day_digits_def year_digits_def)
  qed
  have safe: "safe_int t" if "0 \<le> t" "t \<le> MAX_ULID_TIMESTAMP" for t
    using that by (simp add: safe_int_def MAX_SAFE_INTEGER_def MAX_ULID_TIMESTAMP_def)
  show ?thesis
  proof (cases "ulid_timestamp 0 (take 10 (drop 4 s))")
    case None
    then show ?thesis using True h by (simp add: relayRequestUtcDayOf_def Let_def)
  next
    case (Some t)
    then have t: "0 \<le> t" using ulid_timestamp_nonneg by force
    show ?thesis using True h Some t safe[OF t] day[OF t]
      by (auto simp: relayRequestUtcDayOf_def Let_def split: if_splits)
  qed
qed

end
