(* ===== verification/Quota_Store.thy ===== *)
theory Quota_Store
  imports Relay_Routing
begin

section \<open>Quota_Store: the records of the quota controller and its storage\<close>

text \<open>
  The types of packages/shared/src/types.ts and of the relay grant, and
  durable-objects/quota-controller/src/store.ts and relay-config.ts.  The storage of one controller is
  a record with one field per key or key prefix.  The prefixes of the code differ in their first letters
  up to the colon, so two fields never share a key.  An operation takes the store, the clock and the fresh identifiers it draws and gives its
  result with the new store, or the error it throws; a throw inside a transaction leaves the store.
  Log output is not modelled.  Counters are exact integers: they are doubles in the code, and exact
  there while they stay below \<open>2^53\<close>.
\<close>

subsection \<open>Requests\<close>

datatype request_state = Req_reserved | Req_settled | Req_uncertain | Req_reconciled | Req_released

datatype uncertainty_origin = Upstream_uncertain | Reserve_unknown

datatype disposition = Consumed | Unused

datatype reserve_result =
    Reserve_ok int string
  | Reserve_insufficient int string
  | Reserve_duplicate string string

text \<open>\<open>SettleResult\<close>, \<open>MarkUncertainResult\<close> and \<open>ReleaseResult\<close> are the same type.\<close>

datatype ok_result = Ok_result | Unknown_request

datatype mark_unknown_result = Mark_unknown_ok bool | Mark_unknown_no_request

datatype reconcile_result = Reconcile_ok bool

record rpc_results =
  res_reserve :: "reserve_result option"
  res_settle :: "ok_result option"
  res_markUncertain :: "ok_result option"
  res_markReserveOutcomeUnknown :: "mark_unknown_result option"
  res_release :: "ok_result option"
  res_reconcile :: "reconcile_result option"

record request_entry =
  e_idempotencyKey :: "string option"
  e_state :: request_state
  e_tokens :: int
  e_upperBoundTokens :: int
  e_reservedTokens :: int
  e_requestedDisposition :: "disposition option"
  e_uncertaintyOrigin :: "uncertainty_origin option"
  e_actualTokens :: "int option"
  e_results :: rpc_results
  e_createdAt :: string
  e_updatedAt :: string

record in_flight_lease =
  l_requestId :: string
  l_generation :: string
  l_expiresAtMs :: int

text \<open>The stored leases: the old list of request ids, or version 1 with leases.\<close>

datatype in_flight_state = Legacy_in_flight "string list" | Lease_state "in_flight_lease list"

record unresolved_state =
  uncertainCount :: int
  reservedCount :: int

subsection \<open>Relay grants\<close>

record grant_admission =
  ad_contextIssuedAtMs :: int
  ad_contextExpiresAtMs :: int
  ad_metadata :: request_meta
  ad_reservedTokens :: int
  ad_upperBoundTokens :: int
  ad_maxOutputTokens :: int
  ad_cacheEnabled :: bool

record relay_grant =
  gr_requestId :: string
  gr_grantId :: string
  gr_leaseGeneration :: string
  gr_environment :: relay_environment
  gr_clientId :: string
  gr_idempotencyKeyHash :: "string option"
  gr_nonce :: string
  gr_model :: string
  gr_pool :: pool_name
  gr_admissionUtcDay :: string
  gr_state :: grant_state
  gr_issuedAtMs :: int
  gr_authorizationExpiresAtMs :: int
  gr_credentialExpiresAtMs :: int
  gr_retentionDeadlineMs :: int
  gr_admission :: grant_admission
  gr_terminalReport :: "relay_terminal option"
  gr_terminalFingerprint :: "string option"

subsection \<open>The CPU-gate slot\<close>

record slot_owner =
  so_pool :: pool_name
  so_requestId :: string

datatype slot_state = Slot_idle | Slot_held slot_owner int | Slot_closing slot_owner int

subsection \<open>The storage\<close>

record quota_store =
  st_pool :: "pool_state option"
  st_entries :: "request_entry kv"
  st_idem :: "string kv"
  st_unresolved :: "unresolved_state option"
  st_finalized :: bool
  st_in_flight :: "in_flight_state option"
  st_grants :: "relay_grant kv"
  st_fences :: "bool kv"
  st_slot :: "slot_state option"
  st_slot_generation :: "int option"

definition empty_store :: quota_store where
  "empty_store = \<lparr>st_pool = None, st_entries = [], st_idem = [], st_unresolved = None, st_finalized = False,
     st_in_flight = None, st_grants = [], st_fences = [], st_slot = None, st_slot_generation = None\<rparr>"

record quota_env =
  QUOTA_LIMIT_STANDARD :: "string option"
  QUOTA_LIMIT_MINI :: "string option"
  MAX_IN_FLIGHT_REQUESTS :: "string option"
  OCTG_RELAY_ENVIRONMENT :: "string option"
  CPU_GATE_STANDARD_CLIENT_ID :: "string option"
  CPU_GATE_STANDARD_MODEL :: "string option"
  CPU_GATE_MINI_CLIENT_ID :: "string option"
  CPU_GATE_MINI_MODEL :: "string option"

record quota_identity =
  i_pool :: pool_name
  i_utcDay :: string

text \<open>\<open>nextUtcMidnight(new Date(day + "T00:00:00Z"))\<close>: writing an invalid date throws.\<close>

definition reset_at :: "string \<Rightarrow> string throws" where
  "reset_at day = (case parse_utc_day day of None \<Rightarrow> Inl (RangeError ''Invalid time value'') | Some ms \<Rightarrow> Inr (next_utc_midnight ms))"

definition resolveLimit :: "quota_env \<Rightarrow> pool_name \<Rightarrow> int" where
  "resolveLimit env p =
     (let raw = (if p = STANDARD then QUOTA_LIMIT_STANDARD env else QUOTA_LIMIT_MINI env);
          configured = js_number_opt raw
      in if map_option js_trim raw \<noteq> Some [] \<and> is_safe_integer configured \<and> 0 \<le> the_int configured
         then the_int configured else POOL_LIMITS p)"

definition loadPool :: "quota_store \<Rightarrow> quota_env \<Rightarrow> quota_identity \<Rightarrow> int \<Rightarrow> pool_state" where
  "loadPool st env identity now =
     (case st_pool st of
        Some stored \<Rightarrow> stored
      | None \<Rightarrow> \<lparr>utcDay = i_utcDay identity, limit = resolveLimit env (i_pool identity), confirmedTokens = 0,
                 reservedTokens = 0, uncertainTokens = 0, requestCount = 0, updatedAt = to_iso_string now\<rparr>)"

definition savePool :: "int \<Rightarrow> pool_state \<Rightarrow> quota_store \<Rightarrow> quota_store" where
  "savePool now state st = st\<lparr>st_pool := Some (state\<lparr>updatedAt := to_iso_string now\<rparr>)\<rparr>"

definition getEntry :: "quota_store \<Rightarrow> string \<Rightarrow> request_entry option" where
  "getEntry st requestId = kv_get (st_entries st) requestId"

definition putEntry :: "int \<Rightarrow> string \<Rightarrow> request_entry \<Rightarrow> quota_store \<Rightarrow> quota_store" where
  "putEntry now requestId entry st =
     st\<lparr>st_entries := kv_put requestId (entry\<lparr>e_updatedAt := to_iso_string now\<rparr>) (st_entries st)\<rparr>"

text \<open>The key after the prefix: \<open>(clientId ?? "legacy") + ":" + idempotencyKey\<close>.\<close>

definition idem_key :: "string option \<Rightarrow> string \<Rightarrow> string" where
  "idem_key clientId key = (case clientId of None \<Rightarrow> ''legacy'' | Some c \<Rightarrow> c) @ '':'' @ key"

definition getIdempotencyRequestId :: "quota_store \<Rightarrow> string \<Rightarrow> string option \<Rightarrow> string option" where
  "getIdempotencyRequestId st key clientId = kv_get (st_idem st) (idem_key clientId key)"

definition putIdempotencyRequestId :: "string \<Rightarrow> string \<Rightarrow> string option \<Rightarrow> quota_store \<Rightarrow> quota_store" where
  "putIdempotencyRequestId key requestId clientId st =
     st\<lparr>st_idem := kv_put (idem_key clientId key) requestId (st_idem st)\<rparr>"

definition loadUnresolved :: "quota_store \<Rightarrow> unresolved_state" where
  "loadUnresolved st = (case st_unresolved st of Some u \<Rightarrow> u | None \<Rightarrow> \<lparr>uncertainCount = 0, reservedCount = 0\<rparr>)"

definition saveUnresolved :: "unresolved_state \<Rightarrow> quota_store \<Rightarrow> quota_store" where
  "saveUnresolved u st = st\<lparr>st_unresolved := Some u\<rparr>"

definition loadInFlight :: "quota_store \<Rightarrow> in_flight_state" where
  "loadInFlight st = (case st_in_flight st of Some s \<Rightarrow> s | None \<Rightarrow> Legacy_in_flight [])"

definition saveInFlight :: "in_flight_lease list \<Rightarrow> quota_store \<Rightarrow> quota_store" where
  "saveInFlight leases st = st\<lparr>st_in_flight := Some (Lease_state leases)\<rparr>"

definition getRelayGrant :: "quota_store \<Rightarrow> string \<Rightarrow> relay_grant option" where
  "getRelayGrant st requestId = kv_get (st_grants st) requestId"

definition putRelayGrant :: "relay_grant \<Rightarrow> quota_store \<Rightarrow> quota_store" where
  "putRelayGrant grant st = st\<lparr>st_grants := kv_put (gr_requestId grant) grant (st_grants st)\<rparr>"

subsection \<open>Configuration\<close>

definition resolveMaxInFlightRequests :: "string option \<Rightarrow> int" where
  "resolveMaxInFlightRequests value =
     (let parsed = js_number_opt value
      in if is_safe_integer parsed \<and> 0 < the_int parsed then the_int parsed else 2)"

text \<open>\<open>clientId && model\<close>: both present and non-empty.\<close>

definition resolveCpuGateFixtureIdentity :: "quota_env \<Rightarrow> pool_name \<Rightarrow> (string \<times> string) option" where
  "resolveCpuGateFixtureIdentity env p =
     (let clientId = (if p = STANDARD then CPU_GATE_STANDARD_CLIENT_ID env else CPU_GATE_MINI_CLIENT_ID env);
          model = (if p = STANDARD then CPU_GATE_STANDARD_MODEL env else CPU_GATE_MINI_MODEL env)
      in case (clientId, model) of
           (Some c, Some m) \<Rightarrow> if c \<noteq> [] \<and> m \<noteq> [] then Some (c, m) else None
         | _ \<Rightarrow> None)"

lemma resolveMaxInFlightRequests_pos: "0 < resolveMaxInFlightRequests v"
  by (simp add: resolveMaxInFlightRequests_def Let_def)

lemma resolveLimit_nonneg: "0 \<le> resolveLimit env p"
  by (cases p) (simp_all add: resolveLimit_def Let_def POOL_LIMITS_def)

subsection \<open>Reading after writing\<close>

lemma loadPool_simps [store_simps]:
  "loadPool (savePool now p st) env i n = p\<lparr>updatedAt := to_iso_string now\<rparr>"
  "loadPool (putEntry now r e st) env i n = loadPool st env i n"
  "loadPool (putIdempotencyRequestId k r c st) env i n = loadPool st env i n"
  "loadPool (saveUnresolved u st) env i n = loadPool st env i n"
  "loadPool (saveInFlight ls st) env i n = loadPool st env i n"
  "loadPool (putRelayGrant g st) env i n = loadPool st env i n"
  by (simp_all add: loadPool_def savePool_def putEntry_def putIdempotencyRequestId_def saveUnresolved_def
      saveInFlight_def putRelayGrant_def)

lemma getEntry_simps [store_simps]:
  "getEntry (savePool now p st) r = getEntry st r"
  "getEntry (putEntry now r' e st) r = (if r' = r then Some (e\<lparr>e_updatedAt := to_iso_string now\<rparr>) else getEntry st r)"
  "getEntry (putIdempotencyRequestId k r' c st) r = getEntry st r"
  "getEntry (saveUnresolved u st) r = getEntry st r"
  "getEntry (saveInFlight ls st) r = getEntry st r"
  "getEntry (putRelayGrant g st) r = getEntry st r"
  by (simp_all add: getEntry_def savePool_def putEntry_def putIdempotencyRequestId_def saveUnresolved_def
      saveInFlight_def putRelayGrant_def)

lemma getRelayGrant_simps [store_simps]:
  "getRelayGrant (savePool now p st) r = getRelayGrant st r"
  "getRelayGrant (putEntry now r' e st) r = getRelayGrant st r"
  "getRelayGrant (putIdempotencyRequestId k r' c st) r = getRelayGrant st r"
  "getRelayGrant (saveUnresolved u st) r = getRelayGrant st r"
  "getRelayGrant (saveInFlight ls st) r = getRelayGrant st r"
  "getRelayGrant (putRelayGrant g st) r = (if gr_requestId g = r then Some g else getRelayGrant st r)"
  by (simp_all add: getRelayGrant_def savePool_def putEntry_def putIdempotencyRequestId_def saveUnresolved_def
      saveInFlight_def putRelayGrant_def)

lemma loadInFlight_simps [store_simps]:
  "loadInFlight (savePool now p st) = loadInFlight st"
  "loadInFlight (putEntry now r' e st) = loadInFlight st"
  "loadInFlight (putIdempotencyRequestId k r' c st) = loadInFlight st"
  "loadInFlight (saveUnresolved u st) = loadInFlight st"
  "loadInFlight (saveInFlight ls st) = Lease_state ls"
  "loadInFlight (putRelayGrant g st) = loadInFlight st"
  by (simp_all add: loadInFlight_def savePool_def putEntry_def putIdempotencyRequestId_def saveUnresolved_def
      saveInFlight_def putRelayGrant_def)

lemma getIdempotencyRequestId_simps [store_simps]:
  "getIdempotencyRequestId (savePool now p st) k c = getIdempotencyRequestId st k c"
  "getIdempotencyRequestId (putEntry now r' e st) k c = getIdempotencyRequestId st k c"
  "getIdempotencyRequestId (putIdempotencyRequestId k' r' c' st) k c =
     (if idem_key c' k' = idem_key c k then Some r' else getIdempotencyRequestId st k c)"
  "getIdempotencyRequestId (saveUnresolved u st) k c = getIdempotencyRequestId st k c"
  "getIdempotencyRequestId (saveInFlight ls st) k c = getIdempotencyRequestId st k c"
  "getIdempotencyRequestId (putRelayGrant g st) k c = getIdempotencyRequestId st k c"
  by (simp_all add: getIdempotencyRequestId_def savePool_def putEntry_def putIdempotencyRequestId_def saveUnresolved_def
      saveInFlight_def putRelayGrant_def)

lemma st_field_simps [store_simps]:
  "st_pool (putEntry now r e st) = st_pool st" "st_pool (savePool now p st) = Some (p\<lparr>updatedAt := to_iso_string now\<rparr>)"
  "st_pool (putIdempotencyRequestId k r c st) = st_pool st" "st_pool (saveUnresolved u st) = st_pool st"
  "st_pool (saveInFlight ls st) = st_pool st" "st_pool (putRelayGrant g st) = st_pool st"
  "st_entries (savePool now p st) = st_entries st"
  "st_entries (putEntry now r e st) = kv_put r (e\<lparr>e_updatedAt := to_iso_string now\<rparr>) (st_entries st)"
  "st_entries (putIdempotencyRequestId k r c st) = st_entries st" "st_entries (saveUnresolved u st) = st_entries st"
  "st_entries (saveInFlight ls st) = st_entries st" "st_entries (putRelayGrant g st) = st_entries st"
  "st_idem (savePool now p st) = st_idem st" "st_idem (putEntry now r e st) = st_idem st"
  "st_idem (putIdempotencyRequestId k r c st) = kv_put (idem_key c k) r (st_idem st)"
  "st_idem (saveUnresolved u st) = st_idem st" "st_idem (saveInFlight ls st) = st_idem st"
  "st_idem (putRelayGrant g st) = st_idem st"
  "st_unresolved (savePool now p st) = st_unresolved st" "st_unresolved (putEntry now r e st) = st_unresolved st"
  "st_unresolved (putIdempotencyRequestId k r c st) = st_unresolved st" "st_unresolved (saveUnresolved u st) = Some u"
  "st_unresolved (saveInFlight ls st) = st_unresolved st" "st_unresolved (putRelayGrant g st) = st_unresolved st"
  "st_finalized (savePool now p st) = st_finalized st" "st_finalized (putEntry now r e st) = st_finalized st"
  "st_finalized (putIdempotencyRequestId k r c st) = st_finalized st" "st_finalized (saveUnresolved u st) = st_finalized st"
  "st_finalized (saveInFlight ls st) = st_finalized st" "st_finalized (putRelayGrant g st) = st_finalized st"
  by (simp_all add: savePool_def putEntry_def putIdempotencyRequestId_def saveUnresolved_def saveInFlight_def putRelayGrant_def)

lemma st_other_simps [store_simps]:
  "st_fences (savePool now p st) = st_fences st" "st_fences (putEntry now r e st) = st_fences st" "st_fences (putIdempotencyRequestId k r c st) = st_fences st"
  "st_fences (saveUnresolved u st) = st_fences st" "st_fences (saveInFlight ls st) = st_fences st" "st_fences (putRelayGrant g st) = st_fences st"
  "st_slot (savePool now p st) = st_slot st" "st_slot (putEntry now r e st) = st_slot st" "st_slot (putIdempotencyRequestId k r c st) = st_slot st"
  "st_slot (saveUnresolved u st) = st_slot st" "st_slot (saveInFlight ls st) = st_slot st" "st_slot (putRelayGrant g st) = st_slot st"
  "st_slot_generation (savePool now p st) = st_slot_generation st" "st_slot_generation (putEntry now r e st) = st_slot_generation st" "st_slot_generation (putIdempotencyRequestId k r c st) = st_slot_generation st"
  "st_slot_generation (saveUnresolved u st) = st_slot_generation st" "st_slot_generation (saveInFlight ls st) = st_slot_generation st" "st_slot_generation (putRelayGrant g st) = st_slot_generation st"
  "st_grants (savePool now p st) = st_grants st" "st_grants (putEntry now r e st) = st_grants st" "st_grants (putIdempotencyRequestId k r c st) = st_grants st" "st_grants (saveUnresolved u st) = st_grants st" "st_grants (saveInFlight ls st) = st_grants st"
  "st_in_flight (savePool now p st) = st_in_flight st" "st_in_flight (putEntry now r e st) = st_in_flight st" "st_in_flight (putIdempotencyRequestId k r c st) = st_in_flight st" "st_in_flight (saveUnresolved u st) = st_in_flight st" "st_in_flight (putRelayGrant g st) = st_in_flight st"
  by (simp_all add: savePool_def putEntry_def putIdempotencyRequestId_def saveUnresolved_def saveInFlight_def putRelayGrant_def)

lemma loadUnresolved_simps [store_simps]:
  "loadUnresolved (savePool now p st) = loadUnresolved st"
  "loadUnresolved (putEntry now r' e st) = loadUnresolved st"
  "loadUnresolved (putIdempotencyRequestId k r' c st) = loadUnresolved st"
  "loadUnresolved (saveUnresolved u st) = u"
  "loadUnresolved (saveInFlight ls st) = loadUnresolved st"
  "loadUnresolved (putRelayGrant g st) = loadUnresolved st"
  by (simp_all add: loadUnresolved_def store_simps)

end
