(* ===== verification/Leases.thy ===== *)
theory Leases
  imports Quota_Store
begin

section \<open>Leases: in-flight leases with generations\<close>

text \<open>
  The lease operations of durable-objects/quota-controller/src/store.ts.  Removing or renewing a lease
  by identity touches the first lease of the request, which is the one \<open>find\<close> returned.
  The lemmas show the capacity bound, the fencing by generation and the migration of old states.
\<close>

definition DEFAULT_IN_FLIGHT_LEASE_TTL_MS :: int where
  "DEFAULT_IN_FLIGHT_LEASE_TTL_MS = 120000"

definition LEGACY_PREFIX :: string where
  "LEGACY_PREFIX = ''legacy:''"

datatype acquire_result = Acquired in_flight_lease | Concurrency_exceeded
datatype renew_result = Renewed in_flight_lease | Lease_not_found | Stale_generation
datatype release_lease_result = Lease_release bool

definition expiresAtMs :: "jsnum \<Rightarrow> int \<Rightarrow> int throws" where
  "expiresAtMs ttlMs nowMs =
     (if \<not> is_safe_integer ttlMs \<or> the_int ttlMs \<le> 0
      then Inl (TypeError ''In-flight lease TTL must be a positive safe integer.'')
      else let expiresAt = nowMs + the_int ttlMs
           in if \<not> safe_int expiresAt then Inl (TypeError ''In-flight lease expiry must be a safe integer.'')
              else Inr expiresAt)"

text \<open>\<open>state.map(...)\<close> with a function that may throw.\<close>

fun legacy_leases :: "string list \<Rightarrow> int \<Rightarrow> in_flight_lease list throws" where
  "legacy_leases [] nowMs = Inr []"
| "legacy_leases (r # rs) nowMs =
     (case expiresAtMs (JsInt DEFAULT_IN_FLIGHT_LEASE_TTL_MS) nowMs of
        Inl e \<Rightarrow> Inl e
      | Inr t \<Rightarrow>
          (case legacy_leases rs nowMs of
             Inl e \<Rightarrow> Inl e
           | Inr ls \<Rightarrow> Inr (\<lparr>l_requestId = r, l_generation = LEGACY_PREFIX @ r, l_expiresAtMs = t\<rparr> # ls)))"

text \<open>The leases and whether they were migrated.\<close>

definition normalizeInFlightState :: "in_flight_state \<Rightarrow> int \<Rightarrow> (in_flight_lease list \<times> bool) throws" where
  "normalizeInFlightState state nowMs =
     (case state of
        Lease_state leases \<Rightarrow> Inr (leases, False)
      | Legacy_in_flight rs \<Rightarrow>
          (case legacy_leases rs nowMs of Inl e \<Rightarrow> Inl e | Inr ls \<Rightarrow> Inr (ls, True)))"

definition withoutExpiredLeases :: "in_flight_lease list \<Rightarrow> int \<Rightarrow> in_flight_lease list" where
  "withoutExpiredLeases leases nowMs = filter (\<lambda>l. l_expiresAtMs l > nowMs) leases"

definition lease_of :: "string \<Rightarrow> in_flight_lease list \<Rightarrow> in_flight_lease option" where
  "lease_of requestId leases = find (\<lambda>l. l_requestId l = requestId) leases"

definition acquireInFlightLease ::
  "int \<Rightarrow> string \<Rightarrow> string \<Rightarrow> jsnum \<Rightarrow> jsnum \<Rightarrow> quota_store \<Rightarrow> (acquire_result \<times> quota_store) throws" where
  "acquireInFlightLease nowMs uuid requestId limit' ttlMs st =
     (if \<not> is_safe_integer limit' \<or> the_int limit' \<le> 0
      then Inl (TypeError ''In-flight limit must be a positive safe integer.'')
      else case normalizeInFlightState (loadInFlight st) nowMs of Inl e \<Rightarrow> Inl e
      | Inr (leases, migrated) \<Rightarrow>
          (case expiresAtMs ttlMs nowMs of Inl e \<Rightarrow> Inl e
           | Inr leaseExpiresAtMs \<Rightarrow>
               let activeLeases = withoutExpiredLeases leases nowMs;
                   st1 = (if migrated \<or> length activeLeases \<noteq> length leases then saveInFlight activeLeases st else st)
               in case lease_of requestId activeLeases of
                    Some activeLease \<Rightarrow> Inr (Acquired activeLease, st1)
                  | None \<Rightarrow>
                      if int (length activeLeases) \<ge> the_int limit' then Inr (Concurrency_exceeded, st1)
                      else let lease = \<lparr>l_requestId = requestId, l_generation = uuid, l_expiresAtMs = leaseExpiresAtMs\<rparr>
                           in Inr (Acquired lease, saveInFlight (activeLeases @ [lease]) st1)))"

definition renewInFlightLease ::
  "int \<Rightarrow> string \<Rightarrow> string \<Rightarrow> jsnum \<Rightarrow> quota_store \<Rightarrow> (renew_result \<times> quota_store) throws" where
  "renewInFlightLease nowMs requestId generation ttlMs st =
     (case normalizeInFlightState (loadInFlight st) nowMs of Inl e \<Rightarrow> Inl e
      | Inr (leases, migrated) \<Rightarrow>
          (case expiresAtMs ttlMs nowMs of Inl e \<Rightarrow> Inl e
           | Inr leaseExpiresAtMs \<Rightarrow>
               let activeLeases = withoutExpiredLeases leases nowMs;
                   st1 = (if migrated \<or> length activeLeases \<noteq> length leases then saveInFlight activeLeases st else st)
               in case lease_of requestId activeLeases of
                    None \<Rightarrow> Inr (Lease_not_found, st1)
                  | Some activeLease \<Rightarrow>
                      if l_generation activeLease \<noteq> generation then Inr (Stale_generation, st1)
                      else let renewed = activeLease\<lparr>l_expiresAtMs := leaseExpiresAtMs\<rparr>
                           in Inr (Renewed renewed,
                                   saveInFlight (replace_first (\<lambda>l. l_requestId l = requestId) renewed activeLeases) st1)))"

definition releaseInFlightLease ::
  "int \<Rightarrow> string \<Rightarrow> string option \<Rightarrow> quota_store \<Rightarrow> (release_lease_result \<times> quota_store) throws" where
  "releaseInFlightLease nowMs requestId generation st =
     (case normalizeInFlightState (loadInFlight st) nowMs of Inl e \<Rightarrow> Inl e
      | Inr (leases, migrated) \<Rightarrow>
          let activeLeases = withoutExpiredLeases leases nowMs;
              canRelease = (case lease_of requestId activeLeases of
                  None \<Rightarrow> False
                | Some l \<Rightarrow>
                    (case generation of None \<Rightarrow> take (length LEGACY_PREFIX) (l_generation l) = LEGACY_PREFIX
                     | Some g \<Rightarrow> l_generation l = g));
              retained = (if canRelease then remove_first (\<lambda>l. l_requestId l = requestId) activeLeases else activeLeases)
          in Inr (Lease_release canRelease,
                  if migrated \<or> length retained \<noteq> length leases then saveInFlight retained st else st))"

subsection \<open>The leases in force\<close>

text \<open>What the operations see as active at a time; an unreadable old state has none.\<close>

definition active_leases :: "int \<Rightarrow> quota_store \<Rightarrow> in_flight_lease list" where
  "active_leases nowMs st =
     (case normalizeInFlightState (loadInFlight st) nowMs of Inl _ \<Rightarrow> [] | Inr (ls, _) \<Rightarrow> withoutExpiredLeases ls nowMs)"

lemma withoutExpired_idem [simp]: "withoutExpiredLeases (withoutExpiredLeases ls n) n = withoutExpiredLeases ls n"
  by (simp add: withoutExpiredLeases_def)

lemma remove_first_same: "length (remove_first p xs) = length xs \<Longrightarrow> remove_first p xs = xs"
  by (induction xs) (auto split: if_splits)

lemma withoutExpired_length:
  "length (withoutExpiredLeases ls n) = length ls \<Longrightarrow> withoutExpiredLeases ls n = ls"
  unfolding withoutExpiredLeases_def by (rule filter_absorb)

lemma active_leases_saved [simp]: "active_leases n (saveInFlight ls st) = withoutExpiredLeases ls n"
  by (simp add: active_leases_def normalizeInFlightState_def store_simps)

text \<open>The leases after the purge that every operation makes are the active ones.\<close>

lemma purge_active:
  assumes "normalizeInFlightState (loadInFlight st) n = Inr (ls, mig)"
  shows "active_leases n (if mig \<or> length (withoutExpiredLeases ls n) \<noteq> length ls
           then saveInFlight (withoutExpiredLeases ls n) st else st) = withoutExpiredLeases ls n"
    and "active_leases n st = withoutExpiredLeases ls n"
proof -
  show a: "active_leases n st = withoutExpiredLeases ls n" using assms by (simp add: active_leases_def)
  show "active_leases n (if mig \<or> length (withoutExpiredLeases ls n) \<noteq> length ls
           then saveInFlight (withoutExpiredLeases ls n) st else st) = withoutExpiredLeases ls n"
    using a by simp
qed

lemma lease_of_SomeD: "lease_of r ls = Some l \<Longrightarrow> l \<in> set ls \<and> l_requestId l = r"
  unfolding lease_of_def by (rule find_SomeD)

lemma lease_of_None: "lease_of r ls = None \<longleftrightarrow> (\<forall>l \<in> set ls. l_requestId l \<noteq> r)"
  by (auto simp: lease_of_def find_None_iff)

lemma expiresAtMs_future: "expiresAtMs ttl n = Inr t \<Longrightarrow> n < t"
  by (auto simp: expiresAtMs_def Let_def split: if_splits)

text \<open>What an operation leaves of the store besides the leases.\<close>

definition same_but_leases :: "quota_store \<Rightarrow> quota_store \<Rightarrow> bool" where
  "same_but_leases st st' \<longleftrightarrow> (\<exists>x. st' = st\<lparr>st_in_flight := x\<rparr>)"

lemma same_but_leases_refl [simp, intro]: "same_but_leases st st"
  unfolding same_but_leases_def by (rule exI[of _ "st_in_flight st"]) simp

lemma same_but_leases_save [simp, intro]: "same_but_leases st st' \<Longrightarrow> same_but_leases st (saveInFlight ls st')"
  by (auto simp: same_but_leases_def saveInFlight_def)

lemma same_but_leases_fields:
  assumes "same_but_leases st st'"
  shows "st_pool st' = st_pool st" "st_entries st' = st_entries st" "st_idem st' = st_idem st"
    "st_unresolved st' = st_unresolved st" "st_finalized st' = st_finalized st" "st_grants st' = st_grants st"
    "st_fences st' = st_fences st" "st_slot st' = st_slot st" "st_slot_generation st' = st_slot_generation st"
  using assms by (auto simp: same_but_leases_def)

lemma lease_ops_same:
  "acquireInFlightLease n u r l t st = Inr (a, st') \<Longrightarrow> same_but_leases st st'"
  "renewInFlightLease n r g t st = Inr (b, st') \<Longrightarrow> same_but_leases st st'"
  "releaseInFlightLease n r go st = Inr (c, st') \<Longrightarrow> same_but_leases st st'"
  by (auto simp: acquireInFlightLease_def renewInFlightLease_def releaseInFlightLease_def Let_def
      split: if_splits sum.splits prod.splits option.splits)

text \<open>The three operations on the active leases.\<close>

lemma acquire_active:
  assumes "acquireInFlightLease n uuid r lm ttl st = Inr (res, st')"
  shows "(case res of
      Concurrency_exceeded \<Rightarrow> lease_of r (active_leases n st) = None
        \<and> the_int lm \<le> int (length (active_leases n st)) \<and> active_leases n st' = active_leases n st
    | Acquired l \<Rightarrow>
        if lease_of r (active_leases n st) \<noteq> None
        then lease_of r (active_leases n st) = Some l \<and> active_leases n st' = active_leases n st
        else l_requestId l = r \<and> l_generation l = uuid \<and> active_leases n st' = active_leases n st @ [l]
          \<and> int (length (active_leases n st')) \<le> the_int lm)"
proof -
  obtain ls mig t where n: "normalizeInFlightState (loadInFlight st) n = Inr (ls, mig)" "expiresAtMs ttl n = Inr t"
    using assms by (auto simp: acquireInFlightLease_def split: if_splits sum.splits prod.splits)
  note p = purge_active[OF n(1)]
  define act where "act = withoutExpiredLeases ls n"
  have idem: "withoutExpiredLeases act n = act" by (simp add: act_def)
  define st1 where "st1 = (if mig \<or> length act \<noteq> length ls then saveInFlight act st else st)"
  have r: "Inr (res, st') = (case lease_of r act of Some l \<Rightarrow> Inr (Acquired l, st1)
      | None \<Rightarrow> if int (length act) \<ge> the_int lm then Inr (Concurrency_exceeded, st1)
          else Inr (Acquired \<lparr>l_requestId = r, l_generation = uuid, l_expiresAtMs = t\<rparr>,
                    saveInFlight (act @ [\<lparr>l_requestId = r, l_generation = uuid, l_expiresAtMs = t\<rparr>]) st1))"
    using assms n by (simp add: acquireInFlightLease_def Let_def act_def st1_def split: if_splits option.splits)
  have s1: "active_leases n st1 = act" using p(1) unfolding st1_def act_def .
  have new: "withoutExpiredLeases (act @ [\<lparr>l_requestId = r, l_generation = uuid, l_expiresAtMs = t\<rparr>]) n
      = act @ [\<lparr>l_requestId = r, l_generation = uuid, l_expiresAtMs = t\<rparr>]"
    using idem expiresAtMs_future[OF n(2)] by (simp add: withoutExpiredLeases_def)
  show ?thesis
    unfolding p(2) act_def[symmetric]
    using r s1 new by (auto split: option.splits if_splits)
qed

lemma renew_active:
  assumes "renewInFlightLease n r g ttl st = Inr (res, st')"
  shows "(case res of
      Lease_not_found \<Rightarrow> lease_of r (active_leases n st) = None \<and> active_leases n st' = active_leases n st
    | Stale_generation \<Rightarrow> (\<exists>l. lease_of r (active_leases n st) = Some l \<and> l_generation l \<noteq> g) \<and> active_leases n st' = active_leases n st
    | Renewed l' \<Rightarrow> (\<exists>l t. lease_of r (active_leases n st) = Some l \<and> l_generation l = g \<and> l' = l\<lparr>l_expiresAtMs := t\<rparr> \<and> n < t
        \<and> active_leases n st' = replace_first (\<lambda>l. l_requestId l = r) l' (active_leases n st)))"
proof -
  obtain ls mig t where n: "normalizeInFlightState (loadInFlight st) n = Inr (ls, mig)" "expiresAtMs ttl n = Inr t"
    using assms by (auto simp: renewInFlightLease_def split: if_splits sum.splits prod.splits)
  note p = purge_active[OF n(1)]
  define act where "act = withoutExpiredLeases ls n"
  define st1 where "st1 = (if mig \<or> length act \<noteq> length ls then saveInFlight act st else st)"
  have r: "(case lease_of r act of None \<Rightarrow> Inr (Lease_not_found, st1)
      | Some l \<Rightarrow> if l_generation l \<noteq> g then Inr (Stale_generation, st1)
          else Inr (Renewed (l\<lparr>l_expiresAtMs := t\<rparr>),
                    saveInFlight (replace_first (\<lambda>l. l_requestId l = r) (l\<lparr>l_expiresAtMs := t\<rparr>) act) st1))
      = (Inr (res, st') :: (renew_result \<times> quota_store) throws)"
    using assms unfolding renewInFlightLease_def
    by (simp only: n Let_def sum.case prod.case flip: act_def st1_def)
  have s1: "active_leases n st1 = act" using p(1) unfolding st1_def act_def .
  have live: "l_expiresAtMs l > n" if "l \<in> set act" for l using that by (simp add: act_def withoutExpiredLeases_def)
  have keep: "withoutExpiredLeases (replace_first P x act) n = replace_first P x act" if "l_expiresAtMs x > n" for P x
  proof -
    have "list_all (\<lambda>l. l_expiresAtMs l > n) (replace_first P x act)"
      using live that set_replace_first[of P x act] by (auto simp: list_all_iff)
    then show ?thesis by (simp add: withoutExpiredLeases_def list_all_iff filter_id_conv)
  qed
  show ?thesis
    unfolding p(2) act_def[symmetric]
    using r s1 keep expiresAtMs_future[OF n(2)]
    by (cases "lease_of r act") (auto split: if_splits)
qed

lemma release_active:
  assumes "releaseInFlightLease n r g st = Inr (Lease_release ok, st')"
  shows "ok \<longleftrightarrow> (\<exists>l. lease_of r (active_leases n st) = Some l \<and>
           (case g of None \<Rightarrow> take (length LEGACY_PREFIX) (l_generation l) = LEGACY_PREFIX | Some g' \<Rightarrow> l_generation l = g'))"
    and "active_leases n st' = (if ok then remove_first (\<lambda>l. l_requestId l = r) (active_leases n st) else active_leases n st)"
proof -
  obtain ls mig where n: "normalizeInFlightState (loadInFlight st) n = Inr (ls, mig)"
    using assms by (auto simp: releaseInFlightLease_def split: sum.splits prod.splits)
  note p = purge_active[OF n]
  define act where "act = withoutExpiredLeases ls n"
  define can where "can = (case lease_of r act of None \<Rightarrow> False
     | Some l \<Rightarrow> (case g of None \<Rightarrow> take (length LEGACY_PREFIX) (l_generation l) = LEGACY_PREFIX | Some g' \<Rightarrow> l_generation l = g'))"
  define ret where "ret = (if can then remove_first (\<lambda>l. l_requestId l = r) act else act)"
  have "Inr (Lease_release can, if mig \<or> length ret \<noteq> length ls then saveInFlight ret st else st) = (Inr (Lease_release ok, st') :: (release_lease_result \<times> quota_store) throws)"
    using assms unfolding releaseInFlightLease_def
    by (simp only: n Let_def sum.case prod.case flip: act_def) (simp only: flip: can_def ret_def)
  then have r: "ok = can" "st' = (if mig \<or> length ret \<noteq> length ls then saveInFlight ret st else st)"
    by simp_all
  show "ok \<longleftrightarrow> (\<exists>l. lease_of r (active_leases n st) = Some l \<and>
      (case g of None \<Rightarrow> take (length LEGACY_PREFIX) (l_generation l) = LEGACY_PREFIX | Some g' \<Rightarrow> l_generation l = g'))"
    unfolding p(2) act_def[symmetric] by (simp add: r can_def split: option.split)
  have live: "withoutExpiredLeases ret n = ret"
  proof -
    have "set ret \<subseteq> set act" using set_remove_first[of "\<lambda>l. l_requestId l = r" act] by (auto simp: ret_def)
    then have "\<forall>l \<in> set ret. l_expiresAtMs l > n" by (auto simp: act_def withoutExpiredLeases_def)
    then show ?thesis by (simp add: withoutExpiredLeases_def filter_id_conv)
  qed
  have len: "length ret \<le> length act" using length_remove_first[of _ act] by (simp add: ret_def)
  have "active_leases n st' = ret"
  proof (cases "mig \<or> length ret \<noteq> length ls")
    case True
    then show ?thesis using live by (simp add: r)
  next
    case False
    have "length act \<le> length ls" by (simp add: act_def withoutExpiredLeases_def)
    with False len have "length act = length ls" "length ret = length act" by simp_all
    then have "act = ls" using withoutExpired_length[of ls n] by (simp add: act_def)
    moreover have "ret = act"
      using \<open>length ret = length act\<close> remove_first_same[of "\<lambda>l. l_requestId l = r" act] by (simp add: ret_def split: if_splits)
    ultimately have "act = ls" "ret = act" by simp_all
    then show ?thesis using False p(2) by (simp add: r act_def)
  qed
  then show "active_leases n st' = (if ok then remove_first (\<lambda>l. l_requestId l = r) (active_leases n st) else active_leases n st)"
    unfolding p(2) by (simp add: r ret_def act_def)
qed

end
