(* ===== verification/Credential.thy ===== *)
theory Credential
  imports Relay_Routing "HOL-Library.List_Lexorder"
begin

section \<open>Credential: signed relay tokens\<close>

text \<open>
  packages/shared/src/relay-credential.ts: base64url without padding, canonical JSON of the claims,
  constant-time comparisons, signing and verifying.  Bytes are characters; HMAC-SHA-256 is the argument
  \<open>hmac\<close> (key and message to mac).  The cache of the imported key only saves the import and is not
  modelled.  The theorems: decoding inverts encoding and accepts no second spelling, and a token
  verifies exactly when it is the one that signing its claims gives.
\<close>

subsection \<open>base64url\<close>

definition BASE64URL_ALPHABET :: string where
  "BASE64URL_ALPHABET = ''ABCDEFGHIJKLMNOPQRSTUVWXYZabcdefghijklmnopqrstuvwxyz0123456789-_''"

definition BASE64_ALPHABET :: string where
  "BASE64_ALPHABET = ''ABCDEFGHIJKLMNOPQRSTUVWXYZabcdefghijklmnopqrstuvwxyz0123456789+/''"

definition b64 :: "nat \<Rightarrow> char" where
  "b64 n = BASE64_ALPHABET ! n"

text \<open>The standard \<open>btoa\<close>.\<close>

fun btoa :: "string \<Rightarrow> string" where
  "btoa [] = []"
| "btoa [a] = (let x = of_char a in [b64 (x div 4), b64 (x mod 4 * 16), CHR ''='', CHR ''=''])"
| "btoa [a, b] = (let x = of_char a; y = of_char b in
     [b64 (x div 4), b64 (x mod 4 * 16 + y div 16), b64 (y mod 16 * 4), CHR ''=''])"
| "btoa (a # b # c # s) = (let x = of_char a; y = of_char b; z = of_char c in
     [b64 (x div 4), b64 (x mod 4 * 16 + y div 16), b64 (y mod 16 * 4 + z div 64), b64 (z mod 64)] @ btoa s)"

definition replaceAll :: "char \<Rightarrow> string \<Rightarrow> string \<Rightarrow> string" where
  "replaceAll c r s = concat (map (\<lambda>d. if d = c then r else [d]) s)"

definition encodeBase64UrlNoPadding :: "string \<Rightarrow> string" where
  "encodeBase64UrlNoPadding bytes =
     replaceAll (CHR ''='') [] (replaceAll (CHR ''/'') ''_'' (replaceAll (CHR ''+'') ''-'' (btoa bytes)))"

definition base64url_reverse :: "char \<Rightarrow> nat option" where
  "base64url_reverse c = (let i = index_of c BASE64URL_ALPHABET in if i < 0 then None else Some (nat i))"

text \<open>
  The loop of the decoder.  \<open>accumulated\<close> stays below \<open>2^14\<close>, so the shifts lose no bits: \<open>(a << 6) | v\<close> is
  \<open>64 a + v\<close>, \<open>(a >>> n) & 0xff\<close> is the quotient modulo 256 and \<open>a & ((1 << n) - 1)\<close> the remainder.
\<close>

fun base64_loop :: "nat \<Rightarrow> nat \<Rightarrow> string \<Rightarrow> string \<Rightarrow> (nat \<times> nat \<times> string) option" where
  "base64_loop acc bits out [] = Some (acc, bits, out)"
| "base64_loop acc bits out (c # cs) =
     (case base64url_reverse c of
        None \<Rightarrow> None
      | Some v \<Rightarrow>
          let acc1 = acc * 64 + v; bits1 = bits + 6
          in if 8 \<le> bits1
             then base64_loop (acc1 mod 2 ^ (bits1 - 8)) (bits1 - 8) (out @ [char_of (acc1 div 2 ^ (bits1 - 8) mod 256)]) cs
             else base64_loop acc1 bits1 out cs)"

definition decodeBase64UrlNoPadding :: "string \<Rightarrow> string option" where
  "decodeBase64UrlNoPadding text =
     (if utf16_length text mod 4 = 1 then None
      else case base64_loop 0 0 [] text of
        None \<Rightarrow> None
      | Some (acc, bits, out) \<Rightarrow> if 0 < bits \<and> acc \<noteq> 0 then None else Some out)"

subsection \<open>Canonical JSON\<close>

definition code_units :: "string \<Rightarrow> nat list" where
  "code_units s = concat (map utf16_units (code_points (codes s)))"

text \<open>The first error of a list of results, or all values.\<close>

fun collect :: "'a throws list \<Rightarrow> 'a list throws" where
  "collect [] = Inr []"
| "collect (Inl e # rs) = Inl e"
| "collect (Inr x # rs) = (case collect rs of Inl e \<Rightarrow> Inl e | Inr xs \<Rightarrow> Inr (x # xs))"

definition canonical_member :: "string \<times> string throws \<Rightarrow> string throws" where
  "canonical_member kv = (case snd kv of Inl e \<Rightarrow> Inl e | Inr t \<Rightarrow> Inr (escapeCanonicalJsonString (fst kv) @ CHR '':'' # t))"

definition canonical_record :: "(string \<times> string throws) list \<Rightarrow> string throws" where
  "canonical_record entries =
     (case collect (map canonical_member (sort_key (\<lambda>kv. code_units (fst kv)) entries)) of
        Inl e \<Rightarrow> Inl e
      | Inr members \<Rightarrow> Inr (CHR 0x7B # join '','' members @ [CHR 0x7D]))"

fun serializeCanonicalJson :: "json \<Rightarrow> string throws" where
  "serializeCanonicalJson JNull = Inr ''null''"
| "serializeCanonicalJson (JStr s) = Inr (escapeCanonicalJsonString s)"
| "serializeCanonicalJson (JBool b) = Inr (if b then ''true'' else ''false'')"
| "serializeCanonicalJson (JNum x) =
     (if \<not> is_safe_integer x then Inl (PlainError ''relay claims must be safe integers'') else Inr (int_string (the_int x)))"
| "serializeCanonicalJson (JObj m) = canonical_record (map (map_prod id serializeCanonicalJson) m)"
| "serializeCanonicalJson (JArr xs) =
     Inl (PlainError ''relay claims support only JSON record, string, number, boolean, and null values'')"

subsection \<open>Comparisons\<close>

text \<open>
  The loops accumulate the exclusive or of the elements by \<open>|\<close>; the elements are below \<open>2^16\<close>.
\<close>

fun difference :: "nat list \<Rightarrow> nat list \<Rightarrow> nat" where
  "difference (a # as) (b # bs) = (a XOR b) OR difference as bs"
| "difference (a # as) [] = (a XOR 0) OR difference as []"
| "difference [] (b # bs) = (0 XOR b) OR difference [] bs"
| "difference [] [] = 0"

definition constantTimeBytesEqual :: "string \<Rightarrow> string \<Rightarrow> bool" where
  "constantTimeBytesEqual a b \<longleftrightarrow> (length a XOR length b) OR difference (codes a) (codes b) = 0"

definition constantTimeHexEqual :: "string \<Rightarrow> string \<Rightarrow> bool" where
  "constantTimeHexEqual expected presented \<longleftrightarrow>
     (if length (code_units expected) \<noteq> length (code_units presented) then False
      else difference (code_units expected) (code_units presented) = 0)"

definition compareRelayBearerConstantTime :: "string \<Rightarrow> string \<Rightarrow> bool" where
  "compareRelayBearerConstantTime expected presented \<longleftrightarrow>
     constantTimeBytesEqual (utf8_encode expected) (utf8_encode presented)"

definition decodeRelayContextHmacKey :: "string \<Rightarrow> string option" where
  "decodeRelayContextHmacKey encoded =
     (case decodeBase64UrlNoPadding encoded of
        None \<Rightarrow> None | Some d \<Rightarrow> if length d \<noteq> 32 then None else Some d)"

subsection \<open>Tokens\<close>

definition RELAY_CONTEXT_PURPOSE :: string where "RELAY_CONTEXT_PURPOSE = ''octg-relay-context-v1''"
definition RELAY_GRANT_PURPOSE :: string where "RELAY_GRANT_PURPOSE = ''octg-relay-grant-v1''"

definition computeRelayMac :: "(string \<Rightarrow> string \<Rightarrow> string) \<Rightarrow> string \<Rightarrow> string \<Rightarrow> string \<Rightarrow> string" where
  "computeRelayMac hmac key purposeBytes payloadBytes = hmac key (purposeBytes @ CHR 0x00 # payloadBytes)"

definition signRelayToken :: "(string \<Rightarrow> string \<Rightarrow> string) \<Rightarrow> json \<Rightarrow> string \<Rightarrow> string \<Rightarrow> string throws" where
  "signRelayToken hmac claims key purposeBytes =
     (case serializeCanonicalJson claims of
        Inl e \<Rightarrow> Inl e
      | Inr canonical \<Rightarrow>
          let payloadBytes = utf8_encode canonical;
              macBytes = computeRelayMac hmac key purposeBytes payloadBytes
          in Inr (encodeBase64UrlNoPadding payloadBytes @ CHR ''.'' # encodeBase64UrlNoPadding macBytes))"

text \<open>\<open>token.split(".")\<close>.\<close>

fun split_at :: "char \<Rightarrow> string \<Rightarrow> string list" where
  "split_at c [] = [[]]"
| "split_at c (d # ds) =
     (if d = c then [] # split_at c ds
      else case split_at c ds of [] \<Rightarrow> [[d]] | p # ps \<Rightarrow> (d # p) # ps)"

text \<open>The claims parser and the writer of the parsed claims are the token kind's; a claims value that cannot
  be written again would throw, which no parsed value does.\<close>

definition verifyRelayToken ::
  "(string \<Rightarrow> string \<Rightarrow> string) \<Rightarrow> string \<Rightarrow> string \<Rightarrow> string \<Rightarrow> (json \<Rightarrow> 'c option) \<Rightarrow> ('c \<Rightarrow> json) \<Rightarrow> 'c option throws" where
  "verifyRelayToken hmac token key purposeBytes parseClaims claimsJson =
     (if utf16_length token > RELAY_MAX_CONTEXT_HEADER_BYTES then Inr None
      else case split_at (CHR ''.'') token of
        [payloadPart, macPart] \<Rightarrow>
          if payloadPart = [] \<or> macPart = [] then Inr None
          else (case (decodeBase64UrlNoPadding payloadPart, decodeBase64UrlNoPadding macPart) of
            (Some payloadBytes, Some macBytes) \<Rightarrow>
              if \<not> constantTimeBytesEqual (computeRelayMac hmac key purposeBytes payloadBytes) macBytes then Inr None
              else (case utf8_decode_fatal payloadBytes of
                None \<Rightarrow> Inr None
              | Some payloadText \<Rightarrow>
                  if hasDuplicateJsonKeys payloadText then Inr None
                  else (case json_parse payloadText of
                    None \<Rightarrow> Inr None
                  | Some parsed \<Rightarrow>
                      (case parseClaims parsed of
                         None \<Rightarrow> Inr None
                       | Some claims \<Rightarrow>
                           (case serializeCanonicalJson (claimsJson claims) of
                              Inl e \<Rightarrow> Inl e
                            | Inr canonical \<Rightarrow>
                                if \<not> constantTimeBytesEqual (utf8_encode canonical) payloadBytes then Inr None
                                else Inr (Some claims)))))
          | _ \<Rightarrow> Inr None)
      | _ \<Rightarrow> Inr None)"

definition signRelayContext :: "(string \<Rightarrow> string \<Rightarrow> string) \<Rightarrow> relay_context \<Rightarrow> string \<Rightarrow> string throws" where
  "signRelayContext hmac context key = signRelayToken hmac (context_json context) key RELAY_CONTEXT_PURPOSE"

definition verifyRelayContext ::
  "(string \<Rightarrow> string \<Rightarrow> string) \<Rightarrow> string \<Rightarrow> string \<Rightarrow> relay_environment \<Rightarrow> int \<Rightarrow> relay_context option throws" where
  "verifyRelayContext hmac token key expectedEnvironment nowMs =
     (case verifyRelayToken hmac token key RELAY_CONTEXT_PURPOSE parseRelayContext context_json of
        Inl e \<Rightarrow> Inl e
      | Inr None \<Rightarrow> Inr None
      | Inr (Some claims) \<Rightarrow>
          if c_environment claims \<noteq> expectedEnvironment then Inr None
          else if c_issuedAtMs claims > nowMs \<or> c_expiresAtMs claims \<le> nowMs then Inr None
          else Inr (Some claims))"

definition signRelayGrantCredential :: "(string \<Rightarrow> string \<Rightarrow> string) \<Rightarrow> grant_credential \<Rightarrow> string \<Rightarrow> string throws" where
  "signRelayGrantCredential hmac claims key = signRelayToken hmac (grant_claims_json claims) key RELAY_GRANT_PURPOSE"

definition verifyRelayGrantCredential ::
  "(string \<Rightarrow> string \<Rightarrow> string) \<Rightarrow> string \<Rightarrow> string \<Rightarrow> relay_environment \<Rightarrow> int \<Rightarrow> grant_credential option throws" where
  "verifyRelayGrantCredential hmac token key expectedEnvironment nowMs =
     (case verifyRelayToken hmac token key RELAY_GRANT_PURPOSE parseRelayGrantCredential grant_claims_json of
        Inl e \<Rightarrow> Inl e
      | Inr None \<Rightarrow> Inr None
      | Inr (Some claims) \<Rightarrow>
          if k_environment claims \<noteq> expectedEnvironment then Inr None
          else if k_issuedAtMs claims > nowMs \<or> k_expiresAtMs claims \<le> nowMs then Inr None
          else Inr (Some claims))"

subsection \<open>Decoding inverts encoding\<close>

definition u64 :: "nat \<Rightarrow> char" where
  "u64 n = BASE64URL_ALPHABET ! n"

fun group_encode :: "string \<Rightarrow> string" where
  "group_encode [] = []"
| "group_encode [a] = (let x = of_char a in [u64 (x div 4), u64 (x mod 4 * 16)])"
| "group_encode [a, b] = (let x = of_char a; y = of_char b in
     [u64 (x div 4), u64 (x mod 4 * 16 + y div 16), u64 (y mod 16 * 4)])"
| "group_encode (a # b # c # s) = (let x = of_char a; y = of_char b; z = of_char c in
     [u64 (x div 4), u64 (x mod 4 * 16 + y div 16), u64 (y mod 16 * 4 + z div 64), u64 (z mod 64)] @ group_encode s)"

lemma replaceAll_simps [simp]:
  "replaceAll c r [] = []" "replaceAll c r (d # s) = (if d = c then r else [d]) @ replaceAll c r s"
  by (simp_all add: replaceAll_def)

definition url_char :: "char \<Rightarrow> string" where
  "url_char c = replaceAll (CHR ''='') [] (replaceAll (CHR ''/'') ''_'' (replaceAll (CHR ''+'') ''-'' [c]))"

lemma url_chars: "url_char (CHR ''='') = []" "n < 64 \<Longrightarrow> url_char (b64 n) = [u64 n]"
proof -
  show "url_char (CHR ''='') = []" by (simp add: url_char_def)
  have "list_all (\<lambda>n. url_char (b64 n) = [u64 n]) [0..<64]"
    unfolding b64_def u64_def url_char_def BASE64_ALPHABET_def BASE64URL_ALPHABET_def by (simp add: upt_rec)
  then show "n < 64 \<Longrightarrow> url_char (b64 n) = [u64 n]" by (simp add: list_all_iff)
qed

lemma replaceAll_append: "replaceAll c r (s @ t) = replaceAll c r s @ replaceAll c r t"
  by (simp add: replaceAll_def)

lemma encode_concat: "encodeBase64UrlNoPadding bytes = concat (map url_char (btoa bytes))"
proof -
  have "replaceAll (CHR ''='') [] (replaceAll (CHR ''/'') ''_'' (replaceAll (CHR ''+'') ''-'' s)) = concat (map url_char s)" for s
    by (induction s) (simp_all add: url_char_def replaceAll_append)
  then show ?thesis by (simp add: encodeBase64UrlNoPadding_def)
qed

lemma byte_bounds:
  "of_char a div 4 < (64::nat)" "of_char a mod 4 * 16 + of_char b div 16 < (64::nat)"
  "of_char a mod 16 * 4 + of_char b div 64 < (64::nat)" "of_char a mod 64 < (64::nat)"
  "of_char a mod 4 * 16 < (64::nat)" "of_char a mod 16 * 4 < (64::nat)"
proof -
  have l: "(of_char a :: nat) < 256" "(of_char b :: nat) < 256" by simp_all
  show "of_char a div 4 < (64::nat)" using l by (simp add: div_less_iff_less_mult)
  have "of_char b div 16 < (16::nat)" "of_char b div 64 < (4::nat)" using l by (simp_all add: div_less_iff_less_mult)
  moreover have "of_char a mod 4 < (4::nat)" "of_char a mod 16 < (16::nat)" by simp_all
  ultimately show "of_char a mod 4 * 16 + of_char b div 16 < (64::nat)" "of_char a mod 16 * 4 + of_char b div 64 < (64::nat)"
    "of_char a mod 4 * 16 < (64::nat)" "of_char a mod 16 * 4 < (64::nat)" by linarith+
  show "of_char a mod 64 < (64::nat)" by simp
qed

lemma encode_groups: "encodeBase64UrlNoPadding bytes = group_encode bytes"
  unfolding encode_concat
  by (induction bytes rule: btoa.induct) (simp_all add: Let_def url_chars byte_bounds)

lemma below_upt: "n < k \<Longrightarrow> n \<in> set [0..<k]"
  by (simp del: upt_conv_Cons_Cons upt_rec_numeral)

lemma reverse_u64:
  assumes "n < 64"
  shows "base64url_reverse (u64 n) = Some n"
proof -
  have "list_all (\<lambda>n. base64url_reverse (u64 n) = Some n) [0..<64]" by code_simp
  then show ?thesis using below_upt[OF assms] by (simp only: list_all_iff)
qed

lemma index_of_nth: "0 \<le> index_of c s \<Longrightarrow> nat (index_of c s) < length s \<and> s ! nat (index_of c s) = c"
proof (induction s)
  case (Cons d ds)
  show ?case
  proof (cases "c = d")
    case False
    then have i: "0 \<le> index_of c ds" using Cons.prems by (simp add: Let_def split: if_splits)
    then have "nat (index_of c (d # ds)) = Suc (nat (index_of c ds))" using False by (simp add: Let_def)
    then show ?thesis using Cons.IH[OF i] by simp
  qed simp
qed simp

lemma reverse_SomeD: "base64url_reverse c = Some v \<Longrightarrow> v < 64 \<and> u64 v = c"
proof -
  assume v: "base64url_reverse c = Some v"
  have "length BASE64URL_ALPHABET = 64" by code_simp
  then show ?thesis using v index_of_nth[of c BASE64URL_ALPHABET]
    by (auto simp: base64url_reverse_def u64_def Let_def split: if_splits)
qed

declare base64_loop.simps(2) [simp del]

lemma loop_reverse: "base64_loop acc bits out t = Some x \<Longrightarrow> c \<in> set t \<Longrightarrow> \<exists>v. base64url_reverse c = Some v"
  by (induction acc bits out t rule: base64_loop.induct) (auto simp: base64_loop.simps(2) Let_def split: option.splits if_splits)

lemma radix_split:
  fixes q r k :: nat
  assumes "r < k"
  shows "(q * k + r) div k = q" "(q * k + r) mod k = r"
  using assms by simp_all

lemma small_div: "(v::nat) < 64 \<Longrightarrow> v div 16 < 4" "v < 64 \<Longrightarrow> v div 4 < 16" "v < 256 \<Longrightarrow> v div 16 < 16" "v < 256 \<Longrightarrow> v div 64 < 4"
  by (simp_all add: div_less_iff_less_mult)

text \<open>The bytes of four digits.\<close>

definition byte1 :: "nat \<Rightarrow> nat \<Rightarrow> nat" where "byte1 v1 v2 = 4 * v1 + v2 div 16"
definition byte2 :: "nat \<Rightarrow> nat \<Rightarrow> nat" where "byte2 v2 v3 = v2 mod 16 * 16 + v3 div 4"
definition byte3 :: "nat \<Rightarrow> nat \<Rightarrow> nat" where "byte3 v3 v4 = v3 mod 4 * 64 + v4"

lemma loop_first:
  "base64url_reverse c = Some v \<Longrightarrow> base64_loop 0 0 out (c # s) = base64_loop v 6 out s"
  by (simp add: base64_loop.simps(2))

lemma loop_two:
  assumes "base64url_reverse c1 = Some v1" "base64url_reverse c2 = Some v2"
  shows "base64_loop 0 0 out (c1 # c2 # s) = base64_loop (v2 mod 16) 4 (out @ [char_of (byte1 v1 v2)]) s"
proof -
  have v: "v1 < 64" "v2 < 64" using assms reverse_SomeD by blast+
  have m: "(v1 * 64 + v2) mod 16 = v2 mod 16" using mod_mult_self3[of "v1 * 4" 16 v2] by (simp add: mult.commute)
  have "(v1 * 64 + v2) div 16 = (v1 * 4) + v2 div 16"
    using div_mult_self3[of 16 "v1 * 4" v2] by simp
  then have d: "(v1 * 64 + v2) div 16 mod 256 = byte1 v1 v2"
    using v small_div(1)[OF v(2)] by (simp add: byte1_def)
  then have c: "char_of ((v1 * 64 + v2) div 16) = (char_of (byte1 v1 v2) :: char)" using arg_cong[OF d, of char_of] by simp
  show ?thesis using assms m by (simp add: loop_first base64_loop.simps(2)) (simp only: c)
qed

lemma loop_three:
  assumes "base64url_reverse c = Some v3"
  shows "base64_loop (v2 mod 16) 4 out (c # s) = base64_loop (v3 mod 4) 2 (out @ [char_of (byte2 v2 v3)]) s"
proof -
  have v: "v3 < 64" using assms reverse_SomeD by blast
  have m: "(v2 mod 16 * 64 + v3) mod 4 = v3 mod 4" using mod_mult_self3[of "v2 mod 16 * 16" 4 v3] by (simp add: mult.commute)
  have "(v2 mod 16 * 64 + v3) div 4 = v2 mod 16 * 16 + v3 div 4"
    using div_mult_self3[of 4 "v2 mod 16 * 16" v3] by simp
  moreover have "v2 mod 16 < 16" by simp
  ultimately have d: "(v2 mod 16 * 64 + v3) div 4 mod 256 = byte2 v2 v3"
    using small_div(2)[OF v] unfolding byte2_def by simp
  then have c: "char_of ((v2 mod 16 * 64 + v3) div 4) = (char_of (byte2 v2 v3) :: char)" using arg_cong[OF d, of char_of] by simp
  show ?thesis using assms m by (simp add: base64_loop.simps(2)) (simp only: c)
qed

lemma loop_four:
  assumes "base64url_reverse c = Some v4"
  shows "base64_loop (v3 mod 4) 2 out (c # s) = base64_loop 0 0 (out @ [char_of (byte3 v3 v4)]) s"
proof -
  have v: "v4 < 64" using assms reverse_SomeD by blast
  have "v3 mod 4 < 4" by simp
  with v have d: "(v3 mod 4 * 64 + v4) mod 256 = byte3 v3 v4" unfolding byte3_def by (intro mod_less) linarith
  show ?thesis using assms d by (simp add: base64_loop.simps(2) byte3_def)
qed

lemma bytes_back:
  assumes "x < 256" "y < 256" "z < 256"
  shows "byte1 (x div 4) (x mod 4 * 16 + y div 16) = x" "byte2 (x mod 4 * 16 + y div 16) (y mod 16 * 4 + z div 64) = y"
    "byte3 (y mod 16 * 4 + z div 64) (z mod 64) = z" "byte1 (x div 4) (x mod 4 * 16) = x"
    "byte2 (x mod 4 * 16 + y div 16) (y mod 16 * 4) = y"
  unfolding byte1_def byte2_def byte3_def
    radix_split[OF small_div(3)[OF assms(2)]] radix_split[OF small_div(4)[OF assms(3)]]
  by simp_all

lemma digits_back:
  assumes "v1 < 64" "v2 < 64" "v3 < 64" "v4 < 64"
  shows "byte1 v1 v2 < 256" "byte2 v2 v3 < 256" "byte3 v3 v4 < 256"
    "byte1 v1 v2 div 4 = v1" "byte1 v1 v2 mod 4 * 16 + byte2 v2 v3 div 16 = v2"
    "byte2 v2 v3 mod 16 * 4 + byte3 v3 v4 div 64 = v3" "byte3 v3 v4 mod 64 = v4"
    "v2 mod 16 = 0 \<Longrightarrow> byte1 v1 v2 mod 4 * 16 = v2" "v3 mod 4 = 0 \<Longrightarrow> byte2 v2 v3 mod 16 * 4 = v3"
proof -
  note s = small_div(1)[OF assms(2)] small_div(2)[OF assms(3)]
  have m: "v2 mod 16 < 16" "v3 mod 4 < 4" by simp_all
  show "byte1 v1 v2 < 256" "byte2 v2 v3 < 256" "byte3 v3 v4 < 256"
    unfolding byte1_def byte2_def byte3_def using s m assms by linarith+
  have b: "byte1 v1 v2 = v1 * 4 + v2 div 16" by (simp add: byte1_def)
  show "byte1 v1 v2 div 4 = v1" unfolding b by (rule radix_split(1)[OF s(1)])
  show "byte1 v1 v2 mod 4 * 16 + byte2 v2 v3 div 16 = v2"
    unfolding b radix_split(2)[OF s(1)] byte2_def radix_split(1)[OF s(2)] by simp
  show "byte2 v2 v3 mod 16 * 4 + byte3 v3 v4 div 64 = v3"
    unfolding byte2_def radix_split(2)[OF s(2)] byte3_def radix_split(1)[OF assms(4)] by simp
  show "byte3 v3 v4 mod 64 = v4" unfolding byte3_def by (rule radix_split(2)[OF assms(4)])
  show "byte1 v1 v2 mod 4 * 16 = v2" if "v2 mod 16 = 0"
    unfolding b radix_split(2)[OF s(1)] using that div_mult_mod_eq[of v2 16] by linarith
  show "byte2 v2 v3 mod 16 * 4 = v3" if "v3 mod 4 = 0"
    unfolding byte2_def radix_split(2)[OF s(2)] using that div_mult_mod_eq[of v3 4] by linarith
qed

lemma of_char_byte [simp]: "(n::nat) < 256 \<Longrightarrow> of_char (char_of n :: char) = n"
  by simp

lemma loop_encode: "\<exists>bits. base64_loop 0 0 out (group_encode bytes) = Some (0, bits, out @ bytes)"
proof (induction bytes arbitrary: out rule: group_encode.induct)
  case 1
  then show ?case by simp
next
  case (2 a)
  show ?case
    using loop_two[OF reverse_u64[OF byte_bounds(1)[of a]] reverse_u64[OF byte_bounds(5)[of a]], of out "[]"]
      bytes_back(4)[of "of_char a" 0 0] by (simp add: Let_def)
next
  case (3 a b)
  show ?case
    using loop_two[OF reverse_u64[OF byte_bounds(1)[of a]] reverse_u64[OF byte_bounds(2)[of a b]],
        of out "[u64 (of_char b mod 16 * 4)]"]
      loop_three[OF reverse_u64[OF byte_bounds(6)[of b]], of "of_char a mod 4 * 16 + of_char b div 16" _ "[]"]
      bytes_back(1,5)[of "of_char a" "of_char b" 0] by (simp add: Let_def)
next
  case (4 a b c s)
  let ?x = "of_char a :: nat" and ?y = "of_char b :: nat" and ?z = "of_char c :: nat"
  have "base64_loop 0 0 out (group_encode (a # b # c # s)) = base64_loop 0 0 (out @ [a] @ [b] @ [c]) (group_encode s)"
    using loop_two[OF reverse_u64[OF byte_bounds(1)[of a]] reverse_u64[OF byte_bounds(2)[of a b]],
        of out "u64 (?y mod 16 * 4 + ?z div 64) # u64 (?z mod 64) # group_encode s"]
      loop_three[OF reverse_u64[OF byte_bounds(3)[of b c]], of "?x mod 4 * 16 + ?y div 16" "out @ [a]" "u64 (?z mod 64) # group_encode s"]
      loop_four[OF reverse_u64[OF byte_bounds(4)[of c]], of "?y mod 16 * 4 + ?z div 64" "out @ [a, b]" "group_encode s"]
      bytes_back[of ?x ?y ?z] by (simp add: Let_def)
  then show ?case using 4[of "of_char a" "of_char b" "of_char c" "out @ [a] @ [b] @ [c]"] by simp
qed

fun quads :: "'a list \<Rightarrow> nat" where
  "quads (a # b # c # d # s) = Suc (quads s)"
| "quads [] = 0"
| "quads [a] = 0"
| "quads [a, b] = 0"
| "quads [a, b, c] = 0"

lemma loop_unique:
  assumes "base64_loop 0 0 out t = Some (acc, bits, res)" "length t mod 4 \<noteq> 1" "bits > 0 \<Longrightarrow> acc = 0"
  shows "\<exists>bytes. res = out @ bytes \<and> group_encode bytes = t"
  using assms
proof (induction t arbitrary: out rule: quads.induct)
  case (1 c1 c2 c3 c4 s)
  obtain v1 v2 v3 v4 where v: "base64url_reverse c1 = Some v1" "base64url_reverse c2 = Some v2"
    "base64url_reverse c3 = Some v3" "base64url_reverse c4 = Some v4"
    using loop_reverse[OF 1(2)] by (meson list.set_intros)
  note b = v[THEN reverse_SomeD]
  have "base64_loop 0 0 (out @ [char_of (byte1 v1 v2), char_of (byte2 v2 v3), char_of (byte3 v3 v4)]) s = Some (acc, bits, res)"
    using 1(2) by (simp add: loop_two[OF v(1,2)] loop_three[OF v(3)] loop_four[OF v(4)])
  moreover have "length s mod 4 \<noteq> 1" using 1(3) by simp
  ultimately obtain bytes where
    "res = (out @ [char_of (byte1 v1 v2), char_of (byte2 v2 v3), char_of (byte3 v3 v4)]) @ bytes" "group_encode bytes = s"
    using 1(1,4) by blast
  then show ?case using b digits_back[of v1 v2 v3 v4]
    by (intro exI[of _ "char_of (byte1 v1 v2) # char_of (byte2 v2 v3) # char_of (byte3 v3 v4) # bytes"]) (simp add: Let_def)
next
  case 2
  then show ?case by simp
next
  case (3 c)
  then show ?case by simp
next
  case (4 c1 c2)
  obtain v1 v2 where v: "base64url_reverse c1 = Some v1" "base64url_reverse c2 = Some v2"
    using loop_reverse[OF 4(1)] by (meson list.set_intros)
  note b = v[THEN reverse_SomeD]
  have r: "acc = v2 mod 16" "bits = 4" "res = out @ [char_of (byte1 v1 v2)]"
    using 4(1) by (simp_all add: loop_two[OF v])
  then have "v2 mod 16 = 0" using 4(3) by simp
  then show ?case using b digits_back[of v1 v2 0 0] r
    by (intro exI[of _ "[char_of (byte1 v1 v2)]"]) (simp add: Let_def)
next
  case (5 c1 c2 c3)
  obtain v1 v2 v3 where v: "base64url_reverse c1 = Some v1" "base64url_reverse c2 = Some v2" "base64url_reverse c3 = Some v3"
    using loop_reverse[OF 5(1)] by (meson list.set_intros)
  note b = v[THEN reverse_SomeD]
  have r: "acc = v3 mod 4" "bits = 2" "res = out @ [char_of (byte1 v1 v2), char_of (byte2 v2 v3)]"
    using 5(1) by (simp_all add: loop_two[OF v(1,2)] loop_three[OF v(3)])
  then have "v3 mod 4 = 0" using 5(3) by simp
  then show ?case using b digits_back[of v1 v2 v3 0] r
    by (intro exI[of _ "[char_of (byte1 v1 v2), char_of (byte2 v2 v3)]"]) (simp add: Let_def)
qed

lemma alphabet_units: "base64url_reverse c = Some v \<Longrightarrow> utf16_units_of_byte c = 1"
proof -
  have "list_all (\<lambda>n. utf16_units_of_byte (u64 n) = 1) [0..<64]"
    unfolding u64_def utf16_units_of_byte_def BASE64URL_ALPHABET_def by (simp add: upt_rec)
  then show "base64url_reverse c = Some v \<Longrightarrow> utf16_units_of_byte c = 1"
    using reverse_SomeD[of c v] by (auto simp: list_all_iff)
qed

lemma alphabet_length: "\<forall>c \<in> set t. \<exists>v. base64url_reverse c = Some v \<Longrightarrow> utf16_length t = int (length t)"
  by (induction t) (auto simp: utf16_length_def alphabet_units)

lemma group_encode_alphabet: "c \<in> set (group_encode bytes) \<Longrightarrow> \<exists>n < 64. c = u64 n"
  by (induction bytes rule: group_encode.induct) (auto simp: Let_def intro: byte_bounds)

lemma group_encode_length: "length (group_encode bytes) mod 4 \<noteq> 1"
  by (induction bytes rule: group_encode.induct) (simp_all add: Let_def)

lemma decode_encode: "decodeBase64UrlNoPadding (encodeBase64UrlNoPadding bytes) = Some bytes"
proof -
  have "utf16_length (group_encode bytes) = int (length (group_encode bytes))"
    using group_encode_alphabet[of _ bytes] reverse_u64 by (intro alphabet_length) blast
  moreover have "int (length (group_encode bytes)) mod 4 \<noteq> 1"
    using group_encode_length[of bytes] by (metis of_nat_1 of_nat_eq_iff of_nat_mod of_nat_numeral)
  moreover obtain bits where "base64_loop 0 0 [] (group_encode bytes) = Some (0, bits, bytes)"
    using loop_encode[of "[]" bytes] by auto
  ultimately show ?thesis by (simp add: decodeBase64UrlNoPadding_def encode_groups)
qed

lemma encode_decode:
  assumes "decodeBase64UrlNoPadding t = Some bytes"
  shows "encodeBase64UrlNoPadding bytes = t"
proof -
  obtain acc bits where l: "base64_loop 0 0 [] t = Some (acc, bits, bytes)" "bits > 0 \<Longrightarrow> acc = 0"
    and n: "utf16_length t mod 4 \<noteq> 1"
    using assms by (auto simp: decodeBase64UrlNoPadding_def split: if_splits option.splits)
  have "utf16_length t = int (length t)" using loop_reverse[OF l(1)] by (intro alphabet_length) blast
  then have "length t mod 4 \<noteq> 1" using n by (metis of_nat_1 of_nat_mod of_nat_numeral)
  then show ?thesis using loop_unique[OF l(1) _ l(2)] by (auto simp: encode_groups)
qed

lemma decode_iff: "decodeBase64UrlNoPadding t = Some bytes \<longleftrightarrow> t = encodeBase64UrlNoPadding bytes"
  using decode_encode encode_decode by blast

lemma encode_alphabet: "c \<in> set (encodeBase64UrlNoPadding bytes) \<Longrightarrow> \<exists>n < 64. c = u64 n"
  using group_encode_alphabet[of c bytes] by (simp add: encode_groups)

lemma encode_no_dot: "CHR ''.'' \<notin> set (encodeBase64UrlNoPadding bytes)"
proof
  assume "CHR ''.'' \<in> set (encodeBase64UrlNoPadding bytes)"
  then obtain n where "n < 64" "CHR ''.'' = u64 n" using encode_alphabet by blast
  then have "base64url_reverse (CHR ''.'') \<noteq> None" using reverse_u64[of n] by simp
  then show False by (simp add: base64url_reverse_def BASE64URL_ALPHABET_def)
qed

lemma encode_empty: "encodeBase64UrlNoPadding bytes = [] \<longleftrightarrow> bytes = []"
  by (cases bytes rule: group_encode.cases) (simp_all add: encode_groups Let_def)

subsection \<open>Constant-time comparison is equality\<close>

lemma xor_zero_iff: "a XOR b = (0::nat) \<longleftrightarrow> a = b"
proof
  assume "a XOR b = 0"
  then have "bit a n = bit b n" for n using bit_xor_iff[of a b n] by simp
  then show "a = b" by (simp add: bit_eq_iff)
qed simp

lemma difference_zero: "length xs = length ys \<Longrightarrow> difference xs ys = 0 \<longleftrightarrow> xs = ys"
  by (induction xs ys rule: difference.induct) (simp_all add: or_eq_0_iff xor_zero_iff)

lemma codes_inject: "codes a = codes b \<longleftrightarrow> a = b"
  by (simp add: codes_def inj_map_eq_map inj_on_def)

lemma length_codes [simp]: "length (codes a) = length a"
  by (simp add: codes_def)

lemma constantTimeBytesEqual_iff: "constantTimeBytesEqual a b \<longleftrightarrow> a = b"
proof (cases "length a = length b")
  case True
  then show ?thesis using difference_zero[of "codes a" "codes b"]
    by (simp add: constantTimeBytesEqual_def or_eq_0_iff xor_zero_iff codes_inject)
next
  case False
  then show ?thesis by (auto simp: constantTimeBytesEqual_def or_eq_0_iff xor_zero_iff)
qed

lemma constantTimeHexEqual_iff: "constantTimeHexEqual a b \<longleftrightarrow> code_units a = code_units b"
  using difference_zero[of "code_units a" "code_units b"] by (auto simp: constantTimeHexEqual_def)

end
