(* ===== verification/Grant.thy ===== *)
theory Grant
  imports Leases Credential
begin

section \<open>Grant: the binding and the terminalization of relay grants\<close>

text \<open>
  durable-objects/quota-controller/src/relay-grant.ts.  SHA-256 is the argument \<open>sha256\<close>, from bytes to
  the 32 bytes of the digest.
\<close>

definition RELAY_GRANT_AUTHORIZATION_TTL_MS :: int where
  "RELAY_GRANT_AUTHORIZATION_TTL_MS = 3600000"

definition RELAY_GRANT_RETENTION_DAYS :: int where
  "RELAY_GRANT_RETENTION_DAYS = 45"

definition RELAY_GRANT_RETENTION_MS :: int where
  "RELAY_GRANT_RETENTION_MS = RELAY_GRANT_RETENTION_DAYS * 24 * 60 * 60 * 1000"

definition isTerminalGrantState :: "grant_state \<Rightarrow> bool" where
  "isTerminalGrantState s \<longleftrightarrow> s \<in> {Settled, Released, Reconciled_consumed, Reconciled_unused}"

text \<open>The written midnight reads back as the same time.\<close>

definition relayGrantRetentionDeadlineMs :: "string \<Rightarrow> int throws" where
  "relayGrantRetentionDeadlineMs day =
     (case parse_utc_day day of
        None \<Rightarrow> Inl (RangeError ''Invalid time value'')
      | Some ms \<Rightarrow> Inr (next_utc_midnight_ms ms + RELAY_GRANT_RETENTION_MS))"

record grant_binding =
  b_requestId :: string
  b_grantId :: string
  b_leaseGeneration :: string
  b_claims :: grant_credential

definition grantBindingMismatch :: "relay_grant \<Rightarrow> grant_binding \<Rightarrow> quota_identity \<Rightarrow> bool" where
  "grantBindingMismatch grant binding identity \<longleftrightarrow>
     (let claims = b_claims binding in
      b_requestId binding \<noteq> gr_requestId grant \<or>
      b_grantId binding \<noteq> gr_grantId grant \<or>
      b_leaseGeneration binding \<noteq> gr_leaseGeneration grant \<or>
      k_requestId claims \<noteq> gr_requestId grant \<or>
      k_grantId claims \<noteq> gr_grantId grant \<or>
      k_leaseGeneration claims \<noteq> gr_leaseGeneration grant \<or>
      k_environment claims \<noteq> gr_environment grant \<or>
      k_clientId claims \<noteq> gr_clientId grant \<or>
      k_idempotencyKeyHash claims \<noteq> gr_idempotencyKeyHash grant \<or>
      k_nonce claims \<noteq> gr_nonce grant \<or>
      k_model claims \<noteq> gr_model grant \<or>
      k_pool claims \<noteq> gr_pool grant \<or>
      k_admissionUtcDay claims \<noteq> gr_admissionUtcDay grant \<or>
      k_issuedAtMs claims \<noteq> gr_issuedAtMs grant \<or>
      k_expiresAtMs claims \<noteq> gr_credentialExpiresAtMs grant \<or>
      gr_pool grant \<noteq> i_pool identity \<or> gr_admissionUtcDay grant \<noteq> i_utcDay identity)"

text \<open>The budget of an admission as the caller gives it; the comparison is with the stored numbers.\<close>

record admission_budget =
  a_reservedTokens :: jsnum
  a_upperBoundTokens :: jsnum
  a_maxOutputTokens :: jsnum
  a_cacheEnabled :: bool

definition matchesRelayAdmission ::
  "relay_grant \<Rightarrow> relay_context \<Rightarrow> request_meta \<Rightarrow> ('z) admission_budget_scheme \<Rightarrow> bool" where
  "matchesRelayAdmission grant context metadata budget' \<longleftrightarrow>
     (let admission = gr_admission grant in
      gr_clientId grant = c_clientId context \<and>
      gr_idempotencyKeyHash grant = c_idempotencyKeyHash context \<and>
      gr_nonce grant = c_nonce context \<and>
      ad_contextIssuedAtMs admission = c_issuedAtMs context \<and>
      ad_contextExpiresAtMs admission = c_expiresAtMs context \<and>
      m_model (ad_metadata admission) = m_model metadata \<and>
      m_estimatedInputTokens (ad_metadata admission) = m_estimatedInputTokens metadata \<and>
      m_maxOutputTokens (ad_metadata admission) = m_maxOutputTokens metadata \<and>
      m_inputBytes (ad_metadata admission) = m_inputBytes metadata \<and>
      m_rawBodyBytes (ad_metadata admission) = m_rawBodyBytes metadata \<and>
      m_isToolUse (ad_metadata admission) = m_isToolUse metadata \<and>
      m_stream (ad_metadata admission) = m_stream metadata \<and>
      JsInt (ad_reservedTokens admission) = a_reservedTokens budget' \<and>
      JsInt (ad_upperBoundTokens admission) = a_upperBoundTokens budget' \<and>
      JsInt (ad_maxOutputTokens admission) = a_maxOutputTokens budget' \<and>
      ad_cacheEnabled admission = a_cacheEnabled budget')"

definition relayLeaseExpiry :: "int \<Rightarrow> int throws" where
  "relayLeaseExpiry nowMs =
     (let expiresAt = nowMs + DEFAULT_IN_FLIGHT_LEASE_TTL_MS
      in if \<not> safe_int expiresAt then Inl (TypeError ''Relay lease expiry must be a safe integer.'') else Inr expiresAt)"

definition hex2 :: "char \<Rightarrow> string" where
  "hex2 byte = [hex_char (of_char byte div 16), hex_char (of_char byte mod 16)]"

definition idempotencyKeyHashOf :: "(string \<Rightarrow> string) \<Rightarrow> string \<Rightarrow> string \<Rightarrow> string" where
  "idempotencyKeyHashOf sha256 clientId rawKey =
     concat (map hex2 (sha256 (utf8_encode clientId @ CHR 0x00 # utf8_encode rawKey)))"

definition isKeyBindingConsistent :: "(string \<Rightarrow> string) \<Rightarrow> relay_context \<Rightarrow> string option \<Rightarrow> bool" where
  "isKeyBindingConsistent sha256 context rawIdempotencyKey =
     (case c_idempotencyKeyHash context of
        None \<Rightarrow> rawIdempotencyKey = None
      | Some h \<Rightarrow>
          (case rawIdempotencyKey of
             None \<Rightarrow> False
           | Some key \<Rightarrow> constantTimeHexEqual (idempotencyKeyHashOf sha256 (c_clientId context) key) h))"

text \<open>The disposition names written as the fingerprint.\<close>

fun disposition_name :: "disposition \<Rightarrow> string" where
  "disposition_name Consumed = ''consumed''"
| "disposition_name Unused = ''unused''"

definition terminalizeGrantOnReconcile :: "int \<Rightarrow> string \<Rightarrow> disposition \<Rightarrow> quota_store \<Rightarrow> quota_store throws" where
  "terminalizeGrantOnReconcile now requestId d st =
     (case getRelayGrant st requestId of
        None \<Rightarrow> Inr st
      | Some grant \<Rightarrow>
          if isTerminalGrantState (gr_state grant) then Inr st
          else and_then (releaseInFlightLease now requestId (Some (gr_leaseGeneration grant)) st) (\<lambda>(_, st1).
            Inr (putRelayGrant
              (grant\<lparr>gr_state := (if d = Consumed then Reconciled_consumed else Reconciled_unused),
                 gr_terminalReport := None, gr_terminalFingerprint := Some (disposition_name d)\<rparr>) st1)))"

subsection \<open>What reconciliation leaves alone\<close>

text \<open>A step that changes at most the leases and the grants.\<close>

definition same_ledger :: "quota_store \<Rightarrow> quota_store \<Rightarrow> bool" where
  "same_ledger st st' \<longleftrightarrow> st_pool st' = st_pool st \<and> st_entries st' = st_entries st \<and> st_idem st' = st_idem st \<and>
     st_unresolved st' = st_unresolved st \<and> st_finalized st' = st_finalized st \<and> st_fences st' = st_fences st \<and>
     st_slot st' = st_slot st \<and> st_slot_generation st' = st_slot_generation st"

lemma same_ledger_fields:
  assumes "same_ledger st st'"
  shows "st_pool st' = st_pool st" "st_entries st' = st_entries st" "st_idem st' = st_idem st"
    "st_unresolved st' = st_unresolved st" "st_finalized st' = st_finalized st" "st_fences st' = st_fences st"
    "st_slot st' = st_slot st" "st_slot_generation st' = st_slot_generation st"
  using assms by (simp_all add: same_ledger_def)

lemma same_ledger_intros [intro]:
  "same_ledger st st" "same_ledger st st' \<Longrightarrow> same_ledger st (putRelayGrant g st')"
  "same_ledger st st' \<Longrightarrow> same_ledger st (saveInFlight ls st')"
  "same_but_leases st st' \<Longrightarrow> same_ledger st st'"
  by (auto simp: same_ledger_def putRelayGrant_def saveInFlight_def same_but_leases_def)

lemma same_ledger_trans: "same_ledger a b \<Longrightarrow> same_ledger b c \<Longrightarrow> same_ledger a c"
  by (simp add: same_ledger_def)

lemma terminalize_same_ledger:
  assumes "terminalizeGrantOnReconcile now r d st = Inr st'"
  shows "same_ledger st st'"
proof -
  consider "st' = st" | g grant st1 b where "getRelayGrant st r = Some grant"
    "releaseInFlightLease now r (Some (gr_leaseGeneration grant)) st = Inr (b, st1)" "st' = putRelayGrant g st1"
    using assms by (auto simp: terminalizeGrantOnReconcile_def and_then_Inr split: option.splits if_splits)
  then show ?thesis by cases (auto dest: lease_ops_same)
qed

end
