(* ===== verification/Lifecycle.thy ===== *)
theory Lifecycle
  imports Grant
begin

section \<open>Lifecycle: settle, mark uncertain, release, reconcile, finalize\<close>

text \<open>
  durable-objects/quota-controller/src/quota-lifecycle.ts.  Each branch of
  \<open>applyQuotaLifecycleTransition\<close> is a definition, and so is each method of \<open>QuotaLifecycle\<close>.  The clock
  argument is what \<open>new Date()\<close> and \<open>Date.now()\<close> give during the transaction.
\<close>

subsection \<open>Transitions\<close>

datatype quota_transition = Settle int | Mark_uncertain | Release | Reconcile disposition

datatype transition_result = Ok_transition ok_result | Reconcile_transition reconcile_result

definition settle_transition ::
  "quota_env \<Rightarrow> quota_identity \<Rightarrow> int \<Rightarrow> string \<Rightarrow> int \<Rightarrow> quota_store \<Rightarrow> ok_result \<times> quota_store" where
  "settle_transition env identity now requestId actualTokens st =
     (case getEntry st requestId of
        None \<Rightarrow> (Unknown_request, st)
      | Some entry \<Rightarrow>
          (case res_settle (e_results entry) of
             Some priorResult \<Rightarrow> (priorResult, st)
           | None \<Rightarrow>
               let results = (e_results entry)\<lparr>res_settle := Some Ok_result\<rparr>
               in if e_state entry \<noteq> Req_reserved \<and> e_state entry \<noteq> Req_uncertain
                  then (Ok_result, putEntry now requestId (entry\<lparr>e_results := results\<rparr>) st)
                  else
                    let poolState = loadPool st env identity now;
                        stateAfterRelease =
                          (if e_state entry = Req_reserved
                           then poolState\<lparr>reservedTokens := max 0 (reservedTokens poolState - e_reservedTokens entry)\<rparr>
                           else poolState\<lparr>uncertainTokens := max 0 (uncertainTokens poolState - e_reservedTokens entry)\<rparr>);
                        nextState = stateAfterRelease\<lparr>confirmedTokens := confirmedTokens stateAfterRelease + actualTokens\<rparr>;
                        unresolvedState = loadUnresolved st;
                        nextEntry = entry\<lparr>e_state := Req_settled, e_actualTokens := Some actualTokens, e_results := results\<rparr>
                    in (Ok_result,
                        saveUnresolved
                          \<lparr>uncertainCount = max 0 (uncertainCount unresolvedState - (if e_state entry = Req_uncertain then 1 else 0)),
                           reservedCount = max 0 (reservedCount unresolvedState - (if e_state entry = Req_reserved then 1 else 0))\<rparr>
                          (putEntry now requestId nextEntry (savePool now nextState st)))))"

definition markUncertain_transition ::
  "quota_env \<Rightarrow> quota_identity \<Rightarrow> int \<Rightarrow> string \<Rightarrow> quota_store \<Rightarrow> ok_result \<times> quota_store" where
  "markUncertain_transition env identity now requestId st =
     (case getEntry st requestId of
        None \<Rightarrow> (Unknown_request, st)
      | Some entry \<Rightarrow>
          (case res_markUncertain (e_results entry) of
             Some priorResult \<Rightarrow> (priorResult, st)
           | None \<Rightarrow>
               let results = (e_results entry)\<lparr>res_markUncertain := Some Ok_result\<rparr>
               in if e_state entry \<noteq> Req_reserved
                  then (Ok_result, putEntry now requestId (entry\<lparr>e_results := results\<rparr>) st)
                  else
                    let poolState = loadPool st env identity now;
                        nextState = poolState\<lparr>reservedTokens := max 0 (reservedTokens poolState - e_reservedTokens entry),
                                              uncertainTokens := uncertainTokens poolState + e_reservedTokens entry\<rparr>;
                        unresolved = loadUnresolved st;
                        nextEntry = entry\<lparr>e_state := Req_uncertain,
                          e_uncertaintyOrigin := (case e_uncertaintyOrigin entry of None \<Rightarrow> Some Upstream_uncertain | Some u \<Rightarrow> Some u),
                          e_results := results\<rparr>
                    in (Ok_result,
                        saveUnresolved \<lparr>uncertainCount = uncertainCount unresolved + 1,
                                        reservedCount = max 0 (reservedCount unresolved - 1)\<rparr>
                          (putEntry now requestId nextEntry (savePool now nextState st)))))"

definition release_transition ::
  "quota_env \<Rightarrow> quota_identity \<Rightarrow> int \<Rightarrow> string \<Rightarrow> quota_store \<Rightarrow> ok_result \<times> quota_store" where
  "release_transition env identity now requestId st =
     (case getEntry st requestId of
        None \<Rightarrow> (Unknown_request, st)
      | Some entry \<Rightarrow>
          (case res_release (e_results entry) of
             Some priorResult \<Rightarrow> (priorResult, st)
           | None \<Rightarrow>
               let results = (e_results entry)\<lparr>res_release := Some Ok_result\<rparr>
               in if e_state entry \<noteq> Req_reserved
                  then (Ok_result, putEntry now requestId (entry\<lparr>e_results := results\<rparr>) st)
                  else
                    let poolState = loadPool st env identity now;
                        nextState = poolState\<lparr>reservedTokens := max 0 (reservedTokens poolState - e_reservedTokens entry)\<rparr>;
                        unresolved = loadUnresolved st;
                        nextEntry = entry\<lparr>e_state := Req_released, e_results := results\<rparr>
                    in (Ok_result,
                        saveUnresolved (unresolved\<lparr>reservedCount := max 0 (reservedCount unresolved - 1)\<rparr>)
                          (putEntry now requestId nextEntry (savePool now nextState st)))))"

definition reconcile_transition ::
  "quota_env \<Rightarrow> quota_identity \<Rightarrow> int \<Rightarrow> string \<Rightarrow> disposition \<Rightarrow> quota_store \<Rightarrow> (reconcile_result \<times> quota_store) throws" where
  "reconcile_transition env identity now requestId d st =
     (case getEntry st requestId of
        None \<Rightarrow> Inr (Reconcile_ok False, st)
      | Some entry \<Rightarrow>
          (case res_reconcile (e_results entry) of
             Some priorResult \<Rightarrow> Inr (priorResult, st)
           | None \<Rightarrow>
               if e_state entry \<noteq> Req_reserved \<and> e_state entry \<noteq> Req_uncertain
               then Inr (Reconcile_ok False, st)
               else
                 let poolState = loadPool st env identity now;
                     stateAfterUnresolved =
                       (if e_state entry = Req_reserved
                        then poolState\<lparr>reservedTokens := max 0 (reservedTokens poolState - e_reservedTokens entry)\<rparr>
                        else poolState\<lparr>uncertainTokens := max 0 (uncertainTokens poolState - e_reservedTokens entry)\<rparr>);
                     unresolved = loadUnresolved st;
                     nextState =
                       (if d = Consumed
                        then stateAfterUnresolved\<lparr>confirmedTokens := confirmedTokens stateAfterUnresolved + e_reservedTokens entry\<rparr>
                        else stateAfterUnresolved);
                     nextEntry = entry\<lparr>e_state := (if d = Consumed then Req_reconciled else Req_released),
                       e_requestedDisposition := Some d,
                       e_results := (e_results entry)\<lparr>res_reconcile := Some (Reconcile_ok True)\<rparr>\<rparr>;
                     st1 = saveUnresolved
                       \<lparr>uncertainCount = max 0 (uncertainCount unresolved - (if e_state entry = Req_uncertain then 1 else 0)),
                        reservedCount = max 0 (reservedCount unresolved - (if e_state entry = Req_reserved then 1 else 0))\<rparr>
                       (putEntry now requestId nextEntry (savePool now nextState st))
                 in and_then (terminalizeGrantOnReconcile now requestId d st1) (\<lambda>st2. Inr (Reconcile_ok True, st2))))"

fun applyQuotaLifecycleTransition ::
  "quota_env \<Rightarrow> quota_identity \<Rightarrow> int \<Rightarrow> string \<Rightarrow> quota_transition \<Rightarrow> quota_store \<Rightarrow> (transition_result \<times> quota_store) throws" where
  "applyQuotaLifecycleTransition env identity now requestId (Settle n) st =
     Inr (map_prod Ok_transition id (settle_transition env identity now requestId n st))"
| "applyQuotaLifecycleTransition env identity now requestId Mark_uncertain st =
     Inr (map_prod Ok_transition id (markUncertain_transition env identity now requestId st))"
| "applyQuotaLifecycleTransition env identity now requestId Release st =
     Inr (map_prod Ok_transition id (release_transition env identity now requestId st))"
| "applyQuotaLifecycleTransition env identity now requestId (Reconcile d) st =
     and_then (reconcile_transition env identity now requestId d st) (\<lambda>(r, st'). Inr (Reconcile_transition r, st'))"

subsection \<open>The other methods\<close>

definition markReserveOutcomeUnknown ::
  "quota_env \<Rightarrow> quota_identity \<Rightarrow> int \<Rightarrow> string \<Rightarrow> quota_store \<Rightarrow> mark_unknown_result \<times> quota_store" where
  "markReserveOutcomeUnknown env identity now requestId st =
     (case getEntry st requestId of
        None \<Rightarrow> (Mark_unknown_no_request, st)
      | Some entry \<Rightarrow>
          (case res_markReserveOutcomeUnknown (e_results entry) of
             Some priorResult \<Rightarrow> (priorResult, st)
           | None \<Rightarrow>
               if e_state entry \<noteq> Req_reserved
               then (Mark_unknown_ok False, putEntry now requestId
                 (entry\<lparr>e_results := (e_results entry)\<lparr>res_markReserveOutcomeUnknown := Some (Mark_unknown_ok False)\<rparr>\<rparr>) st)
               else
                 let poolState = loadPool st env identity now;
                     unresolved = loadUnresolved st;
                     nextEntry = entry\<lparr>e_state := Req_uncertain, e_uncertaintyOrigin := Some Reserve_unknown,
                       e_results := (e_results entry)\<lparr>res_markReserveOutcomeUnknown := Some (Mark_unknown_ok True)\<rparr>\<rparr>
                 in (Mark_unknown_ok True,
                     saveUnresolved \<lparr>uncertainCount = uncertainCount unresolved + 1,
                                     reservedCount = max 0 (reservedCount unresolved - 1)\<rparr>
                       (putEntry now requestId nextEntry
                         (savePool now
                           (poolState\<lparr>reservedTokens := max 0 (reservedTokens poolState - e_reservedTokens entry),
                                      uncertainTokens := uncertainTokens poolState + e_reservedTokens entry\<rparr>) st)))))"

record uncertain_request =
  u_requestId :: string
  u_reservedTokens :: int
  u_state :: request_state
  u_uncertaintyOrigin :: "uncertainty_origin option"

text \<open>\<open>storage.list\<close> gives the entries in the order of their keys; the model keeps the stored order.\<close>

definition getReconcileSnapshot :: "quota_store \<Rightarrow> uncertain_request list" where
  "getReconcileSnapshot st =
     map (\<lambda>(r, e). \<lparr>u_requestId = r, u_reservedTokens = e_reservedTokens e, u_state = e_state e,
                     u_uncertaintyOrigin = e_uncertaintyOrigin e\<rparr>)
       (filter (\<lambda>(r, e). e_state e = Req_reserved \<or> e_state e = Req_uncertain) (st_entries st))"

record reconcile_request_view =
  v_requestId :: string
  v_reservedTokens :: int
  v_state :: request_state
  v_requestedDisposition :: "disposition option"
  v_uncertaintyOrigin :: "uncertainty_origin option"

definition getReconcileRequest :: "quota_store \<Rightarrow> string \<Rightarrow> reconcile_request_view option" where
  "getReconcileRequest st requestId =
     (case getEntry st requestId of
        None \<Rightarrow> None
      | Some e \<Rightarrow> Some \<lparr>v_requestId = requestId, v_reservedTokens = e_reservedTokens e, v_state = e_state e,
                        v_requestedDisposition = e_requestedDisposition e, v_uncertaintyOrigin = e_uncertaintyOrigin e\<rparr>)"

datatype finalize_result = Finalized | Uncertain_remaining int int | Reserved_remaining int int

text \<open>The transaction of \<open>finalizeDay\<close> and the \<open>deleteAll\<close> after it; a crash between them leaves the fence.\<close>

definition finalize_transaction :: "quota_store \<Rightarrow> finalize_result \<times> quota_store" where
  "finalize_transaction st =
     (let u = loadUnresolved st
      in if uncertainCount u > 0 \<or> reservedCount u > 0
         then (if uncertainCount u > 0 then Uncertain_remaining (uncertainCount u) (reservedCount u)
               else Reserved_remaining (uncertainCount u) (reservedCount u), st)
         else (Finalized, st\<lparr>st_finalized := True\<rparr>))"

definition finalizeDay :: "quota_store \<Rightarrow> finalize_result \<times> quota_store" where
  "finalizeDay st =
     (case finalize_transaction st of (r, st1) \<Rightarrow> if r \<noteq> Finalized then (r, st1) else (r, empty_store))"

end
