(* ===== verification/Ledger.thy ===== *)
theory Ledger
  imports Lifecycle
begin

section \<open>Ledger: what the quota counters mean\<close>

text \<open>
  The specification of the quota lifecycle: a request holds tokens, holds them in doubt, has spent
  tokens or is freed.  The counters of the pool and the unresolved counters are sums over the stored
  requests, and the transitions of Lifecycle refine the abstract ones.
\<close>

subsection \<open>The abstract requests\<close>

datatype abs_request = Held int | Doubtful int | Spent int int | Freed

definition abs_entry :: "request_entry \<Rightarrow> abs_request" where
  "abs_entry e = (case e_state e of
      Req_reserved \<Rightarrow> Held (e_reservedTokens e)
    | Req_uncertain \<Rightarrow> Doubtful (e_reservedTokens e)
    | Req_settled \<Rightarrow> Spent (case e_actualTokens e of Some n \<Rightarrow> n | None \<Rightarrow> 0) (e_reservedTokens e)
    | Req_reconciled \<Rightarrow> Spent (e_reservedTokens e) (e_reservedTokens e)
    | Req_released \<Rightarrow> Freed)"

fun abs_step :: "quota_transition \<Rightarrow> abs_request \<Rightarrow> abs_request" where
  "abs_step (Settle n) (Held t) = Spent n t"
| "abs_step (Settle n) (Doubtful t) = Spent n t"
| "abs_step Mark_uncertain (Held t) = Doubtful t"
| "abs_step Release (Held t) = Freed"
| "abs_step (Reconcile d) (Held t) = (if d = Consumed then Spent t t else Freed)"
| "abs_step (Reconcile d) (Doubtful t) = (if d = Consumed then Spent t t else Freed)"
| "abs_step _ x = x"

fun held :: "abs_request \<Rightarrow> int" where
  "held (Held t) = t" | "held _ = 0"

fun doubtful :: "abs_request \<Rightarrow> int" where
  "doubtful (Doubtful t) = t" | "doubtful _ = 0"

fun spent :: "abs_request \<Rightarrow> int" where
  "spent (Spent n t) = n" | "spent _ = 0"

text \<open>What a settlement spent beyond its reservation.\<close>

fun over :: "abs_request \<Rightarrow> int" where
  "over (Spent n t) = max 0 (n - t)" | "over _ = 0"

fun count_held :: "abs_request \<Rightarrow> int" where
  "count_held (Held t) = 1" | "count_held _ = 0"

fun count_doubtful :: "abs_request \<Rightarrow> int" where
  "count_doubtful (Doubtful t) = 1" | "count_doubtful _ = 0"

definition look :: "quota_store \<Rightarrow> string \<Rightarrow> abs_request option" where
  "look st r = map_option abs_entry (getEntry st r)"

definition total :: "(abs_request \<Rightarrow> int) \<Rightarrow> quota_store \<Rightarrow> int" where
  "total f st = kv_sum (\<lambda>e. f (abs_entry e)) (st_entries st)"

definition pool_limit :: "quota_store \<Rightarrow> int option" where
  "pool_limit st = map_option limit (st_pool st)"

text \<open>One request becomes \<open>x\<close>; the other requests, the limit, the idempotency keys and the fences stay.\<close>

definition change :: "string \<Rightarrow> abs_request option \<Rightarrow> quota_store \<Rightarrow> quota_store \<Rightarrow> bool" where
  "change r x st st' \<longleftrightarrow> look st' = (look st)(r := x) \<and>
     (\<forall>f. total f st' = total f st + old_weight f x - old_weight f (look st r)) \<and> pool_limit st' = pool_limit st \<and>
     st_idem st' = st_idem st \<and> st_finalized st' = st_finalized st \<and> st_fences st' = st_fences st \<and>
     st_slot st' = st_slot st \<and> st_slot_generation st' = st_slot_generation st"

lemma change_refl [simp]: "change r (look st r) st st"
  by (simp add: change_def)

lemma change_same [simp]: "look st r = x \<Longrightarrow> change r x st st"
  using change_refl[of r st] by simp

text \<open>An abstract transition on a closed request does nothing, and each transition is idempotent.\<close>

lemma abs_step_closed [simp]: "abs_step tr (Spent n t) = Spent n t" "abs_step tr Freed = Freed"
  by (cases tr; simp)+

lemma abs_step_idem [simp]: "abs_step tr (abs_step tr x) = abs_step tr x"
  by (cases tr; cases x) auto

subsection \<open>The invariant\<close>

definition entry_ok :: "request_entry \<Rightarrow> bool" where
  "entry_ok e \<longleftrightarrow> 0 \<le> e_reservedTokens e \<and> e_tokens e = e_reservedTokens e \<and> e_tokens e \<le> e_upperBoundTokens e \<and>
     (e_state e = Req_settled \<longrightarrow> (\<exists>n. e_actualTokens e = Some n \<and> 0 \<le> n)) \<and>
     (\<exists>rm ra. res_reserve (e_results e) = Some (Reserve_ok rm ra)) \<and>
     (res_settle (e_results e) \<noteq> None \<longrightarrow> e_state e \<noteq> Req_reserved \<and> e_state e \<noteq> Req_uncertain) \<and>
     (res_markUncertain (e_results e) \<noteq> None \<longrightarrow> e_state e \<noteq> Req_reserved) \<and>
     (res_markReserveOutcomeUnknown (e_results e) \<noteq> None \<longrightarrow> e_state e \<noteq> Req_reserved) \<and>
     (res_release (e_results e) \<noteq> None \<longrightarrow> e_state e \<noteq> Req_reserved) \<and>
     (res_reconcile (e_results e) \<noteq> None \<longrightarrow> e_state e = Req_reconciled \<or> e_state e = Req_released)"

definition pool_counts :: "pool_state \<Rightarrow> quota_store \<Rightarrow> bool" where
  "pool_counts p st \<longleftrightarrow> reservedTokens p = total held st \<and> uncertainTokens p = total doubtful st \<and>
     confirmedTokens p = total spent st \<and> requestCount p = int (length (st_entries st))"

definition ledger :: "quota_store \<Rightarrow> bool" where
  "ledger st \<longleftrightarrow> distinct (map fst (st_entries st)) \<and> (\<forall>r e. getEntry st r = Some e \<longrightarrow> entry_ok e) \<and>
     (case st_pool st of None \<Rightarrow> st_entries st = [] | Some p \<Rightarrow> pool_counts p st) \<and>
     loadUnresolved st = \<lparr>uncertainCount = total count_doubtful st, reservedCount = total count_held st\<rparr>"

lemma ledger_empty: "ledger empty_store"
  by (simp add: ledger_def empty_store_def total_def loadUnresolved_def getEntry_def)

lemma ledger_loadPool:
  assumes "ledger st"
  shows "pool_counts (loadPool st env i now) st"
  using assms by (cases "st_pool st") (simp_all add: ledger_def loadPool_def pool_counts_def total_def)

lemma ledger_entry_ok: "ledger st \<Longrightarrow> getEntry st r = Some e \<Longrightarrow> entry_ok e"
  by (simp add: ledger_def)

lemma abs_entry_updatedAt [simp]: "abs_entry (e\<lparr>e_updatedAt := t\<rparr>) = abs_entry e"
  "entry_ok (e\<lparr>e_updatedAt := t\<rparr>) = entry_ok e"
  by (simp_all add: abs_entry_def entry_ok_def cong: request_state.case_cong)

lemma abs_entry_results [simp]: "abs_entry (e\<lparr>e_results := x\<rparr>) = abs_entry e"
  by (simp add: abs_entry_def cong: request_state.case_cong)

lemma abs_entry_state:
  "e_state e = Req_reserved \<Longrightarrow> abs_entry e = Held (e_reservedTokens e)"
  "e_state e = Req_uncertain \<Longrightarrow> abs_entry e = Doubtful (e_reservedTokens e)"
  "e_state e = Req_released \<Longrightarrow> abs_entry e = Freed"
  "e_state e = Req_reconciled \<Longrightarrow> abs_entry e = Spent (e_reservedTokens e) (e_reservedTokens e)"
  "e_state e = Req_settled \<Longrightarrow> abs_entry e = Spent (case e_actualTokens e of Some n \<Rightarrow> n | None \<Rightarrow> 0) (e_reservedTokens e)"
  by (simp_all add: abs_entry_def)

lemma weights_nonneg:
  assumes "entry_ok e"
  shows "0 \<le> held (abs_entry e)" "0 \<le> doubtful (abs_entry e)" "0 \<le> spent (abs_entry e)"
    "0 \<le> count_held (abs_entry e)" "0 \<le> count_doubtful (abs_entry e)"
  using assms by (auto simp: entry_ok_def abs_entry_def split: request_state.split)

lemma total_bounds:
  assumes "ledger st" "\<And>e. entry_ok e \<Longrightarrow> 0 \<le> f (abs_entry e)"
  shows "0 \<le> total f st" "getEntry st r = Some e \<Longrightarrow> f (abs_entry e) \<le> total f st"
proof -
  have d: "distinct (map fst (st_entries st))" using assms by (simp add: ledger_def)
  have w: "0 \<le> f (abs_entry v)" if "kv_get (st_entries st) k = Some v" for k v
    using assms that by (simp add: ledger_def getEntry_def)
  show "0 \<le> total f st" unfolding total_def using w d by (intro kv_sum_nonneg)
  assume "getEntry st r = Some e"
  then show "f (abs_entry e) \<le> total f st"
    unfolding total_def getEntry_def using w d by (intro kv_sum_ge_member[where f = "\<lambda>e. f (abs_entry e)"])
qed

lemma held_bounds:
  assumes "ledger st" "getEntry st r = Some e"
  shows "held (abs_entry e) \<le> total held st" "doubtful (abs_entry e) \<le> total doubtful st"
    "count_held (abs_entry e) \<le> total count_held st" "count_doubtful (abs_entry e) \<le> total count_doubtful st"
  by (intro total_bounds(2)[OF assms(1) _ assms(2)] weights_nonneg; assumption)+

lemma total_nonneg:
  assumes "ledger st"
  shows "0 \<le> total held st" "0 \<le> total doubtful st" "0 \<le> total spent st"
    "0 \<le> total count_held st" "0 \<le> total count_doubtful st"
  by (intro total_bounds(1)[OF assms] weights_nonneg; assumption)+

subsection \<open>Writing one entry\<close>

lemma total_put:
  assumes "st_entries st' = kv_put r e (st_entries st)"
  shows "total f st' = total f st + f (abs_entry e) - old_weight f (look st r)"
  by (cases "kv_get (st_entries st) r") (simp_all add: total_def assms look_def getEntry_def)

lemma look_put: "st_entries st' = kv_put r e (st_entries st) \<Longrightarrow> look st' = (look st)(r := Some (abs_entry e))"
  by (auto simp: look_def getEntry_def)

lemma ledger_put:
  assumes "ledger st" "entry_ok e" "st_entries st' = kv_put r e (st_entries st)" "st_pool st' = Some p"
    and "reservedTokens p = total held st + held (abs_entry e) - old_weight held (look st r)"
    and "uncertainTokens p = total doubtful st + doubtful (abs_entry e) - old_weight doubtful (look st r)"
    and "confirmedTokens p = total spent st + spent (abs_entry e) - old_weight spent (look st r)"
    and "requestCount p = int (length (st_entries st)) + (if look st r = None then 1 else 0)"
    and "loadUnresolved st' = \<lparr>
       uncertainCount = total count_doubtful st + count_doubtful (abs_entry e) - old_weight count_doubtful (look st r),
       reservedCount = total count_held st + count_held (abs_entry e) - old_weight count_held (look st r)\<rparr>"
  shows "ledger st'"
proof -
  have "distinct (map fst (st_entries st'))" using assms(1,3) by (simp add: ledger_def distinct_kv_put)
  moreover have "entry_ok e'" if "getEntry st' r' = Some e'" for r' e'
    using that assms(1-3) by (auto simp: getEntry_def ledger_def split: if_splits)
  moreover have "pool_counts p st'"
    using assms(5-8) by (simp add: pool_counts_def total_put[OF assms(3)] assms(3) length_kv_put look_def getEntry_def)
  moreover have "loadUnresolved st' = \<lparr>uncertainCount = total count_doubtful st', reservedCount = total count_held st'\<rparr>"
    using assms(9) by (simp add: total_put[OF assms(3)])
  ultimately show ?thesis using assms(4) by (simp add: ledger_def)
qed

text \<open>Saving a result on an entry whose state stays.\<close>

lemma ledger_save_result:
  assumes "ledger st" "getEntry st r = Some e" "entry_ok e'" "abs_entry e' = abs_entry e" "st' = putEntry now r e' st"
  shows "ledger st'" "change r (look st r) st st'"
proof -
  have e: "st_entries st' = kv_put r (e'\<lparr>e_updatedAt := to_iso_string now\<rparr>) (st_entries st)" using assms(5) by (simp add: store_simps)
  have l: "look st r = Some (abs_entry e)" using assms(2) by (simp add: look_def)
  show "change r (look st r) st st'"
    using look_put[OF e] total_put[OF e] l assms(4) by (auto simp: change_def assms(5) store_simps pool_limit_def)
  obtain p where p: "st_pool st = Some p" using assms(1,2) by (auto simp: ledger_def getEntry_def split: option.splits)
  then have c: "pool_counts p st" using assms(1) by (simp add: ledger_def)
  have "loadUnresolved st' = loadUnresolved st" "st_pool st' = Some p" using p assms(5) by (simp_all add: store_simps)
  moreover have "loadUnresolved st = \<lparr>uncertainCount = total count_doubtful st, reservedCount = total count_held st\<rparr>"
    using assms(1) by (simp add: ledger_def)
  ultimately show "ledger st'"
    using c assms(3,4) by (intro ledger_put[OF assms(1) _ e, of p]) (simp_all add: l pool_counts_def)
qed

subsection \<open>The transitions\<close>

text \<open>The entry that a transition finds, with what the invariant says of it and of the counters.\<close>

lemma ledger_entry:
  assumes "ledger st" "getEntry st r = Some e"
  shows "entry_ok e" "look st r = Some (abs_entry e)"
  using assms by (auto simp: ledger_def look_def)

lemma ledger_counts:
  assumes "ledger st"
  shows "reservedTokens (loadPool st env i now) = total held st" "uncertainTokens (loadPool st env i now) = total doubtful st"
    "confirmedTokens (loadPool st env i now) = total spent st" "requestCount (loadPool st env i now) = int (length (st_entries st))"
    "reservedCount (loadUnresolved st) = total count_held st" "uncertainCount (loadUnresolved st) = total count_doubtful st"
  using ledger_loadPool[OF assms, of env i now] assms by (auto simp: pool_counts_def ledger_def)

text \<open>A change of state of one entry.\<close>

lemma ledger_change:
  assumes "ledger st" "getEntry st r = Some e" "st' = saveUnresolved u (putEntry now r e' (savePool now p st))" "entry_ok e'"
    and "reservedTokens p = total held st - held (abs_entry e) + held (abs_entry e')"
    and "uncertainTokens p = total doubtful st - doubtful (abs_entry e) + doubtful (abs_entry e')"
    and "confirmedTokens p = total spent st - spent (abs_entry e) + spent (abs_entry e')"
    and "requestCount p = int (length (st_entries st))"
    and "uncertainCount u = total count_doubtful st - count_doubtful (abs_entry e) + count_doubtful (abs_entry e')"
    and "reservedCount u = total count_held st - count_held (abs_entry e) + count_held (abs_entry e')"
    and "limit p = limit (loadPool st env i now)"
  shows "ledger st' \<and> change r (Some (abs_entry e')) st st'"
proof -
  have e: "st_entries st' = kv_put r (e'\<lparr>e_updatedAt := to_iso_string now\<rparr>) (st_entries st)"
    using assms(3) by (simp add: store_simps)
  note l = ledger_entry(2)[OF assms(1,2)]
  have "loadUnresolved st' = \<lparr>uncertainCount = uncertainCount u, reservedCount = reservedCount u\<rparr>"
    using assms(3) by (simp add: store_simps)
  then have "ledger st'"
    using assms(4-10) by (intro ledger_put[OF assms(1) _ e, of "p\<lparr>updatedAt := to_iso_string now\<rparr>"])
      (simp_all add: assms(3) store_simps l)
  moreover have "pool_limit st' = pool_limit st"
    using assms(1,2,11) by (auto simp: assms(3) pool_limit_def loadPool_def ledger_def getEntry_def store_simps split: option.splits)
  ultimately show ?thesis
    using look_put[OF e] total_put[OF e] by (auto simp: change_def assms(3) store_simps)
qed

lemmas ledger_change_simps = abs_entry_state ledger_counts

lemma settle_refines:
  assumes "ledger st" "0 \<le> n" "settle_transition env i now r n st = (res, st')"
  shows "ledger st' \<and> change r (map_option (abs_step (Settle n)) (look st r)) st st'"
proof (cases "getEntry st r")
  case None
  then show ?thesis using assms by (auto simp: settle_transition_def look_def)
next
  case (Some e)
  note l = ledger_entry[OF assms(1) Some]
  note b = held_bounds[OF assms(1) Some]
  consider (reserved) "e_state e = Req_reserved" | (uncertain) "e_state e = Req_uncertain"
    | (closed) "e_state e \<noteq> Req_reserved" "e_state e \<noteq> Req_uncertain" by blast
  then show ?thesis
  proof cases
    case reserved
    then have p: "res_settle (e_results e) = None" using l(1) by (auto simp: entry_ok_def)
    have n: "total held st - e_reservedTokens e \<ge> 0" "total count_held st \<ge> 1" "total count_doubtful st \<ge> 0"
      using b reserved total_nonneg[OF assms(1)] by (simp_all add: abs_entry_state)
    note s = assms(3)[unfolded settle_transition_def Some option.case p Let_def, simplified reserved, simplified]
    show ?thesis
      using ledger_change[OF assms(1) Some conjunct2[OF s, symmetric]] l reserved assms(2) n
      by (simp add: ledger_counts[OF assms(1)] abs_entry_state entry_ok_def)
  next
    case uncertain
    then have p: "res_settle (e_results e) = None" using l(1) by (auto simp: entry_ok_def)
    have n: "total doubtful st - e_reservedTokens e \<ge> 0" "total count_doubtful st \<ge> 1" "total count_held st \<ge> 0"
      using b uncertain total_nonneg[OF assms(1)] by (simp_all add: abs_entry_state)
    note s = assms(3)[unfolded settle_transition_def Some option.case p Let_def, simplified uncertain, simplified]
    show ?thesis
      using ledger_change[OF assms(1) Some conjunct2[OF s, symmetric]] l uncertain assms(2) n
      by (simp add: ledger_counts[OF assms(1)] abs_entry_state entry_ok_def)
  next
    case closed
    then have c: "abs_step (Settle n) (abs_entry e) = abs_entry e" by (cases "e_state e") (simp_all add: abs_entry_def)
    consider "st' = st" | "st' = putEntry now r (e\<lparr>e_results := (e_results e)\<lparr>res_settle := Some Ok_result\<rparr>\<rparr>) st"
      using assms(3) closed by (auto simp: settle_transition_def Some Let_def split: option.splits)
    then show ?thesis
    proof cases
      case 2
      have "entry_ok (e\<lparr>e_results := (e_results e)\<lparr>res_settle := Some Ok_result\<rparr>\<rparr>)" using l(1) closed by (simp add: entry_ok_def)
      from ledger_save_result[OF assms(1) Some this _ 2] show ?thesis using l c by auto
    qed (use assms(1) l(2) c in auto)
  qed
qed

lemma markUncertain_refines:
  assumes "ledger st" "markUncertain_transition env i now r st = (res, st')"
  shows "ledger st' \<and> change r (map_option (abs_step Mark_uncertain) (look st r)) st st'"
proof (cases "getEntry st r")
  case None
  then show ?thesis using assms by (auto simp: markUncertain_transition_def look_def)
next
  case (Some e)
  note l = ledger_entry[OF assms(1) Some]
  show ?thesis
  proof (cases "e_state e = Req_reserved")
    case True
    then have p: "res_markUncertain (e_results e) = None" using l(1) by (auto simp: entry_ok_def)
    have n: "total held st - e_reservedTokens e \<ge> 0" "total count_held st \<ge> 1"
      using held_bounds[OF assms(1) Some] True by (simp_all add: abs_entry_state)
    note s = assms(2)[unfolded markUncertain_transition_def Some option.case p Let_def, simplified True, simplified]
    show ?thesis
      using ledger_change[OF assms(1) Some conjunct2[OF s, symmetric]] l True n
      by (simp add: ledger_counts[OF assms(1)] abs_entry_state entry_ok_def)
  next
    case False
    then have c: "abs_step Mark_uncertain (abs_entry e) = abs_entry e" by (cases "e_state e") (simp_all add: abs_entry_def)
    consider "st' = st" | "st' = putEntry now r (e\<lparr>e_results := (e_results e)\<lparr>res_markUncertain := Some Ok_result\<rparr>\<rparr>) st"
      using assms(2) False by (auto simp: markUncertain_transition_def Some Let_def split: option.splits)
    then show ?thesis
    proof cases
      case 2
      have "entry_ok (e\<lparr>e_results := (e_results e)\<lparr>res_markUncertain := Some Ok_result\<rparr>\<rparr>)" using l(1) False by (simp add: entry_ok_def)
      from ledger_save_result[OF assms(1) Some this _ 2] show ?thesis using l c by auto
    qed (use assms(1) l(2) c in auto)
  qed
qed

lemma release_refines:
  assumes "ledger st" "release_transition env i now r st = (res, st')"
  shows "ledger st' \<and> change r (map_option (abs_step Release) (look st r)) st st'"
proof (cases "getEntry st r")
  case None
  then show ?thesis using assms by (auto simp: release_transition_def look_def)
next
  case (Some e)
  note l = ledger_entry[OF assms(1) Some]
  show ?thesis
  proof (cases "e_state e = Req_reserved")
    case True
    then have p: "res_release (e_results e) = None" using l(1) by (auto simp: entry_ok_def)
    have n: "total held st - e_reservedTokens e \<ge> 0" "total count_held st \<ge> 1"
      using held_bounds[OF assms(1) Some] True by (simp_all add: abs_entry_state)
    note s = assms(2)[unfolded release_transition_def Some option.case p Let_def, simplified True, simplified]
    show ?thesis
      using ledger_change[OF assms(1) Some conjunct2[OF s, symmetric]] l True n
      by (simp add: ledger_counts[OF assms(1)] abs_entry_state entry_ok_def)
  next
    case False
    then have c: "abs_step Release (abs_entry e) = abs_entry e" by (cases "e_state e") (simp_all add: abs_entry_def)
    consider "st' = st" | "st' = putEntry now r (e\<lparr>e_results := (e_results e)\<lparr>res_release := Some Ok_result\<rparr>\<rparr>) st"
      using assms(2) False by (auto simp: release_transition_def Some Let_def split: option.splits)
    then show ?thesis
    proof cases
      case 2
      have "entry_ok (e\<lparr>e_results := (e_results e)\<lparr>res_release := Some Ok_result\<rparr>\<rparr>)" using l(1) False by (simp add: entry_ok_def)
      from ledger_save_result[OF assms(1) Some this _ 2] show ?thesis using l c by auto
    qed (use assms(1) l(2) c in auto)
  qed
qed

lemma markReserveOutcomeUnknown_refines:
  assumes "ledger st" "markReserveOutcomeUnknown env i now r st = (res, st')"
  shows "ledger st' \<and> change r (map_option (abs_step Mark_uncertain) (look st r)) st st'"
proof (cases "getEntry st r")
  case None
  then show ?thesis using assms by (auto simp: markReserveOutcomeUnknown_def look_def)
next
  case (Some e)
  note l = ledger_entry[OF assms(1) Some]
  show ?thesis
  proof (cases "e_state e = Req_reserved")
    case True
    then have p: "res_markReserveOutcomeUnknown (e_results e) = None" using l(1) by (auto simp: entry_ok_def)
    have n: "total held st - e_reservedTokens e \<ge> 0" "total count_held st \<ge> 1"
      using held_bounds[OF assms(1) Some] True by (simp_all add: abs_entry_state)
    note s = assms(2)[unfolded markReserveOutcomeUnknown_def Some option.case p Let_def, simplified True, simplified]
    show ?thesis
      using ledger_change[OF assms(1) Some conjunct2[OF s, symmetric]] l True n
      by (simp add: ledger_counts[OF assms(1)] abs_entry_state entry_ok_def)
  next
    case False
    then have c: "abs_step Mark_uncertain (abs_entry e) = abs_entry e" by (cases "e_state e") (simp_all add: abs_entry_def)
    define x where "x = (e_results e)\<lparr>res_markReserveOutcomeUnknown := Some (Mark_unknown_ok False)\<rparr>"
    consider "st' = st" | "st' = putEntry now r (e\<lparr>e_results := x\<rparr>) st"
      using assms(2) False by (auto simp: markReserveOutcomeUnknown_def Some Let_def x_def split: option.splits)
    then show ?thesis
    proof cases
      case 2
      have "entry_ok (e\<lparr>e_results := x\<rparr>)" using l(1) False by (simp add: entry_ok_def x_def)
      from ledger_save_result[OF assms(1) Some this _ 2] show ?thesis using l c by auto
    qed (use assms(1) l(2) c in auto)
  qed
qed

text \<open>The ledger part of a store decides the invariant and the requests.\<close>

lemma same_ledger_ledger:
  assumes "same_ledger st st'"
  shows "ledger st' = ledger st" "look st' = look st" "total f st' = total f st" "loadPool st' = loadPool st"
    "getEntry st' = getEntry st" "loadUnresolved st' = loadUnresolved st"
    "change r x st0 st' = change r x st0 st"
  using same_ledger_fields[OF assms]
  by (auto simp: change_def pool_limit_def ledger_def look_def total_def pool_counts_def loadUnresolved_def getEntry_def loadPool_def fun_eq_iff
      split: option.splits)

lemma reconcile_refines:
  assumes "ledger st" "reconcile_transition env i now r d st = Inr (res, st')"
  shows "ledger st' \<and> change r (map_option (abs_step (Reconcile d)) (look st r)) st st'"
proof (cases "getEntry st r")
  case None
  then show ?thesis using assms by (auto simp: reconcile_transition_def look_def)
next
  case (Some e)
  note l = ledger_entry[OF assms(1) Some]
  note b = held_bounds[OF assms(1) Some] total_nonneg[OF assms(1)]
  show ?thesis
  proof (cases "e_state e = Req_reserved \<or> e_state e = Req_uncertain")
    case False
    then have "st' = st" using assms(2) by (auto simp: reconcile_transition_def Some split: option.splits)
    moreover have "abs_step (Reconcile d) (abs_entry e) = abs_entry e" using False by (cases "e_state e") (simp_all add: abs_entry_def)
    ultimately show ?thesis using assms(1) l(2) by auto
  next
    case True
    then have p: "res_reconcile (e_results e) = None" using l(1) by (auto simp: entry_ok_def)
    note s = assms(2)[unfolded reconcile_transition_def Some option.case p Let_def]
    obtain u e' p' st1 where st1: "st1 = saveUnresolved u (putEntry now r e' (savePool now p' st))"
      "terminalizeGrantOnReconcile now r d st1 = Inr st'"
      and e': "e' = e\<lparr>e_state := (if d = Consumed then Req_reconciled else Req_released), e_requestedDisposition := Some d,
                       e_results := (e_results e)\<lparr>res_reconcile := Some (Reconcile_ok True)\<rparr>\<rparr>"
      and u: "u = \<lparr>uncertainCount = max 0 (uncertainCount (loadUnresolved st) - (if e_state e = Req_uncertain then 1 else 0)),
                  reservedCount = max 0 (reservedCount (loadUnresolved st) - (if e_state e = Req_reserved then 1 else 0))\<rparr>"
      and p': "p' = (let q = (if e_state e = Req_reserved
                   then (loadPool st env i now)\<lparr>reservedTokens := max 0 (reservedTokens (loadPool st env i now) - e_reservedTokens e)\<rparr>
                   else (loadPool st env i now)\<lparr>uncertainTokens := max 0 (uncertainTokens (loadPool st env i now) - e_reservedTokens e)\<rparr>)
                 in if d = Consumed then q\<lparr>confirmedTokens := confirmedTokens q + e_reservedTokens e\<rparr> else q)"
      using s True by (auto simp: and_then_Inr Let_def)
    have ok: "entry_ok e'" using l(1) by (auto simp: e' entry_ok_def)
    have "ledger st1 \<and> change r (Some (abs_entry e')) st st1"
      using True b
      by (intro ledger_change[OF assms(1) Some st1(1) ok]; elim disjE; cases d)
        (simp_all add: e' u p' Let_def abs_entry_state ledger_counts[OF assms(1)])
    moreover have "abs_entry e' = abs_step (Reconcile d) (abs_entry e)"
      using True by (auto simp: e' abs_entry_state)
    moreover have "same_ledger st1 st'" using st1(2) by (rule terminalize_same_ledger)
    ultimately show ?thesis using l(2) by (simp add: same_ledger_ledger)
  qed
qed

lemma transition_refines:
  assumes "ledger st" "applyQuotaLifecycleTransition env i now r tr st = Inr (res, st')" "\<And>n. tr = Settle n \<Longrightarrow> 0 \<le> n"
  shows "ledger st' \<and> change r (map_option (abs_step tr) (look st r)) st st'"
proof -
  have D: "\<exists>x. p = (x, st')" if "map_prod Ok_transition id p = (res, st')" for p :: "ok_result \<times> quota_store"
    using that by (cases p) auto
  show ?thesis
  proof (cases tr)
    case (Settle n)
    then show ?thesis using assms D[of "settle_transition env i now r n st"] settle_refines by auto
  next
    case Mark_uncertain
    then show ?thesis using assms D[of "markUncertain_transition env i now r st"] markUncertain_refines by auto
  next
    case Release
    then show ?thesis using assms D[of "release_transition env i now r st"] release_refines by auto
  next
    case (Reconcile d)
    then show ?thesis using assms reconcile_refines by (auto simp: and_then_Inr)
  qed
qed

subsection \<open>Runs of transitions\<close>

text \<open>
  The interface between the lifecycle and what relies on it: a store of requests with an invariant,
  whose steps act on one request as the abstract transitions do and leave the others.
\<close>

locale request_store =
  fixes inv :: "'s \<Rightarrow> bool"
    and see :: "'s \<Rightarrow> string \<Rightarrow> abs_request option"
    and run :: "string \<times> quota_transition \<Rightarrow> 's \<Rightarrow> 's throws"
    and legal :: "quota_transition \<Rightarrow> bool"
  assumes keeps: "inv s \<Longrightarrow> legal (snd a) \<Longrightarrow> run a s = Inr s' \<Longrightarrow> inv s'"
    and sees: "inv s \<Longrightarrow> legal (snd a) \<Longrightarrow> run a s = Inr s' \<Longrightarrow>
      see s' = (see s)(fst a := map_option (abs_step (snd a)) (see s (fst a)))"
begin

fun runs :: "(string \<times> quota_transition) list \<Rightarrow> 's \<Rightarrow> 's throws" where
  "runs [] s = Inr s"
| "runs (a # as) s = and_then (run a s) (runs as)"

lemma runs_keep: "inv s \<Longrightarrow> list_all (\<lambda>a. legal (snd a)) as \<Longrightarrow> runs as s = Inr s' \<Longrightarrow> inv s'"
  by (induction as arbitrary: s) (auto simp: and_then_Inr intro: keeps)

lemma runs_see:
  "inv s \<Longrightarrow> list_all (\<lambda>a. legal (snd a)) as \<Longrightarrow> runs as s = Inr s' \<Longrightarrow>
    see s' r = map_option (\<lambda>x. foldl (\<lambda>x a. abs_step (snd a) x) x (filter (\<lambda>a. fst a = r) as)) (see s r)"
proof (induction as arbitrary: s)
  case Nil
  then show ?case by (simp add: option.map_ident)
next
  case (Cons a as)
  then obtain s1 where s1: "run a s = Inr s1" "runs as s1 = Inr s'" by (auto simp: and_then_Inr)
  have l: "legal (snd a)" "list_all (\<lambda>a. legal (snd a)) as" using Cons.prems(2) by simp_all
  show ?case
    using Cons.IH[OF keeps[OF Cons.prems(1) l(1) s1(1)] l(2) s1(2)] sees[OF Cons.prems(1) l(1) s1(1)]
    by (cases "see s r") auto
qed

lemma closed_stays:
  assumes "inv s" "list_all (\<lambda>a. legal (snd a)) as" "runs as s = Inr s'" "see s r = Some x" "\<And>tr. abs_step tr x = x"
  shows "see s' r = Some x"
proof -
  have "foldl (\<lambda>x a. abs_step (snd a) x) x bs = x" for bs :: "(string \<times> quota_transition) list"
    using assms(5) by (induction bs) simp_all
  then show ?thesis using runs_see[OF assms(1-3), of r] assms(4) by simp
qed

text \<open>A transition repeated later changes nothing.\<close>

lemma repeat_after:
  assumes "inv s" "legal tr" "run (r, tr) s = Inr s1" "run (r, tr) s1 = Inr s2"
  shows "see s2 = see s1"
proof -
  have "inv s1" using keeps[OF assms(1) _ assms(3)] assms(2) by simp
  then show ?thesis
    using sees[OF assms(1) _ assms(3)] sees[OF _ _ assms(4)] assms(2)
    by (cases "see s r") auto
qed

end

text \<open>What the transitions need: a settlement of a non-negative count.\<close>

definition legal_transition :: "quota_transition \<Rightarrow> bool" where
  "legal_transition tr \<longleftrightarrow> (\<forall>n. tr = Settle n \<longrightarrow> 0 \<le> n)"

definition run_transition :: "quota_env \<Rightarrow> quota_identity \<Rightarrow> int \<Rightarrow> string \<times> quota_transition \<Rightarrow> quota_store \<Rightarrow> quota_store throws" where
  "run_transition env i now a st = and_then (applyQuotaLifecycleTransition env i now (fst a) (snd a) st) (\<lambda>(_, st'). Inr st')"

interpretation lifecycle: request_store ledger look "run_transition env i now" legal_transition for env i now
proof
  fix s a s'
  assume a: "ledger s" "legal_transition (snd a)" "run_transition env i now a s = Inr s'"
  then obtain res where r: "applyQuotaLifecycleTransition env i now (fst a) (snd a) s = Inr (res, s')"
    by (auto simp: run_transition_def and_then_Inr)
  from transition_refines[OF a(1) r] a(2)
  show "ledger s'" "look s' = (look s)(fst a := map_option (abs_step (snd a)) (look s (fst a)))"
    by (simp_all add: legal_transition_def change_def)
qed

end
