(* ===== verification/Admission.thy ===== *)
theory Admission
  imports Ledger
begin

section \<open>Admission: the decision of the quota controller on a relay request\<close>

text \<open>
  durable-objects/quota-controller/src/relay-admission.ts.  The context and the metadata arrive as JSON
  values and are parsed again; \<open>generation\<close> and \<open>grantId\<close> are the two identifiers that
  \<open>crypto.randomUUID\<close> gives, in this order.
\<close>

record admission_input = admission_budget +
  a_context :: json
  a_metadata :: json
  a_rawIdempotencyKey :: "json option"

datatype admission_result = Admitted relay_grant quota_snapshot | Admission_denied relay_error_code

definition resolveRelayEnvironment :: "string option \<Rightarrow> relay_environment option" where
  "resolveRelayEnvironment configured = (case configured of None \<Rightarrow> None | Some s \<Rightarrow> parse_environment s)"

definition isNonNegativeSafeInteger :: "jsnum \<Rightarrow> bool" where
  "isNonNegativeSafeInteger x \<longleftrightarrow> is_safe_integer x \<and> the_int x \<ge> 0"

definition buildQuotaSnapshot :: "pool_state \<Rightarrow> quota_identity \<Rightarrow> quota_snapshot throws" where
  "buildQuotaSnapshot state identity =
     and_then (reset_at (i_utcDay identity)) (\<lambda>resetAt. Inr
       \<lparr>q_pool = i_pool identity, q_limit = limit state,
        q_used = confirmedTokens state + reservedTokens state + uncertainTokens state,
        q_remaining = remainingOf state, q_resetAt = resetAt\<rparr>)"

text \<open>The checks that look at no reservation: the parsed context, metadata and key, or the denial.\<close>

definition check_admission ::
  "(string \<Rightarrow> string) \<Rightarrow> quota_env \<Rightarrow> admission_input \<Rightarrow> quota_store \<Rightarrow>
     relay_error_code + relay_context \<times> request_meta \<times> string option" where
  "check_admission sha256 env input st =
     (case (parseRelayContext (a_context input), parseRelayRequestMeta (a_metadata input)) of
        (Some context, Some metadata) \<Rightarrow>
          if kv_get (st_fences st) (c_requestId context) = Some True then Inl Invalid_context
          else if \<not> isNonNegativeSafeInteger (a_reservedTokens input) \<or>
            \<not> isNonNegativeSafeInteger (a_upperBoundTokens input) \<or>
            the_int (a_upperBoundTokens input) < the_int (a_reservedTokens input) \<or>
            \<not> is_safe_integer (a_maxOutputTokens input) \<or> the_int (a_maxOutputTokens input) < 0 then Inl Internal_error
          else (let parsedKey = parseIdempotencyKey (a_rawIdempotencyKey input);
                    rawKey = (case parsedKey of Key_valid k \<Rightarrow> Some k | _ \<Rightarrow> None)
                in if parsedKey = Key_invalid then Inl Invalid_request
                   else (case resolveRelayEnvironment (OCTG_RELAY_ENVIRONMENT env) of
                      None \<Rightarrow> Inl Internal_error
                    | Some relayEnvironment \<Rightarrow>
                        if c_environment context \<noteq> relayEnvironment then Inl Environment_mismatch
                        else if \<not> isKeyBindingConsistent sha256 context rawKey then Inl Invalid_request
                        else Inr (context, metadata, rawKey)))
      | _ \<Rightarrow> Inl Invalid_request)"

text \<open>A key that maps to another request that is not released.\<close>

definition key_taken :: "quota_store \<Rightarrow> string option \<Rightarrow> relay_context \<Rightarrow> bool" where
  "key_taken st rawKey context =
     (case rawKey of
        None \<Rightarrow> False
      | Some key \<Rightarrow>
          (case getIdempotencyRequestId st key (Some (c_clientId context)) of
             None \<Rightarrow> False
           | Some mapped \<Rightarrow>
               mapped \<noteq> c_requestId context \<and>
               (case getEntry st mapped of None \<Rightarrow> True | Some e \<Rightarrow> e_state e \<noteq> Req_released)))"

definition replay_admission ::
  "quota_env \<Rightarrow> quota_identity \<Rightarrow> int \<Rightarrow> relay_context \<Rightarrow> request_meta \<Rightarrow> admission_input \<Rightarrow> quota_store \<Rightarrow>
     admission_result throws" where
  "replay_admission env identity nowMs context metadata input st =
     (case getRelayGrant st (c_requestId context) of
        None \<Rightarrow> Inr (Admission_denied Invalid_request)
      | Some grant \<Rightarrow>
          if \<not> matchesRelayAdmission grant context metadata input then Inr (Admission_denied Invalid_request)
          else if gr_state grant = Authorized then
            and_then (buildQuotaSnapshot (loadPool st env identity nowMs) identity) (\<lambda>q. Inr (Admitted grant q))
          else if isTerminalGrantState (gr_state grant) then Inr (Admission_denied Grant_terminalized)
          else Inr (Admission_denied Grant_replayed))"

definition has_room :: "pool_state \<Rightarrow> int \<Rightarrow> int \<Rightarrow> bool" where
  "has_room state tokens upperBoundTokens \<longleftrightarrow>
     (let remaining = remainingOf state;
          hasCapacity = tokens \<le> remaining;
          isStrict = tierOf remaining (limit state) = STRICT;
          fitsStrictBound = upperBoundTokens \<le> remaining
      in \<not> (\<not> hasCapacity \<or> isStrict \<and> \<not> fitsStrictBound))"

definition new_grant ::
  "quota_identity \<Rightarrow> int \<Rightarrow> string \<Rightarrow> string \<Rightarrow> int \<Rightarrow> relay_context \<Rightarrow> request_meta \<Rightarrow> admission_input \<Rightarrow> relay_grant" where
  "new_grant identity nowMs generation grantId retention context metadata input =
     \<lparr>gr_requestId = c_requestId context, gr_grantId = grantId, gr_leaseGeneration = generation,
      gr_environment = c_environment context, gr_clientId = c_clientId context,
      gr_idempotencyKeyHash = c_idempotencyKeyHash context, gr_nonce = c_nonce context, gr_model = m_model metadata,
      gr_pool = i_pool identity, gr_admissionUtcDay = i_utcDay identity, gr_state = Authorized, gr_issuedAtMs = nowMs,
      gr_authorizationExpiresAtMs = nowMs + RELAY_GRANT_AUTHORIZATION_TTL_MS,
      gr_credentialExpiresAtMs = nowMs + RELAY_GRANT_CREDENTIAL_TTL_MS, gr_retentionDeadlineMs = retention,
      gr_admission = \<lparr>ad_contextIssuedAtMs = c_issuedAtMs context, ad_contextExpiresAtMs = c_expiresAtMs context,
        ad_metadata = metadata, ad_reservedTokens = the_int (a_reservedTokens input),
        ad_upperBoundTokens = the_int (a_upperBoundTokens input), ad_maxOutputTokens = the_int (a_maxOutputTokens input),
        ad_cacheEnabled = a_cacheEnabled input\<rparr>,
      gr_terminalReport = None, gr_terminalFingerprint = None\<rparr>"

definition new_entry :: "int \<Rightarrow> int \<Rightarrow> string option \<Rightarrow> reserve_result \<Rightarrow> string \<Rightarrow> request_entry" where
  "new_entry tokens upperBoundTokens key result created =
     \<lparr>e_idempotencyKey = key, e_state = Req_reserved, e_tokens = tokens, e_upperBoundTokens = upperBoundTokens,
      e_reservedTokens = tokens, e_requestedDisposition = None, e_uncertaintyOrigin = None, e_actualTokens = None,
      e_results = \<lparr>res_reserve = Some result, res_settle = None, res_markUncertain = None,
        res_markReserveOutcomeUnknown = None, res_release = None, res_reconcile = None\<rparr>,
      e_createdAt = created, e_updatedAt = created\<rparr>"

text \<open>The writes of a new reservation, shared with \<open>reserve\<close> of the controller.\<close>

definition write_reservation ::
  "int \<Rightarrow> pool_state \<Rightarrow> string \<Rightarrow> int \<Rightarrow> int \<Rightarrow> string option \<Rightarrow> string option \<Rightarrow> reserve_result \<Rightarrow> quota_store \<Rightarrow> quota_store" where
  "write_reservation now state requestId tokens upperBoundTokens key clientId result st =
     (let unresolved = loadUnresolved st;
          st1 = saveUnresolved (unresolved\<lparr>reservedCount := reservedCount unresolved + 1\<rparr>)
            (putEntry now requestId (new_entry tokens upperBoundTokens key result (to_iso_string now))
              (savePool now (state\<lparr>reservedTokens := reservedTokens state + tokens,
                                   requestCount := requestCount state + 1\<rparr>) st))
      in case key of None \<Rightarrow> st1 | Some k \<Rightarrow> putIdempotencyRequestId k requestId clientId st1)"

definition admit_new ::
  "quota_env \<Rightarrow> quota_identity \<Rightarrow> int \<Rightarrow> string \<Rightarrow> string \<Rightarrow> relay_context \<Rightarrow> request_meta \<Rightarrow> string option \<Rightarrow> admission_input \<Rightarrow>
     quota_store \<Rightarrow> (admission_result \<times> quota_store) throws" where
  "admit_new env identity nowMs generation grantId context metadata rawKey input st =
     (let tokens = the_int (a_reservedTokens input); ub = the_int (a_upperBoundTokens input);
          poolState = loadPool st env identity nowMs
      in if \<not> has_room poolState tokens ub then Inr (Admission_denied Insufficient_quota, st)
         else and_then (normalizeInFlightState (loadInFlight st) nowMs) (\<lambda>(leases, migrated).
           let activeLeases = withoutExpiredLeases leases nowMs;
               st1 = (if migrated \<or> length activeLeases \<noteq> length leases then saveInFlight activeLeases st else st)
           in if int (length activeLeases) \<ge> resolveMaxInFlightRequests (MAX_IN_FLIGHT_REQUESTS env)
              then Inr (Admission_denied Worker_concurrency_exceeded, st1)
              else and_then (reset_at (i_utcDay identity)) (\<lambda>resetAt.
                and_then (relayLeaseExpiry nowMs) (\<lambda>leaseExpiry.
                and_then (relayGrantRetentionDeadlineMs (i_utcDay identity)) (\<lambda>retention.
                  let reserveResult = Reserve_ok (remainingOf poolState - tokens) resetAt;
                      lease = \<lparr>l_requestId = c_requestId context, l_generation = generation, l_expiresAtMs = leaseExpiry\<rparr>;
                      grant = new_grant identity nowMs generation grantId retention context metadata input;
                      nextPoolState = poolState\<lparr>reservedTokens := reservedTokens poolState + tokens,
                                                requestCount := requestCount poolState + 1\<rparr>;
                      st2 = write_reservation nowMs poolState (c_requestId context) tokens ub rawKey
                              (Some (c_clientId context)) reserveResult st1;
                      st3 = putRelayGrant grant (saveInFlight (activeLeases @ [lease]) st2)
                  in and_then (buildQuotaSnapshot nextPoolState identity) (\<lambda>q. Inr (Admitted grant q, st3)))))))"

definition admitRelayInTransaction ::
  "(string \<Rightarrow> string) \<Rightarrow> quota_env \<Rightarrow> quota_identity \<Rightarrow> admission_input \<Rightarrow> int \<Rightarrow> string \<Rightarrow> string \<Rightarrow> quota_store \<Rightarrow>
     (admission_result \<times> quota_store) throws" where
  "admitRelayInTransaction sha256 env identity input nowMs generation grantId st =
     (case check_admission sha256 env input st of
        Inl code \<Rightarrow> Inr (Admission_denied code, st)
      | Inr (context, metadata, rawKey) \<Rightarrow>
          if key_taken st rawKey context then Inr (Admission_denied Duplicate_idempotency_key, st)
          else if getEntry st (c_requestId context) \<noteq> None
          then and_then (replay_admission env identity nowMs context metadata input st) (\<lambda>r. Inr (r, st))
          else if st_finalized st then Inr (Admission_denied Insufficient_quota, st)
          else admit_new env identity nowMs generation grantId context metadata rawKey input st)"

end
