(* ===== verification/Grant_Lifecycle.thy ===== *)
theory Grant_Lifecycle
  imports Admission
begin

section \<open>Grant_Lifecycle: activation, renewal and terminal reports of a grant\<close>

text \<open>
  durable-objects/quota-controller/src/relay-grant-lifecycle.ts.  Every operation runs inside one
  transaction; a thrown error leaves the store.
\<close>

datatype activate_result = Activated relay_grant | Activation_denied relay_error_code
datatype renew_relay_result = Relay_renewed relay_grant int | Renewal_denied relay_error_code
datatype finish_result = Finish_accepted relay_grant request_entry | Finish_denied relay_error_code "grant_state option"

definition MAX_FINGERPRINT_BYTES :: int where
  "MAX_FINGERPRINT_BYTES = 128"

definition releaseGrantLease :: "int \<Rightarrow> relay_grant \<Rightarrow> quota_store \<Rightarrow> quota_store throws" where
  "releaseGrantLease nowMs grant st =
     and_then (releaseInFlightLease nowMs (gr_requestId grant) (Some (gr_leaseGeneration grant)) st) (\<lambda>(_, st'). Inr st')"

definition expireAttemptedGrant :: "quota_env \<Rightarrow> quota_identity \<Rightarrow> int \<Rightarrow> relay_grant \<Rightarrow> quota_store \<Rightarrow> quota_store throws" where
  "expireAttemptedGrant env identity nowMs grant st =
     and_then (applyQuotaLifecycleTransition env identity nowMs (gr_requestId grant) Mark_uncertain st) (\<lambda>(_, st1).
     and_then (releaseGrantLease nowMs grant st1) (\<lambda>st2.
       Inr (putRelayGrant (grant\<lparr>gr_state := Uncertain\<rparr>) st2)))"

text \<open>\<open>None\<close> if the entry is missing or not reserved; else whether the leases were migrated, the stored and the
  active leases and the lease of the request.\<close>

definition activeGrantLeases ::
  "int \<Rightarrow> relay_grant \<Rightarrow> quota_store \<Rightarrow>
     (bool \<times> in_flight_lease list \<times> in_flight_lease list \<times> in_flight_lease option) option throws" where
  "activeGrantLeases nowMs grant st =
     (case getEntry st (gr_requestId grant) of
        None \<Rightarrow> Inr None
      | Some entry \<Rightarrow>
          if e_state entry \<noteq> Req_reserved then Inr None
          else and_then (normalizeInFlightState (loadInFlight st) nowMs) (\<lambda>(leases, migrated).
            let activeLeases = withoutExpiredLeases leases nowMs
            in Inr (Some (migrated, leases, activeLeases, lease_of (gr_requestId grant) activeLeases))))"

definition lease_held :: "relay_grant \<Rightarrow> in_flight_lease option \<Rightarrow> bool" where
  "lease_held grant lease = (case lease of None \<Rightarrow> False | Some l \<Rightarrow> l_generation l = gr_leaseGeneration grant)"

definition activateRelayInTransaction ::
  "quota_env \<Rightarrow> quota_identity \<Rightarrow> int \<Rightarrow> grant_binding \<Rightarrow> quota_store \<Rightarrow> (activate_result \<times> quota_store) throws" where
  "activateRelayInTransaction env identity nowMs input st =
     (case getRelayGrant st (b_requestId input) of
        None \<Rightarrow> Inr (Activation_denied Grant_not_found, st)
      | Some grant \<Rightarrow>
          if grantBindingMismatch grant input identity then Inr (Activation_denied Grant_not_found, st)
          else if nowMs \<ge> gr_credentialExpiresAtMs grant then Inr (Activation_denied Grant_expired, st)
          else if isTerminalGrantState (gr_state grant) then Inr (Activation_denied Grant_terminalized, st)
          else if gr_state grant = Attempted \<or> gr_state grant = Uncertain then Inr (Activation_denied Grant_replayed, st)
          else if nowMs \<ge> gr_authorizationExpiresAtMs grant then
            and_then (applyQuotaLifecycleTransition env identity nowMs (gr_requestId grant) Release st) (\<lambda>(_, st1).
            and_then (releaseGrantLease nowMs grant st1) (\<lambda>st2.
              Inr (Activation_denied Grant_expired, putRelayGrant (grant\<lparr>gr_state := Released\<rparr>) st2)))
          else and_then (activeGrantLeases nowMs grant st) (\<lambda>checked.
            case checked of
              None \<Rightarrow> Inr (Activation_denied Grant_not_found, st)
            | Some (migrated, leases, activeLeases, lease) \<Rightarrow>
                if \<not> lease_held grant lease then Inr (Activation_denied Lease_lost, st)
                else let activated = grant\<lparr>gr_state := Attempted\<rparr>
                     in Inr (Activated activated, putRelayGrant activated st)))"

definition renewRelayInTransaction ::
  "quota_env \<Rightarrow> quota_identity \<Rightarrow> int \<Rightarrow> grant_binding \<Rightarrow> quota_store \<Rightarrow> (renew_relay_result \<times> quota_store) throws" where
  "renewRelayInTransaction env identity nowMs input st =
     (case getRelayGrant st (b_requestId input) of
        None \<Rightarrow> Inr (Renewal_denied Grant_not_found, st)
      | Some grant \<Rightarrow>
          if grantBindingMismatch grant input identity then Inr (Renewal_denied Grant_not_found, st)
          else if nowMs \<ge> gr_credentialExpiresAtMs grant then Inr (Renewal_denied Grant_expired, st)
          else if isTerminalGrantState (gr_state grant) \<or> gr_state grant = Uncertain
          then Inr (Renewal_denied Grant_terminalized, st)
          else if gr_state grant \<noteq> Attempted then Inr (Renewal_denied Invalid_request, st)
          else if nowMs \<ge> gr_authorizationExpiresAtMs grant then
            and_then (expireAttemptedGrant env identity nowMs grant st) (\<lambda>st1. Inr (Renewal_denied Grant_expired, st1))
          else and_then (activeGrantLeases nowMs grant st) (\<lambda>checked.
            case checked of
              None \<Rightarrow> Inr (Renewal_denied Invalid_request, st)
            | Some (migrated, leases, activeLeases, lease) \<Rightarrow>
                if \<not> lease_held grant lease then
                  Inr (Renewal_denied Lease_lost,
                    if migrated \<or> length activeLeases \<noteq> length leases then saveInFlight activeLeases st else st)
                else and_then (relayLeaseExpiry nowMs) (\<lambda>expiry.
                  Inr (Relay_renewed grant expiry,
                    saveInFlight (map (\<lambda>l. if l_requestId l = gr_requestId grant then l\<lparr>l_expiresAtMs := expiry\<rparr> else l)
                      activeLeases) st))))"

text \<open>The transition and the next grant state of a report.\<close>

fun outcome_transition :: "terminal_outcome \<Rightarrow> quota_transition" where
  "outcome_transition (Outcome_settle n) = Settle n"
| "outcome_transition Outcome_uncertain = Mark_uncertain"
| "outcome_transition Outcome_release = Release"

fun outcome_state :: "terminal_outcome \<Rightarrow> grant_state" where
  "outcome_state (Outcome_settle n) = Settled"
| "outcome_state Outcome_uncertain = Uncertain"
| "outcome_state Outcome_release = Released"

fun is_settle :: "terminal_outcome \<Rightarrow> bool" where
  "is_settle (Outcome_settle n) = True"
| "is_settle _ = False"

definition finish_apply ::
  "quota_env \<Rightarrow> quota_identity \<Rightarrow> int \<Rightarrow> relay_grant \<Rightarrow> relay_terminal \<Rightarrow> string \<Rightarrow> quota_store \<Rightarrow>
     (finish_result \<times> quota_store) throws" where
  "finish_apply env identity nowMs grant report fingerprint st =
     and_then (applyQuotaLifecycleTransition env identity nowMs (gr_requestId grant)
       (outcome_transition (t_outcome report)) st) (\<lambda>(applied, st1).
       if applied = Ok_transition Unknown_request then Inr (Finish_denied Invalid_request (Some (gr_state grant)), st1)
       else and_then (releaseGrantLease nowMs grant st1) (\<lambda>st2.
         let finished = grant\<lparr>gr_state := outcome_state (t_outcome report), gr_terminalReport := Some report,
                              gr_terminalFingerprint := Some fingerprint\<rparr>;
             st3 = putRelayGrant finished st2
         in case getEntry st3 (gr_requestId grant) of
              None \<Rightarrow> Inr (Finish_denied Invalid_request (Some (gr_state finished)), st3)
            | Some entry \<Rightarrow> Inr (Finish_accepted finished entry, st3)))"

text \<open>A parsed settle report has its tokens, so the code's second test for null tokens never holds.\<close>

definition finishRelayInTransaction ::
  "quota_env \<Rightarrow> quota_identity \<Rightarrow> int \<Rightarrow> grant_binding \<Rightarrow> json \<Rightarrow> string \<Rightarrow> quota_store \<Rightarrow> (finish_result \<times> quota_store) throws" where
  "finishRelayInTransaction env identity nowMs input reportJson fingerprint st =
     (case parseRelayTerminal reportJson of
        None \<Rightarrow> Inr (Finish_denied Invalid_request None, st)
      | Some report \<Rightarrow>
          if t_grantId report \<noteq> b_grantId input \<or> t_leaseGeneration report \<noteq> b_leaseGeneration input \<or>
            utf16_length fingerprint = 0 \<or> utf16_length fingerprint > MAX_FINGERPRINT_BYTES
          then Inr (Finish_denied Invalid_request None, st)
          else (case getRelayGrant st (b_requestId input) of
             None \<Rightarrow> Inr (Finish_denied Grant_not_found None, st)
           | Some grant \<Rightarrow>
               if grantBindingMismatch grant input identity then Inr (Finish_denied Grant_not_found None, st)
               else if nowMs \<ge> gr_credentialExpiresAtMs grant then Inr (Finish_denied Grant_expired (Some (gr_state grant)), st)
               else if isTerminalGrantState (gr_state grant) then
                 (if gr_terminalFingerprint grant = Some fingerprint then
                    (case getEntry st (gr_requestId grant) of
                       None \<Rightarrow> Inr (Finish_denied Invalid_request (Some (gr_state grant)), st)
                     | Some entry \<Rightarrow> Inr (Finish_accepted grant entry, st))
                  else Inr (Finish_denied Grant_terminalized (Some (gr_state grant)), st))
               else if t_outcome report = Outcome_release \<and> gr_state grant \<noteq> Authorized then
                 (if gr_state grant = Attempted \<and> nowMs \<ge> gr_authorizationExpiresAtMs grant then
                    and_then (expireAttemptedGrant env identity nowMs grant st) (\<lambda>st1.
                      Inr (Finish_denied Invalid_request (Some Uncertain), st1))
                  else Inr (Finish_denied Invalid_request (Some (gr_state grant)), st))
               else if is_settle (t_outcome report) \<and> gr_state grant = Authorized
               then Inr (Finish_denied Invalid_request (Some (gr_state grant)), st)
               else finish_apply env identity nowMs grant report fingerprint st))"

end
