(* ===== verification/Cpu_Gate.thy ===== *)
theory Cpu_Gate
  imports Grant_Lifecycle
begin

section \<open>Cpu_Gate: the operator's view, the setup fence and the slot\<close>

text \<open>
  durable-objects/quota-controller/src/relay-cpu-gate.ts and relay-cpu-gate-slot.ts.  The slot lives in
  its own Durable Object; the quota controller that a close asks for proof is the argument of
  \<open>closeRelayCpuGateSlot\<close>, a function from the object name to its two answers.
\<close>

subsection \<open>Snapshot and inspection\<close>

record gate_snapshot =
  sn_pool :: pool_name
  sn_utcDay :: string
  sn_limit :: int
  sn_remaining :: int
  sn_confirmedTokens :: int
  sn_reservedTokens :: int
  sn_uncertainTokens :: int
  sn_requestCount :: int
  sn_unresolvedReservedCount :: int
  sn_unresolvedUncertainCount :: int
  sn_activeLeaseCount :: int
  sn_maxInFlight :: int

definition getRelayCpuGateSnapshot :: "quota_store \<Rightarrow> quota_env \<Rightarrow> quota_identity \<Rightarrow> int \<Rightarrow> gate_snapshot throws" where
  "getRelayCpuGateSnapshot st env identity nowMs =
     (let p = loadPool st env identity nowMs; unresolved = loadUnresolved st
      in and_then (normalizeInFlightState (loadInFlight st) nowMs) (\<lambda>(leases, _). Inr
        \<lparr>sn_pool = i_pool identity, sn_utcDay = i_utcDay identity, sn_limit = limit p, sn_remaining = remainingOf p,
         sn_confirmedTokens = confirmedTokens p, sn_reservedTokens = reservedTokens p,
         sn_uncertainTokens = uncertainTokens p, sn_requestCount = requestCount p,
         sn_unresolvedReservedCount = reservedCount unresolved, sn_unresolvedUncertainCount = uncertainCount unresolved,
         sn_activeLeaseCount = int (length (withoutExpiredLeases leases nowMs)),
         sn_maxInFlight = resolveMaxInFlightRequests (MAX_IN_FLIGHT_REQUESTS env)\<rparr>))"

definition isCanonicalFixture :: "relay_grant \<Rightarrow> request_entry \<Rightarrow> string \<times> string \<Rightarrow> quota_identity \<Rightarrow> bool" where
  "isCanonicalFixture grant entry fixture identity \<longleftrightarrow>
     (let metadata = ad_metadata (gr_admission grant) in
      gr_clientId grant = fst fixture \<and> gr_model grant = snd fixture \<and>
      gr_pool grant = i_pool identity \<and> gr_admissionUtcDay grant = i_utcDay identity \<and>
      gr_idempotencyKeyHash grant = None \<and> ad_reservedTokens (gr_admission grant) = 0 \<and>
      ad_upperBoundTokens (gr_admission grant) = 0 \<and> ad_maxOutputTokens (gr_admission grant) = 0 \<and>
      \<not> ad_cacheEnabled (gr_admission grant) \<and> m_estimatedInputTokens metadata = 0 \<and>
      m_maxOutputTokens metadata = 0 \<and> m_inputBytes metadata = 0 \<and> m_rawBodyBytes metadata = 0 \<and>
      \<not> m_isToolUse metadata \<and> \<not> m_stream metadata \<and> e_idempotencyKey entry = None \<and>
      e_tokens entry = 0 \<and> e_upperBoundTokens entry = 0 \<and> e_reservedTokens entry = 0)"

record fixture_inspection =
  in_state :: grant_state
  in_requestState :: request_state
  in_reservedTokens :: int
  in_upperBoundTokens :: int
  in_maxOutputTokens :: int
  in_actualTokens :: "int option"
  in_activeLease :: bool

datatype inspection = Absent bool | Non_fixture | Fixture fixture_inspection

definition getRelayCpuGateGrantInspection ::
  "quota_store \<Rightarrow> quota_env \<Rightarrow> quota_identity \<Rightarrow> string \<Rightarrow> int \<Rightarrow> inspection throws" where
  "getRelayCpuGateGrantInspection st env identity requestId nowMs =
     (case (getRelayGrant st requestId, getEntry st requestId) of
        (None, None) \<Rightarrow> Inr (Absent (kv_get (st_fences st) requestId = Some True))
      | (Some grant, Some entry) \<Rightarrow>
          (case resolveCpuGateFixtureIdentity env (i_pool identity) of
             None \<Rightarrow> Inr Non_fixture
           | Some fixture \<Rightarrow>
               if \<not> isCanonicalFixture grant entry fixture identity then Inr Non_fixture
               else and_then (normalizeInFlightState (loadInFlight st) nowMs) (\<lambda>(leases, _).
                 let active = withoutExpiredLeases leases nowMs
                 in Inr (Fixture \<lparr>in_state = gr_state grant, in_requestState = e_state entry,
                      in_reservedTokens = ad_reservedTokens (gr_admission grant),
                      in_upperBoundTokens = ad_upperBoundTokens (gr_admission grant),
                      in_maxOutputTokens = ad_maxOutputTokens (gr_admission grant),
                      in_actualTokens = e_actualTokens entry,
                      in_activeLease = list_ex (\<lambda>l. l_requestId l = requestId \<and> l_generation l = gr_leaseGeneration grant)
                        active\<rparr>)))
      | _ \<Rightarrow> Inr Non_fixture)"

datatype fence_result = Fenced | Fence_fixture fixture_inspection | Fence_non_fixture

definition fenceRelayCpuGateSetup ::
  "quota_store \<Rightarrow> quota_env \<Rightarrow> quota_identity \<Rightarrow> string \<Rightarrow> int \<Rightarrow> (fence_result \<times> quota_store) throws" where
  "fenceRelayCpuGateSetup st env identity requestId nowMs =
     and_then (getRelayCpuGateGrantInspection st env identity requestId nowMs) (\<lambda>inspected.
       case inspected of
         Fixture i \<Rightarrow> Inr (Fence_fixture i, st)
       | Non_fixture \<Rightarrow> Inr (Fence_non_fixture, st)
       | Absent fenced \<Rightarrow>
           if fenced then Inr (Fenced, st)
           else Inr (Fenced, st\<lparr>st_fences := kv_put requestId True (st_fences st)\<rparr>))"

subsection \<open>The slot\<close>

definition CPU_GATE_SLOT_PREFIX :: string where
  "CPU_GATE_SLOT_PREFIX = ''cpu-gate-slot:v1:''"

definition isCpuGateSlotName :: "string option \<Rightarrow> string option \<Rightarrow> bool" where
  "isCpuGateSlotName idName environment =
     (case environment of
        None \<Rightarrow> False
      | Some e \<Rightarrow> (e = ''preview'' \<or> e = ''production'') \<and> idName = Some (CPU_GATE_SLOT_PREFIX @ e))"

datatype slot_claim_result = Slot_claimed slot_state | Slot_busy
datatype slot_close_result = Slot_closed | Slot_blocked

text \<open>The pool of an owner is one of the two by its type; the id may be any string.\<close>

definition slot_owner_ok :: "slot_owner \<Rightarrow> bool" where
  "slot_owner_ok owner \<longleftrightarrow> RELAY_REQUEST_ID_PATTERN (so_requestId owner)"

definition assertSlotIdentity :: "string option \<Rightarrow> quota_env \<Rightarrow> unit throws" where
  "assertSlotIdentity idName env =
     (if \<not> isCpuGateSlotName idName (OCTG_RELAY_ENVIRONMENT env)
      then Inl (TypeError ''CPU-gate slot RPC requires the environment-local singleton identity.'') else Inr ())"

definition assertOwner :: "slot_owner \<Rightarrow> unit throws" where
  "assertOwner owner = (if \<not> slot_owner_ok owner then Inl (TypeError ''CPU-gate slot owner is invalid.'') else Inr ())"

definition matchesOwner :: "slot_owner \<Rightarrow> slot_owner \<Rightarrow> bool" where
  "matchesOwner left right \<longleftrightarrow> so_pool left = so_pool right \<and> so_requestId left = so_requestId right"

definition stored_slot :: "quota_store \<Rightarrow> slot_state" where
  "stored_slot st = (case st_slot st of None \<Rightarrow> Slot_idle | Some s \<Rightarrow> s)"

definition getRelayCpuGateSlot :: "string option \<Rightarrow> quota_env \<Rightarrow> quota_store \<Rightarrow> slot_state throws" where
  "getRelayCpuGateSlot idName env st = and_then (assertSlotIdentity idName env) (\<lambda>_. Inr (stored_slot st))"

definition claimRelayCpuGateSlot ::
  "string option \<Rightarrow> quota_env \<Rightarrow> slot_owner \<Rightarrow> quota_store \<Rightarrow> (slot_claim_result \<times> quota_store) throws" where
  "claimRelayCpuGateSlot idName env owner st =
     and_then (assertSlotIdentity idName env) (\<lambda>_.
     and_then (assertOwner owner) (\<lambda>_.
       case stored_slot st of
         Slot_idle \<Rightarrow>
           (let generation = (case st_slot_generation st of None \<Rightarrow> 0 | Some g \<Rightarrow> g) + 1
            in if \<not> safe_int generation then Inl (RangeError ''CPU-gate slot generation exhausted.'')
               else Inr (Slot_claimed (Slot_held owner generation),
                 st\<lparr>st_slot_generation := Some generation, st_slot := Some (Slot_held owner generation)\<rparr>))
       | Slot_held current g \<Rightarrow>
           if so_pool current = so_pool owner \<and> so_requestId current = so_requestId owner
           then Inr (Slot_claimed (Slot_held current g), st) else Inr (Slot_busy, st)
       | Slot_closing current g \<Rightarrow> Inr (Slot_busy, st)))"

text \<open>Closing: the transaction that marks the slot, the proof from the quota controller, and the
  transaction that frees the slot, with the storage as it is then.\<close>

datatype mark_result = Mark_idle | Mark_blocked | Mark_closing

definition close_mark :: "slot_owner \<Rightarrow> int \<Rightarrow> quota_store \<Rightarrow> mark_result \<times> quota_store" where
  "close_mark owner generation st =
     (case stored_slot st of
        Slot_idle \<Rightarrow> (Mark_idle, st)
      | Slot_held current g \<Rightarrow>
          if \<not> matchesOwner current owner \<or> g \<noteq> generation then (Mark_blocked, st)
          else (Mark_closing, st\<lparr>st_slot := Some (Slot_closing current g)\<rparr>)
      | Slot_closing current g \<Rightarrow>
          if \<not> matchesOwner current owner \<or> g \<noteq> generation then (Mark_blocked, st) else (Mark_closing, st))"

fun close_proof :: "fence_result \<Rightarrow> inspection \<Rightarrow> bool" where
  "close_proof Fenced (Absent fenced) = fenced"
| "close_proof (Fence_fixture _) (Fixture i) =
     (\<not> in_activeLease i \<and>
      (in_state i = Settled \<and> in_requestState i = Req_settled \<or>
       in_state i = Released \<and> in_requestState i = Req_released \<or>
       in_state i = Reconciled_consumed \<and> (in_requestState i = Req_reconciled \<or> in_requestState i = Req_settled) \<or>
       in_state i = Reconciled_unused \<and> in_requestState i = Req_released))"
| "close_proof _ _ = False"

definition close_free :: "slot_owner \<Rightarrow> int \<Rightarrow> quota_store \<Rightarrow> slot_close_result \<times> quota_store" where
  "close_free owner generation st =
     (case st_slot st of
        Some (Slot_closing current g) \<Rightarrow>
          if g \<noteq> generation \<or> \<not> matchesOwner current owner then (Slot_blocked, st)
          else (Slot_closed, st\<lparr>st_slot := None\<rparr>)
      | _ \<Rightarrow> (Slot_blocked, st))"

text \<open>The name of the quota controller that a close asks.\<close>

definition close_target :: "slot_owner \<Rightarrow> string option" where
  "close_target owner = map_option (quotaIdOf (so_pool owner)) (relayRequestUtcDayOf (so_requestId owner))"

text \<open>\<open>between\<close> is what other calls do to the storage between the two transactions.\<close>

definition closeRelayCpuGateSlot ::
  "string option \<Rightarrow> quota_env \<Rightarrow> (string \<Rightarrow> string \<Rightarrow> (fence_result \<times> inspection) throws) \<Rightarrow> (quota_store \<Rightarrow> quota_store) \<Rightarrow>
     slot_owner \<Rightarrow> jsnum \<Rightarrow> quota_store \<Rightarrow> (slot_close_result \<times> quota_store) throws" where
  "closeRelayCpuGateSlot idName env ask between owner generation st =
     and_then (assertSlotIdentity idName env) (\<lambda>_.
     and_then (assertOwner owner) (\<lambda>_.
       if \<not> is_safe_integer generation \<or> the_int generation < 1 then Inr (Slot_blocked, st)
       else
         case close_mark owner (the_int generation) st of
           (Mark_idle, st1) \<Rightarrow> Inr (Slot_closed, st1)
         | (Mark_blocked, st1) \<Rightarrow> Inr (Slot_blocked, st1)
         | (Mark_closing, st1) \<Rightarrow>
             (case close_target owner of
                None \<Rightarrow> Inr (Slot_blocked, st1)
              | Some target \<Rightarrow>
                  and_then (ask target (so_requestId owner)) (\<lambda>(fence, inspected).
                    if \<not> close_proof fence inspected then Inr (Slot_blocked, st1)
                    else Inr (close_free owner (the_int generation) (between st1))))))"

end
