(* ===== verification/Controller.thy ===== *)
theory Controller
  imports Cpu_Gate
begin

section \<open>Controller: the RPC operations of the quota controller\<close>

text \<open>
  durable-objects/quota-controller/src/quota-controller.ts.  \<open>name\<close> is the name of the Durable Object.
  Every operation asserts the identity first (\<open>quota_rpc\<close>); a transaction that throws leaves the store, and then the
  operation gives the error without a store.
\<close>

definition identity_error :: js_error where
  "identity_error = TypeError ''QuotaController requires a quota:{POOL}:{UTC_DAY} name.''"

definition identity_of :: "string option \<Rightarrow> quota_identity throws" where
  "identity_of name =
     (case (case name of None \<Rightarrow> [] | Some n \<Rightarrow> split_at (CHR '':'') n) of
        [quota_part, p, day] \<Rightarrow>
          if quota_part \<noteq> ''quota'' then Inl identity_error
          else (case parse_pool_name p of
             None \<Rightarrow> Inl identity_error
           | Some pool \<Rightarrow>
               if day = [] then Inl identity_error
               else if \<not> (utf16_length day = 10 \<and> utc_day_pattern day) then Inl identity_error
               else (case parse_utc_day day of
                  None \<Rightarrow> Inl identity_error
                | Some ms \<Rightarrow> if take 10 (to_iso_string ms) \<noteq> day then Inl identity_error
                             else Inr \<lparr>i_pool = pool, i_utcDay = day\<rparr>))
      | _ \<Rightarrow> Inl identity_error)"

subsection \<open>Reserve\<close>

definition reserve_key :: "quota_store \<Rightarrow> string option \<Rightarrow> string option \<Rightarrow> string option" where
  "reserve_key st key clientId = (case key of None \<Rightarrow> None | Some k \<Rightarrow> getIdempotencyRequestId st k clientId)"

text \<open>The request whose entry answers: the mapped one unless it is released.\<close>

definition reserve_target :: "quota_store \<Rightarrow> string \<Rightarrow> string option \<Rightarrow> string" where
  "reserve_target st requestId mapped =
     (case mapped of
        None \<Rightarrow> requestId
      | Some m \<Rightarrow>
          (case getEntry st m of
             Some e \<Rightarrow> if e_state e = Req_released then requestId else m
           | None \<Rightarrow> m))"

definition reserve_existing ::
  "string \<Rightarrow> string option \<Rightarrow> string \<Rightarrow> request_entry \<Rightarrow> int \<Rightarrow> int \<Rightarrow> string \<Rightarrow> reserve_result throws" where
  "reserve_existing requestId mapped entryRequestId existing tokens upperBoundTokens resetAt =
     (if mapped \<noteq> None \<and> e_state existing \<noteq> Req_released \<and> mapped \<noteq> Some requestId
      then Inr (Reserve_duplicate entryRequestId resetAt)
      else if e_tokens existing \<noteq> tokens \<or> e_upperBoundTokens existing \<noteq> upperBoundTokens
      then Inl (TypeError (''Request '' @ entryRequestId @ '' parameters do not match the saved request.''))
      else case res_reserve (e_results existing) of
        Some result \<Rightarrow> Inr result
      | None \<Rightarrow> Inl (TypeError (''Request '' @ entryRequestId @ '' has no saved reserve result.'')))"

definition reserve_transaction ::
  "quota_env \<Rightarrow> quota_identity \<Rightarrow> int \<Rightarrow> string \<Rightarrow> int \<Rightarrow> int \<Rightarrow> string option \<Rightarrow> string option \<Rightarrow> string \<Rightarrow> quota_store \<Rightarrow>
     (reserve_result \<times> quota_store) throws" where
  "reserve_transaction env identity now requestId tokens upperBoundTokens key clientId resetAt st =
     (let mapped = reserve_key st key clientId;
          entryRequestId = reserve_target st requestId mapped
      in case getEntry st entryRequestId of
           Some existing \<Rightarrow>
             and_then (reserve_existing requestId mapped entryRequestId existing tokens upperBoundTokens resetAt)
               (\<lambda>r. Inr (r, st))
         | None \<Rightarrow>
             if st_finalized st then Inr (Reserve_insufficient 0 resetAt, st)
             else let state = loadPool st env identity now; remaining = remainingOf state
                  in if \<not> has_room state tokens upperBoundTokens then Inr (Reserve_insufficient remaining resetAt, st)
                     else let result = Reserve_ok (remaining - tokens) resetAt
                          in Inr (result,
                               write_reservation now state requestId tokens upperBoundTokens key clientId result st))"

definition reserve ::
  "quota_env \<Rightarrow> quota_identity \<Rightarrow> int \<Rightarrow> string \<Rightarrow> jsnum \<Rightarrow> jsnum \<Rightarrow> json option \<Rightarrow> string option \<Rightarrow> quota_store \<Rightarrow>
     (reserve_result \<times> quota_store) throws" where
  "reserve env identity now requestId tokens upperBoundTokens idempotencyKey clientId st =
      (if \<not> is_safe_integer tokens \<or> the_int tokens < 0 \<or> \<not> is_safe_integer upperBoundTokens \<or>
         the_int upperBoundTokens < 0 \<or> the_int upperBoundTokens < the_int tokens
       then Inl (TypeError ''Reservation tokens and upper bound must be non-negative integers.'')
       else (case parseIdempotencyKey idempotencyKey of
          Key_invalid \<Rightarrow> Inl (TypeError ''Idempotency-Key must be at most 255 UTF-8 bytes.'')
        | parsed \<Rightarrow>
            and_then (reset_at (i_utcDay identity)) (\<lambda>resetAt.
              reserve_transaction env identity now requestId (the_int tokens) (the_int upperBoundTokens)
                (case parsed of Key_valid k \<Rightarrow> Some k | _ \<Rightarrow> None) clientId resetAt st)))"

subsection \<open>The operations as one type of calls\<close>

datatype quota_call =
    Call_reserve string jsnum jsnum "json option" "string option"
  | Call_settle string jsnum
  | Call_markUncertain string
  | Call_markReserveOutcomeUnknown string
  | Call_release string
  | Call_acquireInFlight string jsnum jsnum string
  | Call_renewInFlight string string jsnum
  | Call_releaseInFlight string "string option"
  | Call_admitRelay admission_input string string
  | Call_activateRelay grant_binding
  | Call_renewRelay grant_binding
  | Call_finishRelay grant_binding json string
  | Call_reconcileRequest string string
  | Call_finalizeDay
  | Call_fence string

datatype quota_answer =
    Ans_reserve reserve_result
  | Ans_ok ok_result
  | Ans_mark_unknown mark_unknown_result
  | Ans_acquire acquire_result
  | Ans_renew renew_result
  | Ans_release_lease release_lease_result
  | Ans_admission admission_result
  | Ans_activate activate_result
  | Ans_renew_relay renew_relay_result
  | Ans_finish finish_result
  | Ans_reconcile reconcile_result
  | Ans_finalize finalize_result
  | Ans_fence fence_result

definition settle :: "quota_env \<Rightarrow> quota_identity \<Rightarrow> int \<Rightarrow> string \<Rightarrow> jsnum \<Rightarrow> quota_store \<Rightarrow> (ok_result \<times> quota_store) throws" where
  "settle env identity now requestId actualTokens st =
     (if \<not> is_safe_integer actualTokens \<or> the_int actualTokens < 0
      then Inl (TypeError ''Actual tokens must be a non-negative safe integer.'')
      else Inr (settle_transition env identity now requestId (the_int actualTokens) st))"

definition parse_disposition :: "string \<Rightarrow> disposition option" where
  "parse_disposition s = (if s = ''consumed'' then Some Consumed else if s = ''unused'' then Some Unused else None)"

definition reconcileRequest ::
  "quota_env \<Rightarrow> quota_identity \<Rightarrow> int \<Rightarrow> string \<Rightarrow> string \<Rightarrow> quota_store \<Rightarrow> (reconcile_result \<times> quota_store) throws" where
  "reconcileRequest env identity now requestId d st =
     (case parse_disposition d of
        None \<Rightarrow> Inl (TypeError ''Reconcile disposition must be consumed or unused.'')
      | Some disp \<Rightarrow> reconcile_transition env identity now requestId disp st)"

text \<open>The answer of an operation with its constructor.\<close>

definition tag :: "('a \<Rightarrow> quota_answer) \<Rightarrow> ('a \<times> quota_store) throws \<Rightarrow> (quota_answer \<times> quota_store) throws" where
  "tag f r = and_then r (\<lambda>(a, st). Inr (f a, st))"

fun transaction ::
  "(string \<Rightarrow> string) \<Rightarrow> quota_env \<Rightarrow> quota_identity \<Rightarrow> int \<Rightarrow> quota_call \<Rightarrow> quota_store \<Rightarrow> (quota_answer \<times> quota_store) throws" where
  "transaction sha256 env identity now (Call_reserve r t u k c) st =
     tag Ans_reserve (reserve env identity now r t u k c st)"
| "transaction sha256 env identity now (Call_settle r n) st = tag Ans_ok (settle env identity now r n st)"
| "transaction sha256 env identity now (Call_markUncertain r) st =
     tag Ans_ok (Inr (markUncertain_transition env identity now r st))"
| "transaction sha256 env identity now (Call_markReserveOutcomeUnknown r) st =
     tag Ans_mark_unknown (Inr (markReserveOutcomeUnknown env identity now r st))"
| "transaction sha256 env identity now (Call_release r) st = tag Ans_ok (Inr (release_transition env identity now r st))"
| "transaction sha256 env identity now (Call_acquireInFlight r lm ttl uuid) st =
     tag Ans_acquire (acquireInFlightLease now uuid r lm ttl st)"
| "transaction sha256 env identity now (Call_renewInFlight r g ttl) st = tag Ans_renew (renewInFlightLease now r g ttl st)"
| "transaction sha256 env identity now (Call_releaseInFlight r g) st = tag Ans_release_lease (releaseInFlightLease now r g st)"
| "transaction sha256 env identity now (Call_admitRelay input uuid1 uuid2) st =
     tag Ans_admission (admitRelayInTransaction sha256 env identity input now uuid1 uuid2 st)"
| "transaction sha256 env identity now (Call_activateRelay b) st = tag Ans_activate (activateRelayInTransaction env identity now b st)"
| "transaction sha256 env identity now (Call_renewRelay b) st = tag Ans_renew_relay (renewRelayInTransaction env identity now b st)"
| "transaction sha256 env identity now (Call_finishRelay b rep fp) st =
     tag Ans_finish (finishRelayInTransaction env identity now b rep fp st)"
| "transaction sha256 env identity now (Call_reconcileRequest r d) st = tag Ans_reconcile (reconcileRequest env identity now r d st)"
| "transaction sha256 env identity now Call_finalizeDay st = tag Ans_finalize (Inr (finalizeDay st))"
| "transaction sha256 env identity now (Call_fence r) st =
     (if \<not> RELAY_REQUEST_ID_PATTERN r then Inl (TypeError ''CPU-gate request ID is invalid.'')
      else tag Ans_fence (fenceRelayCpuGateSetup st env identity r now))"

definition quota_rpc ::
  "(string \<Rightarrow> string) \<Rightarrow> string option \<Rightarrow> quota_env \<Rightarrow> int \<Rightarrow> quota_call \<Rightarrow> quota_store \<Rightarrow> (quota_answer \<times> quota_store) throws" where
  "quota_rpc sha256 name env now call st =
     and_then (identity_of name) (\<lambda>identity. transaction sha256 env identity now call st)"

record quota_view =
  qv_state :: pool_state
  qv_pool :: pool_name
  qv_remaining :: int

definition getState :: "string option \<Rightarrow> quota_env \<Rightarrow> int \<Rightarrow> quota_store \<Rightarrow> quota_view throws" where
  "getState name env now st =
     and_then (identity_of name) (\<lambda>identity.
       let state = loadPool st env identity now
       in Inr \<lparr>qv_state = state, qv_pool = i_pool identity, qv_remaining = remainingOf state\<rparr>)"

end
