(* ===== verification/Gateway_Config.thy ===== *)
theory Gateway_Config
  imports Credential
begin

section \<open>Gateway_Config: the relay bindings, the bearer checks and the cached configuration\<close>

text \<open>
  apps/gateway-worker/src/relay-auth.ts (resolving the relay mode from the environment and checking the
  credentials of a callback), policy.ts with the row reader of db.ts (the caches of the model registry and
  of the client policies).  The URL parser
  of the runtime is the argument \<open>new_url\<close>; the database is an argument of the loaders.
\<close>

subsection \<open>relay-auth.ts\<close>

record url =
  u_protocol :: string
  u_username :: string
  u_password :: string
  u_pathname :: string
  u_search :: string
  u_hash :: string

record relay_env_config =
  OCTG_RELAY_ENABLED :: "string option"
  OCTG_RELAY_ENVIRONMENT' :: "string option"
  OCTG_RELAY_INGRESS_ENDPOINT :: "string option"
  OCTG_RELAY_INGRESS_AUTH_TOKEN :: "string option"
  OCTG_RELAY_SERVICE_AUTH_TOKEN :: "string option"
  OCTG_RELAY_CPU_GATE_AUTH_TOKEN :: "string option"
  OCTG_RELAY_CONTEXT_HMAC_KEY :: "string option"

datatype relay_cpu_gate_control = Gate_disabled | Gate_enabled string

record enabled_relay_config =
  rc_environment :: relay_environment
  rc_ingressEndpoint :: string
  rc_ingressAuthToken :: string
  rc_serviceAuthToken :: string
  rc_contextHmacKey :: string

datatype relay_config = Relay_disabled | Relay_invalid | Relay_enabled enabled_relay_config

definition parseRelayEnvironment :: "string option \<Rightarrow> relay_environment option" where
  "parseRelayEnvironment value =
     (if value = Some ''preview'' then Some Preview else if value = Some ''production'' then Some Production else None)"

definition isRelayIngressEndpoint :: "(string \<Rightarrow> url option) \<Rightarrow> string \<Rightarrow> bool" where
  "isRelayIngressEndpoint new_url value =
     (case new_url value of
        None \<Rightarrow> False
      | Some u \<Rightarrow>
          let pathOnly = (u_pathname u = ''/'' \<or> u_pathname u = []);
              noExtras = (u_username u = [] \<and> u_password u = [] \<and> u_search u = [] \<and> u_hash u = [])
          in u_protocol u = ''https:'' \<and> pathOnly \<and> noExtras)"

definition isRelayServiceToken :: "string \<Rightarrow> bool" where
  "isRelayServiceToken value =
     (let bytes = utf8_encode value
      in if length bytes < 32 \<or> 256 < length bytes then False
         else list_all (\<lambda>byte. \<not> (of_char byte < (0x21 :: nat) \<or> 0x7e < (of_char byte :: nat))) bytes)"

definition resolveRelayCpuGateControl :: "relay_env_config \<Rightarrow> relay_cpu_gate_control" where
  "resolveRelayCpuGateControl env =
     (case OCTG_RELAY_CPU_GATE_AUTH_TOKEN env of
        None \<Rightarrow> Gate_disabled
      | Some token \<Rightarrow>
          if \<not> isRelayServiceToken token then Gate_disabled
          else if Some token = OCTG_RELAY_SERVICE_AUTH_TOKEN env \<or> Some token = OCTG_RELAY_INGRESS_AUTH_TOKEN env
          then Gate_disabled
          else Gate_enabled token)"

definition resolveRelayConfig :: "(string \<Rightarrow> url option) \<Rightarrow> relay_env_config \<Rightarrow> relay_config" where
  "resolveRelayConfig new_url env =
     (if OCTG_RELAY_ENABLED env = None \<or> OCTG_RELAY_ENABLED env = Some ''false'' then Relay_disabled
      else if OCTG_RELAY_ENABLED env \<noteq> Some ''true'' then Relay_invalid
      else case parseRelayEnvironment (OCTG_RELAY_ENVIRONMENT' env) of
        None \<Rightarrow> Relay_invalid
      | Some environment \<Rightarrow>
          (case OCTG_RELAY_INGRESS_ENDPOINT env of
             None \<Rightarrow> Relay_invalid
           | Some endpoint \<Rightarrow>
               if \<not> isRelayIngressEndpoint new_url endpoint then Relay_invalid
               else (case OCTG_RELAY_INGRESS_AUTH_TOKEN env of
                  None \<Rightarrow> Relay_invalid
                | Some ingressToken \<Rightarrow>
                    if \<not> isRelayServiceToken ingressToken then Relay_invalid
                    else (case OCTG_RELAY_SERVICE_AUTH_TOKEN env of
                       None \<Rightarrow> Relay_invalid
                     | Some serviceToken \<Rightarrow>
                         if \<not> isRelayServiceToken serviceToken then Relay_invalid
                         else (case Option.bind (OCTG_RELAY_CONTEXT_HMAC_KEY env) decodeRelayContextHmacKey of
                            None \<Rightarrow> Relay_invalid
                          | Some contextHmacKey \<Rightarrow>
                              Relay_enabled \<lparr>rc_environment = environment, rc_ingressEndpoint = endpoint,
                                rc_ingressAuthToken = ingressToken, rc_serviceAuthToken = serviceToken,
                                rc_contextHmacKey = contextHmacKey\<rparr>)))))"

definition BEARER_PREFIX :: string where "BEARER_PREFIX = ''Bearer ''"

definition startsWith :: "string \<Rightarrow> string \<Rightarrow> bool" where
  "startsWith s p \<longleftrightarrow> take (length p) s = p"

definition parseRelayBearerAuthorization :: "string option \<Rightarrow> string option" where
  "parseRelayBearerAuthorization headerValue =
     (case headerValue of
        None \<Rightarrow> None
      | Some v \<Rightarrow>
          if utf16_length v > RELAY_MAX_AUTHORIZATION_HEADER_BYTES then None
          else if \<not> startsWith v BEARER_PREFIX then None
          else let token = drop (length BEARER_PREFIX) v in if token = [] then None else Some token)"

definition verifyRelayServiceAuth :: "string option \<Rightarrow> enabled_relay_config \<Rightarrow> bool" where
  "verifyRelayServiceAuth headerValue config =
     (case parseRelayBearerAuthorization headerValue of
        None \<Rightarrow> False
      | Some presented \<Rightarrow> compareRelayBearerConstantTime (rc_serviceAuthToken config) presented)"

definition verifyRelayCpuGateAuth :: "string option \<Rightarrow> string \<Rightarrow> bool" where
  "verifyRelayCpuGateAuth headerValue token =
     (case parseRelayBearerAuthorization headerValue of
        None \<Rightarrow> False
      | Some presented \<Rightarrow> compareRelayBearerConstantTime token presented)"

definition verifyRelayContextHeader ::
  "(string \<Rightarrow> string \<Rightarrow> string) \<Rightarrow> string option \<Rightarrow> enabled_relay_config \<Rightarrow> int \<Rightarrow> relay_context option throws" where
  "verifyRelayContextHeader hmac headerValue config nowMs =
     (case headerValue of
        None \<Rightarrow> Inr None
      | Some v \<Rightarrow> verifyRelayContext hmac v (rc_contextHmacKey config) (rc_environment config) nowMs)"

definition verifyRelayGrantHeader ::
  "(string \<Rightarrow> string \<Rightarrow> string) \<Rightarrow> string option \<Rightarrow> enabled_relay_config \<Rightarrow> int \<Rightarrow> grant_credential option throws" where
  "verifyRelayGrantHeader hmac headerValue config nowMs =
     (case headerValue of
        None \<Rightarrow> Inr None
      | Some v \<Rightarrow> verifyRelayGrantCredential hmac v (rc_contextHmacKey config) (rc_environment config) nowMs)"

subsection \<open>policy.ts\<close>

datatype overflow_mode = Overflow_reject | Overflow_paid_shared
datatype tools_mode = Tools_reject | Tools_allow

record client_policy =
  p_overflowMode :: overflow_mode
  p_outputLimitMode :: output_limit_mode
  p_maxPaidUsdDay :: rat
  p_cacheEnabled :: bool
  p_toolsMode :: tools_mode

definition DEFAULT_CLIENT_POLICY :: client_policy where
  "DEFAULT_CLIENT_POLICY = \<lparr>p_overflowMode = Overflow_reject, p_outputLimitMode = REJECT, p_maxPaidUsdDay = 0,
     p_cacheEnabled = False, p_toolsMode = Tools_reject\<rparr>"

record policy_row =
  overflow_mode :: string
  output_limit_mode :: string
  max_paid_usd_day :: rat
  cache_enabled :: int
  tools_mode :: string

text \<open>The columns of a registry row with \<open>enabled\<close> as the number that the database keeps.\<close>

record registry_row =
  row_model :: string
  row_provider :: string
  row_pool :: complimentary_pool
  row_enabled :: int
  row_fallback_model :: "string option"
  row_updated_at :: string

definition listRegistryRows :: "registry_row list throws \<Rightarrow> registry_entry list throws" where
  "listRegistryRows result = and_then result (\<lambda>rows. Inr (map (\<lambda>row.
     \<lparr>r_model = row_model row, r_provider = row_provider row, r_complimentary_pool = row_pool row,
      r_enabled = (row_enabled row = 1), r_fallback_model = row_fallback_model row,
      r_updated_at = row_updated_at row\<rparr>) rows))"

definition TTL_MS :: int where "TTL_MS = 60000"

record config_caches =
  registryCache :: "(registry_entry kv \<times> int) option"
  policyCache :: "(client_policy \<times> int) kv"

definition invalidateConfigCaches :: "config_caches \<Rightarrow> config_caches" where
  "invalidateConfigCaches caches = \<lparr>registryCache = None, policyCache = []\<rparr>"

text \<open>\<open>new Map(rows.map((row) => [row.model, row]))\<close>: a later row replaces an earlier one.\<close>

definition registry_map :: "registry_entry list \<Rightarrow> registry_entry kv" where
  "registry_map rows = foldl (\<lambda>m row. kv_put (r_model row) row m) [] rows"

definition loadRegistry ::
  "registry_row list throws \<Rightarrow> int \<Rightarrow> config_caches \<Rightarrow> (registry_entry kv \<times> config_caches) throws" where
  "loadRegistry db now caches =
     (case registryCache caches of
        Some (m, expiresAt) \<Rightarrow>
          if expiresAt > now then Inr (m, caches)
          else and_then (listRegistryRows db) (\<lambda>rows.
            Inr (registry_map rows, caches\<lparr>registryCache := Some (registry_map rows, now + TTL_MS)\<rparr>))
      | None \<Rightarrow> and_then (listRegistryRows db) (\<lambda>rows.
            Inr (registry_map rows, caches\<lparr>registryCache := Some (registry_map rows, now + TTL_MS)\<rparr>)))"

definition policy_of_row :: "policy_row option \<Rightarrow> client_policy" where
  "policy_of_row row =
     (case row of
        Some r \<Rightarrow>
          \<lparr>p_overflowMode = (if overflow_mode r = ''PAID_SHARED'' then Overflow_paid_shared else Overflow_reject),
           p_outputLimitMode = (if output_limit_mode r = ''CLAMP'' then CLAMP else REJECT),
           p_maxPaidUsdDay = max_paid_usd_day r, p_cacheEnabled = (cache_enabled r = 1),
           p_toolsMode = (if tools_mode r = ''ALLOW'' then Tools_allow else Tools_reject)\<rparr>
      | None \<Rightarrow> DEFAULT_CLIENT_POLICY)"

definition loadPolicy ::
  "(string \<Rightarrow> policy_row option throws) \<Rightarrow> string \<Rightarrow> int \<Rightarrow> config_caches \<Rightarrow> (client_policy \<times> config_caches) throws" where
  "loadPolicy db clientId now caches =
     (let fresh = and_then (db clientId) (\<lambda>row.
            Inr (policy_of_row row,
                 caches\<lparr>policyCache := kv_put clientId (policy_of_row row, now + TTL_MS) (policyCache caches)\<rparr>))
      in case kv_get (policyCache caches) clientId of
           Some (policy, expiresAt) \<Rightarrow> if expiresAt > now then Inr (policy, caches) else fresh
         | None \<Rightarrow> fresh)"

subsection \<open>What the configuration promises\<close>

lemma service_token_ascii:
  assumes "isRelayServiceToken t"
  shows "list_all (\<lambda>c. (of_char c :: nat) < 128) (utf8_encode t)" "utf8_encode t \<noteq> []"
proof -
  have "length (utf8_encode t) \<noteq> 0" using assms unfolding isRelayServiceToken_def Let_def length_utf8_encode by (auto split: if_splits)
  then show "utf8_encode t \<noteq> []" by fastforce
  show "list_all (\<lambda>c. (of_char c :: nat) < 128) (utf8_encode t)"
    using assms by (auto simp: isRelayServiceToken_def Let_def list_all_iff not_less split: if_splits)
qed

lemma enabled_config:
  assumes "resolveRelayConfig new_url env = Relay_enabled config"
  shows "OCTG_RELAY_ENABLED env = Some ''true'' \<and>
    OCTG_RELAY_ENVIRONMENT' env = Some (environment_name (rc_environment config)) \<and>
    isRelayIngressEndpoint new_url (rc_ingressEndpoint config) \<and> isRelayServiceToken (rc_ingressAuthToken config) \<and>
    isRelayServiceToken (rc_serviceAuthToken config) \<and> length (rc_contextHmacKey config) = 32"
proof -
  note s = assms[unfolded resolveRelayConfig_def]
  obtain e where e: "OCTG_RELAY_ENABLED env = Some ''true''" "parseRelayEnvironment (OCTG_RELAY_ENVIRONMENT' env) = Some e"
    using s by (simp split: if_splits option.splits)
  obtain p i t k where f: "isRelayIngressEndpoint new_url p" "isRelayServiceToken i" "isRelayServiceToken t"
      "Option.bind (OCTG_RELAY_CONTEXT_HMAC_KEY env) decodeRelayContextHmacKey = Some k"
      "config = \<lparr>rc_environment = e, rc_ingressEndpoint = p, rc_ingressAuthToken = i, rc_serviceAuthToken = t, rc_contextHmacKey = k\<rparr>"
    using s unfolding e by (simp split: if_splits option.splits)
  have "length k = 32"
    using f(4) by (cases "OCTG_RELAY_CONTEXT_HMAC_KEY env")
      (simp_all add: decodeRelayContextHmacKey_def split: option.splits if_splits)
  moreover have "OCTG_RELAY_ENVIRONMENT' env = Some (environment_name e)"
    using e(2) by (auto simp: parseRelayEnvironment_def split: if_splits)
  ultimately show ?thesis using e f by simp
qed

end
