(* ===== verification/Decision.thy ===== *)
theory Decision
  imports Controller Gateway_Config
begin

section \<open>Decision: the decision controller of the relay\<close>

text \<open>
  apps/gateway-worker/src/relay-decision-controller.ts and relay-grant-claims.ts.  The controllers of all
  pools and days are one map from names to stores; an RPC to one of them may be delivered, lost before it
  runs, or lost with its answer after it ran.  SHA-256, HMAC and the URL parser are arguments; \<open>rt_now\<close> is
  the clock of the decision controller and \<open>rt_quota_now\<close> that of the quota controller.
\<close>

subsection \<open>RPC to the quota controllers\<close>

type_synonym quotas = "string \<Rightarrow> quota_store"

datatype rpc_fate = Delivered | Lost_request | Lost_reply

definition rpc_lost :: js_error where "rpc_lost = PlainError ''rpc''"

text \<open>A call of a stub: what the caller sees and the stores after it.\<close>

definition stub_call :: "rpc_fate \<Rightarrow> string \<Rightarrow> (quota_store \<Rightarrow> ('a \<times> quota_store) throws) \<Rightarrow> quotas \<Rightarrow> 'a throws \<times> quotas" where
  "stub_call fate name op quotas =
     (if fate = Lost_request then (Inl rpc_lost, quotas)
      else case op (quotas name) of
        Inl e \<Rightarrow> (Inl (if fate = Lost_reply then rpc_lost else e), quotas)
      | Inr (a, st) \<Rightarrow> (if fate = Lost_reply then Inl rpc_lost else Inr a, quotas(name := st)))"

record runtime =
  rt_sha256 :: "string \<Rightarrow> string"
  rt_hmac :: "string \<Rightarrow> string \<Rightarrow> string"
  rt_new_url :: "string \<Rightarrow> url option"
  rt_now :: int
  rt_quota_now :: int
  rt_generation :: string
  rt_grantId :: string
  rt_signing_rejects :: bool
  rt_state_fate :: rpc_fate
  rt_call_fate :: rpc_fate
  rt_release_fate :: rpc_fate

text \<open>The bindings of the Worker environment that the relay uses.\<close>

record gateway_env =
  ge_relay :: relay_env_config
  ge_quota :: quota_env
  ge_registry :: "registry_row list throws"
  ge_policies :: "string \<Rightarrow> policy_row option throws"

record gateway_state =
  gs_quotas :: quotas
  gs_caches :: config_caches

subsection \<open>Claims and fingerprints\<close>

definition relayGrantClaimsOf :: "relay_grant \<Rightarrow> grant_credential" where
  "relayGrantClaimsOf grant =
     \<lparr>k_environment = gr_environment grant, k_requestId = gr_requestId grant, k_grantId = gr_grantId grant,
      k_nonce = gr_nonce grant, k_clientId = gr_clientId grant, k_idempotencyKeyHash = gr_idempotencyKeyHash grant,
      k_model = gr_model grant, k_pool = gr_pool grant, k_admissionUtcDay = gr_admissionUtcDay grant,
      k_leaseGeneration = gr_leaseGeneration grant, k_issuedAtMs = gr_issuedAtMs grant,
      k_expiresAtMs = gr_credentialExpiresAtMs grant\<rparr>"

definition relayTerminalFingerprint :: "relay_terminal \<Rightarrow> string" where
  "relayTerminalFingerprint report =
     (case t_outcome report of
        Outcome_settle n \<Rightarrow> ''settle:'' @ int_string n
      | Outcome_uncertain \<Rightarrow> ''uncertain:null''
      | Outcome_release \<Rightarrow> ''release:null'')"

datatype shard_check = Shard_ok | Shard_environment_mismatch | Shard_mismatch | Shard_invalid_name

definition checkShardIdentity :: "string option \<Rightarrow> relay_environment \<Rightarrow> string \<Rightarrow> shard_check" where
  "checkShardIdentity ownName environment requestId =
     (case ownName of
        None \<Rightarrow> Shard_invalid_name
      | Some name \<Rightarrow>
          (case split_at (CHR '':'') name of
             [prefixPart, version, environmentPart, shardPart] \<Rightarrow>
               if prefixPart \<noteq> ''relay-decision'' \<or> version \<noteq> ''v1'' then Shard_invalid_name
               else if environmentPart \<noteq> environment_name environment then Shard_environment_mismatch
               else if shardPart = relayShardIndex requestId then Shard_ok else Shard_mismatch
           | _ \<Rightarrow> Shard_invalid_name))"

text \<open>The rule is the one of the quota controller, on the decision controller's own copy.\<close>

definition isRawKeyBindingConsistent :: "(string \<Rightarrow> string) \<Rightarrow> relay_context \<Rightarrow> string option \<Rightarrow> bool" where
  "isRawKeyBindingConsistent sha256 context rawKey =
     (case c_idempotencyKeyHash context of
        None \<Rightarrow> rawKey = None
      | Some h \<Rightarrow>
          (case rawKey of
             None \<Rightarrow> False
           | Some key \<Rightarrow>
               let bytes = utf8_encode (c_clientId context) @ CHR 0x00 # utf8_encode key;
                   hex = concat (map hex2 (sha256 bytes))
               in constantTimeHexEqual hex h))"

subsection \<open>The decision\<close>

datatype dispatch_result =
    Dispatch_allow relay_decision string
  | Dispatch_reject relay_decision
  | Dispatch_protocol_error relay_error_code
  | Dispatch_internal_error relay_error_code

definition rejectDecision :: "relay_error_code \<Rightarrow> dispatch_result" where
  "rejectDecision code = Dispatch_reject (Decision_reject code (relayErrorCodeStatus code))"

record decision_input =
  di_decisionBody :: string
  di_contextToken :: string
  di_rawIdempotencyKey :: "json option"

text \<open>The checks before anything is loaded: the context, the key and the metadata, or the answer.\<close>

definition check_decision ::
  "runtime \<Rightarrow> enabled_relay_config \<Rightarrow> string option \<Rightarrow> decision_input \<Rightarrow>
     (dispatch_result + relay_context \<times> string option \<times> request_meta) throws" where
  "check_decision rt config ownName input =
     and_then (verifyRelayContext (rt_hmac rt) (di_contextToken input) (rc_contextHmacKey config) (rc_environment config) (rt_now rt))
       (\<lambda>verified.
        case verified of
          None \<Rightarrow> Inr (Inl (Dispatch_protocol_error Invalid_context))
        | Some context \<Rightarrow>
            (case checkShardIdentity ownName (rc_environment config) (c_requestId context) of
               Shard_environment_mismatch \<Rightarrow> Inr (Inl (Dispatch_protocol_error Environment_mismatch))
             | Shard_mismatch \<Rightarrow> Inr (Inl (Dispatch_protocol_error Invalid_request))
             | Shard_invalid_name \<Rightarrow> Inr (Inl (Dispatch_internal_error Internal_error))
             | Shard_ok \<Rightarrow>
                 (let parsedKey = parseIdempotencyKey (di_rawIdempotencyKey input);
                      rawKey = (case parsedKey of Key_valid k \<Rightarrow> Some k | _ \<Rightarrow> None)
                  in if parsedKey = Key_invalid then Inr (Inl (Dispatch_protocol_error Invalid_request))
                     else if \<not> isRawKeyBindingConsistent (rt_sha256 rt) context rawKey
                     then Inr (Inl (Dispatch_protocol_error Invalid_request))
                     else case parseRelayJsonBody (di_decisionBody input) RELAY_MAX_CALLBACK_BODY_BYTES of
                       Inl ProtocolError \<Rightarrow> Inr (Inl (Dispatch_protocol_error Invalid_request))
                     | Inl e \<Rightarrow> Inl e
                     | Inr body \<Rightarrow>
                         (case parseRelayDecisionRequest body of
                            None \<Rightarrow> Inr (Inl (Dispatch_protocol_error Invalid_request))
                          | Some metadata \<Rightarrow> Inr (Inr (context, rawKey, metadata))))))"

definition admission_of :: "relay_context \<Rightarrow> request_meta \<Rightarrow> string option \<Rightarrow> budget \<Rightarrow> client_policy \<Rightarrow> admission_input" where
  "admission_of context metadata rawKey b policy =
     \<lparr>a_reservedTokens = JsInt (reservation b), a_upperBoundTokens = JsInt (upperBound b),
      a_maxOutputTokens = JsInt (maxOutputTokens b), a_cacheEnabled = p_cacheEnabled policy,
      a_context = context_json context, a_metadata = meta_json metadata, a_rawIdempotencyKey = map_option JStr rawKey\<rparr>"

definition admitRelay_rpc :: "runtime \<Rightarrow> quota_env \<Rightarrow> string \<Rightarrow> admission_input \<Rightarrow> quotas \<Rightarrow> admission_result throws \<times> quotas" where
  "admitRelay_rpc rt env name input =
     stub_call (rt_call_fate rt) name (\<lambda>st. and_then (identity_of (Some name)) (\<lambda>identity.
       admitRelayInTransaction (rt_sha256 rt) env identity input (rt_quota_now rt) (rt_generation rt) (rt_grantId rt) st))"

definition finishRelay_rpc ::
  "rpc_fate \<Rightarrow> int \<Rightarrow> quota_env \<Rightarrow> string \<Rightarrow> grant_binding \<Rightarrow> relay_terminal \<Rightarrow> quotas \<Rightarrow> finish_result throws \<times> quotas" where
  "finishRelay_rpc fate now env name binding report =
     stub_call fate name (\<lambda>st. and_then (identity_of (Some name)) (\<lambda>identity.
       finishRelayInTransaction env identity now binding (terminal_json report) (relayTerminalFingerprint report) st))"

definition binding_of :: "relay_grant \<Rightarrow> grant_binding" where
  "binding_of grant = \<lparr>b_requestId = gr_requestId grant, b_grantId = gr_grantId grant,
     b_leaseGeneration = gr_leaseGeneration grant, b_claims = relayGrantClaimsOf grant\<rparr>"

definition release_report :: "relay_grant \<Rightarrow> relay_terminal" where
  "release_report grant = \<lparr>t_grantId = gr_grantId grant, t_leaseGeneration = gr_leaseGeneration grant, t_outcome = Outcome_release\<rparr>"

text \<open>After the admission: the signed credential, or the release of the grant when signing fails.\<close>

definition answer_admission ::
  "runtime \<Rightarrow> gateway_env \<Rightarrow> enabled_relay_config \<Rightarrow> string \<Rightarrow> budget \<Rightarrow> client_policy \<Rightarrow> admission_result \<Rightarrow> quotas \<Rightarrow>
     dispatch_result throws \<times> quotas" where
  "answer_admission rt env config name b policy admission quotas =
     (case admission of
        Admission_denied code \<Rightarrow> (Inr (rejectDecision code), quotas)
      | Admitted grant q \<Rightarrow>
          (let claims = relayGrantClaimsOf grant;
               signed = (if rt_signing_rejects rt then Inl (PlainError ''sign'')
                         else signRelayGrantCredential (rt_hmac rt) claims (rc_contextHmacKey config))
           in case signed of
                Inl _ \<Rightarrow>
                  (case finishRelay_rpc (rt_release_fate rt) (rt_quota_now rt) (ge_quota env) name
                          (binding_of grant) (release_report grant) quotas of
                     (Inl e, quotas') \<Rightarrow> (Inl e, quotas')
                   | (Inr _, quotas') \<Rightarrow> (Inr (Dispatch_internal_error Internal_error), quotas'))
              | Inr grantCredential \<Rightarrow>
                  (Inr (Dispatch_allow (Decision_allow (gr_grantId grant) (gr_leaseGeneration grant) (maxOutputTokens b)
                          (p_cacheEnabled policy) q) grantCredential), quotas)))"

definition budget_arguments_of :: "request_meta \<Rightarrow> quota_view \<Rightarrow> client_policy \<Rightarrow> budget_arguments" where
  "budget_arguments_of metadata view policy =
     \<lparr>b_estimatedInput = JsInt (m_estimatedInputTokens metadata), b_maxOutputTokens = JsInt (m_maxOutputTokens metadata),
      b_remaining = JsInt (qv_remaining view), b_limit = JsInt (limit (qv_state view)),
      b_outputLimitMode = p_outputLimitMode policy\<rparr>"

text \<open>The budget and the admission once the pool and the policy are known.\<close>

definition admit_decision ::
  "runtime \<Rightarrow> gateway_env \<Rightarrow> enabled_relay_config \<Rightarrow> relay_context \<Rightarrow> string option \<Rightarrow> request_meta \<Rightarrow> pool_name \<Rightarrow> client_policy \<Rightarrow>
     quotas \<Rightarrow> dispatch_result throws \<times> quotas" where
  "admit_decision rt env config context rawKey metadata pool policy quotas =
     (let admissionDay = utc_day_of (rt_now rt);
          name = quotaIdOf pool admissionDay;
          seen = stub_call (rt_state_fate rt) name
                   (\<lambda>st. and_then (getState (Some name) (ge_quota env) (rt_quota_now rt) st) (\<lambda>v. Inr (v, st))) quotas
      in case fst seen of
           Inl e \<Rightarrow> (Inl e, quotas)
         | Inr view \<Rightarrow>
             (case resolveTokenBudget (budget_arguments_of metadata view policy) of
                Request_too_large \<Rightarrow> (Inr (rejectDecision Code_request_too_large), quotas)
              | Quota_exceeded \<Rightarrow> (Inr (rejectDecision Insufficient_quota), quotas)
              | Arithmetic_error \<Rightarrow> (Inr (Dispatch_internal_error Internal_error), quotas)
              | Resolved b \<Rightarrow>
                  (case admitRelay_rpc rt (ge_quota env) name (admission_of context metadata rawKey b policy) quotas of
                     (Inl e, quotas') \<Rightarrow> (Inl e, quotas')
                   | (Inr admission, quotas') \<Rightarrow> answer_admission rt env config name b policy admission quotas')))"

definition decide ::
  "runtime \<Rightarrow> gateway_env \<Rightarrow> string option \<Rightarrow> decision_input \<Rightarrow> gateway_state \<Rightarrow> dispatch_result throws \<times> gateway_state" where
  "decide rt env ownName input gs =
     (case resolveRelayConfig (rt_new_url rt) (ge_relay env) of
        Relay_enabled config \<Rightarrow>
          (case check_decision rt config ownName input of
             Inl e \<Rightarrow> (Inl e, gs)
           | Inr (Inl answer) \<Rightarrow> (Inr answer, gs)
           | Inr (Inr (context, rawKey, metadata)) \<Rightarrow>
               (case loadRegistry (ge_registry env) (rt_now rt) (gs_caches gs) of
                  Inl e \<Rightarrow> (Inl e, gs)
                | Inr (registry, caches1) \<Rightarrow>
                    (case classifyModel (m_model metadata) registry of
                       No_pool \<Rightarrow> (Inr (rejectDecision Model_requires_paid), gs\<lparr>gs_caches := caches1\<rparr>)
                     | Complimentary pool \<Rightarrow>
                         (case loadPolicy (ge_policies env) (c_clientId context) (rt_now rt) caches1 of
                            Inl e \<Rightarrow> (Inl e, gs\<lparr>gs_caches := caches1\<rparr>)
                          | Inr (policy, caches2) \<Rightarrow>
                              if m_isToolUse metadata \<and> p_toolsMode policy \<noteq> Tools_allow
                              then (Inr (rejectDecision Model_not_allowed), gs\<lparr>gs_caches := caches2\<rparr>)
                              else (case admit_decision rt env config context rawKey metadata pool policy (gs_quotas gs) of
                                 (r, quotas) \<Rightarrow> (r, \<lparr>gs_quotas = quotas, gs_caches = caches2\<rparr>))))))
      | _ \<Rightarrow> (Inr (Dispatch_internal_error Internal_error), gs))"

end
