(* ===== verification/Normalize.thy ===== *)
theory Normalize
  imports Json_Text Pool
begin

section \<open>Normalize: the text of a request and the body sent upstream\<close>

text \<open>
  packages/shared/src/normalize.ts.  A body is a JSON value; \<open>fs\<close> writes a number that is not an integer, as
  \<open>JSON.stringify\<close> of the runtime does.  A part, message or item that is an array has no property that the
  code reads, so it behaves as a record without any.
\<close>

subsection \<open>Content\<close>

definition DEFAULT_MAX_OUTPUT_TOKENS :: int where "DEFAULT_MAX_OUTPUT_TOKENS = 4096"

datatype endpoint = Endpoint_chat | Endpoint_responses

record normalized_request =
  nr_endpoint :: endpoint
  nr_model :: string
  nr_inputText :: string
  nr_inputTextBytes :: int
  nr_inputBytes :: int
  nr_messageCount :: int
  nr_maxOutputTokens :: int
  nr_stream :: bool
  nr_isToolUse :: bool
  nr_opaqueInputBytes :: int

datatype normalize_error = Non_text | Max_tokens_conflict | Invalid_body | Input_too_large

definition NON_TEXT_PART_TYPES :: "string list" where
  "NON_TEXT_PART_TYPES =
     [''image_url'', ''input_image'', ''input_audio'', ''input_file'', ''audio'', ''video'', ''file'']"

definition CHAT_CONTENT_TYPES :: "string list" where "CHAT_CONTENT_TYPES = [''text'', ''input_text'']"
definition RESPONSE_INPUT_CONTENT_TYPES :: "string list" where "RESPONSE_INPUT_CONTENT_TYPES = [''input_text'', ''text'']"
definition RESPONSE_OUTPUT_CONTENT_TYPES :: "string list" where "RESPONSE_OUTPUT_CONTENT_TYPES = [''output_text'', ''text'']"

text \<open>\<open>typeof value === "object" && value !== null\<close>.\<close>

fun is_object :: "json \<Rightarrow> bool" where
  "is_object (JObj _) = True"
| "is_object (JArr _) = True"
| "is_object _ = False"

fun walk_parts :: "string list \<Rightarrow> normalize_error \<Rightarrow> string list \<Rightarrow> json list \<Rightarrow> normalize_error + string" where
  "walk_parts allowed unknownError texts [] = Inr (join '' '' texts)"
| "walk_parts allowed unknownError texts (part # parts) =
     (if \<not> is_object part then Inl unknownError
      else case js_get part ''type'' of
        Some (JStr t) \<Rightarrow>
          if t \<in> set NON_TEXT_PART_TYPES then Inl Non_text
          else if t \<notin> set allowed then Inl unknownError
          else (case js_get part ''text'' of
             Some (JStr text') \<Rightarrow> walk_parts allowed unknownError (texts @ [text']) parts
           | _ \<Rightarrow> Inl unknownError)
      | _ \<Rightarrow> Inl unknownError)"

definition walkContent :: "json option \<Rightarrow> string list \<Rightarrow> normalize_error \<Rightarrow> normalize_error + string" where
  "walkContent content allowed unknownError =
     (case content of
        Some (JStr s) \<Rightarrow> Inr s
      | Some (JArr parts) \<Rightarrow> walk_parts allowed unknownError [] parts
      | _ \<Rightarrow> Inl unknownError)"

text \<open>\<open>appendSerializedField\<close> for the properties that are there and not null; JSON values never throw there.\<close>

definition serialized_fields :: "(rat \<Rightarrow> string) \<Rightarrow> json \<Rightarrow> string list \<Rightarrow> string list" where
  "serialized_fields fs v keys =
     concat (map (\<lambda>k. case js_get v k of None \<Rightarrow> [] | Some f \<Rightarrow> if f = JNull then [] else [stringify fs f]) keys)"

definition positiveInteger :: "json \<Rightarrow> int option" where
  "positiveInteger value =
     (case value of JNum x \<Rightarrow> if is_safe_integer x \<and> the_int x > 0 then Some (the_int x) else None | _ \<Rightarrow> None)"

text \<open>\<open>None\<close> is \<open>"invalid"\<close>.\<close>

definition optionalPositiveInteger :: "json option \<Rightarrow> int option option" where
  "optionalPositiveInteger value =
     (case value of
        None \<Rightarrow> Some None
      | Some v \<Rightarrow> (case positiveInteger v of None \<Rightarrow> None | Some n \<Rightarrow> Some (Some n)))"

definition has_key :: "json \<Rightarrow> string \<Rightarrow> bool" where
  "has_key v k \<longleftrightarrow> js_get v k \<noteq> None"

subsection \<open>Chat completions\<close>

fun chat_messages :: "(rat \<Rightarrow> string) \<Rightarrow> bool \<Rightarrow> string list \<Rightarrow> json list \<Rightarrow> normalize_error + bool \<times> string list" where
  "chat_messages fs isToolUse texts [] = Inr (isToolUse, texts)"
| "chat_messages fs isToolUse texts (message # messages) =
     (if \<not> is_object message then Inl Invalid_body
      else case walkContent (js_get message ''content'') CHAT_CONTENT_TYPES Non_text of
        Inl e \<Rightarrow> Inl e
      | Inr content \<Rightarrow>
          chat_messages fs (isToolUse \<or> list_ex (has_key message) MESSAGE_TOOL_KEYS)
            (texts @ [content] @ serialized_fields fs message [''name'', ''tool_calls'', ''tool_call_id'', ''function_call'']) messages)"

definition normalizeChatCompletions :: "(rat \<Rightarrow> string) \<Rightarrow> json \<Rightarrow> int \<Rightarrow> normalize_error + normalized_request" where
  "normalizeChatCompletions fs value maxInputBytes =
     (if \<not> is_object value then Inl Invalid_body
      else case (js_get value ''model'', js_get value ''messages'') of
        (Some (JStr model), Some (JArr messages)) \<Rightarrow>
          if model = [] then Inl Invalid_body
          else (case (optionalPositiveInteger (js_get value ''max_completion_tokens''), optionalPositiveInteger (js_get value ''max_tokens'')) of
            (Some maxCompletion, Some maxLegacy) \<Rightarrow>
              if maxCompletion \<noteq> None \<and> maxLegacy \<noteq> None \<and> maxCompletion \<noteq> maxLegacy then Inl Max_tokens_conflict
              else (case chat_messages fs (list_ex (has_key value) TOOL_KEYS) [] messages of
                 Inl e \<Rightarrow> Inl e
               | Inr (isToolUse, texts) \<Rightarrow>
                   (let inputText = join [CHR 0x0A] (texts @ serialized_fields fs value TOOL_KEYS);
                        inputTextBytes = utf8_length inputText
                    in if inputTextBytes > maxInputBytes then Inl Input_too_large
                       else Inr \<lparr>nr_endpoint = Endpoint_chat, nr_model = model, nr_inputText = inputText,
                              nr_inputTextBytes = inputTextBytes, nr_inputBytes = inputTextBytes,
                              nr_messageCount = int (length messages),
                              nr_maxOutputTokens = (case maxCompletion of Some n \<Rightarrow> n | None \<Rightarrow>
                                 (case maxLegacy of Some n \<Rightarrow> n | None \<Rightarrow> DEFAULT_MAX_OUTPUT_TOKENS)),
                              nr_stream = (js_get value ''stream'' = Some (JBool True)), nr_isToolUse = isToolUse,
                              nr_opaqueInputBytes = 0\<rparr>))
          | _ \<Rightarrow> Inl Invalid_body)
      | _ \<Rightarrow> Inl Invalid_body)"

subsection \<open>Responses\<close>

definition RESPONSE_ROLES :: "string list" where
  "RESPONSE_ROLES = [''assistant'', ''developer'', ''system'', ''user'']"

definition response_role :: "json \<Rightarrow> string option" where
  "response_role entry = (case js_get entry ''role'' of Some (JStr r) \<Rightarrow> if r \<in> set RESPONSE_ROLES then Some r else None | _ \<Rightarrow> None)"

definition walkResponseMessage :: "json \<Rightarrow> normalize_error + string" where
  "walkResponseMessage entry =
     (case response_role entry of
        None \<Rightarrow> Inl Invalid_body
      | Some role \<Rightarrow>
          walkContent (js_get entry ''content'')
            (if role = ''assistant'' then RESPONSE_OUTPUT_CONTENT_TYPES else RESPONSE_INPUT_CONTENT_TYPES) Invalid_body)"

definition walkToolOutput :: "json option \<Rightarrow> normalize_error + string" where
  "walkToolOutput output = walkContent output RESPONSE_INPUT_CONTENT_TYPES Invalid_body"

fun summary_texts :: "string list \<Rightarrow> json list \<Rightarrow> normalize_error + string list" where
  "summary_texts texts [] = Inr texts"
| "summary_texts texts (summary # parts) =
     (if \<not> is_object summary then Inl Invalid_body
      else case js_get summary ''type'' of
        Some (JStr t) \<Rightarrow>
          if t \<in> set NON_TEXT_PART_TYPES then Inl Non_text
          else if t \<noteq> ''summary_text'' then Inl Invalid_body
          else (case js_get summary ''text'' of
             Some (JStr text') \<Rightarrow> summary_texts (texts @ [text']) parts
           | _ \<Rightarrow> Inl Invalid_body)
      | _ \<Rightarrow> Inl Invalid_body)"

text \<open>One input item: its texts, whether it is a tool use, and its opaque bytes.\<close>

definition response_item :: "json \<Rightarrow> normalize_error + string list \<times> bool \<times> int" where
  "response_item entry =
     (if \<not> is_object entry then Inl Invalid_body
      else if js_get entry ''type'' = None \<or> js_get entry ''type'' = Some (JStr ''message'') then
        (case walkResponseMessage entry of Inl e \<Rightarrow> Inl e | Inr t \<Rightarrow> Inr ([t], False, 0))
      else if js_get entry ''type'' = Some (JStr ''function_call'') then
        (case (js_get entry ''call_id'', js_get entry ''name'', js_get entry ''arguments'') of
           (Some (JStr callId), Some (JStr name), Some (JStr arguments)) \<Rightarrow>
             if json_parse arguments = None then Inl Invalid_body else Inr ([callId, name, arguments], True, 0)
         | _ \<Rightarrow> Inl Invalid_body)
      else if js_get entry ''type'' = Some (JStr ''function_call_output'') then
        (case js_get entry ''call_id'' of
           Some (JStr callId) \<Rightarrow>
             (case walkToolOutput (js_get entry ''output'') of Inl e \<Rightarrow> Inl e | Inr t \<Rightarrow> Inr ([callId, t], True, 0))
         | _ \<Rightarrow> Inl Invalid_body)
      else if js_get entry ''type'' = Some (JStr ''reasoning'') then
        (case (js_get entry ''summary'', js_get entry ''encrypted_content'') of
           (Some (JArr summary), Some (JStr encrypted)) \<Rightarrow>
             (case summary_texts [] summary of Inl e \<Rightarrow> Inl e | Inr ts \<Rightarrow> Inr (ts, False, utf8_length encrypted))
         | _ \<Rightarrow> Inl Invalid_body)
      else Inl Invalid_body)"

fun response_items :: "string list \<Rightarrow> bool \<Rightarrow> int \<Rightarrow> json list \<Rightarrow> normalize_error + string list \<times> bool \<times> int" where
  "response_items texts isToolUse opaqueBytes [] = Inr (texts, isToolUse, opaqueBytes)"
| "response_items texts isToolUse opaqueBytes (item # items) =
     (case response_item item of
        Inl e \<Rightarrow> Inl e
      | Inr (ts, tool, n) \<Rightarrow> response_items (texts @ ts) (isToolUse \<or> tool) (opaqueBytes + n) items)"

definition response_input :: "json option \<Rightarrow> normalize_error + (string list \<times> bool \<times> int) \<times> int" where
  "response_input input =
     (case input of
        Some (JStr s) \<Rightarrow> Inr (([s], False, 0), 1)
      | Some (JArr items) \<Rightarrow>
          (case response_items [] False 0 items of Inl e \<Rightarrow> Inl e | Inr r \<Rightarrow> Inr (r, int (length items)))
      | _ \<Rightarrow> Inl Invalid_body)"

definition present :: "json \<Rightarrow> string \<Rightarrow> bool" where
  "present v k \<longleftrightarrow> js_get v k \<noteq> None \<and> js_get v k \<noteq> Some JNull"

definition normalizeResponses :: "(rat \<Rightarrow> string) \<Rightarrow> json \<Rightarrow> int \<Rightarrow> normalize_error + normalized_request" where
  "normalizeResponses fs value maxInputBytes =
     (if \<not> is_object value then Inl Invalid_body
      else case js_get value ''model'' of
        Some (JStr model) \<Rightarrow>
          if model = [] \<or> js_get value ''input'' = None then Inl Invalid_body
          else if has_key value ''item_reference'' \<or> present value ''previous_response_id'' \<or> present value ''conversation'' \<or>
            (present value ''instructions'' \<and> (case js_get value ''instructions'' of Some (JStr _) \<Rightarrow> False | _ \<Rightarrow> True))
          then Inl Invalid_body
          else (case response_input (js_get value ''input'') of
             Inl e \<Rightarrow> Inl e
           | Inr ((texts, isToolUse, opaqueInputBytes), messageCount) \<Rightarrow>
               (let inputText = join [CHR 0x0A] (texts @ serialized_fields fs value [''instructions'', ''tools'', ''tool_choice'']);
                    maxOut = optionalPositiveInteger (js_get value ''max_output_tokens'');
                    inputTextBytes = utf8_length inputText;
                    inputBytes = inputTextBytes + opaqueInputBytes
                in if has_key value ''max_output_tokens'' \<and> maxOut = None then Inl Invalid_body
                   else if inputBytes > maxInputBytes then Inl Input_too_large
                   else Inr \<lparr>nr_endpoint = Endpoint_responses, nr_model = model, nr_inputText = inputText,
                          nr_inputTextBytes = inputTextBytes, nr_inputBytes = inputBytes, nr_messageCount = messageCount,
                          nr_maxOutputTokens = (case maxOut of Some None \<Rightarrow> DEFAULT_MAX_OUTPUT_TOKENS | Some (Some n) \<Rightarrow> n | None \<Rightarrow> 0),
                          nr_stream = (js_get value ''stream'' = Some (JBool True)),
                          nr_isToolUse = (isToolUse \<or> hasToolUse value), nr_opaqueInputBytes = opaqueInputBytes\<rparr>))
      | _ \<Rightarrow> Inl Invalid_body)"

subsection \<open>The body sent upstream\<close>

text \<open>\<open>{ ...value, key: x }\<close>.\<close>

definition set_key :: "json \<Rightarrow> string \<Rightarrow> json \<Rightarrow> json" where
  "set_key v k x = (case v of JObj kvs \<Rightarrow> JObj (kv_put k x kvs) | _ \<Rightarrow> v)"

definition is_text_part :: "json \<Rightarrow> bool" where
  "is_text_part part \<longleftrightarrow> is_record part \<and> js_get part ''type'' = Some (JStr ''text'')"

text \<open>
  The loops copy the list only from the first change on: \<open>prior\<close> is \<open>content.slice(0, i)\<close>, \<open>None\<close> an undefined
  copy, and the result \<open>None\<close> that the list itself is the answer.
\<close>

fun text_parts_loop :: "string \<Rightarrow> json list \<Rightarrow> json list option \<Rightarrow> json list \<Rightarrow> json list option" where
  "text_parts_loop t prior newParts [] = newParts"
| "text_parts_loop t prior newParts (part # parts) =
     (if is_text_part part
      then text_parts_loop t (prior @ [part]) (Some ((case newParts of None \<Rightarrow> prior | Some ps \<Rightarrow> ps) @ [set_key part ''type'' (JStr t)])) parts
      else text_parts_loop t (prior @ [part]) (case newParts of None \<Rightarrow> None | Some ps \<Rightarrow> Some (ps @ [part])) parts)"

definition normalizeResponsesTextParts :: "json option \<Rightarrow> string \<Rightarrow> json option" where
  "normalizeResponsesTextParts content t =
     (case content of Some (JArr parts) \<Rightarrow> map_option JArr (text_parts_loop t [] None parts) | _ \<Rightarrow> None)"

definition normalizeResponsesInputItem :: "json \<Rightarrow> json option" where
  "normalizeResponsesInputItem item =
     (if \<not> is_record item then None
      else if js_get item ''type'' = None \<or> js_get item ''type'' = Some (JStr ''message'') then
        (case response_role item of
           None \<Rightarrow> None
         | Some role \<Rightarrow>
             map_option (set_key item ''content'')
               (normalizeResponsesTextParts (js_get item ''content'') (if role = ''assistant'' then ''output_text'' else ''input_text'')))
      else if js_get item ''type'' = Some (JStr ''function_call_output'') then
        map_option (set_key item ''output'') (normalizeResponsesTextParts (js_get item ''output'') ''input_text'')
      else None)"

fun items_loop :: "json list \<Rightarrow> json list option \<Rightarrow> json list \<Rightarrow> json list option" where
  "items_loop prior newItems [] = newItems"
| "items_loop prior newItems (item # items) =
     (case normalizeResponsesInputItem item of
        Some normalized \<Rightarrow>
          items_loop (prior @ [item]) (Some ((case newItems of None \<Rightarrow> prior | Some is \<Rightarrow> is) @ [normalized])) items
      | None \<Rightarrow> items_loop (prior @ [item]) (case newItems of None \<Rightarrow> None | Some is \<Rightarrow> Some (is @ [item])) items)"

definition normalizeResponsesUpstreamBody :: "json \<Rightarrow> json" where
  "normalizeResponsesUpstreamBody body =
     (case js_get body ''input'' of
        Some (JArr items) \<Rightarrow> (case items_loop [] None items of Some newItems \<Rightarrow> set_key body ''input'' (JArr newItems) | None \<Rightarrow> body)
      | _ \<Rightarrow> body)"

subsection \<open>What the upstream body keeps\<close>

text \<open>The loops as maps.\<close>

definition retype :: "string \<Rightarrow> json \<Rightarrow> json" where
  "retype t part = (if is_text_part part then set_key part ''type'' (JStr t) else part)"

definition upstream_item :: "json \<Rightarrow> json" where
  "upstream_item item = (case normalizeResponsesInputItem item of Some x \<Rightarrow> x | None \<Rightarrow> item)"

lemma js_get_set_key [simp]: "is_record v \<Longrightarrow> js_get (set_key v k x) k' = (if k' = k then Some x else js_get v k')"
  by (cases v) (auto simp: set_key_def update_conv)

lemma is_record_set_key [simp]: "is_record (set_key v k x) = is_record v" "is_object (set_key v k x) = is_object v"
  by (cases v; simp add: set_key_def)+

lemma is_record_object [simp]: "is_record v \<Longrightarrow> is_object v"
  by (cases v) simp_all

lemma map_retype_same: "\<not> list_ex is_text_part ps \<Longrightarrow> map (retype t) ps = ps"
  by (intro map_idI) (auto simp: retype_def list_ex_iff)

lemma map_upstream_same: "\<not> list_ex (\<lambda>i. normalizeResponsesInputItem i \<noteq> None) is \<Longrightarrow> map upstream_item is = is"
  by (intro map_idI) (auto simp: upstream_item_def list_ex_iff split: option.split)

lemma text_parts_loop_map:
  "text_parts_loop t prior new ps =
     (if list_ex is_text_part ps then Some ((case new of None \<Rightarrow> prior | Some xs \<Rightarrow> xs) @ map (retype t) ps)
      else map_option (\<lambda>xs. xs @ ps) new)"
proof (induction ps arbitrary: prior new)
  case (Cons p ps)
  then show ?case by (cases new) (auto simp: retype_def[of t p] map_retype_same)
qed (simp add: option.map_ident)

lemma items_loop_map:
  "items_loop prior new is =
     (if list_ex (\<lambda>i. normalizeResponsesInputItem i \<noteq> None) is
      then Some ((case new of None \<Rightarrow> prior | Some xs \<Rightarrow> xs) @ map upstream_item is) else map_option (\<lambda>xs. xs @ is) new)"
proof (induction "is" arbitrary: prior new)
  case (Cons i js)
  have u: "upstream_item i = (case normalizeResponsesInputItem i of Some x \<Rightarrow> x | None \<Rightarrow> i)" by (simp add: upstream_item_def)
  show ?case
    using map_upstream_same[of js] by (cases new; cases "normalizeResponsesInputItem i") (auto simp: Cons u)
qed (simp add: option.map_ident)

lemma retype_get: "js_get (retype t part) k = (if is_text_part part \<and> k = ''type'' then Some (JStr t) else js_get part k)"
  by (auto simp: retype_def is_text_part_def)

lemma is_object_retype [simp]: "is_object (retype t part) = is_object part"
  by (simp add: retype_def)

lemma walk_parts_retype:
  assumes "t \<in> set allowed" "''text'' \<in> set allowed" "t \<notin> set NON_TEXT_PART_TYPES"
  shows "walk_parts allowed e texts (map (retype t) ps) = walk_parts allowed e texts ps"
proof (induction ps arbitrary: texts)
  case (Cons p ps)
  have n: "''text'' \<notin> set NON_TEXT_PART_TYPES" by (simp add: NON_TEXT_PART_TYPES_def)
  show ?case
  proof (cases "is_text_part p")
    case True
    then have "js_get p ''type'' = Some (JStr ''text'')" "is_object p" by (simp_all add: is_text_part_def)
    then show ?thesis using True assms n by (simp add: retype_get Cons.IH split: option.split json.split)
  next
    case False
    then show ?thesis by (simp add: retype_get Cons.IH split: option.split json.split)
  qed
qed simp

text \<open>The new content, when there is one.\<close>

lemma text_parts_Some:
  "normalizeResponsesTextParts content t = Some c \<longleftrightarrow>
     (\<exists>ps. content = Some (JArr ps) \<and> list_ex is_text_part ps \<and> c = JArr (map (retype t) ps))"
  by (auto simp: normalizeResponsesTextParts_def text_parts_loop_map split: option.splits json.splits)

lemma walkContent_retype:
  assumes "normalizeResponsesTextParts content t = Some c" "t \<in> set allowed" "''text'' \<in> set allowed" "t \<notin> set NON_TEXT_PART_TYPES"
  shows "walkContent (Some c) allowed e = walkContent content allowed e"
  using assms(1) walk_parts_retype[OF assms(2-4)] by (auto simp: text_parts_Some walkContent_def)

lemmas content_types = NON_TEXT_PART_TYPES_def RESPONSE_INPUT_CONTENT_TYPES_def RESPONSE_OUTPUT_CONTENT_TYPES_def

text \<open>The kinds of items that change.\<close>

lemma upstream_item_cases:
  obtains (same) "normalizeResponsesInputItem item = None"
    | (message) role c where "normalizeResponsesInputItem item = Some (set_key item ''content'' c)" "is_record item"
      "js_get item ''type'' = None \<or> js_get item ''type'' = Some (JStr ''message'')" "response_role item = Some role"
      "normalizeResponsesTextParts (js_get item ''content'') (if role = ''assistant'' then ''output_text'' else ''input_text'') = Some c"
    | (tool) c where "normalizeResponsesInputItem item = Some (set_key item ''output'' c)" "is_record item"
      "js_get item ''type'' = Some (JStr ''function_call_output'')"
      "normalizeResponsesTextParts (js_get item ''output'') ''input_text'' = Some c"
  by (cases "normalizeResponsesInputItem item")
    (auto simp: normalizeResponsesInputItem_def split: if_splits option.splits)

lemma response_role_set_key: "is_record v \<Longrightarrow> k \<noteq> ''role'' \<Longrightarrow> response_role (set_key v k x) = response_role v"
  by (simp add: response_role_def)

lemma response_item_upstream: "response_item (upstream_item item) = response_item item"
proof (cases item rule: upstream_item_cases)
  case (message role c)
  have "walkResponseMessage (set_key item ''content'' c) = walkResponseMessage item"
    using walkContent_retype[OF message(5), of _ Invalid_body] message(2,4)
    by (simp add: walkResponseMessage_def response_role_set_key content_types split: if_splits)
  then show ?thesis using message(2,3) by (auto simp: upstream_item_def message(1) response_item_def)
next
  case (tool c)
  have "walkToolOutput (Some c) = walkToolOutput (js_get item ''output'')"
    unfolding walkToolOutput_def by (rule walkContent_retype[OF tool(4)]) (simp_all add: content_types)
  then show ?thesis using tool(2,3) by (simp add: upstream_item_def tool(1) response_item_def split: option.split json.split)
qed (simp add: upstream_item_def)

lemma response_items_upstream: "response_items ts u n (map upstream_item is) = response_items ts u n is"
  by (induction ts u n "is" rule: response_items.induct) (auto simp: response_item_upstream split: sum.split)

lemma upstream_body_cases:
  obtains (same) "normalizeResponsesUpstreamBody body = body"
    | (changed) "is" where "is_record body" "js_get body ''input'' = Some (JArr is)"
      "normalizeResponsesUpstreamBody body = set_key body ''input'' (JArr (map upstream_item is))"
proof -
  consider "\<nexists>is. js_get body ''input'' = Some (JArr is)" | "is" where "js_get body ''input'' = Some (JArr is)" by blast
  then show thesis
  proof cases
    case 1
    then show thesis by (intro same) (auto simp: normalizeResponsesUpstreamBody_def split: option.split json.split)
  next
    case 2
    moreover have "is_record body" using 2 by (cases body) simp_all
    ultimately show thesis
      using same changed[of "is"]
      by (cases "list_ex (\<lambda>i. normalizeResponsesInputItem i \<noteq> None) is")
        (simp_all add: normalizeResponsesUpstreamBody_def items_loop_map)
  qed
qed

text \<open>Normalizing the body with the renamed text parts gives the same result as normalizing the body of the client.\<close>

lemma upstream_body_same_request:
  "normalizeResponses fs (normalizeResponsesUpstreamBody body) maxInputBytes = normalizeResponses fs body maxInputBytes"
proof (cases body rule: upstream_body_cases)
  case (changed "is")
  define b where "b = normalizeResponsesUpstreamBody body"
  have g: "js_get b k = (if k = ''input'' then Some (JArr (map upstream_item is)) else js_get body k)" for k
    using changed(1) by (simp add: b_def changed(3))
  have o: "is_object b" "is_object body" using changed(1) by (simp_all add: b_def changed(3))
  have i: "response_input (js_get b ''input'') = response_input (js_get body ''input'')"
    "(js_get b ''input'' = None) = (js_get body ''input'' = None)"
    by (simp_all add: g changed(2) response_input_def response_items_upstream split: sum.split)
  have k: "js_get b ''model'' = js_get body ''model''" "has_key b ''item_reference'' = has_key body ''item_reference''"
    "js_get b ''instructions'' = js_get body ''instructions''" "js_get b ''max_output_tokens'' = js_get body ''max_output_tokens''"
    "has_key b ''max_output_tokens'' = has_key body ''max_output_tokens''"
    "js_get b ''stream'' = js_get body ''stream''" "hasToolUse b = hasToolUse body"
    "serialized_fields fs b [''instructions'', ''tools'', ''tool_choice''] = serialized_fields fs body [''instructions'', ''tools'', ''tool_choice'']"
    by (simp_all add: g has_key_def hasToolUse_def TOOL_KEYS_def serialized_fields_def)
  have p: "present b ''previous_response_id'' = present body ''previous_response_id''" "present b ''conversation'' = present body ''conversation''"
    "present b ''instructions'' = present body ''instructions''"
    by (simp_all add: g present_def)
  have "is_object b = is_object body" by (simp add: o)
  then show ?thesis unfolding b_def[symmetric] normalizeResponses_def by (simp only: i k p)
qed simp

lemma retype_done: "t \<noteq> ''text'' \<Longrightarrow> \<not> list_ex is_text_part (map (retype t) ps)"
  by (auto simp: list_ex_iff is_text_part_def retype_def)

lemma text_parts_done:
  assumes "normalizeResponsesTextParts content t = Some c" "t \<noteq> ''text''"
  shows "normalizeResponsesTextParts (Some c) t = None"
proof (rule ccontr)
  assume "normalizeResponsesTextParts (Some c) t \<noteq> None"
  then obtain ps where "c = JArr ps" "list_ex is_text_part ps" by (auto simp: text_parts_Some)
  then show False using assms(1) retype_done[OF assms(2)] by (auto simp: text_parts_Some)
qed

lemma upstream_item_done: "normalizeResponsesInputItem (upstream_item item) = None"
proof (cases item rule: upstream_item_cases)
  case same
  then show ?thesis by (simp add: upstream_item_def)
next
  case (message role c)
  have "normalizeResponsesTextParts (Some c) (if role = ''assistant'' then ''output_text'' else ''input_text'') = None"
    by (rule text_parts_done[OF message(5)]) simp
  moreover have "upstream_item item = set_key item ''content'' c" by (simp add: upstream_item_def message(1))
  ultimately show ?thesis using message(2-4) by (auto simp: normalizeResponsesInputItem_def response_role_set_key)
next
  case (tool c)
  have "normalizeResponsesTextParts (Some c) ''input_text'' = None"
    by (rule text_parts_done[OF tool(4)]) simp
  moreover have "upstream_item item = set_key item ''output'' c" by (simp add: upstream_item_def tool(1))
  ultimately show ?thesis using tool(2,3) by (simp add: normalizeResponsesInputItem_def)
qed

text \<open>Normalizing the upstream body once is enough: doing it again changes nothing.\<close>

lemma upstream_body_idempotent:
  "normalizeResponsesUpstreamBody (normalizeResponsesUpstreamBody body) = normalizeResponsesUpstreamBody body"
proof (cases body rule: upstream_body_cases)
  case (changed "is")
  have "\<not> list_ex (\<lambda>i. normalizeResponsesInputItem i \<noteq> None) (map upstream_item is)"
    by (simp add: list_ex_iff upstream_item_done)
  then show ?thesis
    using changed(1) by (simp add: changed(3) normalizeResponsesUpstreamBody_def[of "set_key body ''input'' x" for x] items_loop_map)
qed simp

end
