(* ===== verification/Tokenization.thy ===== *)
theory Tokenization
  imports Gateway_Config Normalize
begin

section \<open>Tokenization: the estimate of the input tokens\<close>

text \<open>
  durable-objects/tokenizer-controller/src (contracts.ts, estimator.ts, tokenizer-controller.ts) and, in
  apps/gateway-worker/src, tokenizer.ts, deno-tokenizer-config.ts and tokenization-routing.ts.  The BPE encoder of
  tiktoken is an argument \<open>encode\<close>, from a text to the number of its tokens or a failure, as are the chunks that
  the pattern of the work limit cuts a text into, and the outcome of the Deno service.  The events that are logged
  and their times are not modelled.
\<close>

subsection \<open>contracts.ts\<close>

record tokenize_request =
  tq_requestId :: string
  tq_inputText :: string
  tq_messageCount :: int
  tq_opaqueInputBytes :: int

datatype estimation_path = Exact_bpe | Conservative_bytes

record tokenize_result =
  tr_estimatedInputTokens :: int
  tr_estimationPath :: estimation_path

datatype tokenize_rpc_result = Tokenized tokenize_result | Work_limit

definition MAX_REQUEST_ID_BYTES :: int where "MAX_REQUEST_ID_BYTES = 256"

definition MAX_BPE_WORK_UNITS :: int where "MAX_BPE_WORK_UNITS = 64 * 1024 * 1024"

definition parseTokenizeRequest :: "json \<Rightarrow> tokenize_request throws" where
  "parseTokenizeRequest value =
     (if \<not> is_record value then Inl (TypeError ''Invalid tokenizer request.'')
      else case (js_get value ''requestId'', js_get value ''inputText'', js_get value ''messageCount'', js_get value ''opaqueInputBytes'') of
        (Some (JStr requestId), Some (JStr inputText), Some (JNum messageCount), Some (JNum opaqueInputBytes)) \<Rightarrow>
          if requestId = [] \<or> \<not> is_safe_integer messageCount \<or> the_int messageCount < 0 \<or>
             \<not> is_safe_integer opaqueInputBytes \<or> the_int opaqueInputBytes < 0
          then Inl (TypeError ''Invalid tokenizer request.'')
          else if utf8_length inputText > MAX_INPUT_TEXT_BYTES \<or> utf8_length requestId > MAX_REQUEST_ID_BYTES
          then Inl (TypeError ''Invalid tokenizer request.'')
          else Inr \<lparr>tq_requestId = requestId, tq_inputText = inputText, tq_messageCount = the_int messageCount,
                    tq_opaqueInputBytes = the_int opaqueInputBytes\<rparr>
      | _ \<Rightarrow> Inl (TypeError ''Invalid tokenizer request.''))"

subsection \<open>estimator.ts\<close>

text \<open>What a call of the third-party encoder gives: an error object or another thrown value.\<close>

datatype 'a foreign = Foreign_value 'a | Foreign_error | Foreign_other

definition other_thrown :: js_error where "other_thrown = PlainError ''non-error''"

definition work_limit_error :: js_error where "work_limit_error = PlainError ''Tokenizer BPE work limit exceeded.''"

text \<open>The squares of chunks of at most \<open>MAX_INPUT_TEXT_BYTES\<close> bytes are exact in doubles.\<close>

fun work_loop :: "int \<Rightarrow> string list \<Rightarrow> unit throws" where
  "work_loop workUnits [] = Inr ()"
| "work_loop workUnits (piece # pieces) =
     (let pieceBytes = utf8_length piece; pieceWorkUnits = pieceBytes * pieceBytes
      in if workUnits > MAX_BPE_WORK_UNITS - pieceWorkUnits then Inl work_limit_error
         else work_loop (workUnits + pieceWorkUnits) pieces)"

definition assertBpeWorkWithinLimit :: "(string \<Rightarrow> string list) \<Rightarrow> string \<Rightarrow> unit throws" where
  "assertBpeWorkWithinLimit chunks inputText = work_loop 0 (chunks inputText)"

definition estimate_of :: "int \<Rightarrow> estimation_path \<Rightarrow> tokenize_request \<Rightarrow> tokenize_result throws" where
  "estimate_of base path request =
     and_then (estimatedInputTokensOf (JsInt base) (JsInt (tq_messageCount request)) (JsInt (tq_opaqueInputBytes request)))
       (\<lambda>n. Inr \<lparr>tr_estimatedInputTokens = n, tr_estimationPath = path\<rparr>)"

definition conservativeEstimate :: "tokenize_request \<Rightarrow> tokenize_result throws" where
  "conservativeEstimate request = estimate_of (utf8_length (tq_inputText request)) Conservative_bytes request"

definition encodeWithFallback ::
  "(string \<Rightarrow> string list) \<Rightarrow> (string \<Rightarrow> nat foreign) \<Rightarrow> tokenize_request \<Rightarrow> tokenize_result throws" where
  "encodeWithFallback chunks encode request =
     and_then (assertBpeWorkWithinLimit chunks (tq_inputText request)) (\<lambda>_.
       case encode (tq_inputText request) of
         Foreign_error \<Rightarrow> conservativeEstimate request
       | Foreign_other \<Rightarrow> Inl other_thrown
       | Foreign_value base \<Rightarrow> estimate_of (int base) Exact_bpe request)"

text \<open>The estimator keeps its encoder, which \<open>factory\<close> makes at the first request.\<close>

type_synonym encoder = "string \<Rightarrow> nat foreign"

definition estimate ::
  "(string \<Rightarrow> string list) \<Rightarrow> encoder foreign \<Rightarrow> tokenize_request \<Rightarrow> encoder option \<Rightarrow> tokenize_result throws \<times> encoder option" where
  "estimate chunks factory request encoding =
     (case encoding of
        Some encode \<Rightarrow> (encodeWithFallback chunks encode request, encoding)
      | None \<Rightarrow>
          (case factory of
             Foreign_error \<Rightarrow> (conservativeEstimate request, None)
           | Foreign_other \<Rightarrow> (Inl other_thrown, None)
           | Foreign_value initialized \<Rightarrow> (encodeWithFallback chunks initialized request, Some initialized)))"

subsection \<open>tokenizer-controller.ts\<close>

definition tokenize ::
  "(string \<Rightarrow> string list) \<Rightarrow> encoder foreign \<Rightarrow> json \<Rightarrow> encoder option \<Rightarrow> tokenize_rpc_result throws \<times> encoder option" where
  "tokenize chunks factory request encoding =
     (case parseTokenizeRequest request of
        Inl e \<Rightarrow> (Inl e, encoding)
      | Inr parsed \<Rightarrow>
          (case estimate chunks factory parsed encoding of
             (Inr r, encoding') \<Rightarrow> (Inr (Tokenized r), encoding')
           | (Inl e, encoding') \<Rightarrow> (if e = work_limit_error then Inr Work_limit else Inl e, encoding')))"

subsection \<open>tokenizer.ts\<close>

datatype tokenizer_outcome = Tokenizer_resolved tokenize_result | Tokenizer_request_too_large | Tokenizer_unavailable

definition RPC_LIMIT_BYTES :: int where "RPC_LIMIT_BYTES = 32 * 1024 * 1024"

definition estimateRpcPayloadSize :: "tokenize_request \<Rightarrow> int" where
  "estimateRpcPayloadSize request =
     utf16_length (tq_inputText request) * 2 + utf16_length (tq_requestId request) * 2 + 200"

definition isWithinRequestLimits :: "tokenize_request \<Rightarrow> bool" where
  "isWithinRequestLimits request \<longleftrightarrow>
     tq_requestId request \<noteq> [] \<and> utf8_length (tq_inputText request) \<le> MAX_INPUT_TEXT_BYTES \<and>
     utf8_length (tq_requestId request) \<le> MAX_REQUEST_ID_BYTES"

definition path_name :: "estimation_path \<Rightarrow> string" where
  "path_name p = (case p of Exact_bpe \<Rightarrow> ''exact_bpe'' | Conservative_bytes \<Rightarrow> ''conservative_bytes'')"

definition parseTokenizeResult :: "json \<Rightarrow> tokenize_rpc_result option" where
  "parseTokenizeResult value =
     (if \<not> is_record value then None
      else if js_get value ''kind'' = Some (JStr ''work_limit'') then Some Work_limit
      else case js_get value ''estimatedInputTokens'' of
        Some (JNum n) \<Rightarrow>
          if \<not> is_safe_integer n \<or> the_int n < 0 then None
          else if js_get value ''estimationPath'' = Some (JStr ''exact_bpe'')
          then Some (Tokenized \<lparr>tr_estimatedInputTokens = the_int n, tr_estimationPath = Exact_bpe\<rparr>)
          else if js_get value ''estimationPath'' = Some (JStr ''conservative_bytes'')
          then Some (Tokenized \<lparr>tr_estimatedInputTokens = the_int n, tr_estimationPath = Conservative_bytes\<rparr>)
          else None
      | _ \<Rightarrow> None)"

definition tokenizeInput :: "(tokenize_request \<Rightarrow> json throws) \<Rightarrow> tokenize_request \<Rightarrow> tokenizer_outcome" where
  "tokenizeInput stub request =
     (if estimateRpcPayloadSize request \<ge> RPC_LIMIT_BYTES then Tokenizer_unavailable
      else if \<not> isWithinRequestLimits request then Tokenizer_unavailable
      else case stub request of
        Inl _ \<Rightarrow> Tokenizer_unavailable
      | Inr value \<Rightarrow>
          (case parseTokenizeResult value of
             None \<Rightarrow> Tokenizer_unavailable
           | Some Work_limit \<Rightarrow> Tokenizer_request_too_large
           | Some (Tokenized result) \<Rightarrow> Tokenizer_resolved result))"

subsection \<open>deno-tokenizer-config.ts\<close>

record deno_env =
  DENO_MAX_INPUT_BYTES :: "string option"
  DENO_TOKENIZER_ENDPOINT :: "string option"
  DENO_TOKENIZER_AUTH_TOKEN :: "string option"
  DENO_TOKENIZER_THRESHOLD_BYTES :: "string option"
  DENO_TOKENIZER_TIMEOUT_MS :: "string option"
  DENO_PREPARE_ENDPOINT :: "string option"
  DENO_PREPARE_THRESHOLD_BYTES :: "string option"

record deno_endpoint =
  de_endpoint :: string
  de_authToken :: string
  de_thresholdBytes :: int
  de_timeoutMs :: int

datatype deno_config = Deno_disabled int | Deno_invalid int | Deno_enabled deno_endpoint int

definition MAX_TIMEOUT_MS :: int where "MAX_TIMEOUT_MS = 2147483647"

definition deno_max_input :: "deno_config \<Rightarrow> int" where
  "deno_max_input config = (case config of Deno_disabled n \<Rightarrow> n | Deno_invalid n \<Rightarrow> n | Deno_enabled _ n \<Rightarrow> n)"

definition isHttpsUrlWithoutCredentials :: "(string \<Rightarrow> url option) \<Rightarrow> string \<Rightarrow> bool" where
  "isHttpsUrlWithoutCredentials new_url endpoint =
     (case new_url endpoint of
        None \<Rightarrow> False
      | Some u \<Rightarrow> u_protocol u = ''https:'' \<and> u_username u = [] \<and> u_password u = [])"

definition parseSafeInteger :: "string \<Rightarrow> int option" where
  "parseSafeInteger value =
     (if js_trim value = [] then None
      else let parsed = js_number value in if is_safe_integer parsed then Some (the_int parsed) else None)"

definition resolveDenoTokenizerConfig :: "(string \<Rightarrow> url option) \<Rightarrow> deno_env \<Rightarrow> deno_config" where
  "resolveDenoTokenizerConfig new_url env =
     (let maxInputBytes = resolveMaxInputBytes (DENO_MAX_INPUT_BYTES env)
      in case (DENO_TOKENIZER_ENDPOINT env, DENO_TOKENIZER_AUTH_TOKEN env, DENO_TOKENIZER_THRESHOLD_BYTES env, DENO_TOKENIZER_TIMEOUT_MS env) of
        (None, None, None, None) \<Rightarrow> Deno_disabled maxInputBytes
      | (Some endpoint, Some authToken, Some threshold, Some timeout) \<Rightarrow>
          (case (parseSafeInteger threshold, parseSafeInteger timeout) of
             (Some thresholdBytes, Some timeoutMs) \<Rightarrow>
               if \<not> isHttpsUrlWithoutCredentials new_url endpoint \<or> js_trim authToken = [] \<or> thresholdBytes \<le> 0 \<or>
                  thresholdBytes > maxInputBytes \<or> timeoutMs \<le> 0 \<or> timeoutMs > MAX_TIMEOUT_MS
               then Deno_invalid maxInputBytes
               else Deno_enabled \<lparr>de_endpoint = endpoint, de_authToken = authToken, de_thresholdBytes = thresholdBytes,
                      de_timeoutMs = timeoutMs\<rparr> maxInputBytes
           | _ \<Rightarrow> Deno_invalid maxInputBytes)
      | _ \<Rightarrow> Deno_invalid maxInputBytes)"

definition resolveDenoRuntimeConfig :: "(string \<Rightarrow> url option) \<Rightarrow> deno_env \<Rightarrow> deno_config \<times> deno_config" where
  "resolveDenoRuntimeConfig new_url env =
     (let tokenizer = resolveDenoTokenizerConfig new_url env;
          maxInputBytes = deno_max_input tokenizer;
          prepareEndpoint = map_option js_trim (DENO_PREPARE_ENDPOINT env);
          prepareThreshold = map_option js_trim (DENO_PREPARE_THRESHOLD_BYTES env);
          invalid = (tokenizer, Deno_invalid maxInputBytes)
      in case (prepareEndpoint, prepareThreshold) of
        (None, None) \<Rightarrow> (tokenizer, Deno_disabled maxInputBytes)
      | (Some endpoint, Some threshold) \<Rightarrow>
          (case (tokenizer, parseSafeInteger threshold) of
             (Deno_enabled t _, Some thresholdBytes) \<Rightarrow>
               if \<not> isHttpsUrlWithoutCredentials new_url endpoint \<or> thresholdBytes \<le> 0 \<or> thresholdBytes > maxInputBytes
               then invalid
               else (tokenizer, Deno_enabled (t\<lparr>de_endpoint := endpoint, de_thresholdBytes := thresholdBytes\<rparr>) maxInputBytes)
           | _ \<Rightarrow> invalid)
      | _ \<Rightarrow> invalid)"

subsection \<open>tokenization-routing.ts\<close>

text \<open>The answer of the Deno service, a network service, read by deno-tokenizer-client.ts.\<close>

datatype deno_outcome = Deno_count int | Deno_unavailable

datatype tokenization_provider = Cloudflare_do | Deno_service

datatype routed_outcome =
    Routed_resolved tokenization_provider tokenize_result
  | Routed_request_too_large
  | Routed_unavailable tokenization_provider

definition withCloudflareProvider :: "tokenizer_outcome \<Rightarrow> routed_outcome" where
  "withCloudflareProvider outcome =
     (case outcome of
        Tokenizer_resolved result \<Rightarrow> Routed_resolved Cloudflare_do result
      | Tokenizer_request_too_large \<Rightarrow> Routed_request_too_large
      | Tokenizer_unavailable \<Rightarrow> Routed_unavailable Cloudflare_do)"

definition routeTokenization ::
  "deno_config \<Rightarrow> (tokenize_request \<Rightarrow> json throws) \<Rightarrow> (deno_endpoint \<Rightarrow> string \<Rightarrow> deno_outcome) \<Rightarrow> tokenize_request \<Rightarrow>
     int option \<Rightarrow> routed_outcome" where
  "routeTokenization config stub deno request inputTextBytes =
     (case config of
        Deno_disabled _ \<Rightarrow> withCloudflareProvider (tokenizeInput stub request)
      | Deno_invalid _ \<Rightarrow> Routed_unavailable Deno_service
      | Deno_enabled endpoint _ \<Rightarrow>
          (let bytes = (case inputTextBytes of Some n \<Rightarrow> n | None \<Rightarrow> utf8_length (tq_inputText request))
           in if bytes < de_thresholdBytes endpoint then withCloudflareProvider (tokenizeInput stub request)
              else case deno endpoint (tq_inputText request) of
                Deno_unavailable \<Rightarrow> Routed_unavailable Deno_service
              | Deno_count baseTokenCount \<Rightarrow>
                  (case estimate_of baseTokenCount Exact_bpe request of
                     Inl _ \<Rightarrow> Routed_unavailable Deno_service
                   | Inr result \<Rightarrow> Routed_resolved Deno_service result)))"

subsection \<open>What an estimate counts\<close>

lemma utf8_length_nonneg: "0 \<le> utf8_length s"
  by (simp add: utf8_length_def)

lemma work_loop_bound: "work_loop w ps = Inr () \<longleftrightarrow> ps = [] \<or> w + sum_list (map (\<lambda>p. utf8_length p * utf8_length p) ps) \<le> MAX_BPE_WORK_UNITS"
proof (induction ps arbitrary: w)
  case (Cons p ps)
  have "0 \<le> sum_list (map (\<lambda>p. utf8_length p * utf8_length p) ps)" by (intro sum_list_nonneg) auto
  then show ?case by (auto simp: Cons.IH Let_def)
qed simp

lemma work_within:
  assumes "assertBpeWorkWithinLimit chunks t = Inr u"
  shows "sum_list (map (\<lambda>p. utf8_length p * utf8_length p) (chunks t)) \<le> MAX_BPE_WORK_UNITS"
proof (cases "chunks t")
  case Nil
  then show ?thesis by (simp add: MAX_BPE_WORK_UNITS_def)
next
  case (Cons p ps)
  then show ?thesis using assms work_loop_bound[of 0 "chunks t"] by (simp add: assertBpeWorkWithinLimit_def)
qed

lemma estimate_of_Inr:
  "estimate_of base path request = Inr r \<longleftrightarrow> 0 \<le> base \<and> safe_int base \<and>
     estimatedInputTokensOf (JsInt base) (JsInt (tq_messageCount request)) (JsInt (tq_opaqueInputBytes request)) = Inr (tr_estimatedInputTokens r) \<and>
     tr_estimatedInputTokens r = base + tq_opaqueInputBytes request + 4 * tq_messageCount request + 3 \<and> tr_estimationPath r = path"
  by (cases r) (auto simp: estimate_of_def and_then_Inr estimatedInputTokensOf_def Let_def)

text \<open>An estimate counts everything that it is given.  The estimated tokens are those of the text, four for every message, one for
  every opaque byte and three; the tokens of the text are the count of the encoder, which ran only because the squared sizes of the
  chunks of the text stay within the work limit, or, only when there is no encoder or it failed, the number of its bytes.\<close>

lemma estimate_counts:
  assumes "estimate chunks factory request encoding = (Inr r, encoding')"
  shows "\<exists>base. tr_estimatedInputTokens r = base + tq_opaqueInputBytes request + 4 * tq_messageCount request + 3 \<and>
    safe_int (tr_estimatedInputTokens r) \<and>
    (case tr_estimationPath r of
       Exact_bpe \<Rightarrow> (\<exists>encode n. encoding' = Some encode \<and> encode (tq_inputText request) = Foreign_value n \<and> base = int n) \<and>
         sum_list (map (\<lambda>p. utf8_length p * utf8_length p) (chunks (tq_inputText request))) \<le> MAX_BPE_WORK_UNITS
     | Conservative_bytes \<Rightarrow> base = utf8_length (tq_inputText request) \<and>
         (case encoding' of None \<Rightarrow> encoding = None | Some encode \<Rightarrow> encode (tq_inputText request) = Foreign_error))"
proof -
  have s: "estimate_of base path request = Inr r \<Longrightarrow> safe_int (tr_estimatedInputTokens r)" for base path
    by (auto simp: estimate_of_Inr estimatedInputTokensOf_def Let_def split: if_splits)
  have e: "?thesis" if "encodeWithFallback chunks encode request = Inr r" "encoding' = Some encode" for encode
    using that s work_within[of chunks "tq_inputText request"]
    by (auto simp: encodeWithFallback_def conservativeEstimate_def and_then_Inr estimate_of_Inr split: foreign.splits)
  consider encode where "encodeWithFallback chunks encode request = Inr r" "encoding' = Some encode"
    | "conservativeEstimate request = Inr r" "encoding = None" "encoding' = None"
    using assms by (auto simp: estimate_def split: option.splits foreign.splits)
  then show ?thesis
  proof cases
    case 2
    then show ?thesis using s by (auto simp: conservativeEstimate_def estimate_of_Inr)
  qed (rule e)
qed

theorem estimate_counts_witness:
  "\<exists>r encoding'. estimate (\<lambda>t. [t]) (Foreign_value (\<lambda>t. Foreign_value (length t)))
      \<lparr>tq_requestId = ''r'', tq_inputText = ''hello'', tq_messageCount = 1, tq_opaqueInputBytes = 0\<rparr> None = (Inr r, encoding') \<and>
    tr_estimatedInputTokens r = 12"
proof -
  let ?q = "\<lparr>tq_requestId = ''r'', tq_inputText = ''hello'', tq_messageCount = 1, tq_opaqueInputBytes = 0\<rparr>"
  have r: "estimate (\<lambda>t. [t]) (Foreign_value (\<lambda>t. Foreign_value (length t))) ?q None =
      (Inr \<lparr>tr_estimatedInputTokens = 12, tr_estimationPath = Exact_bpe\<rparr>, Some (\<lambda>t. Foreign_value (length t)))"
    by (simp add: estimate_def encodeWithFallback_def assertBpeWorkWithinLimit_def and_then_def estimate_of_def estimatedInputTokensOf_def
        safe_int_def MAX_SAFE_INTEGER_def MAX_BPE_WORK_UNITS_def utf8_length_def Let_def)
  then show ?thesis using estimate_counts[OF r] by auto
qed

end
