(* ===== verification/Errors.thy ===== *)
theory Errors
  imports Relay_Parse
begin

section \<open>Errors: the error answers of the gateway\<close>

text \<open>
  packages/shared/src/errors.ts and apps/gateway-worker/src/version-metadata.ts: the errors with their status,
  code and route, the headers of an answer and the answer itself.  A body is the JSON value that
  \<open>JSON.stringify\<close> writes.
\<close>

record error_body =
  eb_message :: string
  eb_type :: string
  eb_param :: "string option"
  eb_code :: string
  eb_quota :: "(string \<times> int \<times> string) option"

record octg_http_error =
  he_status :: int
  he_body :: error_body
  he_requestId :: string
  he_quota :: "quota_snapshot option"
  he_route :: "string option"

definition makeError ::
  "int \<Rightarrow> string \<Rightarrow> string \<Rightarrow> string \<Rightarrow> string option \<Rightarrow> string \<Rightarrow> quota_snapshot option \<Rightarrow> string option \<Rightarrow> octg_http_error" where
  "makeError status requestId message type param code quota route =
     \<lparr>he_status = status,
      he_body = \<lparr>eb_message = message, eb_type = type, eb_param = param, eb_code = code,
        eb_quota = map_option (\<lambda>q. (toPoolLower (q_pool q), q_remaining q, q_resetAt q)) quota\<rparr>,
      he_requestId = requestId, he_quota = quota, he_route = route\<rparr>"

definition errQuotaExceeded :: "quota_snapshot \<Rightarrow> string \<Rightarrow> octg_http_error" where
  "errQuotaExceeded quota requestId =
     makeError 429 requestId (''Complimentary quota exceeded for pool '' @ [CHR 0x27] @ toPoolLower (q_pool quota) @ [CHR 0x27] @ ''.'')
       ''complimentary_quota_exceeded'' None ''insufficient_quota'' (Some quota) (Some ''reject:complimentary_quota'')"

definition errRequestTooLarge :: "quota_snapshot \<Rightarrow> string \<Rightarrow> octg_http_error" where
  "errRequestTooLarge quota requestId =
     makeError 413 requestId
       (''Request exceeds the complimentary quota limit for pool '' @ [CHR 0x27] @ toPoolLower (q_pool quota) @ [CHR 0x27] @ ''.'')
       ''invalid_request_error'' None ''request_too_large'' (Some quota) (Some ''reject:request_too_large'')"

definition errInputTooLarge :: "string \<Rightarrow> octg_http_error" where
  "errInputTooLarge requestId =
     makeError 413 requestId ''Request exceeds the configured input size limit.'' ''invalid_request_error'' None
       ''request_too_large'' None (Some ''reject:request_too_large'')"

definition errWorkerConcurrencyExceeded :: "quota_snapshot \<Rightarrow> string \<Rightarrow> octg_http_error" where
  "errWorkerConcurrencyExceeded quota requestId =
     makeError 429 requestId ''Worker concurrency limit reached for this quota pool.'' ''rate_limit_error'' None
       ''worker_concurrency_exceeded'' (Some quota) (Some ''reject:worker_concurrency'')"

definition errModelNotAllowed :: "string \<Rightarrow> quota_snapshot option \<Rightarrow> octg_http_error" where
  "errModelNotAllowed requestId quota =
     makeError 403 requestId ''The requested model is not allowed for this client.'' ''invalid_request_error'' (Some ''model'')
       ''model_not_allowed'' quota (if quota = None then None else Some ''reject:model_not_allowed'')"

definition errModelRequiresPaid :: "string \<Rightarrow> octg_http_error" where
  "errModelRequiresPaid requestId =
     makeError 403 requestId ''The requested model requires paid mode, which is not enabled.'' ''invalid_request_error''
       (Some ''model'') ''model_requires_paid'' None None"

definition errNonTextInput :: "string \<Rightarrow> octg_http_error" where
  "errNonTextInput requestId =
     makeError 400 requestId ''Non-text input is not supported in the MVP.'' ''invalid_request_error'' (Some ''input'')
       ''invalid_request'' None None"

definition errMaxTokensConflict :: "string \<Rightarrow> octg_http_error" where
  "errMaxTokensConflict requestId =
     makeError 400 requestId ''max_tokens and max_completion_tokens must match when both are provided.'' ''invalid_request_error''
       (Some ''max_tokens'') ''invalid_request'' None None"

definition errInvalidRequest :: "string \<Rightarrow> string option \<Rightarrow> octg_http_error" where
  "errInvalidRequest requestId message =
     makeError 400 requestId (case message of None \<Rightarrow> ''Invalid request body.'' | Some m \<Rightarrow> m) ''invalid_request_error'' None
       ''invalid_request'' None None"

definition errInvalidApiKey :: "string \<Rightarrow> octg_http_error" where
  "errInvalidApiKey requestId =
     makeError 401 requestId ''Invalid API key provided.'' ''authentication_error'' None ''invalid_api_key'' None None"

definition errClientDisabled :: "string \<Rightarrow> octg_http_error" where
  "errClientDisabled requestId =
     makeError 403 requestId ''This client is disabled.'' ''permission_error'' None ''client_disabled'' None None"

definition errInternal :: "string \<Rightarrow> quota_snapshot option \<Rightarrow> string option \<Rightarrow> octg_http_error" where
  "errInternal requestId quota route =
     makeError 500 requestId ''An internal error occurred.'' ''api_error'' None ''internal_error'' quota
       (Some (case route of None \<Rightarrow> ''error:internal_error'' | Some r \<Rightarrow> r))"

subsection \<open>Answers\<close>

text \<open>The body of an answer: a JSON value, the text of the upstream answer, its stream of bytes, or none.\<close>

datatype answer_body = Body_json json | Body_text string | Body_upstream "string option" | Body_stream

record octg_response =
  os_status :: int
  os_headers :: "(string \<times> string) list"
  os_body :: answer_body

definition present_string :: "string option \<Rightarrow> bool" where
  "present_string s \<longleftrightarrow> (case s of None \<Rightarrow> False | Some t \<Rightarrow> t \<noteq> [])"

definition buildOctgHeaders :: "string \<Rightarrow> quota_snapshot option \<Rightarrow> string option \<Rightarrow> (string \<times> string) list" where
  "buildOctgHeaders requestId quota route =
     [(''X-OCTG-Request-Id'', requestId)] @
     (if present_string route then [(''X-OCTG-Route'', the route)] else []) @
     (case quota of
        None \<Rightarrow> []
      | Some q \<Rightarrow>
          if present_string route then
            [(''X-OCTG-Pool'', toPoolLower (q_pool q)), (''X-OCTG-Quota-Limit'', int_string (q_limit q)),
             (''X-OCTG-Quota-Used'', int_string (q_used q)), (''X-OCTG-Quota-Remaining'', int_string (q_remaining q)),
             (''X-OCTG-Quota-Reset'', q_resetAt q)]
          else [])"

definition error_json :: "octg_http_error \<Rightarrow> json" where
  "error_json err =
     (let e = he_body err
      in JObj [(''error'', JObj ([(''message'', JStr (eb_message e)), (''type'', JStr (eb_type e)),
              (''param'', case eb_param e of None \<Rightarrow> JNull | Some p \<Rightarrow> JStr p), (''code'', JStr (eb_code e))] @
              (case eb_quota e of
                 None \<Rightarrow> []
               | Some (pool, remaining, resetAt) \<Rightarrow>
                   [(''pool'', JStr pool), (''remaining_tokens'', JNum (JsInt remaining)), (''reset_at'', JStr resetAt)]))),
           (''request_id'', JStr (he_requestId err))])"

definition errorResponse :: "octg_http_error \<Rightarrow> octg_response" where
  "errorResponse err =
     \<lparr>os_status = he_status err,
      os_headers = (''content-type'', ''application/json'') # buildOctgHeaders (he_requestId err) (he_quota err) (he_route err),
      os_body = Body_json (error_json err)\<rparr>"

definition workerVersionHeaders :: "string option \<Rightarrow> (string \<times> string) list" where
  "workerVersionHeaders versionId =
     [(''X-OCTG-Worker-Version'', if present_string versionId then the versionId else ''local'')]"

text \<open>\<open>headers.set\<close>: no other header of these answers has the name.\<close>

definition withWorkerVersion :: "octg_response \<Rightarrow> string option \<Rightarrow> octg_response" where
  "withWorkerVersion response metadata =
     response\<lparr>os_headers := os_headers response @ workerVersionHeaders metadata\<rparr>"

end
