(* ===== verification/Proxy.thy ===== *)
theory Proxy
  imports Decision Tokenization Errors
begin

section \<open>Proxy: a metered request through the gateway\<close>

text \<open>
  apps/gateway-worker/src/proxy.ts with auth.ts, crypto.ts, request-body.ts, quota-reservation.ts and upstream.ts: the
  request that the gateway itself normalizes, meters and sends upstream.  A run threads the stores of the quota
  controllers, the local variables of the handler and the requests sent upstream; a throw ends a step and leaves
  the state it reached.  Every call of a quota controller takes its turn of \<open>pw_turns\<close>: whether it is lost, the
  clock and the fresh identifier of the controller, and what other requests did to the stores before it.
  The route over the Deno relay is in Relay_Client; the one over Deno's prepare service is left out.
  The records of the audit, written best effort, and the stages that are logged are not modelled.
\<close>

subsection \<open>Runs\<close>

record proxy_turn =
  tn_fate :: rpc_fate
  tn_now :: int
  tn_uuid :: string
  tn_between :: "quotas \<Rightarrow> quotas"

record upstream_request =
  ur_url :: string
  ur_headers :: "(string \<times> string) list"
  ur_body :: json

text \<open>What \<open>fetch\<close> gives: a rejection, or an answer whose text may fail to be read.\<close>

record upstream_answer =
  ua_status :: int
  ua_content_type :: "string option"
  ua_text :: "string option"

datatype upstream_result = Upstream_rejects | Upstream_answers upstream_answer

datatype reservation_state = Reservation_none | Reservation_resolved | Reservation_unknown

record client_row =
  cl_id :: string
  cl_name :: string
  cl_enabled :: bool

record proxy_world =
  pw_sha256 :: "string \<Rightarrow> string"
  pw_hmac :: "string \<Rightarrow> string \<Rightarrow> string"
  pw_new_url :: "string \<Rightarrow> url option"
  pw_number_text :: "rat \<Rightarrow> string"
  pw_decode :: "string \<Rightarrow> string"
  pw_env :: gateway_env
  pw_deno_env :: deno_env
  pw_pepper :: string
  pw_clients :: "string \<Rightarrow> client_row option throws"
  pw_lease_ttl :: "string option"
  pw_upstream_token :: "string option"
  pw_upstream_url :: "string option"
  pw_version :: "string option"
  pw_now :: int
  pw_turns :: "nat \<Rightarrow> proxy_turn"
  pw_tokenizer :: "tokenize_request \<Rightarrow> json throws"
  pw_deno :: "deno_endpoint \<Rightarrow> string \<Rightarrow> deno_outcome"
  pw_transport :: "upstream_request \<Rightarrow> upstream_result"

record proxy_run =
  pr_quotas :: quotas
  pr_turn :: nat
  pr_caches :: config_caches
  pr_stub :: "string option"
  pr_reservation :: reservation_state
  pr_attempted :: bool
  pr_reached :: bool
  pr_acquired :: bool
  pr_lease :: "in_flight_lease option"
  pr_sent :: "upstream_request list"

type_synonym 'a px = "proxy_run \<Rightarrow> 'a throws \<times> proxy_run"

definition px_return :: "'a \<Rightarrow> 'a px" where "px_return a s = (Inr a, s)"

definition px_throw :: "js_error \<Rightarrow> 'a px" where "px_throw e s = (Inl e, s)"

definition px_of :: "'a throws \<Rightarrow> 'a px" where "px_of r s = (r, s)"

definition px_get :: "(proxy_run \<Rightarrow> 'a) \<Rightarrow> 'a px" where "px_get f s = (Inr (f s), s)"

definition px_set :: "(proxy_run \<Rightarrow> proxy_run) \<Rightarrow> unit px" where "px_set f s = (Inr (), f s)"

definition px_bind :: "'a px \<Rightarrow> ('a \<Rightarrow> 'b px) \<Rightarrow> 'b px" where
  "px_bind m f s = (case m s of (Inl e, s') \<Rightarrow> (Inl e, s') | (Inr a, s') \<Rightarrow> f a s')"

definition px_then :: "'a px \<Rightarrow> 'b px \<Rightarrow> 'b px" where "px_then m n = px_bind m (\<lambda>_. n)"

text \<open>\<open>.catch(() => undefined)\<close>.\<close>

definition px_quiet :: "'a px \<Rightarrow> unit px" where "px_quiet m s = (Inr (), snd (m s))"

definition px_catch :: "'a px \<Rightarrow> (js_error \<Rightarrow> 'a px) \<Rightarrow> 'a px" where
  "px_catch m h s = (case m s of (Inl e, s') \<Rightarrow> h e s' | (Inr a, s') \<Rightarrow> (Inr a, s'))"

subsection \<open>Calls of the quota controller\<close>

definition px_stub ::
  "proxy_world \<Rightarrow> string \<Rightarrow> (int \<Rightarrow> string \<Rightarrow> quota_identity \<Rightarrow> quota_store \<Rightarrow> ('a \<times> quota_store) throws) \<Rightarrow> 'a px" where
  "px_stub w name op s =
     (let t = pw_turns w (pr_turn s)
      in case stub_call (tn_fate t) name (\<lambda>st. and_then (identity_of (Some name)) (\<lambda>i. op (tn_now t) (tn_uuid t) i st))
             (tn_between t (pr_quotas s)) of
           (r, quotas) \<Rightarrow> (r, s\<lparr>pr_quotas := quotas, pr_turn := Suc (pr_turn s)\<rparr>))"

abbreviation quota_env_of :: "proxy_world \<Rightarrow> quota_env" where "quota_env_of w \<equiv> ge_quota (pw_env w)"

definition stub_getState :: "proxy_world \<Rightarrow> string \<Rightarrow> quota_view px" where
  "stub_getState w name = px_stub w name (\<lambda>now uuid i st.
     and_then (getState (Some name) (quota_env_of w) now st) (\<lambda>v. Inr (v, st)))"

definition stub_reserve :: "proxy_world \<Rightarrow> string \<Rightarrow> string \<Rightarrow> int \<Rightarrow> int \<Rightarrow> string option \<Rightarrow> string \<Rightarrow> reserve_result px" where
  "stub_reserve w name requestId tokens ub key clientId = px_stub w name (\<lambda>now uuid i.
     reserve (quota_env_of w) i now requestId (JsInt tokens) (JsInt ub) (map_option JStr key) (Some clientId))"

definition stub_settle :: "proxy_world \<Rightarrow> string \<Rightarrow> string \<Rightarrow> jsnum \<Rightarrow> ok_result px" where
  "stub_settle w name requestId n = px_stub w name (\<lambda>now uuid i. settle (quota_env_of w) i now requestId n)"

definition stub_markUncertain :: "proxy_world \<Rightarrow> string \<Rightarrow> string \<Rightarrow> ok_result px" where
  "stub_markUncertain w name requestId = px_stub w name (\<lambda>now uuid i st. Inr (markUncertain_transition (quota_env_of w) i now requestId st))"

definition stub_markReserveOutcomeUnknown :: "proxy_world \<Rightarrow> string \<Rightarrow> string \<Rightarrow> mark_unknown_result px" where
  "stub_markReserveOutcomeUnknown w name requestId =
     px_stub w name (\<lambda>now uuid i st. Inr (markReserveOutcomeUnknown (quota_env_of w) i now requestId st))"

definition stub_release :: "proxy_world \<Rightarrow> string \<Rightarrow> string \<Rightarrow> ok_result px" where
  "stub_release w name requestId = px_stub w name (\<lambda>now uuid i st. Inr (release_transition (quota_env_of w) i now requestId st))"

definition stub_acquireInFlight :: "proxy_world \<Rightarrow> string \<Rightarrow> string \<Rightarrow> int \<Rightarrow> int \<Rightarrow> acquire_result px" where
  "stub_acquireInFlight w name requestId lm ttl =
     px_stub w name (\<lambda>now uuid i. acquireInFlightLease now uuid requestId (JsInt lm) (JsInt ttl))"

definition stub_releaseInFlight :: "proxy_world \<Rightarrow> string \<Rightarrow> string \<Rightarrow> string \<Rightarrow> release_lease_result px" where
  "stub_releaseInFlight w name requestId generation =
     px_stub w name (\<lambda>now uuid i. releaseInFlightLease now requestId (Some generation))"

subsection \<open>quota-reservation.ts\<close>

datatype reserve_outcome = Reserve_resolved reserve_result | Reserve_unknown

definition reserveFailClosed :: "reserve_result px \<Rightarrow> reserve_outcome px" where
  "reserveFailClosed call =
     px_catch (px_bind call (\<lambda>r. px_return (Reserve_resolved r)))
       (\<lambda>_. px_catch (px_bind call (\<lambda>r. px_return (Reserve_resolved r))) (\<lambda>_. px_return Reserve_unknown))"

subsection \<open>upstream.ts\<close>

definition delete_key :: "json \<Rightarrow> string \<Rightarrow> json" where
  "delete_key v k = (case v of JObj kvs \<Rightarrow> JObj (filter (\<lambda>kx. fst kx \<noteq> k) kvs) | _ \<Rightarrow> v)"

definition buildUpstreamBody :: "endpoint \<Rightarrow> json \<Rightarrow> int \<Rightarrow> json" where
  "buildUpstreamBody ep body maxOut =
     (if ep = Endpoint_chat then
        (let b = set_key (delete_key body ''max_tokens'') ''max_completion_tokens'' (JNum (JsInt maxOut))
         in if js_get b ''stream'' = Some (JBool True)
            then set_key b ''stream_options'' (JObj [(''include_usage'', JBool True)]) else b)
      else set_key (delete_key (normalizeResponsesUpstreamBody body) ''max_output_tokens'') ''max_output_tokens'' (JNum (JsInt maxOut)))"

record upstream_meta =
  um_client_id :: string
  um_pool :: string
  um_request_id :: string

definition meta_text :: "upstream_meta \<Rightarrow> string" where
  "meta_text m = stringify (\<lambda>_. []) (JObj
     [(''client_id'', JStr (um_client_id m)), (''pool'', JStr (um_pool m)), (''eligibility'', JStr ''COMPLIMENTARY''),
      (''route'', JStr ''free_shared''), (''request_id'', JStr (um_request_id m))])"

definition ends_with :: "string \<Rightarrow> string \<Rightarrow> bool" where
  "ends_with s e \<longleftrightarrow> drop (length s - length e) s = e"

definition upstream_config_error :: js_error where "upstream_config_error = PlainError ''UpstreamConfigError''"

text \<open>The request that is sent, or the configuration error before anything is sent.\<close>

definition upstream_call ::
  "proxy_world \<Rightarrow> string \<Rightarrow> json \<Rightarrow> upstream_meta \<Rightarrow> string option \<Rightarrow> string option \<Rightarrow> upstream_request throws" where
  "upstream_call w path body m cacheKey idempotencyKey =
     (if \<not> present_string (pw_upstream_token w) then Inl upstream_config_error
      else case pw_upstream_url w of
        None \<Rightarrow> Inl upstream_config_error
      | Some base \<Rightarrow>
          if \<not> ends_with base ''/openai'' then Inl upstream_config_error
          else Inr \<lparr>ur_url = base @ path,
             ur_headers =
               [(''content-type'', ''application/json''), (''cf-aig-authorization'', ''Bearer '' @ the (pw_upstream_token w)),
                (''cf-aig-request-timeout'', ''25000''), (''cf-aig-max-attempts'', ''1''), (''cf-aig-metadata'', meta_text m),
                (''cf-aig-collect-log-payload'', ''false'')] @
               (if present_string idempotencyKey then [(''Idempotency-Key'', the idempotencyKey)] else []) @
               (if present_string cacheKey then [(''cf-aig-cache-key'', the cacheKey)] else [(''cf-aig-skip-cache'', ''true'')]),
             ur_body = body\<rparr>)"

definition callUpstream ::
  "proxy_world \<Rightarrow> string \<Rightarrow> json \<Rightarrow> upstream_meta \<Rightarrow> string option \<Rightarrow> string option \<Rightarrow> upstream_answer px" where
  "callUpstream w path body m cacheKey idempotencyKey =
     px_bind (px_of (upstream_call w path body m cacheKey idempotencyKey)) (\<lambda>request.
     px_then (px_set (\<lambda>s. s\<lparr>pr_sent := pr_sent s @ [request]\<rparr>))
       (case pw_transport w request of
          Upstream_rejects \<Rightarrow> px_throw (TypeError ''fetch failed'')
        | Upstream_answers a \<Rightarrow> px_return a))"

subsection \<open>The parts of the handler\<close>

definition snapshotOf :: "quota_view \<Rightarrow> quota_snapshot throws" where
  "snapshotOf view =
     (let st = qv_state view
      in and_then (reset_at (utcDay st)) (\<lambda>resetAt. Inr
        \<lparr>q_pool = qv_pool view, q_limit = limit st, q_used = confirmedTokens st + reservedTokens st + uncertainTokens st,
         q_remaining = qv_remaining view, q_resetAt = resetAt\<rparr>))"

definition resolvePositiveSafeInteger :: "string option \<Rightarrow> int \<Rightarrow> int" where
  "resolvePositiveSafeInteger configured defaultValue =
     (let parsed = js_number_opt configured in if is_safe_integer parsed \<and> 0 < the_int parsed then the_int parsed else defaultValue)"

definition MIN_SAFE_IN_FLIGHT_LEASE_TTL_MS :: int where "MIN_SAFE_IN_FLIGHT_LEASE_TTL_MS = 120000"

definition resolveInFlightLeaseTtlMs :: "string option \<Rightarrow> int" where
  "resolveInFlightLeaseTtlMs configured =
     max (resolvePositiveSafeInteger configured DEFAULT_IN_FLIGHT_LEASE_TTL_MS) MIN_SAFE_IN_FLIGHT_LEASE_TTL_MS"

definition error_answer :: "proxy_world \<Rightarrow> octg_http_error \<Rightarrow> octg_response" where
  "error_answer w err = withWorkerVersion (errorResponse err) (pw_version w)"

definition octg_answer :: "proxy_world \<Rightarrow> string \<Rightarrow> quota_snapshot \<Rightarrow> int \<Rightarrow> string \<Rightarrow> answer_body \<Rightarrow> octg_response" where
  "octg_answer w requestId snapshot status contentType body =
     \<lparr>os_status = status,
      os_headers = (''content-type'', contentType) # buildOctgHeaders requestId (Some snapshot) (Some ''free_shared'') @
        workerVersionHeaders (pw_version w),
      os_body = body\<rparr>"

definition upstreamResponse :: "proxy_world \<Rightarrow> string \<Rightarrow> quota_snapshot \<Rightarrow> upstream_answer \<Rightarrow> octg_response" where
  "upstreamResponse w requestId snapshot upstream =
     octg_answer w requestId snapshot (ua_status upstream)
       (case ua_content_type upstream of None \<Rightarrow> ''application/json'' | Some t \<Rightarrow> t) (Body_upstream (ua_text upstream))"

definition reserveFailureError :: "string \<Rightarrow> quota_snapshot \<Rightarrow> reserve_result \<Rightarrow> octg_http_error" where
  "reserveFailureError requestId snapshot reserved =
     (case reserved of
        Reserve_duplicate _ _ \<Rightarrow>
          \<lparr>he_status = 409,
           he_body = \<lparr>eb_message = ''Duplicate Idempotency-Key.'', eb_type = ''invalid_request_error'', eb_param = None,
             eb_code = ''duplicate_idempotency_key'', eb_quota = None\<rparr>,
           he_requestId = requestId, he_quota = Some snapshot, he_route = Some ''reject:duplicate_idempotency_key''\<rparr>
      | Reserve_insufficient remaining resetAt \<Rightarrow>
          errQuotaExceeded (snapshot\<lparr>q_remaining := remaining, q_resetAt := resetAt\<rparr>) requestId
      | Reserve_ok remaining resetAt \<Rightarrow>
          errQuotaExceeded (snapshot\<lparr>q_remaining := remaining, q_resetAt := resetAt\<rparr>) requestId)"

text \<open>\<open>reservationState = "none"\<close> and the end of the lease.\<close>

definition px_unreserved :: "unit px" where "px_unreserved = px_set (\<lambda>s. s\<lparr>pr_reservation := Reservation_none\<rparr>)"

definition px_end_lease :: "proxy_world \<Rightarrow> string \<Rightarrow> string \<Rightarrow> unit px" where
  "px_end_lease w name requestId =
     px_bind (px_get pr_lease) (\<lambda>lease.
       case lease of
         None \<Rightarrow> px_throw (TypeError ''Upstream response has no in-flight lease.'')
       | Some l \<Rightarrow>
           px_then (stub_releaseInFlight w name requestId (l_generation l))
             (px_set (\<lambda>s. s\<lparr>pr_acquired := False, pr_lease := None\<rparr>)))"

definition total_tokens :: "json option \<Rightarrow> jsnum option" where
  "total_tokens usage =
     (case usage of
        None \<Rightarrow> None
      | Some u \<Rightarrow> (case js_get u ''total_tokens'' of Some (JNum n) \<Rightarrow> Some n | _ \<Rightarrow> None))"

text \<open>
  The answer of upstream.  A streamed one keeps its reservation and its lease for the finalization of the stream.
  \<open>null.usage\<close> throws; an answer that is not an object has no usage.
\<close>

definition handleCompletedUpstream ::
  "proxy_world \<Rightarrow> string \<Rightarrow> string \<Rightarrow> bool \<Rightarrow> quota_snapshot \<Rightarrow> upstream_answer \<Rightarrow> octg_response px" where
  "handleCompletedUpstream w name requestId stream snapshot upstream =
     px_then (px_set (\<lambda>s. s\<lparr>pr_reached := True\<rparr>))
      (let ok = (200 \<le> ua_status upstream \<and> ua_status upstream \<le> 299)
       in if stream \<and> ok then
            px_bind (px_get pr_lease) (\<lambda>lease.
              case lease of
                None \<Rightarrow> px_throw (TypeError ''Upstream response has no in-flight lease.'')
              | Some l \<Rightarrow>
                  px_then (px_set (\<lambda>s. s\<lparr>pr_acquired := False\<rparr>))
                    (px_return (octg_answer w requestId snapshot 200
                       (case ua_content_type upstream of None \<Rightarrow> ''text/event-stream'' | Some t \<Rightarrow> t) Body_stream)))
          else if \<not> ok then
            px_then (stub_markUncertain w name requestId) (px_then px_unreserved (px_then (px_end_lease w name requestId)
              (px_return (upstreamResponse w requestId snapshot upstream))))
          else case Option.bind (ua_text upstream) json_parse of
            None \<Rightarrow>
              px_then (stub_markUncertain w name requestId) (px_then px_unreserved (px_then (px_end_lease w name requestId)
                (px_return (error_answer w (errInternal requestId None None)))))
          | Some JNull \<Rightarrow> px_throw (TypeError ''Cannot read properties of null'')
          | Some data \<Rightarrow>
              px_then
                (case total_tokens (js_get data ''usage'') of
                   Some n \<Rightarrow> px_then (stub_settle w name requestId n) px_unreserved
                 | None \<Rightarrow> px_then (stub_markUncertain w name requestId) px_unreserved)
                (px_then (px_end_lease w name requestId)
                  (px_return (octg_answer w requestId snapshot 200 ''application/json'' (Body_text (the (ua_text upstream)))))))"

definition reserveRequest ::
  "proxy_world \<Rightarrow> string \<Rightarrow> string \<Rightarrow> budget \<Rightarrow> string option \<Rightarrow> string \<Rightarrow> reserve_outcome px" where
  "reserveRequest w name requestId b idempotencyKey clientId =
     px_bind (reserveFailClosed (stub_reserve w name requestId (reservation b) (upperBound b) idempotencyKey clientId)) (\<lambda>outcome.
     px_then (px_set (\<lambda>s. s\<lparr>pr_reservation :=
         (case outcome of Reserve_unknown \<Rightarrow> Reservation_unknown | Reserve_resolved (Reserve_ok _ _) \<Rightarrow> Reservation_resolved
          | Reserve_resolved _ \<Rightarrow> Reservation_none)\<rparr>))
       (px_return outcome))"

definition rejectUnknownReservation :: "proxy_world \<Rightarrow> string \<Rightarrow> string \<Rightarrow> quota_snapshot \<Rightarrow> octg_response px" where
  "rejectUnknownReservation w name requestId snapshot =
     px_then (px_quiet (stub_markReserveOutcomeUnknown w name requestId))
       (px_return (error_answer w (errInternal requestId (Some snapshot) (Some ''error:internal_error''))))"

text \<open>The call of upstream with the lease acquired, its failures and its answer.\<close>

definition send_upstream ::
  "proxy_world \<Rightarrow> string \<Rightarrow> string \<Rightarrow> string \<Rightarrow> string option \<Rightarrow> json \<Rightarrow> normalized_request \<Rightarrow> pool_name \<Rightarrow> client_policy \<Rightarrow>
     budget \<Rightarrow> quota_snapshot \<Rightarrow> octg_response px" where
  "send_upstream w name requestId clientId idempotencyKey body requestData pool policy b snapshot =
     px_bind
       (px_catch
         (px_then (px_set (\<lambda>s. s\<lparr>pr_attempted := True\<rparr>))
           (px_bind
             (callUpstream w (if nr_endpoint requestData = Endpoint_chat then ''/chat/completions'' else ''/responses'')
               (buildUpstreamBody (nr_endpoint requestData) body (maxOutputTokens b))
               \<lparr>um_client_id = clientId, um_pool = toPoolLower pool, um_request_id = requestId\<rparr>
               (if p_cacheEnabled policy then Some (''octg:'' @ clientId) else None) idempotencyKey)
             (\<lambda>upstream. px_return (Inl upstream))))
         (\<lambda>e. px_then
            (if e = upstream_config_error then px_then (stub_release w name requestId) (px_return ())
             else px_then (stub_markUncertain w name requestId) (px_return ()))
            (px_then px_unreserved (px_then (px_end_lease w name requestId)
              (px_return (Inr (error_answer w (errInternal requestId None None))))))))
       (\<lambda>r. case r of
          Inl upstream \<Rightarrow> handleCompletedUpstream w name requestId (nr_stream requestData) snapshot upstream
        | Inr response \<Rightarrow> px_return response)"

text \<open>With the reservation made: the lease, then upstream.\<close>

definition with_reservation ::
  "proxy_world \<Rightarrow> string \<Rightarrow> string \<Rightarrow> string \<Rightarrow> string option \<Rightarrow> json \<Rightarrow> normalized_request \<Rightarrow> pool_name \<Rightarrow> client_policy \<Rightarrow>
     budget \<Rightarrow> quota_snapshot \<Rightarrow> octg_response px" where
  "with_reservation w name requestId clientId idempotencyKey body requestData pool policy b snapshot =
     px_bind (stub_acquireInFlight w name requestId (resolveMaxInFlightRequests (MAX_IN_FLIGHT_REQUESTS (quota_env_of w)))
         (resolveInFlightLeaseTtlMs (pw_lease_ttl w))) (\<lambda>lease.
       case lease of
         Concurrency_exceeded \<Rightarrow>
           px_then (stub_release w name requestId) (px_then px_unreserved
             (px_return (error_answer w (errWorkerConcurrencyExceeded snapshot requestId))))
       | Acquired l \<Rightarrow>
           px_then (px_set (\<lambda>s. s\<lparr>pr_acquired := True, pr_lease := Some l\<rparr>))
             (send_upstream w name requestId clientId idempotencyKey body requestData pool policy b snapshot))"

definition tokenize_request_of :: "string \<Rightarrow> normalized_request \<Rightarrow> tokenize_request" where
  "tokenize_request_of requestId requestData =
     \<lparr>tq_requestId = requestId, tq_inputText = nr_inputText requestData, tq_messageCount = nr_messageCount requestData,
      tq_opaqueInputBytes = nr_opaqueInputBytes requestData\<rparr>"

definition proxy_budget_arguments :: "int \<Rightarrow> normalized_request \<Rightarrow> quota_view \<Rightarrow> client_policy \<Rightarrow> budget_arguments" where
  "proxy_budget_arguments estimatedInput requestData before policy =
     \<lparr>b_estimatedInput = JsInt estimatedInput, b_maxOutputTokens = JsInt (nr_maxOutputTokens requestData),
      b_remaining = JsInt (qv_remaining before), b_limit = JsInt (limit (qv_state before)),
      b_outputLimitMode = p_outputLimitMode policy\<rparr>"

text \<open>The answer of the reservation.\<close>

definition after_reservation ::
  "proxy_world \<Rightarrow> string \<Rightarrow> string \<Rightarrow> string \<Rightarrow> string option \<Rightarrow> json \<Rightarrow> normalized_request \<Rightarrow> pool_name \<Rightarrow> client_policy \<Rightarrow>
     quota_snapshot \<Rightarrow> budget \<Rightarrow> reserve_outcome \<Rightarrow> octg_response px" where
  "after_reservation w name requestId clientId idempotencyKey body requestData pool policy snapshot b outcome =
     (case outcome of
        Reserve_unknown \<Rightarrow> rejectUnknownReservation w name requestId snapshot
      | Reserve_resolved (Reserve_ok _ _) \<Rightarrow>
          with_reservation w name requestId clientId idempotencyKey body requestData pool policy b snapshot
      | Reserve_resolved reserved \<Rightarrow> px_return (error_answer w (reserveFailureError requestId snapshot reserved)))"

text \<open>The tokens, the budget and the reservation.\<close>

definition meter_tokens ::
  "proxy_world \<Rightarrow> string \<Rightarrow> string \<Rightarrow> string \<Rightarrow> string option \<Rightarrow> json \<Rightarrow> normalized_request \<Rightarrow> pool_name \<Rightarrow> client_policy \<Rightarrow>
     deno_config \<Rightarrow> quota_view \<Rightarrow> quota_snapshot \<Rightarrow> octg_response px" where
  "meter_tokens w name requestId clientId idempotencyKey body requestData pool policy denoConfig before snapshot =
     (let answer = (\<lambda>e. px_return (error_answer w e));
          internal = errInternal requestId (Some snapshot) (Some ''error:internal_error'')
      in case routeTokenization denoConfig (pw_tokenizer w) (pw_deno w) (tokenize_request_of requestId requestData)
           (Some (nr_inputTextBytes requestData)) of
         Routed_request_too_large \<Rightarrow> answer (errRequestTooLarge snapshot requestId)
       | Routed_unavailable _ \<Rightarrow> answer internal
       | Routed_resolved _ tokenized \<Rightarrow>
           (case resolveTokenBudget (proxy_budget_arguments (tr_estimatedInputTokens tokenized) requestData before policy) of
              Arithmetic_error \<Rightarrow> answer internal
            | Request_too_large \<Rightarrow> answer (errRequestTooLarge snapshot requestId)
            | Quota_exceeded \<Rightarrow> answer (errQuotaExceeded snapshot requestId)
            | Resolved b \<Rightarrow>
                px_bind (reserveRequest w name requestId b idempotencyKey clientId)
                  (after_reservation w name requestId clientId idempotencyKey body requestData pool policy snapshot b)))"

definition meter ::
  "proxy_world \<Rightarrow> string \<Rightarrow> string \<Rightarrow> string \<Rightarrow> string option \<Rightarrow> json \<Rightarrow> normalized_request \<Rightarrow> pool_name \<Rightarrow> client_policy \<Rightarrow>
     deno_config \<Rightarrow> octg_response px" where
  "meter w name requestId clientId idempotencyKey body requestData pool policy denoConfig =
     px_bind (stub_getState w name) (\<lambda>before.
     px_bind (px_of (snapshotOf before))
       (meter_tokens w name requestId clientId idempotencyKey body requestData pool policy denoConfig before))"

text \<open>From the parsed body: the normalized request, its pool and its policy.\<close>

definition normalize_failure :: "string \<Rightarrow> normalize_error \<Rightarrow> octg_http_error" where
  "normalize_failure requestId e =
     (case e of
        Input_too_large \<Rightarrow> errInputTooLarge requestId
      | Non_text \<Rightarrow> errNonTextInput requestId
      | Max_tokens_conflict \<Rightarrow> errMaxTokensConflict requestId
      | Invalid_body \<Rightarrow> errInvalidRequest requestId None)"

definition admit_body ::
  "proxy_world \<Rightarrow> string \<Rightarrow> string \<Rightarrow> string option \<Rightarrow> endpoint \<Rightarrow> json \<Rightarrow> int \<Rightarrow> deno_config \<Rightarrow> octg_response px" where
  "admit_body w requestId clientId idempotencyKey ep body maxInputBytes denoConfig =
     (case (if ep = Endpoint_chat then normalizeChatCompletions (pw_number_text w) body maxInputBytes
            else normalizeResponses (pw_number_text w) body maxInputBytes) of
        Inl e \<Rightarrow> px_return (error_answer w (normalize_failure requestId e))
      | Inr requestData \<Rightarrow>
          px_bind (px_get pr_caches) (\<lambda>caches.
          px_bind (px_of (loadRegistry (ge_registry (pw_env w)) (pw_now w) caches)) (\<lambda>(registry, caches1).
          px_then (px_set (\<lambda>s. s\<lparr>pr_caches := caches1\<rparr>))
            (case classifyModel (nr_model requestData) registry of
               No_pool \<Rightarrow> px_return (error_answer w (errModelRequiresPaid requestId))
             | Complimentary pool \<Rightarrow>
                 let name = quotaIdOf pool (utc_day_of (pw_now w))
                 in px_then (px_set (\<lambda>s. s\<lparr>pr_stub := Some name\<rparr>))
                   (px_bind (px_of (loadPolicy (ge_policies (pw_env w)) clientId (pw_now w) caches1)) (\<lambda>(policy, caches2).
                    px_then (px_set (\<lambda>s. s\<lparr>pr_caches := caches2\<rparr>))
                      (if nr_isToolUse requestData \<and> p_toolsMode policy \<noteq> Tools_allow then
                         px_bind (stub_getState w name) (\<lambda>state.
                         px_bind (px_of (snapshotOf state)) (\<lambda>snapshot.
                           px_return (error_answer w (errModelNotAllowed requestId (Some snapshot)))))
                       else meter w name requestId clientId idempotencyKey body requestData pool policy denoConfig)))))))"

text \<open>The handler of everything that is thrown.\<close>

definition proxy_failed :: "proxy_world \<Rightarrow> string \<Rightarrow> octg_response px" where
  "proxy_failed w requestId =
     px_bind (px_get (\<lambda>s. s)) (\<lambda>s.
       px_then
         (case pr_stub s of
            None \<Rightarrow> px_return ()
          | Some name \<Rightarrow>
              px_then
                (case pr_reservation s of
                   Reservation_unknown \<Rightarrow> px_quiet (stub_markReserveOutcomeUnknown w name requestId)
                 | Reservation_resolved \<Rightarrow>
                     if pr_attempted s \<or> pr_reached s then px_quiet (stub_markUncertain w name requestId)
                     else px_quiet (stub_release w name requestId)
                 | Reservation_none \<Rightarrow> px_return ())
                (case (pr_acquired s, pr_lease s) of
                   (True, Some l) \<Rightarrow> px_quiet (stub_releaseInFlight w name (l_requestId l) (l_generation l))
                 | _ \<Rightarrow> px_return ()))
         (px_return (error_answer w (errInternal requestId None None))))"

subsection \<open>From the HTTP request\<close>

text \<open>The body arrives in chunks and then ends, or its reading fails after the last of them.\<close>

record proxy_request =
  rx_authorization :: "string option"
  rx_idempotency_key :: "string option"
  rx_content_length :: "string option"
  rx_body :: "string list option"
  rx_body_fails :: bool

definition hashClientKey :: "(string \<Rightarrow> string \<Rightarrow> string) \<Rightarrow> string \<Rightarrow> string \<Rightarrow> string" where
  "hashClientKey hmac rawKey pepper = concat (map hex2 (hmac (utf8_encode pepper) (utf8_encode rawKey)))"

definition authenticate :: "proxy_world \<Rightarrow> string option \<Rightarrow> string \<Rightarrow> (octg_http_error + string) throws" where
  "authenticate w header requestId =
     (case header of
        None \<Rightarrow> Inr (Inl (errInvalidApiKey requestId))
      | Some h \<Rightarrow>
          if \<not> startsWith h ''Bearer octg_sk_'' then Inr (Inl (errInvalidApiKey requestId))
          else and_then (pw_clients w (hashClientKey (pw_hmac w) (drop (length ''Bearer '') h) (pw_pepper w))) (\<lambda>row.
            case row of
              None \<Rightarrow> Inr (Inl (errInvalidApiKey requestId))
            | Some r \<Rightarrow> if \<not> cl_enabled r then Inr (Inl (errClientDisabled requestId)) else Inr (Inr (cl_id r))))"

datatype declared_length = Length_absent | Length_malformed | Length_valid int

definition parseDeclaredContentLength :: "string option \<Rightarrow> declared_length" where
  "parseDeclaredContentLength value =
     (case value of
        None \<Rightarrow> Length_absent
      | Some v \<Rightarrow>
          if v = [] \<or> \<not> list_all is_digit v then Length_malformed
          else let parsed = js_number v in if is_safe_integer parsed \<and> 0 \<le> the_int parsed then Length_valid (the_int parsed) else Length_malformed)"

datatype body_result = Body_read json | Body_invalid_json | Body_too_large

fun read_body :: "int \<Rightarrow> int \<Rightarrow> string list \<Rightarrow> bool" where
  "read_body maxBytes len [] = True"
| "read_body maxBytes len (c # cs) =
     (let len' = len + int (length c) in if len' > maxBytes then False else read_body maxBytes len' cs)"

definition readJsonBody :: "(string \<Rightarrow> string) \<Rightarrow> string option \<Rightarrow> string list option \<Rightarrow> bool \<Rightarrow> int \<Rightarrow> body_result throws" where
  "readJsonBody decode contentLength body fails maxBytes =
     (let declared = (case contentLength of None \<Rightarrow> JsNaN | Some v \<Rightarrow> js_number v)
      in if is_safe_integer declared \<and> 0 \<le> the_int declared \<and> the_int declared > maxBytes then Inr Body_too_large
         else case body of
           None \<Rightarrow> Inr Body_invalid_json
         | Some chunks \<Rightarrow>
             if \<not> read_body maxBytes 0 chunks then Inr Body_too_large
             else if fails then Inl (TypeError ''Network connection lost.'')
             else case json_parse (decode (concat chunks)) of None \<Rightarrow> Inr Body_invalid_json | Some v \<Rightarrow> Inr (Body_read v))"

definition deno_invalid :: "deno_config \<Rightarrow> bool" where
  "deno_invalid c = (case c of Deno_invalid _ \<Rightarrow> True | _ \<Rightarrow> False)"

definition use_prepare :: "endpoint \<Rightarrow> deno_config \<Rightarrow> declared_length \<Rightarrow> bool" where
  "use_prepare ep prepare declared =
     (case prepare of
        Deno_enabled e _ \<Rightarrow> ep = Endpoint_responses \<and> (case declared of Length_valid n \<Rightarrow> n > de_thresholdBytes e | _ \<Rightarrow> True)
      | _ \<Rightarrow> False)"

text \<open>The body is read by the gateway itself.  \<open>None\<close> for a request that takes the relay or the prepare route.\<close>

definition route_request ::
  "proxy_world \<Rightarrow> endpoint \<Rightarrow> string \<Rightarrow> string \<Rightarrow> string option \<Rightarrow> proxy_request \<Rightarrow> octg_response option px" where
  "route_request w ep requestId clientId idempotencyKey request =
     (let answer = (\<lambda>e. px_return (Some (error_answer w e)));
          deno = resolveDenoRuntimeConfig (pw_new_url w) (pw_deno_env w);
          maxInputBytes = min (resolveMaxInputBytes (DENO_MAX_INPUT_BYTES (pw_deno_env w))) MAX_INPUT_TEXT_BYTES;
          declared = parseDeclaredContentLength (rx_content_length request)
      in if deno_invalid (fst deno) \<or> ep = Endpoint_responses \<and> deno_invalid (snd deno)
         then answer (errInternal requestId None None)
         else if (case declared of Length_valid n \<Rightarrow> n > maxInputBytes | _ \<Rightarrow> False) then answer (errInputTooLarge requestId)
         else if use_prepare ep (snd deno) declared then px_return None
         else px_bind (px_of (readJsonBody (pw_decode w) (rx_content_length request) (rx_body request) (rx_body_fails request) maxInputBytes))
           (\<lambda>read. case read of
              Body_too_large \<Rightarrow> answer (errInputTooLarge requestId)
            | Body_invalid_json \<Rightarrow> answer (errInvalidRequest requestId None)
            | Body_read body \<Rightarrow>
                px_bind (admit_body w requestId clientId idempotencyKey ep body maxInputBytes (fst deno))
                  (\<lambda>response. px_return (Some response))))"

definition proxy_main :: "proxy_world \<Rightarrow> endpoint \<Rightarrow> string \<Rightarrow> proxy_request \<Rightarrow> octg_response option px" where
  "proxy_main w ep requestId request =
     px_bind (px_of (authenticate w (rx_authorization request) requestId)) (\<lambda>auth.
       case auth of
         Inl e \<Rightarrow> px_return (Some (error_answer w e))
       | Inr clientId \<Rightarrow>
           (let key = parseIdempotencyKey (map_option JStr (rx_idempotency_key request));
                idempotencyKey = (case key of Key_valid k \<Rightarrow> Some k | _ \<Rightarrow> None)
            in if key = Key_invalid then
                 px_return (Some (error_answer w (errInvalidRequest requestId (Some ''Idempotency-Key must be at most 255 UTF-8 bytes.''))))
               else case (ep, resolveRelayConfig (pw_new_url w) (ge_relay (pw_env w))) of
                 (Endpoint_responses, Relay_enabled _) \<Rightarrow> px_return None
               | (Endpoint_responses, Relay_invalid) \<Rightarrow> px_return (Some (error_answer w (errInternal requestId None None)))
               | _ \<Rightarrow> route_request w ep requestId clientId idempotencyKey request))"

definition handleProxy :: "proxy_world \<Rightarrow> endpoint \<Rightarrow> string \<Rightarrow> proxy_request \<Rightarrow> octg_response option px" where
  "handleProxy w ep requestId request =
     px_catch (proxy_main w ep requestId request) (\<lambda>_. px_bind (proxy_failed w requestId) (\<lambda>response. px_return (Some response)))"

end
