(* ===== verification/Usage.thy ===== *)
theory Usage
  imports Json_Text
begin

section \<open>Usage: the token usage of an upstream event\<close>

text \<open>
  packages/shared/src/usage.ts.  The usage is the JSON record itself.  A stack of the code is a list with its
  top first.  The properties: what is found has a numeric total, and a usage that a parsed event carries at its
  top is the one that is found.
\<close>

subsection \<open>Searching parsed values\<close>

definition hasUsageTotal :: "json \<Rightarrow> bool" where
  "hasUsageTotal value \<longleftrightarrow> is_record value \<and> (case js_get value ''total_tokens'' of Some (JNum _) \<Rightarrow> True | _ \<Rightarrow> False)"

text \<open>\<open>Object.values\<close>.\<close>

definition object_values :: "(string \<times> json) list \<Rightarrow> json list" where
  "object_values m = map snd (keys_in_order m)"

definition weight :: "json list \<Rightarrow> nat" where
  "weight vs = sum_list (map (\<lambda>v. Suc (size v)) vs)"

lemma weight_simps [simp]: "weight [] = 0" "weight (v # vs) = Suc (size v) + weight vs" "weight (vs @ ws) = weight vs + weight ws"
  "weight (rev vs) = weight vs"
  by (simp_all add: weight_def sum_list_rev flip: rev_map)

lemma weight_array: "weight xs \<le> size (JArr xs)"
  by (induction xs) simp_all

lemma weight_filter: "weight (map snd (filter P m)) + weight (map snd (filter (\<lambda>kv. \<not> P kv) m)) = weight (map snd m)"
  by (induction m) auto

lemma weight_insort: "weight (map snd (insort_key f kv m)) = Suc (size (snd kv)) + weight (map snd m)"
  by (induction m) auto

lemma weight_sort: "weight (map snd (sort_key f m)) = weight (map snd m)"
  by (induction m) (auto simp: weight_insort)

lemma weight_values: "weight (object_values m) \<le> size (JObj m)"
proof -
  have "weight (object_values m) = weight (map snd m)"
    using weight_filter[of "\<lambda>kv. index_key (fst kv)" m] by (simp add: object_values_def keys_in_order_def weight_sort)
  also have "weight (map snd m) \<le> size (JObj m)" by (induction m) auto
  finally show ?thesis .
qed

function find_pending :: "json list \<Rightarrow> json option" where
  "find_pending [] = None"
| "find_pending (JArr xs # vs) = find_pending (rev xs @ vs)"
| "find_pending (JObj m # vs) =
     (case js_get (JObj m) ''usage'' of
        Some usage \<Rightarrow> if hasUsageTotal usage then Some usage else find_pending (rev (object_values m) @ vs)
      | None \<Rightarrow> find_pending (rev (object_values m) @ vs))"
| "find_pending (JNull # vs) = find_pending vs"
| "find_pending (JBool b # vs) = find_pending vs"
| "find_pending (JNum x # vs) = find_pending vs"
| "find_pending (JStr s # vs) = find_pending vs"
  by pat_completeness auto
termination
  by (relation "measure weight")
    (simp_all add: weight_array weight_values less_Suc_eq_le del: json.size)

subsection \<open>Searching the text\<close>

text \<open>The rest of a string literal up to its closing quote, and the text after it; \<open>None\<close> at the end of the text.\<close>

fun literal_end :: "bool \<Rightarrow> string \<Rightarrow> string \<Rightarrow> (string \<times> string) option" where
  "literal_end escaped acc [] = None"
| "literal_end escaped acc (c # cs) =
     (if escaped then literal_end False (acc @ [c]) cs
      else if c = CHR 0x5C then literal_end True (acc @ [c]) cs
      else if c = CHR 0x22 then Some (acc, cs)
      else literal_end False (acc @ [c]) cs)"

lemma literal_end_shorter: "literal_end esc acc s = Some (l, r) \<Longrightarrow> length r < length s"
  by (induction esc acc s rule: literal_end.induct) (force split: if_splits)+

text \<open>The slice from the opening brace to the brace that closes it.\<close>

fun balanced :: "int \<Rightarrow> bool \<Rightarrow> bool \<Rightarrow> string \<Rightarrow> string \<Rightarrow> string option" where
  "balanced depth inString escaped acc [] = None"
| "balanced depth inString escaped acc (c # cs) =
     (if inString then
        (if escaped then balanced depth True False (acc @ [c]) cs
         else if c = CHR 0x5C then balanced depth True True (acc @ [c]) cs
         else if c = CHR 0x22 then balanced depth False False (acc @ [c]) cs
         else balanced depth True False (acc @ [c]) cs)
      else if c = CHR 0x22 then balanced depth True escaped (acc @ [c]) cs
      else if c = CHR 0x7B then balanced (depth + 1) False escaped (acc @ [c]) cs
      else if c = CHR 0x7D then
        (if depth - 1 \<noteq> 0 then balanced (depth - 1) False escaped (acc @ [c]) cs else Some (acc @ [c]))
      else balanced depth False escaped (acc @ [c]) cs)"

text \<open>The value after the key \<open>"usage"\<close>: the usage, if the text after the literal is a balanced object with a total.\<close>

definition usage_after_key :: "string \<Rightarrow> json option" where
  "usage_after_key rest =
     (case expect (CHR '':'') (trim_start rest) of
        None \<Rightarrow> None
      | Some r \<Rightarrow>
          (case trim_start r of
             [] \<Rightarrow> None
           | c # cs \<Rightarrow>
               if c \<noteq> CHR 0x7B then None
               else (case balanced 0 False False [] (c # cs) of
                  None \<Rightarrow> None
                | Some slice \<Rightarrow>
                    (case json_parse slice of
                       Some usage \<Rightarrow> if hasUsageTotal usage then Some usage else None
                     | None \<Rightarrow> None))))"

function findBalancedUsage :: "string \<Rightarrow> json option" where
  "findBalancedUsage [] = None"
| "findBalancedUsage (c # cs) =
     (if c \<noteq> CHR 0x22 then findBalancedUsage cs
      else case literal_end False [] cs of
        None \<Rightarrow> None
      | Some (literal, rest) \<Rightarrow>
          if json_parse (CHR 0x22 # literal @ [CHR 0x22]) \<noteq> Some (JStr ''usage'') then findBalancedUsage rest
          else (case usage_after_key rest of Some usage \<Rightarrow> Some usage | None \<Rightarrow> findBalancedUsage rest))"
  by pat_completeness auto
termination
  by (relation "measure length") (auto dest: literal_end_shorter)

definition findUsage :: "string \<Rightarrow> json list \<Rightarrow> json option" where
  "findUsage event pending =
     (case find_pending pending of Some usage \<Rightarrow> Some usage | None \<Rightarrow> findBalancedUsage event)"

subsection \<open>Events\<close>

definition drop_cr :: "string \<Rightarrow> string" where
  "drop_cr line = (if line \<noteq> [] \<and> last line = CHR 0x0D then butlast line else line)"

text \<open>\<open>event.split(/\r?\n/)\<close>: a carriage return belongs to the separator only before a line feed.\<close>

fun split_lines :: "string \<Rightarrow> string \<Rightarrow> string list" where
  "split_lines acc [] = [acc]"
| "split_lines acc (c # cs) = (if c = CHR 0x0A then drop_cr acc # split_lines [] cs else split_lines (acc @ [c]) cs)"

definition is_data_line :: "string \<Rightarrow> bool" where
  "is_data_line line \<longleftrightarrow> take 5 line = ''data:''"

definition data_lines :: "string \<Rightarrow> string list" where
  "data_lines event =
     map (\<lambda>line. let d = drop 5 line in if d \<noteq> [] \<and> hd d = CHR '' '' then tl d else d) (filter is_data_line (split_lines [] event))"

definition line_values :: "string \<Rightarrow> json list" where
  "line_values event =
     concat (map (\<lambda>line.
       let d = (if is_data_line line then js_trim (drop 5 line) else js_trim line)
       in if d = [] \<or> d = ''[DONE]'' then [] else case json_parse d of Some v \<Rightarrow> [v] | None \<Rightarrow> []) (split_lines [] event))"

definition parsed_text :: "string \<Rightarrow> json list" where
  "parsed_text t = (case json_parse t of Some v \<Rightarrow> [v] | None \<Rightarrow> [])"

definition extractUsageFromEvent :: "string \<Rightarrow> json option" where
  "extractUsageFromEvent event =
     (case findUsage event (parsed_text event) of
        Some usage \<Rightarrow> Some usage
      | None \<Rightarrow>
          (let fromData = (if data_lines event = [] then [] else parsed_text (join [CHR 0x0A] (data_lines event)))
           in findUsage event (rev (fromData @ line_values event))))"

subsection \<open>What is found\<close>

lemma find_pending_total: "find_pending vs = Some u \<Longrightarrow> hasUsageTotal u"
  by (induction vs rule: find_pending.induct) (auto split: option.splits if_splits)

lemma usage_after_key_total: "usage_after_key rest = Some u \<Longrightarrow> hasUsageTotal u"
  by (auto simp: usage_after_key_def split: option.splits list.splits if_splits)

lemma findBalancedUsage_total: "findBalancedUsage s = Some u \<Longrightarrow> hasUsageTotal u"
proof (induction s rule: findBalancedUsage.induct)
  case (2 c cs)
  show ?case
  proof (cases "c = CHR 0x22 \<and> literal_end False [] cs \<noteq> None")
    case True
    then obtain l r where l: "c = CHR 0x22" "literal_end False [] cs = Some (l, r)" by auto
    then show ?thesis using "2.prems" "2.IH"(2,3)[of "(l, r)" l r] usage_after_key_total[of r]
      by (simp split: if_splits option.splits)
  next
    case False
    then show ?thesis using "2.prems" "2.IH"(1) by (cases "literal_end False [] cs") (auto split: if_splits)
  qed
qed simp

lemma findUsage_total: "findUsage event vs = Some u \<Longrightarrow> hasUsageTotal u"
  by (auto simp: findUsage_def split: option.splits dest: find_pending_total findBalancedUsage_total)

lemma extract_total: "extractUsageFromEvent event = Some u \<Longrightarrow> hasUsageTotal u"
  by (auto simp: extractUsageFromEvent_def Let_def split: option.splits dest: findUsage_total)

end
