(* ===== verification/Stream_Tail.thy ===== *)
theory Stream_Tail
  imports Usage "HOL-Library.Sublist"
begin

section \<open>Stream_Tail: the bytes and events of a streamed answer\<close>

text \<open>
  apps/gateway-worker/src/stream.ts, the pure part: the search for a needle in a chunk, the ring buffer that
  keeps the last bytes of a stream, and the splitting of the stream into events.  Text is what the streaming
  decoder of the runtime gives for each chunk.  The ring buffer refines the list of all bytes written, and the
  events do not depend on how the stream was cut into chunks.  The streams themselves are in Stream_Run.
\<close>

subsection \<open>Needles\<close>

definition bytesIncludesAscii :: "string \<Rightarrow> string \<Rightarrow> bool" where
  "bytesIncludesAscii bytes needle =
     (let len = length bytes; nlen = length needle
      in if len < nlen then False
         else list_ex (\<lambda>i. bytes ! i = needle ! 0 \<and> list_all (\<lambda>j. bytes ! (i + j) = needle ! j) [1..<nlen]) [0..<len - nlen + 1])"

definition USAGE_NEEDLE :: string where "USAGE_NEEDLE = CHR 0x22 # ''usage'' @ [CHR 0x22]"
definition RESPONSE_COMPLETED_NEEDLE :: string where "RESPONSE_COMPLETED_NEEDLE = ''response.completed''"

definition mightContainUsage :: "string \<Rightarrow> bool" where
  "mightContainUsage bytes \<longleftrightarrow> bytesIncludesAscii bytes USAGE_NEEDLE \<or> bytesIncludesAscii bytes RESPONSE_COMPLETED_NEEDLE"

lemma bytesIncludesAscii_sublist:
  assumes "needle \<noteq> []"
  shows "bytesIncludesAscii bytes needle \<longleftrightarrow> sublist needle bytes"
proof -
  have at: "bytes ! i = needle ! 0 \<and> list_all (\<lambda>j. bytes ! (i + j) = needle ! j) [1..<length needle] \<longleftrightarrow> take (length needle) (drop i bytes) = needle"
    if "i + length needle \<le> length bytes" for i
  proof -
    have "take (length needle) (drop i bytes) = needle \<longleftrightarrow> (\<forall>j < length needle. bytes ! (i + j) = needle ! j)"
      using that by (auto simp: list_eq_iff_nth_eq)
    also have "\<dots> \<longleftrightarrow> bytes ! i = needle ! 0 \<and> (\<forall>j \<in> set [1..<length needle]. bytes ! (i + j) = needle ! j)"
    proof (intro iffI allI impI conjI ballI; (elim conjE)?)
      fix j assume "bytes ! i = needle ! 0" "\<forall>j \<in> set [1..<length needle]. bytes ! (i + j) = needle ! j" "j < length needle"
      then show "bytes ! (i + j) = needle ! j" by (cases "j = 0") auto
    qed (use assms in auto)
    finally show ?thesis by (simp add: list_all_iff)
  qed
  have r: "(\<exists>i \<in> set [0..<length bytes - length needle + 1]. P i) \<longleftrightarrow> (\<exists>i. i + length needle \<le> length bytes \<and> P i)"
    if "\<not> length bytes < length needle" for P
  proof -
    have "i \<in> set [0..<length bytes - length needle + 1] \<longleftrightarrow> i + length needle \<le> length bytes" for i using that by auto
    then show ?thesis by blast
  qed
  have "bytesIncludesAscii bytes needle \<longleftrightarrow> (\<exists>i. i + length needle \<le> length bytes \<and> take (length needle) (drop i bytes) = needle)"
  proof (cases "length bytes < length needle")
    case False
    show ?thesis unfolding bytesIncludesAscii_def Let_def list_ex_iff r[OF False] if_not_P[OF False] using at by blast
  qed (simp add: bytesIncludesAscii_def)
  also have "\<dots> \<longleftrightarrow> sublist needle bytes"
  proof
    assume "\<exists>i. i + length needle \<le> length bytes \<and> take (length needle) (drop i bytes) = needle"
    then obtain i where i: "take (length needle) (drop i bytes) = needle" by blast
    have "bytes = take i bytes @ take (length needle) (drop i bytes) @ drop (length needle) (drop i bytes)" by (simp del: drop_drop)
    then show "sublist needle bytes" unfolding sublist_def i by blast
  next
    assume "sublist needle bytes"
    then obtain ps ss where b: "bytes = ps @ needle @ ss" by (auto simp: sublist_def)
    then have "length ps + length needle \<le> length bytes \<and> take (length needle) (drop (length ps) bytes) = needle" by simp
    then show "\<exists>i. i + length needle \<le> length bytes \<and> take (length needle) (drop i bytes) = needle" by blast
  qed
  finally show ?thesis .
qed

subsection \<open>The ring buffer\<close>

record ring =
  rb_buffer :: string
  rb_capacity :: nat
  rb_writeIndex :: nat
  rb_totalBytes :: nat

definition new_ring :: "nat \<Rightarrow> ring" where
  "new_ring capacity = \<lparr>rb_buffer = replicate capacity (CHR 0x00), rb_capacity = capacity, rb_writeIndex = 0, rb_totalBytes = 0\<rparr>"

text \<open>\<open>buffer.set(bytes, ofs)\<close> within the bounds of the buffer.\<close>

definition buffer_set :: "string \<Rightarrow> string \<Rightarrow> nat \<Rightarrow> string" where
  "buffer_set buffer bytes ofs = take ofs buffer @ bytes @ drop (ofs + length bytes) buffer"

definition ring_write :: "ring \<Rightarrow> string \<Rightarrow> ring" where
  "ring_write r chunk =
     (let len = length chunk
      in if len = 0 then r
         else let r1 = r\<lparr>rb_totalBytes := rb_totalBytes r + len\<rparr>
              in if len \<ge> rb_capacity r
                 then r1\<lparr>rb_buffer := buffer_set (rb_buffer r) (drop (len - rb_capacity r) chunk) 0, rb_writeIndex := 0\<rparr>
                 else let firstPart = min len (rb_capacity r - rb_writeIndex r);
                          buffer1 = buffer_set (rb_buffer r) (take firstPart chunk) (rb_writeIndex r)
                      in if len > firstPart
                         then r1\<lparr>rb_buffer := buffer_set buffer1 (drop firstPart chunk) 0, rb_writeIndex := len - firstPart\<rparr>
                         else r1\<lparr>rb_buffer := buffer1, rb_writeIndex := (rb_writeIndex r + len) mod rb_capacity r\<rparr>)"

definition getTail :: "ring \<Rightarrow> string" where
  "getTail r =
     (if rb_totalBytes r = 0 then []
      else if rb_totalBytes r < rb_capacity r then take (rb_totalBytes r) (rb_buffer r)
      else let firstPart = rb_capacity r - rb_writeIndex r
           in buffer_set (buffer_set (replicate (rb_capacity r) (CHR 0x00)) (drop (rb_writeIndex r) (rb_buffer r)) 0)
                (take (rb_writeIndex r) (rb_buffer r)) firstPart)"

text \<open>The last \<open>n\<close> bytes, and the ring as the last bytes of zeros followed by the data.\<close>

definition last_bytes :: "nat \<Rightarrow> string \<Rightarrow> string" where
  "last_bytes n s = drop (length s - n) s"

definition ring_holds :: "ring \<Rightarrow> string \<Rightarrow> bool" where
  "ring_holds r s \<longleftrightarrow> length (rb_buffer r) = rb_capacity r \<and> rb_totalBytes r = length s \<and>
     (rb_writeIndex r < rb_capacity r \<or> rb_capacity r = 0 \<and> rb_writeIndex r = 0) \<and>
     drop (rb_writeIndex r) (rb_buffer r) @ take (rb_writeIndex r) (rb_buffer r)
       = last_bytes (rb_capacity r) (replicate (rb_capacity r) (CHR 0x00) @ s) \<and>
     (length s < rb_capacity r \<longrightarrow> rb_writeIndex r = length s)"

lemma last_bytes_append: "length t \<le> n \<Longrightarrow> n \<le> length s \<Longrightarrow> last_bytes n (s @ t) = drop (length t) (last_bytes n s) @ t"
  by (simp add: last_bytes_def add.commute)

lemma last_bytes_long: "n \<le> length t \<Longrightarrow> last_bytes n (s @ t) = drop (length t - n) t"
  by (simp add: last_bytes_def)

lemma ring_holds_new: "ring_holds (new_ring c) []"
  by (auto simp: ring_holds_def new_ring_def last_bytes_def)

lemma ring_holds_write:
  assumes "ring_holds r s"
  shows "ring_holds (ring_write r chunk) (s @ chunk)"
proof -
  define cap w buf where d: "cap = rb_capacity r" "w = rb_writeIndex r" "buf = rb_buffer r"
  define z where "z = replicate cap (CHR 0x00)"
  have h: "length buf = cap" "rb_totalBytes r = length s" "w < cap \<or> cap = 0 \<and> w = 0"
    "drop w buf @ take w buf = last_bytes cap (z @ s)" "length s < cap \<longrightarrow> w = length s"
    using assms by (simp_all add: ring_holds_def d z_def)
  consider "chunk = []" | "chunk \<noteq> []" "cap \<le> length chunk" | "chunk \<noteq> []" "length chunk < cap" "length chunk \<le> cap - w"
    | "chunk \<noteq> []" "length chunk < cap" "cap - w < length chunk" by linarith
  then show ?thesis
  proof cases
    case 1
    then show ?thesis using assms by (simp add: ring_write_def)
  next
    case 2
    then show ?thesis using h last_bytes_long[OF 2(2), of "z @ s"]
      by (auto simp: ring_holds_def ring_write_def Let_def buffer_set_def simp flip: d z_def)
  next
    case 3
    have l: "last_bytes cap (z @ s @ chunk) = drop (w + length chunk) buf @ take w buf @ chunk"
    proof -
      have "last_bytes cap ((z @ s) @ chunk) = drop (length chunk) (drop w buf @ take w buf) @ chunk"
        unfolding h(4) using 3 by (intro last_bytes_append) (simp_all add: z_def)
      moreover have "drop (length chunk) (drop w buf @ take w buf) = drop (w + length chunk) buf @ take w buf"
        using 3 h(1) by (simp add: add.commute)
      ultimately show ?thesis by simp
    qed
    have m: "(w + length chunk) mod cap = (if w + length chunk = cap then 0 else w + length chunk)" using 3 h by auto
    have "ring_write r chunk = r\<lparr>rb_totalBytes := length s + length chunk, rb_buffer := buffer_set buf chunk w,
        rb_writeIndex := (if w + length chunk = cap then 0 else w + length chunk)\<rparr>"
      using 3 h(2) by (simp add: ring_write_def Let_def min_absorb1 m flip: d)
    moreover have "length (buffer_set buf chunk w) = cap" using 3 h by (simp add: buffer_set_def)
    moreover have "drop k (buffer_set buf chunk w) @ take k (buffer_set buf chunk w) = drop (w + length chunk) buf @ take w buf @ chunk"
      if "k = (if w + length chunk = cap then 0 else w + length chunk)" for k
      using 3 h that by (auto simp: buffer_set_def)
    ultimately show ?thesis using 3 h l by (auto simp: ring_holds_def simp flip: d z_def)
  next
    case 4
    define f where "f = cap - w"
    have f: "min (length chunk) (cap - w) = f" "f < length chunk" "w + f = cap" "length chunk - f \<le> w" using 4 h by (auto simp: f_def)
    have b1: "buffer_set buf (take f chunk) w = take w buf @ take f chunk" using f h by (simp add: buffer_set_def)
    have b2: "buffer_set (take w buf @ take f chunk) (drop f chunk) 0 = drop f chunk @ drop (length chunk - f) (take w buf) @ take f chunk"
      using f h 4 by (simp add: buffer_set_def)
    have "last_bytes cap (z @ s @ chunk) = drop (length chunk - f) (take w buf) @ chunk"
    proof -
      have "last_bytes cap ((z @ s) @ chunk) = drop (length chunk) (drop w buf @ take w buf) @ chunk"
        unfolding h(4) using 4 by (intro last_bytes_append) (simp_all add: z_def)
      moreover have "drop (length chunk) (drop w buf @ take w buf) = drop (length chunk - f) (take w buf)"
        using 4 h(1) f by simp
      ultimately show ?thesis by simp
    qed
    then have l: "last_bytes cap (z @ s @ chunk) = drop (length chunk - f) (take w buf) @ take f chunk @ drop f chunk" by simp
    have "cap \<le> length s + length chunk" using h(5) 4 by (cases "length s < cap") auto
    moreover have "ring_write r chunk = r\<lparr>rb_totalBytes := length s + length chunk,
        rb_buffer := drop f chunk @ drop (length chunk - f) (take w buf) @ take f chunk, rb_writeIndex := length chunk - f\<rparr>"
      using 4 h(2) f(1,2) b1 b2 by (simp add: ring_write_def Let_def flip: d)
    ultimately show ?thesis using 4 h f l by (auto simp: ring_holds_def simp flip: d z_def)
  qed
qed

lemma ring_holds_tail:
  assumes "ring_holds r s"
  shows "getTail r = last_bytes (rb_capacity r) s"
proof -
  define cap w buf where d: "cap = rb_capacity r" "w = rb_writeIndex r" "buf = rb_buffer r"
  have h: "length buf = cap" "rb_totalBytes r = length s" "w < cap \<or> cap = 0 \<and> w = 0"
    "drop w buf @ take w buf = last_bytes cap (replicate cap (CHR 0x00) @ s)" "length s < cap \<longrightarrow> w = length s"
    using assms by (simp_all add: ring_holds_def d)
  show ?thesis
  proof (cases "length s < cap")
    case True
    then have "drop w buf @ take w buf = replicate (cap - w) (CHR 0x00) @ s" using h by (simp add: last_bytes_def)
    then have "take w buf = s" using h True by (simp add: append_eq_append_conv)
    then show ?thesis using True h by (simp add: getTail_def last_bytes_def flip: d)
  next
    case False
    then have "drop w buf @ take w buf = last_bytes cap s" using h by (simp add: last_bytes_def)
    moreover have "buffer_set (buffer_set (replicate cap (CHR 0x00)) (drop w buf) 0) (take w buf) (cap - w) = drop w buf @ take w buf"
      using h by (auto simp: buffer_set_def)
    ultimately show ?thesis using False h by (simp add: getTail_def last_bytes_def Let_def flip: d)
  qed
qed

subsection \<open>Events\<close>

fun eat_newline :: "string \<Rightarrow> string option" where
  "eat_newline [] = None"
| "eat_newline (c # cs) =
     (if c = CHR 0x0A then Some cs
      else if c = CHR 0x0D then (case cs of [] \<Rightarrow> None | d # ds \<Rightarrow> if d = CHR 0x0A then Some ds else None)
      else None)"

text \<open>The text after a match of \<open>/\r?\n\r?\n/\<close> at the start.\<close>

definition boundary_at :: "string \<Rightarrow> string option" where
  "boundary_at s = Option.bind (eat_newline s) eat_newline"

text \<open>The first boundary: the event before it and the text after it.\<close>

fun split_event :: "string \<Rightarrow> string \<Rightarrow> (string \<times> string) option" where
  "split_event acc [] = None"
| "split_event acc (c # cs) =
     (case boundary_at (c # cs) of Some rest \<Rightarrow> Some (acc, rest) | None \<Rightarrow> split_event (acc @ [c]) cs)"

lemma boundary_shorter: "boundary_at s = Some r \<Longrightarrow> length r < length s"
  by (cases s) (auto simp: boundary_at_def bind_eq_Some_conv elim!: eat_newline.elims split: if_splits list.splits)

lemma split_event_shorter: "split_event acc s = Some (e, r) \<Longrightarrow> length r < length s"
  by (induction acc s rule: split_event.induct) (auto split: option.splits dest: boundary_shorter)

text \<open>The loop of \<open>consumeEventText\<close>: the complete events and the pending text.\<close>

function drain :: "string \<Rightarrow> string list \<times> string" where
  "drain s = (case split_event [] s of None \<Rightarrow> ([], s) | Some (e, r) \<Rightarrow> (case drain r of (es, p) \<Rightarrow> (e # es, p)))"
  by pat_completeness auto
termination
  by (relation "measure length") (auto dest: split_event_shorter)

declare drain.simps [simp del]

definition event_usage :: "string \<Rightarrow> json option" where
  "event_usage event =
     (if \<not> sublist USAGE_NEEDLE event \<and> \<not> sublist RESPONSE_COMPLETED_NEEDLE event then None else extractUsageFromEvent event)"

record tap =
  tap_pending :: string
  tap_usage :: "json option"

definition parseEvent :: "string \<Rightarrow> json option \<Rightarrow> json option" where
  "parseEvent event usage = (case event_usage event of Some u \<Rightarrow> Some u | None \<Rightarrow> usage)"

definition consumeEventText :: "string \<Rightarrow> bool \<Rightarrow> tap \<Rightarrow> tap" where
  "consumeEventText t flush s =
     (case drain (tap_pending s @ t) of
        (events, pending) \<Rightarrow>
          let usage = fold parseEvent events (tap_usage s)
          in if flush \<and> pending \<noteq> [] then \<lparr>tap_pending = [], tap_usage = parseEvent pending usage\<rparr>
             else \<lparr>tap_pending = pending, tap_usage = usage\<rparr>)"

text \<open>The transform: chunks, then the flush, as long as no usage was found.\<close>

definition tap_chunk :: "string \<Rightarrow> tap \<Rightarrow> tap" where
  "tap_chunk chunk s = (if tap_usage s = None then consumeEventText chunk False s else s)"

definition tap_flush :: "string \<Rightarrow> tap \<Rightarrow> tap" where
  "tap_flush rest s = (if tap_usage s = None then consumeEventText rest True s else s)"

definition stream_usage :: "string list \<Rightarrow> string \<Rightarrow> json option" where
  "stream_usage chunks rest = tap_usage (tap_flush rest (fold tap_chunk chunks \<lparr>tap_pending = [], tap_usage = None\<rparr>))"

text \<open>All events of a text, the last one without a boundary after it.\<close>

definition all_events :: "string \<Rightarrow> string list" where
  "all_events s = (case drain s of (es, p) \<Rightarrow> if p = [] then es else es @ [p])"

lemma eat_newline_more:
  "eat_newline s = Some r \<Longrightarrow> eat_newline (s @ t) = Some (r @ t)"
  "eat_newline s = None \<Longrightarrow> eat_newline (s @ t) \<noteq> None \<Longrightarrow> s = [] \<or> s = [CHR 0x0D]"
  "eat_newline s = Some r \<Longrightarrow> s = CHR 0x0A # r \<or> s = CHR 0x0D # CHR 0x0A # r"
  by (cases s; auto split: if_splits list.splits)+

lemma boundary_more:
  "boundary_at s = Some r \<Longrightarrow> boundary_at (s @ t) = Some (r @ t)"
  "boundary_at s = None \<Longrightarrow> boundary_at (s @ t) \<noteq> None \<Longrightarrow> split_event acc s = None"
proof -
  show "boundary_at (s @ t) = Some (r @ t)" if "boundary_at s = Some r"
    using that eat_newline_more(1) by (fastforce simp: boundary_at_def bind_eq_Some_conv)
  assume n: "boundary_at s = None" "boundary_at (s @ t) \<noteq> None"
  show "split_event acc s = None"
  proof (cases "eat_newline s")
    case None
    moreover have "eat_newline (s @ t) \<noteq> None" using n(2) by (cases "eat_newline (s @ t)") (simp_all add: boundary_at_def)
    ultimately have "s = [] \<or> s = [CHR 0x0D]" by (rule eat_newline_more(2))
    then show ?thesis by (auto simp: boundary_at_def)
  next
    case (Some r)
    then have "eat_newline r = None" "eat_newline (r @ t) \<noteq> None"
      using n eat_newline_more(1)[OF Some, of t] by (simp_all add: boundary_at_def)
    then have "r = [] \<or> r = [CHR 0x0D]" by (rule eat_newline_more(2))
    then show ?thesis using eat_newline_more(3)[OF Some] by (auto simp: boundary_at_def)
  qed
qed

lemma split_event_more: "split_event acc s = Some (e, r) \<Longrightarrow> split_event acc (s @ t) = Some (e, r @ t)"
proof (induction acc s rule: split_event.induct)
  case (2 acc c cs)
  show ?case
  proof (cases "boundary_at (c # cs)")
    case None
    then have "boundary_at ((c # cs) @ t) = None" using boundary_more(2)[of "c # cs" t acc] "2.prems" by fastforce
    then show ?thesis using 2 None by simp
  next
    case (Some rest)
    then show ?thesis using "2.prems" boundary_more(1)[OF Some, of t] by simp
  qed
qed simp

lemma drain_more: "drain (s @ t) = (case drain s of (es, p) \<Rightarrow> (case drain (p @ t) of (es', p') \<Rightarrow> (es @ es', p')))"
proof (induction s rule: drain.induct)
  case (1 s)
  show ?case
  proof (cases "split_event [] s")
    case None
    then show ?thesis by (simp add: drain.simps[of s] split: prod.split)
  next
    case (Some er)
    then obtain e r where er: "split_event [] s = Some (e, r)" by (cases er) auto
    show ?thesis
      using "1.IH"[OF er refl] split_event_more[OF er, of t]
      by (simp add: drain.simps[of s] drain.simps[of "s @ t"] er split: prod.splits)
  qed
qed

lemma ring_write_capacity [simp]: "rb_capacity (ring_write r c) = rb_capacity r"
  by (simp add: ring_write_def Let_def)

text \<open>Whatever chunks are written, the tail of the ring buffer is the last bytes of the whole stream, as many as the
  capacity holds.\<close>

lemma ring_tail_exact:
  "getTail (fold (\<lambda>chunk r. ring_write r chunk) chunks (new_ring capacity)) = last_bytes capacity (concat chunks)"
proof -
  have "ring_holds (fold (\<lambda>chunk r. ring_write r chunk) chunks r) (s @ concat chunks) \<and>
      rb_capacity (fold (\<lambda>chunk r. ring_write r chunk) chunks r) = rb_capacity r" if "ring_holds r s" for r s
    using that
  proof (induction chunks arbitrary: r s)
    case (Cons c cs)
    then show ?case using Cons.IH[OF ring_holds_write[OF Cons.prems, of c]] by simp
  qed simp
  from this[OF ring_holds_new[of capacity]] show ?thesis
    using ring_holds_tail by (fastforce simp: new_ring_def)
qed

text \<open>The search for the two needles is the substring test.\<close>

lemma mightContainUsage_exact:
  "mightContainUsage bytes \<longleftrightarrow> sublist USAGE_NEEDLE bytes \<or> sublist RESPONSE_COMPLETED_NEEDLE bytes"
  by (simp add: mightContainUsage_def bytesIncludesAscii_sublist USAGE_NEEDLE_def RESPONSE_COMPLETED_NEEDLE_def)

lemma fold_parseEvent:
  "case fold parseEvent es us of None \<Rightarrow> us = None \<and> event_usage ` set es \<subseteq> {None} | Some u \<Rightarrow> us = Some u \<or> Some u \<in> event_usage ` set es"
proof (induction es arbitrary: us)
  case (Cons e es)
  show ?case using Cons.IH[of "parseEvent e us"]
    by (cases "event_usage e") (auto simp: parseEvent_def split: option.splits)
qed (auto split: option.split)

text \<open>The tap after some chunks, against the text that came through.\<close>

definition tap_sees :: "tap \<Rightarrow> string \<Rightarrow> bool" where
  "tap_sees s t \<longleftrightarrow> (case drain t of (es, p) \<Rightarrow>
     (case tap_usage s of None \<Rightarrow> tap_pending s = p \<and> event_usage ` set es \<subseteq> {None} | Some u \<Rightarrow> Some u \<in> event_usage ` set es))"

lemma tap_sees_chunk:
  assumes "tap_sees s t"
  shows "tap_sees (tap_chunk c s) (t @ c)"
proof -
  obtain es p es' p' where d: "drain t = (es, p)" "drain (p @ c) = (es', p')" by (metis surj_pair)
  have dc: "drain (t @ c) = (es @ es', p')" by (simp add: drain_more[of t c] d)
  show ?thesis
  proof (cases "tap_usage s")
    case None
    then have s: "tap_pending s = p" "event_usage ` set es \<subseteq> {None}" using assms by (simp_all add: tap_sees_def d)
    show ?thesis using s fold_parseEvent[where es = es' and us = None]
      by (auto simp: tap_sees_def dc tap_chunk_def consumeEventText_def None d split: option.splits)
  next
    case (Some u)
    then show ?thesis using assms by (auto simp: tap_sees_def dc d tap_chunk_def)
  qed
qed

lemma tap_sees_chunks: "tap_sees s t \<Longrightarrow> tap_sees (fold tap_chunk cs s) (t @ concat cs)"
proof (induction cs arbitrary: s t)
  case (Cons c cs)
  then show ?case using Cons.IH[OF tap_sees_chunk[OF Cons.prems, of c]] by simp
qed simp

lemma drain_empty [simp]: "drain [] = ([], [])"
  by (simp add: drain.simps)

text \<open>C27: The usage found in a stream does not depend on the chunks for being there: it is found exactly when some event of the
  whole text carries one, and it is the usage of such an event.\<close>

theorem stream_usage_found:
  "case stream_usage chunks rest of
     None \<Rightarrow> event_usage ` set (all_events (concat chunks @ rest)) \<subseteq> {None}
   | Some u \<Rightarrow> Some u \<in> event_usage ` set (all_events (concat chunks @ rest))"
proof -
  define s where "s = fold tap_chunk chunks \<lparr>tap_pending = [], tap_usage = None\<rparr>"
  have s: "tap_sees s (concat chunks)"
    using tap_sees_chunks[of "\<lparr>tap_pending = [], tap_usage = None\<rparr>" "[]" chunks] by (simp add: tap_sees_def s_def)
  obtain es p es' p' where d: "drain (concat chunks) = (es, p)" "drain (p @ rest) = (es', p')" by (metis surj_pair)
  have all: "all_events (concat chunks @ rest) = es @ es' @ (if p' = [] then [] else [p'])"
    by (simp add: all_events_def drain_more[of "concat chunks" rest] d)
  have r: "stream_usage chunks rest = tap_usage (tap_flush rest s)" by (simp add: stream_usage_def s_def)
  show ?thesis
  proof (cases "tap_usage s")
    case (Some u)
    then show ?thesis using s by (auto simp: r all tap_sees_def d tap_flush_def)
  next
    case None
    then have q: "tap_pending s = p" "event_usage ` set es \<subseteq> {None}" using s by (simp_all add: tap_sees_def d)
    have t: "tap_usage (tap_flush rest s) = fold parseEvent (es' @ (if p' = [] then [] else [p'])) None"
      by (simp add: tap_flush_def consumeEventText_def None q d Let_def)
    show ?thesis
      using fold_parseEvent[where es = "es' @ (if p' = [] then [] else [p'])" and us = None] q(2) unfolding r t all
      by (auto split: option.splits)
  qed
qed

end
