(* ===== verification/Stream_Run.thy ===== *)
theory Stream_Run
  imports Proxy Stream_Tail
begin

section \<open>Stream_Run: a streamed answer until its finalization\<close>

text \<open>
  apps/gateway-worker/src/stream.ts, \<open>proxyStream\<close>: what goes on after the handler has answered with a stream.  A
  run is a sequence of events: a chunk arrives, upstream ends, the stream is cancelled by the client, by an error of
  upstream or by the abort of a failed renewal, the renewal timer fires, and the answer of a renewal comes back.  The
  quota controller is called as by the handler, with the turns of the world.  A chunk is the text that the streaming
  decoder gives for it.  The audit records and the observation of the stage are not modelled; the outcome that is
  reported to the observation is.
\<close>

definition stub_renewInFlight :: "proxy_world \<Rightarrow> string \<Rightarrow> string \<Rightarrow> string \<Rightarrow> int \<Rightarrow> renew_result px" where
  "stub_renewInFlight w name requestId generation ttl =
     px_stub w name (\<lambda>now uuid i. renewInFlightLease now requestId generation (JsInt ttl))"

definition DEFAULT_IN_FLIGHT_LEASE_RENEWAL_MS :: int where "DEFAULT_IN_FLIGHT_LEASE_RENEWAL_MS = 30000"

definition resolveInFlightLeaseRenewalMs :: "string option \<Rightarrow> int" where
  "resolveInFlightLeaseRenewalMs configured =
     min (resolvePositiveSafeInteger configured DEFAULT_IN_FLIGHT_LEASE_RENEWAL_MS) DEFAULT_IN_FLIGHT_LEASE_RENEWAL_MS"

text \<open>A lease is renewed long before it runs out.\<close>

lemma renewal_within_ttl:
  "0 < resolveInFlightLeaseRenewalMs c" "2 * resolveInFlightLeaseRenewalMs c < resolveInFlightLeaseTtlMs d"
  by (auto simp: resolveInFlightLeaseRenewalMs_def resolveInFlightLeaseTtlMs_def resolvePositiveSafeInteger_def
      DEFAULT_IN_FLIGHT_LEASE_RENEWAL_MS_def MIN_SAFE_IN_FLIGHT_LEASE_TTL_MS_def Let_def)

subsection \<open>The state of a stream\<close>

datatype stage_outcome = Stage_success | Stage_uncertain | Stage_exception

text \<open>
  \<open>ps_renewal\<close> is the answer of a renewal in flight, \<open>ps_open\<close> whether the transform still takes chunks.
\<close>

record proxy_stream =
  ps_run :: proxy_run
  ps_tap :: tap
  ps_forwarded :: "string list"
  ps_open :: bool
  ps_timer :: bool
  ps_finalized :: bool
  ps_disconnected :: bool
  ps_renewal :: "renew_result throws option"
  ps_renewal_error :: "js_error option"
  ps_outcome :: "stage_outcome option"

datatype stream_event = Chunk_arrives string | Upstream_ends string | Stream_cancelled | Renewal_timer | Renewal_answers

subsection \<open>The finalization\<close>

definition px_error :: "'a px \<Rightarrow> js_error option px" where
  "px_error m = px_catch (px_then m (px_return None)) (\<lambda>e. px_return (Some e))"

text \<open>The outcome and the error that the finalization ends with.\<close>

definition finalizeUncertain :: "proxy_world \<Rightarrow> string \<Rightarrow> in_flight_lease \<Rightarrow> js_error option \<Rightarrow> (stage_outcome \<times> js_error option) px" where
  "finalizeUncertain w name l originalError =
     px_bind (px_error (stub_markUncertain w name (l_requestId l))) (\<lambda>markError.
     px_bind (px_error (stub_releaseInFlight w name (l_requestId l) (l_generation l))) (\<lambda>releaseError.
     px_return
       (if originalError = None \<and> markError = None then Stage_uncertain else Stage_exception,
        if originalError \<noteq> None then originalError else if markError \<noteq> None then markError else releaseError)))"

definition settle_stream :: "proxy_world \<Rightarrow> string \<Rightarrow> in_flight_lease \<Rightarrow> json option \<Rightarrow> stage_outcome px" where
  "settle_stream w name l usage =
     (case total_tokens usage of
        Some n \<Rightarrow>
          px_bind (stub_settle w name (l_requestId l) n) (\<lambda>settled.
            px_then (stub_releaseInFlight w name (l_requestId l) (l_generation l))
              (px_return (if settled = Unknown_request then Stage_uncertain else Stage_success)))
      | None \<Rightarrow>
          px_then (stub_markUncertain w name (l_requestId l))
            (px_then (stub_releaseInFlight w name (l_requestId l) (l_generation l)) (px_return Stage_uncertain)))"

definition finalization ::
  "proxy_world \<Rightarrow> string \<Rightarrow> in_flight_lease \<Rightarrow> json option \<Rightarrow> bool \<Rightarrow> js_error option \<Rightarrow> (stage_outcome \<times> js_error option) px" where
  "finalization w name l usage disconnected renewalError =
     (if renewalError \<noteq> None \<or> disconnected then finalizeUncertain w name l renewalError
      else px_catch (px_bind (settle_stream w name l usage) (\<lambda>outcome. px_return (outcome, None)))
             (\<lambda>e. finalizeUncertain w name l (Some e)))"

definition finalize :: "proxy_world \<Rightarrow> string \<Rightarrow> in_flight_lease \<Rightarrow> proxy_stream \<Rightarrow> proxy_stream" where
  "finalize w name l st =
     (if ps_finalized st then st
      else case finalization w name l (tap_usage (ps_tap st)) (ps_disconnected st) (ps_renewal_error st) (ps_run st) of
        (r, s) \<Rightarrow> st\<lparr>ps_finalized := True, ps_timer := False, ps_run := s,
          ps_outcome := (case r of Inr (outcome, _) \<Rightarrow> Some outcome | Inl _ \<Rightarrow> None)\<rparr>)"

subsection \<open>The renewal of the lease\<close>

definition failRenewal :: "proxy_world \<Rightarrow> string \<Rightarrow> in_flight_lease \<Rightarrow> js_error \<Rightarrow> proxy_stream \<Rightarrow> proxy_stream" where
  "failRenewal w name l e st =
     (if ps_finalized st \<or> ps_renewal_error st \<noteq> None then st
      else finalize w name l (st\<lparr>ps_renewal_error := Some e, ps_open := False\<rparr>))"

text \<open>\<open>renewLease\<close> up to the call, and after its answer.\<close>

definition renewLease :: "proxy_world \<Rightarrow> string \<Rightarrow> in_flight_lease \<Rightarrow> proxy_stream \<Rightarrow> proxy_stream" where
  "renewLease w name l st =
     (if ps_finalized st \<or> ps_renewal st \<noteq> None then st
      else case stub_renewInFlight w name (l_requestId l) (l_generation l) (resolveInFlightLeaseTtlMs (pw_lease_ttl w)) (ps_run st) of
        (r, s) \<Rightarrow> st\<lparr>ps_run := s, ps_renewal := Some r\<rparr>)"

definition renewal_failure :: "renew_result throws \<Rightarrow> js_error option" where
  "renewal_failure r =
     (case r of
        Inr (Renewed _) \<Rightarrow> None
      | Inr _ \<Rightarrow> Some (PlainError ''In-flight lease renewal failed.'')
      | Inl e \<Rightarrow> Some e)"

definition renewal_answered :: "proxy_world \<Rightarrow> string \<Rightarrow> in_flight_lease \<Rightarrow> proxy_stream \<Rightarrow> proxy_stream" where
  "renewal_answered w name l st =
     (case ps_renewal st of
        None \<Rightarrow> st
      | Some r \<Rightarrow>
          (case renewal_failure r of None \<Rightarrow> st | Some e \<Rightarrow> failRenewal w name l e st)\<lparr>ps_renewal := None\<rparr>)"

subsection \<open>The events\<close>

definition answer_step :: "proxy_world \<Rightarrow> string \<Rightarrow> in_flight_lease \<Rightarrow> stream_event \<Rightarrow> proxy_stream \<Rightarrow> proxy_stream" where
  "answer_step w name l e st =
     (case e of
        Chunk_arrives chunk \<Rightarrow>
          if ps_open st then st\<lparr>ps_forwarded := ps_forwarded st @ [chunk], ps_tap := tap_chunk chunk (ps_tap st)\<rparr> else st
      | Upstream_ends rest \<Rightarrow>
          if ps_open st then finalize w name l (st\<lparr>ps_open := False, ps_tap := tap_flush rest (ps_tap st)\<rparr>) else st
      | Stream_cancelled \<Rightarrow>
          if ps_open st then finalize w name l (st\<lparr>ps_open := False, ps_disconnected := True\<rparr>) else st
      | Renewal_timer \<Rightarrow> if ps_timer st then renewLease w name l st else st
      | Renewal_answers \<Rightarrow> renewal_answered w name l st)"

definition stream_start :: "bool \<Rightarrow> proxy_run \<Rightarrow> proxy_stream" where
  "stream_start has_body s =
     \<lparr>ps_run = s, ps_tap = \<lparr>tap_pending = [], tap_usage = None\<rparr>, ps_forwarded = [], ps_open = has_body, ps_timer = has_body,
      ps_finalized = False, ps_disconnected = False, ps_renewal = None, ps_renewal_error = None, ps_outcome = None\<rparr>"

definition proxyStream :: "proxy_world \<Rightarrow> string \<Rightarrow> in_flight_lease \<Rightarrow> bool \<Rightarrow> proxy_run \<Rightarrow> proxy_stream" where
  "proxyStream w name l has_body s =
     (if \<not> has_body then finalize w name l (stream_start False s) else stream_start True s)"

text \<open>The stream of a request after the handler: the run it left, an answer of upstream with or without a body, and the events.\<close>

definition stream_after :: "proxy_world \<Rightarrow> bool \<Rightarrow> stream_event list \<Rightarrow> proxy_run \<Rightarrow> proxy_stream option" where
  "stream_after w has_body events s =
     (case (pr_stub s, pr_lease s) of
        (Some name, Some l) \<Rightarrow> Some (fold (answer_step w name l) events (proxyStream w name l has_body s))
      | _ \<Rightarrow> None)"

end
