(* ===== verification/Soundness.thy ===== *)
theory Soundness
  imports Controller
begin

section \<open>Soundness: the invariant of a quota controller and the operations that keep it\<close>

text \<open>
  The invariant joins the ledger with the capacity of the pool, the idempotency keys and the grants.
  Each operation of the controller is one of a few kinds of change: of the leases, of one request by an
  abstract transition, of one grant, or a new reservation; each kind keeps the invariant.
\<close>

subsection \<open>The invariant\<close>

text \<open>What is used of the limit beyond it is exactly what settlements reported above their reservation.\<close>

definition capacity :: "quota_store \<Rightarrow> bool" where
  "capacity st \<longleftrightarrow> (\<forall>l. pool_limit st = Some l \<longrightarrow>
     0 \<le> l \<and> total held st + total doubtful st + total spent st \<le> l + total over st)"

definition idem_ok :: "quota_store \<Rightarrow> bool" where
  "idem_ok st \<longleftrightarrow> (\<forall>k r. kv_get (st_idem st) k = Some r \<longrightarrow> look st r \<noteq> None)"

fun grant_entry_ok :: "grant_state \<Rightarrow> abs_request \<Rightarrow> bool" where
  "grant_entry_ok Authorized x = True"
| "grant_entry_ok Attempted x = True"
| "grant_entry_ok Released x = (\<forall>t. x \<noteq> Held t)"
| "grant_entry_ok Uncertain x = (\<forall>t. x \<noteq> Held t)"
| "grant_entry_ok _ x = (\<forall>t. x \<noteq> Held t \<and> x \<noteq> Doubtful t)"

definition grants_ok :: "quota_store \<Rightarrow> bool" where
  "grants_ok st \<longleftrightarrow> (\<forall>r g. getRelayGrant st r = Some g \<longrightarrow>
     gr_requestId g = r \<and> (\<exists>x. look st r = Some x \<and> grant_entry_ok (gr_state g) x))"

definition sound :: "quota_store \<Rightarrow> bool" where
  "sound st \<longleftrightarrow> ledger st \<and> capacity st \<and> idem_ok st \<and> grants_ok st"

lemma sound_parts:
  assumes "sound st"
  shows "ledger st" "capacity st" "idem_ok st" "grants_ok st"
  using assms by (simp_all add: sound_def)

lemma sound_empty: "sound empty_store"
  by (simp add: sound_def ledger_empty capacity_def idem_ok_def grants_ok_def pool_limit_def getRelayGrant_def)
    (simp add: empty_store_def)

subsection \<open>The kinds of change\<close>

lemma sound_same_ledger:
  assumes "same_ledger st st'" "st_grants st' = st_grants st"
  shows "sound st' = sound st"
proof -
  note l = same_ledger_ledger[OF assms(1)] same_ledger_fields[OF assms(1)]
  have "capacity st' = capacity st" by (simp add: capacity_def pool_limit_def l)
  moreover have "idem_ok st' = idem_ok st" by (simp add: idem_ok_def l)
  moreover have "grants_ok st' = grants_ok st" by (simp add: grants_ok_def getRelayGrant_def l assms(2))
  ultimately show ?thesis by (simp add: sound_def l)
qed

lemma same_but_leases_ledger: "same_but_leases st st' \<Longrightarrow> same_ledger st st' \<and> st_grants st' = st_grants st"
  using same_but_leases_fields by blast

lemma sound_leases: "same_but_leases st st' \<Longrightarrow> sound st' = sound st"
  using sound_same_ledger same_but_leases_ledger by blast

lemma sound_put_grant:
  assumes "sound st" "look st (gr_requestId g) = Some x" "grant_entry_ok (gr_state g) x"
  shows "sound (putRelayGrant g st)"
proof -
  have s: "same_ledger st (putRelayGrant g st)" by blast
  note l = same_ledger_ledger[OF s] same_ledger_fields[OF s]
  have "grants_ok (putRelayGrant g st)"
    using sound_parts(4)[OF assms(1)] assms(2,3) by (auto simp: grants_ok_def l store_simps)
  then show ?thesis using assms(1) by (simp add: sound_def capacity_def idem_ok_def pool_limit_def l)
qed

text \<open>What an abstract transition keeps: the use of the limit grows at most by what is over, and a request
  moves only forward.\<close>

lemma abs_step_capacity:
  assumes "0 \<le> held x" "0 \<le> doubtful x" "legal_transition tr"
  shows "held (abs_step tr x) + doubtful (abs_step tr x) + spent (abs_step tr x) - over (abs_step tr x)
    \<le> held x + doubtful x + spent x - over x"
  using assms by (cases tr; cases x) auto

lemma abs_step_forward:
  "\<forall>t. x \<noteq> Held t \<Longrightarrow> abs_step tr x \<noteq> Held t"
  "\<forall>t. x \<noteq> Held t \<and> x \<noteq> Doubtful t \<Longrightarrow> abs_step tr x = x"
  by (cases tr; cases x; simp)+

lemma grant_entry_ok_step: "grant_entry_ok s x \<Longrightarrow> grant_entry_ok s (abs_step tr x)"
  using abs_step_forward[of x] by (cases s) auto

lemma look_entry_ok:
  assumes "ledger st" "look st r = Some x"
  shows "0 \<le> held x" "0 \<le> doubtful x"
  using assms weights_nonneg by (auto simp: look_def ledger_def)

lemma sound_change:
  assumes "sound st" "ledger st'" "change r (map_option (abs_step tr) (look st r)) st st'" "legal_transition tr"
    and "st_grants st' = st_grants st"
  shows "sound st'"
proof -
  note p = sound_parts[OF assms(1)]
  have tot: "total f st' = total f st + old_weight f (map_option (abs_step tr) (look st r)) - old_weight f (look st r)" for f
    using assms(3) by (simp add: change_def)
  have lk: "look st' = (look st)(r := map_option (abs_step tr) (look st r))" and lim: "pool_limit st' = pool_limit st"
    and id: "st_idem st' = st_idem st"
    using assms(3) by (simp_all add: change_def)
  have "capacity st'"
  proof (cases "look st r")
    case None
    then show ?thesis using p(2) by (simp add: capacity_def tot lim)
  next
    case (Some x)
    then show ?thesis
      using p(2) abs_step_capacity[OF look_entry_ok[OF p(1) Some] assms(4)] by (auto simp: capacity_def tot lim)
  qed
  moreover have "idem_ok st'" using p(3) by (auto simp: idem_ok_def lk id)
  moreover have "grants_ok st'"
    using p(4) grant_entry_ok_step by (fastforce simp: grants_ok_def lk getRelayGrant_def assms(5))
  ultimately show ?thesis using assms(2) by (simp add: sound_def)
qed

lemma ledger_idem [simp]:
  "ledger (putIdempotencyRequestId k r c st) = ledger st" "look (putIdempotencyRequestId k r c st) = look st"
  "total f (putIdempotencyRequestId k r c st) = total f st" "pool_limit (putIdempotencyRequestId k r c st) = pool_limit st"
  by (auto simp: ledger_def look_def total_def pool_limit_def pool_counts_def store_simps fun_eq_iff split: option.splits)

lemma new_entry_ok:
  "0 \<le> t \<Longrightarrow> t \<le> u \<Longrightarrow> entry_ok (new_entry t u key (Reserve_ok rm ra) c)" "abs_entry (new_entry t u key x c) = Held t"
  by (simp_all add: entry_ok_def new_entry_def abs_entry_def)

text \<open>A new reservation on a request that has no entry.\<close>

lemma write_reservation_ledger:
  assumes "ledger st" "getEntry st r = None" "0 \<le> t" "t \<le> u"
    and "st' = write_reservation now (loadPool st env i now) r t u key c (Reserve_ok rm ra) st"
  shows "ledger st'" "look st' = (look st)(r := Some (Held t))"
    "total f st' = total f st + f (Held t)" "pool_limit st' = Some (limit (loadPool st env i now))"
    "st_idem st' = (case key of None \<Rightarrow> st_idem st | Some k \<Rightarrow> kv_put (idem_key c k) r (st_idem st))"
    "st_grants st' = st_grants st" "st_in_flight st' = st_in_flight st" "st_finalized st' = st_finalized st"
    "st_fences st' = st_fences st"
proof -
  define e where "e = new_entry t u key (Reserve_ok rm ra) (to_iso_string now)"
  define p where "p = (loadPool st env i now)\<lparr>reservedTokens := reservedTokens (loadPool st env i now) + t,
    requestCount := requestCount (loadPool st env i now) + 1\<rparr>"
  define st1 where "st1 = saveUnresolved (loadUnresolved st\<lparr>reservedCount := reservedCount (loadUnresolved st) + 1\<rparr>)
    (putEntry now r e (savePool now p st))"
  have st': "st' = (case key of None \<Rightarrow> st1 | Some k \<Rightarrow> putIdempotencyRequestId k r c st1)"
    unfolding assms(5) write_reservation_def Let_def st1_def e_def p_def by (rule refl)
  have l: "look st r = None" using assms(2) by (simp add: look_def)
  have en: "st_entries st1 = kv_put r (e\<lparr>e_updatedAt := to_iso_string now\<rparr>) (st_entries st)" by (simp add: st1_def store_simps)
  have ok: "entry_ok e" "abs_entry e = Held t" using new_entry_ok assms(3,4) by (simp_all add: e_def)
  note counts = ledger_counts[OF assms(1)]
  have u: "loadUnresolved st1 = \<lparr>uncertainCount = total count_doubtful st, reservedCount = total count_held st + 1\<rparr>"
    using counts by (simp add: st1_def store_simps)
  have led: "ledger st1"
    by (rule ledger_put[OF assms(1) _ en, of "p\<lparr>updatedAt := to_iso_string now\<rparr>"])
      (simp_all add: st1_def store_simps ok l p_def counts)
  show "ledger st'" using led by (simp add: st' split: option.split)
  show "look st' = (look st)(r := Some (Held t))"
    using look_put[OF en] ok(2) by (simp add: st' split: option.split)
  show "total f st' = total f st + f (Held t)"
    using total_put[OF en] ok(2) l by (simp add: st' split: option.split)
  show "pool_limit st' = Some (limit (loadPool st env i now))"
    by (simp add: st' st1_def pool_limit_def store_simps p_def split: option.split)
  show "st_idem st' = (case key of None \<Rightarrow> st_idem st | Some k \<Rightarrow> kv_put (idem_key c k) r (st_idem st))"
    "st_grants st' = st_grants st" "st_in_flight st' = st_in_flight st" "st_finalized st' = st_finalized st"
    "st_fences st' = st_fences st"
    by (simp_all add: st' st1_def store_simps split: option.split)
qed

lemma remaining_total:
  assumes "ledger st"
  shows "remainingOf (loadPool st env i now)
    = limit (loadPool st env i now) - (total held st + total doubtful st + total spent st)"
  using ledger_counts[OF assms] by (simp add: remainingOf_def)

lemma loadPool_limit:
  assumes "capacity st"
  shows "0 \<le> limit (loadPool st env i now)" "pool_limit st = Some l \<Longrightarrow> limit (loadPool st env i now) = l"
  using assms resolveLimit_nonneg by (auto simp: loadPool_def capacity_def pool_limit_def split: option.split)

lemma has_room_fits: "has_room p t u \<Longrightarrow> t \<le> remainingOf p"
  by (auto simp: has_room_def Let_def)

lemma over_nonneg: "0 \<le> total over st"
proof -
  have "0 \<le> over x" for x by (cases x) auto
  then show ?thesis unfolding total_def kv_sum_def by (intro sum_list_nonneg) auto
qed

lemma sound_reservation:
  assumes "sound st" "getEntry st r = None" "0 \<le> t" "t \<le> u" "has_room (loadPool st env i now) t u"
    and "st' = write_reservation now (loadPool st env i now) r t u key c (Reserve_ok rm ra) st"
  shows "sound st'" "0 \<le> remainingOf (loadPool st' env i' now')"
proof -
  note p = sound_parts[OF assms(1)]
  note w = write_reservation_ledger[OF p(1) assms(2-4,6)]
  have room: "total held st + total doubtful st + total spent st + t \<le> limit (loadPool st env i now)"
    using has_room_fits[OF assms(5)] remaining_total[OF p(1), of env i now] by linarith
  then have "capacity st'"
    using loadPool_limit(1)[OF p(2)] over_nonneg[of st] by (simp add: capacity_def w)
  moreover have "idem_ok st'"
    using p(3) by (auto simp: idem_ok_def w split: option.splits if_splits)
  moreover have "grants_ok st'"
  proof -
    have "look st r = None" using assms(2) by (simp add: look_def)
    then have "getRelayGrant st r = None" using p(4) by (cases "getRelayGrant st r") (fastforce simp: grants_ok_def)+
    then show ?thesis using p(4) by (auto simp: grants_ok_def w getRelayGrant_def)
  qed
  ultimately show "sound st'" using w(1) by (simp add: sound_def)
  then have "limit (loadPool st' env i' now') = limit (loadPool st env i now)"
    using loadPool_limit(2) w(4) sound_parts by blast
  then show "0 \<le> remainingOf (loadPool st' env i' now')"
    using room remaining_total[OF w(1), of env i' now'] by (simp add: w)
qed

subsection \<open>The operations\<close>

lemma plain_transition_grants:
  "settle_transition env i now r n st = (a, st') \<Longrightarrow> st_grants st' = st_grants st \<and> st_in_flight st' = st_in_flight st"
  "markUncertain_transition env i now r st = (a, st') \<Longrightarrow> st_grants st' = st_grants st \<and> st_in_flight st' = st_in_flight st"
  "release_transition env i now r st = (a, st') \<Longrightarrow> st_grants st' = st_grants st \<and> st_in_flight st' = st_in_flight st"
  "markReserveOutcomeUnknown env i now r st = (b, st') \<Longrightarrow> st_grants st' = st_grants st \<and> st_in_flight st' = st_in_flight st"
  by (auto simp: settle_transition_def markUncertain_transition_def release_transition_def markReserveOutcomeUnknown_def
      Let_def store_simps split: option.splits if_splits)

lemma legal_simps [simp]:
  "legal_transition Mark_uncertain" "legal_transition Release" "legal_transition (Reconcile d)"
  "legal_transition (Settle n) \<longleftrightarrow> 0 \<le> n"
  by (simp_all add: legal_transition_def)

lemma plain_transition_sound:
  assumes "sound st"
  shows "0 \<le> n \<Longrightarrow> settle_transition env i now r n st = (a, st') \<Longrightarrow> sound st'"
    "markUncertain_transition env i now r st = (a, st') \<Longrightarrow> sound st'"
    "release_transition env i now r st = (a, st') \<Longrightarrow> sound st'"
    "markReserveOutcomeUnknown env i now r st = (b, st') \<Longrightarrow> sound st'"
proof -
  note l = sound_parts(1)[OF assms]
  show "sound st'" if "0 \<le> n" "settle_transition env i now r n st = (a, st')"
    using settle_refines[OF l that] plain_transition_grants(1)[OF that(2)] that(1)
    by (intro sound_change[OF assms, where st' = st' and tr = "Settle n" and r = r]) simp_all
  show "sound st'" if "markUncertain_transition env i now r st = (a, st')"
    using markUncertain_refines[OF l that] plain_transition_grants(2)[OF that]
    by (intro sound_change[OF assms, where st' = st' and tr = Mark_uncertain and r = r]) simp_all
  show "sound st'" if "release_transition env i now r st = (a, st')"
    using release_refines[OF l that] plain_transition_grants(3)[OF that]
    by (intro sound_change[OF assms, where st' = st' and tr = Release and r = r]) simp_all
  show "sound st'" if "markReserveOutcomeUnknown env i now r st = (b, st')"
    using markReserveOutcomeUnknown_refines[OF l that] plain_transition_grants(4)[OF that]
    by (intro sound_change[OF assms, where st' = st' and tr = Mark_uncertain and r = r]) simp_all
qed

text \<open>Reconciliation is the transition on the ledger, then the terminalization of the grant.\<close>

definition reconcile_ledger :: "quota_env \<Rightarrow> quota_identity \<Rightarrow> int \<Rightarrow> string \<Rightarrow> disposition \<Rightarrow> quota_store \<Rightarrow> quota_store \<Rightarrow> bool" where
  "reconcile_ledger env i now r d st st1 \<longleftrightarrow> ledger st1 \<and> change r (map_option (abs_step (Reconcile d)) (look st r)) st st1 \<and>
     st_grants st1 = st_grants st \<and> st_in_flight st1 = st_in_flight st"

lemma reconcile_split:
  assumes "ledger st" "reconcile_transition env i now r d st = Inr (res, st')"
  obtains "st' = st" | st1 where "reconcile_ledger env i now r d st st1" "terminalizeGrantOnReconcile now r d st1 = Inr st'"
proof -
  consider "st' = st" | u e p where "terminalizeGrantOnReconcile now r d (saveUnresolved u (putEntry now r e (savePool now p st))) = Inr st'"
    using assms(2) by (auto simp: reconcile_transition_def Let_def and_then_Inr split: option.splits if_splits)
  then show thesis
  proof cases
    case (2 u e p)
    define st1 where "st1 = saveUnresolved u (putEntry now r e (savePool now p st))"
    have s: "same_ledger st1 st'" using 2 unfolding st1_def by (rule terminalize_same_ledger)
    have "ledger st1 \<and> change r (map_option (abs_step (Reconcile d)) (look st r)) st st1"
      using reconcile_refines[OF assms] by (simp add: same_ledger_ledger[OF s])
    moreover have "st_grants st1 = st_grants st" "st_in_flight st1 = st_in_flight st" by (simp_all add: st1_def store_simps)
    ultimately show thesis using that(2)[of st1] 2 by (simp add: reconcile_ledger_def st1_def)
  qed (rule that(1))
qed

lemma reconcile_closes: "x \<noteq> None \<Longrightarrow> map_option (abs_step (Reconcile d)) x = Some y \<Longrightarrow> \<forall>t. y \<noteq> Held t \<and> y \<noteq> Doubtful t"
  by (cases x; cases "the x") (auto split: if_splits)

lemma terminalize_sound:
  assumes "sound st" "\<And>x. look st r = Some x \<Longrightarrow> \<forall>t. x \<noteq> Held t \<and> x \<noteq> Doubtful t" "terminalizeGrantOnReconcile now r d st = Inr st'"
  shows "sound st'"
proof -
  consider "st' = st" | grant st1 b where "getRelayGrant st r = Some grant"
    "releaseInFlightLease now r (Some (gr_leaseGeneration grant)) st = Inr (b, st1)"
    "st' = putRelayGrant (grant\<lparr>gr_state := (if d = Consumed then Reconciled_consumed else Reconciled_unused),
       gr_terminalReport := None, gr_terminalFingerprint := Some (disposition_name d)\<rparr>) st1"
    using assms(3) by (auto simp: terminalizeGrantOnReconcile_def and_then_Inr split: option.splits if_splits)
  then show ?thesis
  proof cases
    case 2
    note sl = lease_ops_same(3)[OF 2(2)]
    obtain x where x: "gr_requestId grant = r" "look st r = Some x"
      using sound_parts(4)[OF assms(1)] 2(1) by (fastforce simp: grants_ok_def)
    have s1: "sound st1" using sound_leases[OF sl] assms(1) by simp
    have "look st1 r = Some x" using same_ledger_ledger(2)[of st st1] same_but_leases_ledger[OF sl] x(2) by simp
    then show ?thesis unfolding 2(3) using assms(2)[OF x(2)] x(1) by (intro sound_put_grant[OF s1]) auto
  qed (use assms(1) in simp)
qed

lemma reconcile_sound:
  assumes "sound st" "reconcile_transition env i now r d st = Inr (res, st')"
  shows "sound st'"
  using reconcile_split[OF sound_parts(1)[OF assms(1)] assms(2)]
proof cases
  case (2 st1)
  note r = 2(1)[unfolded reconcile_ledger_def]
  have "sound st1" using r by (intro sound_change[OF assms(1), where st' = st1 and tr = "Reconcile d" and r = r]) simp_all
  moreover have "\<forall>t. y \<noteq> Held t \<and> y \<noteq> Doubtful t" if "look st1 r = Some y" for y
    using r that by (intro reconcile_closes[of "look st r" d]) (auto simp: change_def)
  ultimately show ?thesis using terminalize_sound[OF _ _ 2(2)] by blast
qed (use assms(1) in simp)

text \<open>The steps of the grant operations.\<close>

lemma releaseGrantLease_leases: "releaseGrantLease now g st = Inr st' \<Longrightarrow> same_but_leases st st'"
  by (auto simp: releaseGrantLease_def and_then_Inr dest: lease_ops_same)

lemma apply_plain:
  assumes "sound st" "applyQuotaLifecycleTransition env i now r tr st = Inr (res, st')" "legal_transition tr" "\<And>d. tr \<noteq> Reconcile d"
  shows "sound st' \<and> look st' = (look st)(r := map_option (abs_step tr) (look st r)) \<and> st_grants st' = st_grants st \<and>
    st_in_flight st' = st_in_flight st"
proof -
  have g: "st_grants st' = st_grants st" "st_in_flight st' = st_in_flight st"
    using assms(2,4) plain_transition_grants by (cases tr; fastforce simp: map_prod_def split: prod.splits)+
  have t: "ledger st' \<and> change r (map_option (abs_step tr) (look st r)) st st'"
    using assms(3) by (intro transition_refines[OF sound_parts(1)[OF assms(1)] assms(2)]) (simp add: legal_transition_def)
  then have "sound st'" using sound_change[OF assms(1) _ _ assms(3) g(1)] by blast
  then show ?thesis using g t by (simp add: change_def)
qed

text \<open>A transition, the release of the lease and the new state of the grant.\<close>

lemma grant_transition_sound:
  assumes "sound st" "getRelayGrant st r = Some grant" "applyQuotaLifecycleTransition env i now (gr_requestId grant) tr st = Inr (res, st1)"
    "releaseGrantLease now grant st1 = Inr st2" "legal_transition tr" "\<And>d. tr \<noteq> Reconcile d"
    and "gr_requestId g' = gr_requestId grant" "\<And>x. grant_entry_ok (gr_state g') (abs_step tr x)"
  shows "sound (putRelayGrant g' st2)"
proof -
  obtain x where x: "gr_requestId grant = r" "look st r = Some x"
    using sound_parts(4)[OF assms(1)] assms(2) by (fastforce simp: grants_ok_def)
  note a = apply_plain[OF assms(1,3,5,6)]
  note sl = releaseGrantLease_leases[OF assms(4)]
  have "sound st2" using a sound_leases[OF sl] by simp
  moreover have "look st2 (gr_requestId g') = Some (abs_step tr x)"
    using a x assms(7) same_ledger_ledger(2)[of st1 st2] same_but_leases_ledger[OF sl] by simp
  ultimately show ?thesis using assms(8) by (intro sound_put_grant)
qed

lemma expire_sound:
  assumes "sound st" "getRelayGrant st r = Some grant" "expireAttemptedGrant env i now grant st = Inr st'"
  shows "sound st'"
proof -
  obtain res st1 st2 where s: "applyQuotaLifecycleTransition env i now (gr_requestId grant) Mark_uncertain st = Inr (res, st1)"
    "releaseGrantLease now grant st1 = Inr st2" "st' = putRelayGrant (grant\<lparr>gr_state := Uncertain\<rparr>) st2"
    using assms(3) by (auto simp: expireAttemptedGrant_def and_then_Inr simp del: applyQuotaLifecycleTransition.simps)
  have "abs_step Mark_uncertain x \<noteq> Held t" for x t by (cases x) auto
  then show ?thesis unfolding s(3) by (intro grant_transition_sound[OF assms(1,2) s(1,2)]) simp_all
qed

lemma purged_leases:
  "same_but_leases st (if mig \<or> length ls' \<noteq> length ls then saveInFlight ls' st else st)"
  by auto

lemma checked_cases:
  fixes r :: "(bool \<times> 'a \<times> 'b \<times> 'c) option throws"
  obtains e where "r = Inl e" | "r = Inr None" | m ls al l where "r = Inr (Some (m, ls, al, l))"
  by (metis option.exhaust prod_cases4 sum.exhaust)

text \<open>What activation may do, for a stored grant.\<close>

lemma activate_cases:
  assumes "activateRelayInTransaction env i now b st = Inr (res, st')" "getRelayGrant st (b_requestId b) = Some grant"
  obtains (none) "st' = st" "\<nexists>g. res = Activated g"
    | (activated) m ls al l where "st' = putRelayGrant (grant\<lparr>gr_state := Attempted\<rparr>) st" "res = Activated (grant\<lparr>gr_state := Attempted\<rparr>)"
      "gr_state grant = Authorized" "now < gr_credentialExpiresAtMs grant" "now < gr_authorizationExpiresAtMs grant"
      "\<not> grantBindingMismatch grant b i" "activeGrantLeases now grant st = Inr (Some (m, ls, al, l))" "lease_held grant l"
    | (released) r1 st1 st2 where "applyQuotaLifecycleTransition env i now (gr_requestId grant) Release st = Inr (r1, st1)"
      "releaseGrantLease now grant st1 = Inr st2" "st' = putRelayGrant (grant\<lparr>gr_state := Released\<rparr>) st2"
      "res = Activation_denied Grant_expired" "gr_state grant = Authorized" "gr_authorizationExpiresAtMs grant \<le> now"
proof -
  have s: "gr_state grant = Authorized" if "\<not> isTerminalGrantState (gr_state grant)" "gr_state grant \<noteq> Attempted" "gr_state grant \<noteq> Uncertain"
    using that by (cases "gr_state grant") (simp_all add: isTerminalGrantState_def)
  note u = assms(1)[unfolded activateRelayInTransaction_def assms(2) option.case]
  show thesis
  proof (cases "gr_authorizationExpiresAtMs grant \<le> now")
    case True
    then show thesis using u none released s
      by (auto simp: and_then_Inr simp del: applyQuotaLifecycleTransition.simps split: if_splits)
  next
    case False
    show thesis
    proof (cases rule: checked_cases[of "activeGrantLeases now grant st"])
      case (3 m ls al l)
      then show thesis using u none activated[OF _ _ _ _ _ _ 3] s False by (auto simp: Let_def split: if_splits)
    qed (use u none False in \<open>auto split: if_splits\<close>)
  qed
qed

lemma renew_cases:
  assumes "renewRelayInTransaction env i now b st = Inr (res, st')" "getRelayGrant st (b_requestId b) = Some grant"
  obtains (none) "st' = st" "\<nexists>g t. res = Relay_renewed g t"
    | (lost) al where "st' = saveInFlight al st" "res = Renewal_denied Lease_lost"
    | (renewed) m ls al l t where "res = Relay_renewed grant t" "gr_state grant = Attempted"
      "now < gr_credentialExpiresAtMs grant" "now < gr_authorizationExpiresAtMs grant" "\<not> grantBindingMismatch grant b i"
      "activeGrantLeases now grant st = Inr (Some (m, ls, al, l))" "lease_held grant l" "relayLeaseExpiry now = Inr t"
      "st' = saveInFlight (map (\<lambda>l. if l_requestId l = gr_requestId grant then l\<lparr>l_expiresAtMs := t\<rparr> else l) al) st"
    | (expired) "expireAttemptedGrant env i now grant st = Inr st'" "gr_state grant = Attempted" "gr_authorizationExpiresAtMs grant \<le> now"
proof -
  note u = assms(1)[unfolded renewRelayInTransaction_def assms(2) option.case]
  show thesis
  proof (cases "gr_authorizationExpiresAtMs grant \<le> now")
    case True
    then show thesis using u none expired by (auto simp: and_then_Inr split: if_splits)
  next
    case False
    show thesis
    proof (cases rule: checked_cases[of "activeGrantLeases now grant st"])
      case (3 m ls al l)
      then show thesis using u none lost renewed[OF _ _ _ _ _ 3] False by (auto simp: Let_def and_then_Inr split: if_splits)
    qed (use u none False in \<open>auto split: if_splits\<close>)
  qed
qed

lemma activate_sound:
  assumes "sound st" "activateRelayInTransaction env i now b st = Inr (res, st')"
  shows "sound st'"
proof (cases "getRelayGrant st (b_requestId b)")
  case None
  then show ?thesis using assms by (auto simp: activateRelayInTransaction_def)
next
  case (Some grant)
  obtain x where x: "gr_requestId grant = b_requestId b" "look st (b_requestId b) = Some x"
    using sound_parts(4)[OF assms(1)] Some by (fastforce simp: grants_ok_def)
  from assms(2) Some show ?thesis
  proof (cases rule: activate_cases)
    case activated
    then show ?thesis using sound_put_grant[OF assms(1), of "grant\<lparr>gr_state := Attempted\<rparr>" x] x by simp
  next
    case (released r1 st1 st2)
    have "abs_step Release y \<noteq> Held t" for y t by (cases y) auto
    then show ?thesis unfolding released(3) by (intro grant_transition_sound[OF assms(1) Some released(1,2)]) simp_all
  qed (use assms(1) in simp)
qed

lemma renew_sound:
  assumes "sound st" "renewRelayInTransaction env i now b st = Inr (res, st')"
  shows "sound st'"
proof (cases "getRelayGrant st (b_requestId b)")
  case None
  then show ?thesis using assms by (auto simp: renewRelayInTransaction_def)
next
  case (Some grant)
  from assms(2) Some show ?thesis
    by (cases rule: renew_cases) (use assms(1) sound_leases expire_sound[OF assms(1) Some] in auto)
qed

lemma parsed_terminal_legal: "parseRelayTerminal v = Some rep \<Longrightarrow> legal_transition (outcome_transition (t_outcome rep))"
  by (auto simp: parseRelayTerminal_def Let_def isSafeNonNegativeInteger_iff split: if_splits)

lemma finish_sound:
  assumes "sound st" "finishRelayInTransaction env i now b rep fp st = Inr (res, st')"
  shows "sound st'"
proof -
  consider "st' = st" | grant where "getRelayGrant st (b_requestId b) = Some grant" "expireAttemptedGrant env i now grant st = Inr st'"
    | grant report where "getRelayGrant st (b_requestId b) = Some grant" "parseRelayTerminal rep = Some report"
      "finish_apply env i now grant report fp st = Inr (res, st')"
    using assms(2) unfolding finishRelayInTransaction_def
    by (auto simp: and_then_Inr simp del: applyQuotaLifecycleTransition.simps split: if_splits option.splits)
  then show ?thesis
  proof cases
    case (2 grant)
    then show ?thesis using expire_sound[OF assms(1)] by blast
  next
    case (3 grant report)
    let ?tr = "outcome_transition (t_outcome report)"
    have nr: "?tr \<noteq> Reconcile d" for d by (cases "t_outcome report") simp_all
    note lg = parsed_terminal_legal[OF 3(2)]
    obtain ap st1 where a: "applyQuotaLifecycleTransition env i now (gr_requestId grant) ?tr st = Inr (ap, st1)"
      using 3(3) by (auto simp: finish_apply_def and_then_Inr simp del: applyQuotaLifecycleTransition.simps)
    have fin: "grant_entry_ok (outcome_state (t_outcome report)) (abs_step ?tr x)" for x
      by (cases "t_outcome report"; cases x) simp_all
    show ?thesis
    proof (cases "ap = Ok_transition Unknown_request")
      case True
      then have "st' = st1" using 3(3) a by (simp add: finish_apply_def del: applyQuotaLifecycleTransition.simps)
      then show ?thesis using apply_plain[OF assms(1) a lg nr] by simp
    next
      case False
      define g' where "g' = grant\<lparr>gr_state := outcome_state (t_outcome report), gr_terminalReport := Some report,
        gr_terminalFingerprint := Some fp\<rparr>"
      obtain st2 where "releaseGrantLease now grant st1 = Inr st2" "st' = putRelayGrant g' st2"
        using 3(3) a False
        by (auto simp: finish_apply_def Let_def and_then_Inr g'_def simp del: applyQuotaLifecycleTransition.simps split: option.splits)
      then show ?thesis using grant_transition_sound[OF assms(1) 3(1) a _ lg nr, of st2 g'] fin by (simp add: g'_def)
    qed
  qed (use assms(1) in simp)
qed

lemma reserve_sound:
  assumes "sound st" "reserve env i now r t u k c st = Inr (res, st')"
  shows "sound st'"
proof -
  consider "st' = st" | key resetAt where "getEntry st (reserve_target st r (reserve_key st key c)) = None" "0 \<le> the_int t" "the_int t \<le> the_int u"
      "has_room (loadPool st env i now) (the_int t) (the_int u)"
      "st' = write_reservation now (loadPool st env i now) r (the_int t) (the_int u) key c
        (Reserve_ok (remainingOf (loadPool st env i now) - the_int t) resetAt) st"
    using assms(2) unfolding reserve_def reserve_transaction_def Let_def
    by (auto simp: and_then_Inr split: if_splits option.splits parsed_key.splits)
  then show ?thesis
  proof cases
    case (2 key resetAt)
    have "getEntry st r = None"
      using 2(1) sound_parts(3)[OF assms(1)]
      by (cases "reserve_key st key c")
        (fastforce simp: reserve_target_def reserve_key_def idem_ok_def look_def getIdempotencyRequestId_def split: option.splits if_splits)+
    then show ?thesis using sound_reservation(1)[OF assms(1) _ 2(2-5)] by simp
  qed (use assms(1) in simp)
qed

text \<open>What an admission of a new request may do.\<close>

lemma admit_new_cases:
  assumes "admit_new env i now g1 g2 context metadata rawKey input st = Inr (res, st')"
  obtains (denied) code where "same_but_leases st st'" "res = Admission_denied code"
  | (admitted) st1 resetAt retention t q where "same_but_leases st st1"
    "has_room (loadPool st env i now) (the_int (a_reservedTokens input)) (the_int (a_upperBoundTokens input))"
    "st' = putRelayGrant (new_grant i now g1 g2 retention context metadata input) (saveInFlight
       (active_leases now st @ [\<lparr>l_requestId = c_requestId context, l_generation = g1, l_expiresAtMs = t\<rparr>])
       (write_reservation now (loadPool st env i now) (c_requestId context) (the_int (a_reservedTokens input))
         (the_int (a_upperBoundTokens input)) rawKey (Some (c_clientId context))
         (Reserve_ok (remainingOf (loadPool st env i now) - the_int (a_reservedTokens input)) resetAt) st1))"
    "res = Admitted (new_grant i now g1 g2 retention context metadata input) q"
    "int (length (active_leases now st)) < resolveMaxInFlightRequests (MAX_IN_FLIGHT_REQUESTS env)"
    "relayLeaseExpiry now = Inr t" "q_remaining q = remainingOf (loadPool st env i now) - the_int (a_reservedTokens input)"
proof (cases "has_room (loadPool st env i now) (the_int (a_reservedTokens input)) (the_int (a_upperBoundTokens input))")
  case False
  then show thesis using assms denied by (auto simp: admit_new_def Let_def)
next
  case True
  obtain ls mig where n: "normalizeInFlightState (loadInFlight st) now = Inr (ls, mig)"
    using assms True by (auto simp: admit_new_def Let_def and_then_Inr)
  define al where "al = withoutExpiredLeases ls now"
  define st1 where "st1 = (if mig \<or> length al \<noteq> length ls then saveInFlight al st else st)"
  have act: "active_leases now st = al" using purge_active(2)[OF n] by (simp add: al_def)
  have s1: "same_but_leases st st1" by (auto simp: st1_def)
  note u = assms[unfolded admit_new_def Let_def, unfolded n and_then_simps prod.case, folded al_def, folded st1_def]
  show thesis
  proof (cases "resolveMaxInFlightRequests (MAX_IN_FLIGHT_REQUESTS env) \<le> int (length al)")
    case True
    then show thesis using u \<open>has_room _ _ _\<close> denied s1 by auto
  next
    case False
    then show thesis
      using u \<open>has_room _ _ _\<close> admitted[OF s1 \<open>has_room _ _ _\<close>] unfolding act by (auto simp: and_then_Inr buildQuotaSnapshot_def remainingOf_def)
  qed
qed

lemma same_but_leases_loads:
  assumes "same_but_leases st st'"
  shows "loadPool st' = loadPool st" "getEntry st' = getEntry st" "look st' = look st" "getRelayGrant st' = getRelayGrant st"
    "st_idem st' = st_idem st"
  using same_ledger_ledger(4,5)[of st st'] same_ledger_ledger(2)[of st st'] same_but_leases_ledger[OF assms] same_but_leases_fields[OF assms]
  by (auto simp: getRelayGrant_def fun_eq_iff)

lemma admit_new_sound:
  assumes "sound st" "admit_new env i now g1 g2 context metadata rawKey input st = Inr (res, st')"
    and "getEntry st (c_requestId context) = None" "0 \<le> the_int (a_reservedTokens input)"
    and "the_int (a_reservedTokens input) \<le> the_int (a_upperBoundTokens input)"
  shows "sound st'"
  using assms(2)
proof (cases rule: admit_new_cases)
  case (denied code)
  then show ?thesis using sound_leases assms(1) by simp
next
  case (admitted st1 resetAt retention t q)
  note l = same_but_leases_loads[OF admitted(1)]
  have s1: "sound st1" using sound_leases[OF admitted(1)] assms(1) by simp
  define st2 where "st2 = write_reservation now (loadPool st1 env i now) (c_requestId context) (the_int (a_reservedTokens input))
         (the_int (a_upperBoundTokens input)) rawKey (Some (c_clientId context))
         (Reserve_ok (remainingOf (loadPool st env i now) - the_int (a_reservedTokens input)) resetAt) st1"
  have e1: "getEntry st1 (c_requestId context) = None" using assms(3) l by simp
  have s2: "sound st2"
    using sound_reservation(1)[OF s1 e1 assms(4,5) _ st2_def] admitted(2) l by simp
  have "look st2 (c_requestId context) = Some (Held (the_int (a_reservedTokens input)))"
    using write_reservation_ledger(2)[OF sound_parts(1)[OF s1] e1 assms(4,5) st2_def] by simp
  moreover have "sound (saveInFlight ls st2)" "look (saveInFlight ls st2) = look st2" for ls
    using sound_leases[of st2 "saveInFlight ls st2"] s2 same_but_leases_loads(3)[of st2 "saveInFlight ls st2"] by auto
  ultimately show ?thesis
    unfolding admitted(3) using l by (auto simp: st2_def new_grant_def intro!: sound_put_grant)
qed

lemma check_admission_bounds:
  assumes "check_admission sha256 env input st = Inr (context, metadata, rawKey)"
  shows "0 \<le> the_int (a_reservedTokens input)" "the_int (a_reservedTokens input) \<le> the_int (a_upperBoundTokens input)"
  using assms by (auto simp: check_admission_def isNonNegativeSafeInteger_def Let_def split: option.splits if_splits)

lemma admit_sound:
  assumes "sound st" "admitRelayInTransaction sha256 env i input now g1 g2 st = Inr (res, st')"
  shows "sound st'"
proof (cases "check_admission sha256 env input st")
  case (Inl code)
  then show ?thesis using assms by (simp add: admitRelayInTransaction_def)
next
  case (Inr ok)
  obtain ctx metadata rawKey where ok: "ok = (ctx, metadata, rawKey)" by (cases ok) auto
  note c = Inr[unfolded ok]
  consider "st' = st" | "getEntry st (c_requestId ctx) = None"
    "admit_new env i now g1 g2 ctx metadata rawKey input st = Inr (res, st')"
    using assms(2) by (auto simp: admitRelayInTransaction_def c and_then_Inr split: if_splits)
  then show ?thesis using assms(1) admit_new_sound[OF assms(1)] check_admission_bounds[OF c] by cases auto
qed

lemma sound_fields:
  assumes "st_pool st' = st_pool st" "st_entries st' = st_entries st" "st_idem st' = st_idem st"
    "st_unresolved st' = st_unresolved st" "st_grants st' = st_grants st"
  shows "sound st' = sound st"
proof -
  have l: "look st' = look st" "total f st' = total f st" "getEntry st' = getEntry st" "loadUnresolved st' = loadUnresolved st"
    "pool_limit st' = pool_limit st" "getRelayGrant st' = getRelayGrant st" for f
    by (simp_all add: look_def total_def getEntry_def loadUnresolved_def pool_limit_def getRelayGrant_def assms fun_eq_iff)
  have "ledger st' = ledger st" by (cases "st_pool st") (simp_all add: ledger_def l assms pool_counts_def)
  then show ?thesis by (simp add: sound_def capacity_def idem_ok_def grants_ok_def l assms)
qed

lemma fence_cases:
  assumes "fenceRelayCpuGateSetup st env i r now = Inr (res, st')"
  obtains "st' = st" | "st' = st\<lparr>st_fences := kv_put r True (st_fences st)\<rparr>" "getRelayGrant st r = None" "getEntry st r = None" "res = Fenced"
proof -
  obtain ins where ins: "getRelayCpuGateGrantInspection st env i r now = Inr ins"
    using assms by (auto simp: fenceRelayCpuGateSetup_def and_then_Inr)
  show thesis
  proof (cases ins)
    case (Absent fenced)
    then have "getRelayGrant st r = None" "getEntry st r = None"
      using ins by (auto simp: getRelayCpuGateGrantInspection_def and_then_Inr Let_def split: option.splits if_splits)
    then show thesis using that assms by (auto simp: fenceRelayCpuGateSetup_def ins Absent split: if_splits)
  qed (use that assms in \<open>auto simp: fenceRelayCpuGateSetup_def ins\<close>)
qed

lemma fence_sound:
  assumes "sound st" "fenceRelayCpuGateSetup st env i r now = Inr (res, st')"
  shows "sound st'"
  using assms(2) by (cases rule: fence_cases) (use assms(1) sound_fields[of st' st] in auto)

lemma finalize_transaction_sound:
  assumes "sound st" "finalize_transaction st = (res, st')"
  shows "sound st'"
proof -
  have "st' = st \<or> st' = st\<lparr>st_finalized := True\<rparr>"
    using assms(2) by (auto simp: finalize_transaction_def Let_def split: if_splits)
  then show ?thesis using assms(1) sound_fields[of st' st] by auto
qed

lemma finalize_sound: "sound st \<Longrightarrow> finalizeDay st = (res, st') \<Longrightarrow> sound st'"
  using finalize_transaction_sound sound_empty by (auto simp: finalizeDay_def split: prod.splits if_splits)

lemma tag_Inr: "tag f r = Inr (a, st') \<longleftrightarrow> (\<exists>x. r = Inr (x, st') \<and> a = f x)"
  by (auto simp: tag_def and_then_Inr)

lemma lease_ops_sound:
  assumes "sound st"
  shows "acquireInFlightLease n u r l t st = Inr (a, st') \<Longrightarrow> sound st'"
    "renewInFlightLease n r g t st = Inr (b, st') \<Longrightarrow> sound st'" "releaseInFlightLease n r go st = Inr (c, st') \<Longrightarrow> sound st'"
  by (simp_all add: sound_leases[OF lease_ops_same(1)] sound_leases[OF lease_ops_same(2)] sound_leases[OF lease_ops_same(3)] assms)

lemmas operation_sound = reserve_sound plain_transition_sound lease_ops_sound admit_sound activate_sound renew_sound
  finish_sound reconcile_sound fence_sound finalize_sound

lemma transaction_sound:
  assumes "sound st" "transaction sha256 env i now call st = Inr (a, st')"
  shows "sound st'"
proof -
  note o = operation_sound[OF assms(1)]
  show ?thesis
  proof (cases call)
    case (Call_settle r n)
    then show ?thesis using assms(2) o(2)[of "the_int n"]
      by (auto simp: settle_def tag_Inr intro: prod.exhaust split: if_splits)
  next
    case (Call_reconcileRequest r d)
    then show ?thesis using assms(2) by (auto simp: reconcileRequest_def tag_Inr dest: reconcile_sound[OF assms(1)] split: option.splits)
  next
    case (Call_fence r)
    then show ?thesis using assms(2) by (auto simp: tag_Inr dest: fence_sound[OF assms(1)] split: if_splits)
  qed (use assms(2) in \<open>auto simp: tag_Inr dest: o\<close>)
qed

end
