(* ===== verification/Frames.thy ===== *)
theory Frames
  imports Soundness
begin

section \<open>Frames: how requests and grants evolve under the operations\<close>

text \<open>
  The state machine of a grant and the frame of every operation of the controller: what a call may change
  of a stored request and of a stored grant.  Only \<open>finalizeDay\<close> removes records.
\<close>

subsection \<open>The grant state machine\<close>

inductive grant_edge :: "grant_state \<Rightarrow> grant_state \<Rightarrow> bool" where
  activate: "grant_edge Authorized Attempted"
| release: "grant_edge Authorized Released"
| report_uncertain: "s \<in> {Authorized, Attempted, Uncertain} \<Longrightarrow> grant_edge s Uncertain"
| report_settled: "s \<in> {Attempted, Uncertain} \<Longrightarrow> grant_edge s Settled"
| reconcile: "s \<in> {Authorized, Attempted, Uncertain} \<Longrightarrow> s' \<in> {Reconciled_consumed, Reconciled_unused} \<Longrightarrow> grant_edge s s'"

code_pred grant_edge .

inductive_simps grant_edge_simps [simp]:
  "grant_edge Settled s" "grant_edge Released s" "grant_edge Reconciled_consumed s" "grant_edge Reconciled_unused s"
  "grant_edge s Authorized"

inductive_cases grant_edge_attempted: "grant_edge s Attempted"
inductive_cases grant_edge_released: "grant_edge s Released"

lemma grant_edge_live: "grant_edge s s' \<Longrightarrow> \<not> isTerminalGrantState s"
  by (auto elim!: grant_edge.cases simp: isTerminalGrantState_def)

lemma terminal_no_edge: "isTerminalGrantState s \<Longrightarrow> \<not> grant_edge s s'"
  using grant_edge_live by blast

text \<open>A grant keeps everything but its state and its report, and its state moves along one edge or stays.\<close>

definition grant_evolves :: "relay_grant \<Rightarrow> relay_grant \<Rightarrow> bool" where
  "grant_evolves g g' \<longleftrightarrow> g' = g \<or>
     (\<exists>s t f. g' = g\<lparr>gr_state := s, gr_terminalReport := t, gr_terminalFingerprint := f\<rparr> \<and> grant_edge (gr_state g) s)"

lemma grant_evolves_refl [simp]: "grant_evolves g g"
  by (simp add: grant_evolves_def)

lemma grant_evolvesI:
  "grant_edge (gr_state g) s \<Longrightarrow> grant_evolves g (g\<lparr>gr_state := s\<rparr>)"
  "grant_edge (gr_state g) s \<Longrightarrow> grant_evolves g (g\<lparr>gr_state := s, gr_terminalReport := t, gr_terminalFingerprint := f\<rparr>)"
proof -
  assume e: "grant_edge (gr_state g) s"
  then show "grant_evolves g (g\<lparr>gr_state := s, gr_terminalReport := t, gr_terminalFingerprint := f\<rparr>)"
    by (auto simp: grant_evolves_def)
  have "g\<lparr>gr_state := s\<rparr> = g\<lparr>gr_state := s, gr_terminalReport := gr_terminalReport g, gr_terminalFingerprint := gr_terminalFingerprint g\<rparr>"
    by simp
  with e show "grant_evolves g (g\<lparr>gr_state := s\<rparr>)" unfolding grant_evolves_def by blast
qed

lemma grant_evolves_same:
  assumes "grant_evolves g g'"
  shows "gr_requestId g' = gr_requestId g" "gr_grantId g' = gr_grantId g" "gr_leaseGeneration g' = gr_leaseGeneration g"
    "gr_admission g' = gr_admission g" "gr_credentialExpiresAtMs g' = gr_credentialExpiresAtMs g"
    "gr_authorizationExpiresAtMs g' = gr_authorizationExpiresAtMs g"
    "gr_state g' = gr_state g \<or> grant_edge (gr_state g) (gr_state g')" "isTerminalGrantState (gr_state g) \<Longrightarrow> g' = g"
  using assms terminal_no_edge by (auto simp: grant_evolves_def)

definition grants_frame :: "quota_store \<Rightarrow> quota_store \<Rightarrow> bool" where
  "grants_frame st st' \<longleftrightarrow> (\<forall>r g. getRelayGrant st r = Some g \<longrightarrow> (\<exists>g'. getRelayGrant st' r = Some g' \<and> grant_evolves g g'))"

lemma grants_frame_same: "st_grants st' = st_grants st \<Longrightarrow> grants_frame st st'"
  by (simp add: grants_frame_def getRelayGrant_def)

lemma grants_frame_put:
  assumes "st_grants st1 = st_grants st" "getRelayGrant st r = Some g" "gr_requestId g' = r" "grant_evolves g g'"
  shows "grants_frame st (putRelayGrant g' st1)"
  using assms by (auto simp: grants_frame_def store_simps getRelayGrant_def[of st1] getRelayGrant_def[of st])

subsection \<open>Requests\<close>

text \<open>What a request keeps: its size, its key and its reservation result.\<close>

definition entry_evolves :: "request_entry \<Rightarrow> request_entry \<Rightarrow> bool" where
  "entry_evolves e e' \<longleftrightarrow> e_tokens e' = e_tokens e \<and> e_upperBoundTokens e' = e_upperBoundTokens e \<and>
     e_reservedTokens e' = e_reservedTokens e \<and> e_idempotencyKey e' = e_idempotencyKey e \<and> e_createdAt e' = e_createdAt e \<and>
     res_reserve (e_results e') = res_reserve (e_results e)"

definition entries_frame :: "quota_store \<Rightarrow> quota_store \<Rightarrow> bool" where
  "entries_frame st st' \<longleftrightarrow> (\<forall>r e. getEntry st r = Some e \<longrightarrow>
     (\<exists>e'. getEntry st' r = Some e' \<and> entry_evolves e e' \<and> (abs_entry e' = abs_entry e \<or> (\<exists>tr. abs_entry e' = abs_step tr (abs_entry e)))))"

lemma entries_frame_same: "st_entries st' = st_entries st \<Longrightarrow> entries_frame st st'"
  by (auto simp: entries_frame_def getEntry_def entry_evolves_def)

lemma entries_frame_look:
  assumes "st_entries st' = kv_put r e' (st_entries st)" "getEntry st r = Some e" "entry_evolves e e'"
    and "abs_entry e' = abs_entry e \<or> (\<exists>tr. abs_entry e' = abs_step tr (abs_entry e))"
  shows "entries_frame st st'"
  using assms by (auto simp: entries_frame_def getEntry_def entry_evolves_def)

lemma entries_frame_new:
  assumes "st_entries st' = kv_put r e' (st_entries st)" "getEntry st r = None"
  shows "entries_frame st st'"
  using assms by (auto simp: entries_frame_def getEntry_def entry_evolves_def)

text \<open>The transitions, whose effect on the abstract request is known from Ledger.\<close>

lemma plain_transition_entries:
  "settle_transition env i now r n st = (a, st') \<Longrightarrow> getEntry st r = Some e \<Longrightarrow> \<exists>e'. st_entries st' = kv_put r e' (st_entries st) \<and> entry_evolves e e' \<or> st' = st"
  "markUncertain_transition env i now r st = (a, st') \<Longrightarrow> getEntry st r = Some e \<Longrightarrow> \<exists>e'. st_entries st' = kv_put r e' (st_entries st) \<and> entry_evolves e e' \<or> st' = st"
  "release_transition env i now r st = (a, st') \<Longrightarrow> getEntry st r = Some e \<Longrightarrow> \<exists>e'. st_entries st' = kv_put r e' (st_entries st) \<and> entry_evolves e e' \<or> st' = st"
  "markReserveOutcomeUnknown env i now r st = (b, st') \<Longrightarrow> getEntry st r = Some e \<Longrightarrow> \<exists>e'. st_entries st' = kv_put r e' (st_entries st) \<and> entry_evolves e e' \<or> st' = st"
  by (auto simp: settle_transition_def markUncertain_transition_def release_transition_def markReserveOutcomeUnknown_def
      Let_def store_simps entry_evolves_def split: option.splits if_splits intro!: exI)

lemma transition_frame:
  assumes "change r (map_option (abs_step tr) (look st r)) st st'"
    and "\<And>e. getEntry st r = Some e \<Longrightarrow> \<exists>e'. st_entries st' = kv_put r e' (st_entries st) \<and> entry_evolves e e' \<or> st' = st"
    and "getEntry st r = None \<Longrightarrow> st' = st"
  shows "entries_frame st st'"
proof (cases "getEntry st r")
  case None
  then show ?thesis using assms(3) entries_frame_same by simp
next
  case (Some e)
  obtain e' where e: "st_entries st' = kv_put r e' (st_entries st) \<and> entry_evolves e e' \<or> st' = st" using assms(2)[OF Some] by blast
  show ?thesis
  proof (cases "st' = st")
    case False
    then have e': "st_entries st' = kv_put r e' (st_entries st)" "entry_evolves e e'" using e by simp_all
    have "look st' r = Some (abs_step tr (abs_entry e))" using assms(1) Some by (simp add: change_def look_def)
    then have "abs_entry e' = abs_step tr (abs_entry e)" using look_put[OF e'(1)] by simp
    then show ?thesis using entries_frame_look[OF e'(1) Some e'(2)] by blast
  qed (simp add: entries_frame_same)
qed

subsection \<open>The frame of a call\<close>

text \<open>An idempotency key stays bound to its request while the request is not released.\<close>

definition keys_frame :: "quota_store \<Rightarrow> quota_store \<Rightarrow> bool" where
  "keys_frame st st' \<longleftrightarrow> (\<forall>k r. kv_get (st_idem st) k = Some r \<longrightarrow> kv_get (st_idem st') k = Some r \<or> look st r = Some Freed)"

definition frame :: "quota_store \<Rightarrow> quota_store \<Rightarrow> bool" where
  "frame st st' \<longleftrightarrow> entries_frame st st' \<and> grants_frame st st' \<and> keys_frame st st' \<and>
     (\<forall>r. kv_get (st_fences st) r = Some True \<longrightarrow> kv_get (st_fences st') r = Some True) \<and>
     (\<forall>r. kv_get (st_fences st') r = Some True \<longrightarrow> kv_get (st_fences st) r = Some True \<or> getEntry st r = None) \<and>
     (st_finalized st \<longrightarrow> st_finalized st')"

lemma frame_same_ledger:
  assumes "same_ledger st st'" "grants_frame st st'"
  shows "frame st st'"
  using assms(2) entries_frame_same[OF same_ledger_fields(2)[OF assms(1)]] same_ledger_fields[OF assms(1)]
  by (simp add: frame_def keys_frame_def)

lemma frame_refl [simp]: "frame st st"
  by (intro frame_same_ledger grants_frame_same) auto

lemma frame_leases: "same_but_leases st st' \<Longrightarrow> frame st st'"
  using same_but_leases_ledger by (intro frame_same_ledger grants_frame_same) auto

lemma frame_change:
  assumes "change r x st st'" "entries_frame st st'" "st_grants st' = st_grants st"
  shows "frame st st'"
  using assms by (simp add: frame_def change_def keys_frame_def grants_frame_same)

lemma plain_transition_frame:
  assumes "ledger st"
  shows "0 \<le> n \<Longrightarrow> settle_transition env i now r n st = (a, st') \<Longrightarrow> frame st st'"
    "markUncertain_transition env i now r st = (a, st') \<Longrightarrow> frame st st'"
    "release_transition env i now r st = (a, st') \<Longrightarrow> frame st st'"
    "markReserveOutcomeUnknown env i now r st = (b, st') \<Longrightarrow> frame st st'"
proof -
  show "frame st st'" if t: "0 \<le> n" "settle_transition env i now r n st = (a, st')"
    using settle_refines[OF assms t] plain_transition_grants(1)[OF t(2)] plain_transition_entries(1)[OF t(2)] t(2)
    by (intro frame_change[where r = r] transition_frame[where r = r and tr = "Settle n"]) (auto simp: settle_transition_def)
  show "frame st st'" if t: "markUncertain_transition env i now r st = (a, st')"
    using markUncertain_refines[OF assms t] plain_transition_grants(2)[OF t] plain_transition_entries(2)[OF t] t
    by (intro frame_change[where r = r] transition_frame[where r = r and tr = Mark_uncertain]) (auto simp: markUncertain_transition_def)
  show "frame st st'" if t: "release_transition env i now r st = (a, st')"
    using release_refines[OF assms t] plain_transition_grants(3)[OF t] plain_transition_entries(3)[OF t] t
    by (intro frame_change[where r = r] transition_frame[where r = r and tr = Release]) (auto simp: release_transition_def)
  show "frame st st'" if t: "markReserveOutcomeUnknown env i now r st = (b, st')"
    using markReserveOutcomeUnknown_refines[OF assms t] plain_transition_grants(4)[OF t] plain_transition_entries(4)[OF t] t
    by (intro frame_change[where r = r] transition_frame[where r = r and tr = Mark_uncertain]) (auto simp: markReserveOutcomeUnknown_def)
qed

lemma frame_put_grant:
  assumes "frame st st1" "st_grants st1 = st_grants st" "getRelayGrant st r = Some g" "gr_requestId g' = r" "grant_evolves g g'"
  shows "frame st (putRelayGrant g' st1)"
  using assms(1) grants_frame_put[OF assms(2-5)]
  by (simp add: frame_def store_simps keys_frame_def entries_frame_def)

lemma reconcile_frame:
  assumes "sound st" "reconcile_transition env i now r d st = Inr (res, st')"
  shows "frame st st'"
  using reconcile_split[OF sound_parts(1)[OF assms(1)] assms(2)]
proof cases
  case (2 st1)
  note rl = 2(1)[unfolded reconcile_ledger_def]
  have ent: "\<exists>e'. st_entries st' = kv_put r e' (st_entries st) \<and> entry_evolves e e' \<or> st' = st" if "getEntry st r = Some e" for e
    using assms(2) that
    by (auto simp: reconcile_transition_def Let_def and_then_Inr entry_evolves_def store_simps
        dest!: terminalize_same_ledger same_ledger_fields(2) split: option.splits if_splits intro!: exI)
  have "same_ledger st1 st'" using 2(2) by (rule terminalize_same_ledger)
  then have ch: "change r (map_option (abs_step (Reconcile d)) (look st r)) st st'" using rl same_ledger_ledger(7) by blast
  have "getEntry st r = None \<Longrightarrow> st' = st" using assms(2) by (simp add: reconcile_transition_def)
  from transition_frame[OF ch ent this] have ef: "entries_frame st st'" by blast
  have "grants_frame st st'"
  proof -
    consider "st' = st1" | grant st2 b where "getRelayGrant st1 r = Some grant" "\<not> isTerminalGrantState (gr_state grant)"
      "releaseInFlightLease now r (Some (gr_leaseGeneration grant)) st1 = Inr (b, st2)"
      "st' = putRelayGrant (grant\<lparr>gr_state := (if d = Consumed then Reconciled_consumed else Reconciled_unused),
       gr_terminalReport := None, gr_terminalFingerprint := Some (disposition_name d)\<rparr>) st2"
      using 2(2) by (auto simp: terminalizeGrantOnReconcile_def and_then_Inr split: option.splits if_splits)
    then show ?thesis
    proof cases
      case 1
      then show ?thesis using rl by (simp add: grants_frame_same)
    next
      case g: (2 grant st2 b)
      have gr: "getRelayGrant st r = Some grant" using g(1) rl by (simp add: getRelayGrant_def)
      then have "gr_requestId grant = r" using sound_parts(4)[OF assms(1)] by (simp add: grants_ok_def)
      moreover have "grant_edge (gr_state grant) (if d = Consumed then Reconciled_consumed else Reconciled_unused)"
        using g(2) by (intro grant_edge.reconcile; cases "gr_state grant") (simp_all add: isTerminalGrantState_def)
      moreover have "st_grants st2 = st_grants st" using rl same_but_leases_fields(6)[OF lease_ops_same(3)[OF g(3)]] by simp
      ultimately show ?thesis
        unfolding g(4) using grants_frame_put[of st2 st r grant, OF _ gr _ grant_evolvesI(2)] by simp
    qed
  qed
  with ef ch show ?thesis by (simp add: frame_def change_def keys_frame_def)
qed simp

lemma apply_frame:
  assumes "sound st" "applyQuotaLifecycleTransition env i now r tr st = Inr (res, st')" "legal_transition tr"
  shows "frame st st'"
  using assms(2,3) plain_transition_frame[OF sound_parts(1)[OF assms(1)]] reconcile_frame[OF assms(1)]
  by (cases tr) (fastforce simp: and_then_Inr map_prod_def split: prod.splits)+

text \<open>A transition, the release of the lease and the new state of the grant.\<close>

lemma grant_transition_frame:
  assumes "sound st" "getRelayGrant st r = Some grant" "applyQuotaLifecycleTransition env i now (gr_requestId grant) tr st = Inr (res, st1)"
    "releaseGrantLease now grant st1 = Inr st2" "legal_transition tr" "\<And>d. tr \<noteq> Reconcile d" "grant_evolves grant g'"
  shows "frame st (putRelayGrant g' st2)"
proof -
  note a = apply_plain[OF assms(1,3,5,6)]
  note sl = releaseGrantLease_leases[OF assms(4)]
  have "gr_requestId grant = r" using sound_parts(4)[OF assms(1)] assms(2) by (simp add: grants_ok_def)
  moreover have "frame st st2"
    using apply_frame[OF assms(1,3,5)] same_but_leases_fields[OF sl] same_but_leases_loads[OF sl]
    by (simp add: frame_def entries_frame_def grants_frame_def keys_frame_def)
  ultimately show ?thesis
    using a assms(2,7) grant_evolves_same(1)[OF assms(7)] same_but_leases_fields(6)[OF sl] by (intro frame_put_grant) simp_all
qed

lemma expire_frame:
  assumes "sound st" "getRelayGrant st r = Some grant" "expireAttemptedGrant env i now grant st = Inr st'" "gr_state grant = Attempted"
  shows "frame st st'"
proof -
  obtain res st1 st2 where s: "applyQuotaLifecycleTransition env i now (gr_requestId grant) Mark_uncertain st = Inr (res, st1)"
    "releaseGrantLease now grant st1 = Inr st2" "st' = putRelayGrant (grant\<lparr>gr_state := Uncertain\<rparr>) st2"
    using assms(3) by (auto simp: expireAttemptedGrant_def and_then_Inr simp del: applyQuotaLifecycleTransition.simps)
  have "grant_evolves grant (grant\<lparr>gr_state := Uncertain\<rparr>)"
    using assms(4) by (intro grant_evolvesI grant_edge.report_uncertain) simp
  then show ?thesis unfolding s(3) by (intro grant_transition_frame[OF assms(1,2) s(1,2)]) simp_all
qed

subsection \<open>The frame of the operations\<close>

lemma frame_reservation:
  assumes "sound st" "getEntry st r = None" "0 \<le> t" "t \<le> u"
    and "st' = write_reservation now (loadPool st env i now) r t u key c (Reserve_ok rm ra) st"
    and "\<And>k m. key = Some k \<Longrightarrow> kv_get (st_idem st) (idem_key c k) = Some m \<Longrightarrow> m = r \<or> look st m = Some Freed"
  shows "frame st st'"
proof -
  note w = write_reservation_ledger[OF sound_parts(1)[OF assms(1)] assms(2-5)]
  have "\<exists>e'. st_entries st' = kv_put r e' (st_entries st)"
    by (auto simp: assms(5) write_reservation_def Let_def store_simps split: option.split)
  then have "entries_frame st st'" using entries_frame_new assms(2) by blast
  moreover have "keys_frame st st'"
    unfolding keys_frame_def using assms(6) by (auto simp: w split: option.split)
  ultimately show ?thesis by (simp add: frame_def w grants_frame_same)
qed

lemma released_freed: "getEntry st r = Some e \<Longrightarrow> e_state e = Req_released \<Longrightarrow> look st r = Some Freed"
  by (simp add: look_def abs_entry_def)

text \<open>What a reservation may do.\<close>

lemma reserve_cases:
  assumes "reserve env i now r t u k c st = Inr (res, st')"
  obtains (same) "st' = st"
  | (reserved) key resetAt where "getEntry st (reserve_target st r (reserve_key st key c)) = None" "0 \<le> the_int t" "the_int t \<le> the_int u"
      "has_room (loadPool st env i now) (the_int t) (the_int u)" "res = Reserve_ok (remainingOf (loadPool st env i now) - the_int t) resetAt"
      "st' = write_reservation now (loadPool st env i now) r (the_int t) (the_int u) key c
        (Reserve_ok (remainingOf (loadPool st env i now) - the_int t) resetAt) st" "\<not> st_finalized st"
  using assms unfolding reserve_def reserve_transaction_def Let_def
  by (auto simp: and_then_Inr split: if_splits option.splits parsed_key.splits)

text \<open>In a sound store the request of a new reservation has no entry, and its key was free.\<close>

lemma reserve_target_free:
  assumes "idem_ok st" "getEntry st (reserve_target st r (reserve_key st key c)) = None"
  shows "getEntry st r = None"
    "key = Some k \<Longrightarrow> kv_get (st_idem st) (idem_key c k) = Some m \<Longrightarrow> m = r \<or> look st m = Some Freed"
proof -
  have m: "look st m \<noteq> None" if "key = Some k" "kv_get (st_idem st) (idem_key c k) = Some m" for k m
    using assms(1) that by (fastforce simp: idem_ok_def)
  show "getEntry st r = None"
    using assms(2) by (auto simp: reserve_target_def reserve_key_def getIdempotencyRequestId_def look_def split: option.splits if_splits dest!: m)
  show "m = r \<or> look st m = Some Freed" if "key = Some k" "kv_get (st_idem st) (idem_key c k) = Some m"
    using assms(2) m[OF that] that released_freed[of st m]
    by (auto simp: reserve_target_def reserve_key_def getIdempotencyRequestId_def look_def split: option.splits if_splits)
qed

lemma reserve_frame:
  assumes "sound st" "reserve env i now r t u k c st = Inr (res, st')"
  shows "frame st st'"
  using assms(2)
proof (cases rule: reserve_cases)
  case (reserved key resetAt)
  note f = reserve_target_free[OF sound_parts(3)[OF assms(1)] reserved(1)]
  show ?thesis by (rule frame_reservation[OF assms(1) f(1) reserved(2,3,6)]) (rule f(2))
qed simp

lemma frame_trans_leases: "same_but_leases st st1 \<Longrightarrow> frame st1 st' \<Longrightarrow> frame st st'"
  using same_but_leases_fields[of st st1] same_but_leases_loads[of st st1]
  by (auto simp: frame_def entries_frame_def grants_frame_def keys_frame_def)

lemma frame_save_leases: "frame st st' \<Longrightarrow> frame st (saveInFlight ls st')"
  by (simp add: frame_def store_simps entries_frame_def grants_frame_def keys_frame_def)

lemma frame_new_grant: "frame st st' \<Longrightarrow> getRelayGrant st (gr_requestId g) = None \<Longrightarrow> frame st (putRelayGrant g st')"
  by (auto simp: frame_def store_simps entries_frame_def grants_frame_def keys_frame_def)

lemma no_entry_no_grant: "grants_ok st \<Longrightarrow> getEntry st r = None \<Longrightarrow> getRelayGrant st r = None"
  by (cases "getRelayGrant st r") (fastforce simp: grants_ok_def look_def)+

lemma key_free:
  assumes "\<not> key_taken st rawKey ctx" "idem_ok st" "rawKey = Some k" "kv_get (st_idem st) (idem_key (Some (c_clientId ctx)) k) = Some m"
  shows "m = c_requestId ctx \<or> look st m = Some Freed"
  using assms released_freed[of st m] by (auto simp: key_taken_def getIdempotencyRequestId_def split: option.splits)

lemma admit_new_frame:
  assumes "sound st" "admit_new env i now g1 g2 ctx metadata rawKey input st = Inr (res, st')" "\<not> key_taken st rawKey ctx"
    and "getEntry st (c_requestId ctx) = None" "0 \<le> the_int (a_reservedTokens input)"
    and "the_int (a_reservedTokens input) \<le> the_int (a_upperBoundTokens input)"
  shows "frame st st'"
  using assms(2)
proof (cases rule: admit_new_cases)
  case (denied code)
  then show ?thesis by (simp add: frame_leases)
next
  case (admitted st1 resetAt retention t q)
  note l = same_but_leases_loads[OF admitted(1)]
  have s1: "sound st1" using sound_leases[OF admitted(1)] assms(1) by simp
  have e1: "getEntry st1 (c_requestId ctx) = None" using assms(4) l by simp
  have "key = Some k \<Longrightarrow> kv_get (st_idem st1) (idem_key (Some (c_clientId ctx)) k) = Some m \<Longrightarrow> m = c_requestId ctx \<or> look st1 m = Some Freed"
    if "rawKey = key" for key k m
    using key_free[OF assms(3) sound_parts(3)[OF assms(1)]] that l by simp
  note f1 = frame_reservation[OF s1 e1 assms(5,6) refl this[OF refl]]
  have "getRelayGrant st (c_requestId ctx) = None" using no_entry_no_grant sound_parts(4)[OF assms(1)] assms(4) by blast
  then show ?thesis
    unfolding admitted(3) l(1)[symmetric]
    by (intro frame_new_grant frame_save_leases frame_trans_leases[OF admitted(1)] f1) (simp_all add: new_grant_def)
qed

lemma admit_frame:
  assumes "sound st" "admitRelayInTransaction sha256 env i input now g1 g2 st = Inr (res, st')"
  shows "frame st st'"
proof (cases "check_admission sha256 env input st")
  case (Inl code)
  then show ?thesis using assms by (simp add: admitRelayInTransaction_def)
next
  case (Inr ok)
  obtain ctx metadata rawKey where ok: "ok = (ctx, metadata, rawKey)" by (cases ok) auto
  note c = Inr[unfolded ok]
  consider "st' = st" | "getEntry st (c_requestId ctx) = None" "\<not> key_taken st rawKey ctx"
    "admit_new env i now g1 g2 ctx metadata rawKey input st = Inr (res, st')"
    using assms(2) by (auto simp: admitRelayInTransaction_def c and_then_Inr split: if_splits)
  then show ?thesis
    by cases (use admit_new_frame[OF assms(1)] check_admission_bounds[OF c] in auto)
qed

lemma activate_frame:
  assumes "sound st" "activateRelayInTransaction env i now b st = Inr (res, st')"
  shows "frame st st'"
proof (cases "getRelayGrant st (b_requestId b)")
  case None
  then show ?thesis using assms by (auto simp: activateRelayInTransaction_def)
next
  case (Some grant)
  have id: "gr_requestId grant = b_requestId b" using sound_parts(4)[OF assms(1)] Some by (simp add: grants_ok_def)
  from assms(2) Some show ?thesis
  proof (cases rule: activate_cases)
    case activated
    have "grant_evolves grant (grant\<lparr>gr_state := Attempted\<rparr>)"
      using activated(3) by (intro grant_evolvesI) (simp add: grant_edge.activate)
    then show ?thesis unfolding activated(1) using frame_put_grant[OF frame_refl refl Some] id by simp
  next
    case (released r1 st1 st2)
    have "grant_evolves grant (grant\<lparr>gr_state := Released\<rparr>)"
      using released(5) by (intro grant_evolvesI) (simp add: grant_edge.release)
    then show ?thesis unfolding released(3) by (intro grant_transition_frame[OF assms(1) Some released(1,2)]) simp_all
  qed simp
qed

lemma renew_frame:
  assumes "sound st" "renewRelayInTransaction env i now b st = Inr (res, st')"
  shows "frame st st'"
proof (cases "getRelayGrant st (b_requestId b)")
  case None
  then show ?thesis using assms by (auto simp: renewRelayInTransaction_def)
next
  case (Some grant)
  from assms(2) Some show ?thesis
    by (cases rule: renew_cases) (use frame_leases expire_frame[OF assms(1) Some] in auto)
qed

text \<open>What a terminal report may do to a stored grant.\<close>

lemma finish_cases:
  assumes "finishRelayInTransaction env i now b rep fp st = Inr (res, st')"
  obtains (same) "st' = st"
  | (expired) grant where "getRelayGrant st (b_requestId b) = Some grant" "expireAttemptedGrant env i now grant st = Inr st'" "gr_state grant = Attempted"
  | (reported) grant report where "getRelayGrant st (b_requestId b) = Some grant" "parseRelayTerminal rep = Some report"
      "\<not> isTerminalGrantState (gr_state grant)" "t_outcome report = Outcome_release \<Longrightarrow> gr_state grant = Authorized"
      "is_settle (t_outcome report) \<Longrightarrow> gr_state grant \<noteq> Authorized"
      "now < gr_credentialExpiresAtMs grant" "\<not> grantBindingMismatch grant b i"
      "finish_apply env i now grant report fp st = Inr (res, st')"
  using assms unfolding finishRelayInTransaction_def
  by (auto simp: and_then_Inr simp del: applyQuotaLifecycleTransition.simps split: if_splits option.splits)

lemma report_edge:
  assumes "\<not> isTerminalGrantState s" "oc = Outcome_release \<Longrightarrow> s = Authorized" "is_settle oc \<Longrightarrow> s \<noteq> Authorized"
  shows "grant_edge s (outcome_state oc)"
  using assms by (cases oc; cases s) (simp_all add: isTerminalGrantState_def grant_edge.intros)

lemma finish_frame:
  assumes "sound st" "finishRelayInTransaction env i now b rep fp st = Inr (res, st')"
  shows "frame st st'"
  using assms(2)
proof (cases rule: finish_cases)
  case (expired grant)
  then show ?thesis using expire_frame[OF assms(1)] by blast
next
  case (reported grant report)
  let ?tr = "outcome_transition (t_outcome report)"
  have nr: "?tr \<noteq> Reconcile d" for d by (cases "t_outcome report") simp_all
  note lg = parsed_terminal_legal[OF reported(2)]
  obtain ap st1 where a: "applyQuotaLifecycleTransition env i now (gr_requestId grant) ?tr st = Inr (ap, st1)"
    using reported(8) by (auto simp: finish_apply_def and_then_Inr simp del: applyQuotaLifecycleTransition.simps)
  show ?thesis
  proof (cases "ap = Ok_transition Unknown_request")
    case True
    then have "st' = st1" using reported(8) a by (simp add: finish_apply_def del: applyQuotaLifecycleTransition.simps)
    then show ?thesis using apply_frame[OF assms(1) a lg] by simp
  next
    case False
    define g' where "g' = grant\<lparr>gr_state := outcome_state (t_outcome report), gr_terminalReport := Some report,
      gr_terminalFingerprint := Some fp\<rparr>"
    obtain st2 where "releaseGrantLease now grant st1 = Inr st2" "st' = putRelayGrant g' st2"
      using reported(8) a False
      by (auto simp: finish_apply_def Let_def and_then_Inr g'_def simp del: applyQuotaLifecycleTransition.simps split: option.splits)
    moreover have "grant_evolves grant g'"
      unfolding g'_def using report_edge[OF reported(3-5)] by (intro grant_evolvesI) simp
    ultimately show ?thesis using grant_transition_frame[OF assms(1) reported(1) a _ lg nr] by blast
  qed
qed simp

lemma fence_frame:
  assumes "fenceRelayCpuGateSetup st env i r now = Inr (res, st')"
  shows "frame st st'"
  using assms by (cases rule: fence_cases) (auto simp: frame_def entries_frame_same grants_frame_same keys_frame_def)

lemma finalize_transaction_frame:
  assumes "finalize_transaction st = (res, st')"
  shows "frame st st'"
proof -
  have "st' = st \<or> st' = st\<lparr>st_finalized := True\<rparr>"
    using assms by (auto simp: finalize_transaction_def Let_def split: if_splits)
  then show ?thesis by (auto simp: frame_def entries_frame_same grants_frame_same keys_frame_def)
qed

lemmas operation_frame = reserve_frame plain_transition_frame[OF sound_parts(1)] lease_ops_same[THEN frame_leases]
  admit_frame activate_frame renew_frame finish_frame reconcile_frame fence_frame

text \<open>Every call but \<open>finalizeDay\<close>, which empties the storage, keeps the frame.\<close>

lemma transaction_frame:
  assumes "sound st" "transaction sha256 env i now call st = Inr (a, st')" "call \<noteq> Call_finalizeDay"
  shows "frame st st'"
proof -
  note o = operation_frame
  show ?thesis
  proof (cases call)
    case (Call_settle r n)
    then show ?thesis using assms(1,2) o(2)[OF assms(1), of "the_int n"]
      by (auto simp: settle_def tag_Inr intro: prod.exhaust split: if_splits)
  next
    case (Call_reconcileRequest r d)
    then show ?thesis using assms by (auto simp: reconcileRequest_def tag_Inr dest: reconcile_frame split: option.splits)
  next
    case (Call_fence r)
    then show ?thesis using assms by (auto simp: tag_Inr dest: fence_frame split: if_splits)
  qed (use assms in \<open>auto simp: tag_Inr dest: o\<close>)
qed

end
