(* ===== verification/Reachability.thy ===== *)
theory Reachability
  imports Frames
begin

section \<open>Reachability: the states of a quota controller and what holds in all of them\<close>

text \<open>
  The steps of one controller are its calls, at any time, with any configuration and any arguments, and
  the first half of \<open>finalizeDay\<close> alone, for a stop between its transaction and \<open>deleteAll\<close>.  The
  invariant of Soundness holds in every reachable state; the properties of the counters, of requests and of
  the end of the day follow.
\<close>

subsection \<open>Systems with an invariant\<close>

locale invariant_system =
  fixes step :: "'s \<Rightarrow> 's \<Rightarrow> bool"
    and init :: 's
    and inv :: "'s \<Rightarrow> bool"
  assumes starts: "inv init"
    and keeps: "inv s \<Longrightarrow> step s s' \<Longrightarrow> inv s'"
begin

lemma keeps_many: "step\<^sup>*\<^sup>* s s' \<Longrightarrow> inv s \<Longrightarrow> inv s'"
  by (induction rule: rtranclp_induct) (auto intro: keeps)

lemma always: "step\<^sup>*\<^sup>* init s \<Longrightarrow> inv s"
  using keeps_many starts by blast

text \<open>What one step of a sub-system keeps in a state of the invariant, many steps keep.\<close>

lemma stable:
  assumes "sub\<^sup>*\<^sup>* s s'" "inv s" "P s" "\<And>a b. sub a b \<Longrightarrow> step a b"
    and "\<And>a b. inv a \<Longrightarrow> sub a b \<Longrightarrow> P a \<Longrightarrow> P b"
  shows "P s'" "inv s'"
proof -
  have "P s' \<and> inv s'" using assms(1) by (induction rule: rtranclp_induct) (use assms(2-5) keeps in blast)+
  then show "P s'" "inv s'" by simp_all
qed

end

subsection \<open>The steps of a quota controller\<close>

inductive quota_step :: "(string \<Rightarrow> string) \<Rightarrow> string option \<Rightarrow> quota_store \<Rightarrow> quota_store \<Rightarrow> bool"
  for sha256 name where
  call: "quota_rpc sha256 name env now c st = Inr (a, st') \<Longrightarrow> quota_step sha256 name st st'"
| finalize_stopped: "finalize_transaction st = (res, st') \<Longrightarrow> quota_step sha256 name st st'"

text \<open>The steps other than a whole \<open>finalizeDay\<close>.\<close>

inductive open_step :: "(string \<Rightarrow> string) \<Rightarrow> string option \<Rightarrow> quota_store \<Rightarrow> quota_store \<Rightarrow> bool"
  for sha256 name where
  open_call: "quota_rpc sha256 name env now c st = Inr (a, st') \<Longrightarrow> c \<noteq> Call_finalizeDay \<Longrightarrow> open_step sha256 name st st'"
| open_finalize_stopped: "finalize_transaction st = (res, st') \<Longrightarrow> open_step sha256 name st st'"

lemma open_step_step: "open_step sha256 name st st' \<Longrightarrow> quota_step sha256 name st st'"
  by (cases rule: open_step.cases) (auto intro: quota_step.intros)

definition reachable :: "(string \<Rightarrow> string) \<Rightarrow> string option \<Rightarrow> quota_store \<Rightarrow> bool" where
  "reachable sha256 name st \<longleftrightarrow> (quota_step sha256 name)\<^sup>*\<^sup>* empty_store st"

text \<open>A later state of the same day.\<close>

definition later :: "(string \<Rightarrow> string) \<Rightarrow> string option \<Rightarrow> quota_store \<Rightarrow> quota_store \<Rightarrow> bool" where
  "later sha256 name st st' \<longleftrightarrow> (open_step sha256 name)\<^sup>*\<^sup>* st st'"

lemma rpc_transaction:
  assumes "quota_rpc sha256 name env now c st = Inr (a, st')"
  obtains i where "identity_of name = Inr i" "transaction sha256 env i now c st = Inr (a, st')"
  using assms by (auto simp: quota_rpc_def and_then_Inr)

lemma rpc_sound: "sound st \<Longrightarrow> quota_rpc sha256 name env now c st = Inr (a, st') \<Longrightarrow> sound st'"
  by (elim rpc_transaction) (rule transaction_sound)

lemma rpc_frame:
  "sound st \<Longrightarrow> quota_rpc sha256 name env now c st = Inr (a, st') \<Longrightarrow> c \<noteq> Call_finalizeDay \<Longrightarrow> frame st st'"
  by (elim rpc_transaction) (rule transaction_frame)

interpretation quota: invariant_system "quota_step sha256 name" empty_store sound for sha256 name
proof
  show "sound empty_store" by (rule sound_empty)
  show "sound s'" if "sound s" "quota_step sha256 name s s'" for s s'
    using that(2,1) by cases (auto intro: rpc_sound finalize_transaction_sound)
qed

lemma reachable_sound: "reachable sha256 name st \<Longrightarrow> sound st"
  unfolding reachable_def by (rule quota.always)

lemma reachable_step: "reachable sha256 name st \<Longrightarrow> quota_rpc sha256 name env now c st = Inr (a, st') \<Longrightarrow> reachable sha256 name st'"
  unfolding reachable_def by (blast intro: rtranclp.rtrancl_into_rtrancl quota_step.call)

lemma reachable_empty [simp]: "reachable sha256 name empty_store"
  by (simp add: reachable_def)

lemma open_frame: "sound st \<Longrightarrow> open_step sha256 name st st' \<Longrightarrow> frame st st'"
  by (erule open_step.cases) (auto intro: rpc_frame finalize_transaction_frame)

text \<open>What every frame keeps, later states keep.\<close>

lemma later_stable:
  assumes "later sha256 name st st'" "sound st" "P st" "\<And>a b. sound a \<Longrightarrow> sound b \<Longrightarrow> frame a b \<Longrightarrow> P a \<Longrightarrow> P b"
  shows "P st'" "sound st'"
proof -
  have *: "P b" if "sound a" "open_step sha256 name a b" "P a" for a b
    using assms(4)[OF that(1) quota.keeps[OF that(1) open_step_step[OF that(2)]] open_frame[OF that(1,2)] that(3)] .
  show "P st'" "sound st'"
    by (rule quota.stable[where P = P, OF assms(1)[unfolded later_def] assms(2,3)], erule open_step_step, erule *, assumption+)+
qed

subsection \<open>Runs\<close>

text \<open>A run of calls.\<close>

fun quota_calls :: "(string \<Rightarrow> string) \<Rightarrow> string option \<Rightarrow> quota_env \<Rightarrow> int \<Rightarrow> quota_call list \<Rightarrow> quota_store \<Rightarrow> quota_store throws" where
  "quota_calls sha256 name env now [] st = Inr st"
| "quota_calls sha256 name env now (c # cs) st =
     and_then (quota_rpc sha256 name env now c st) (\<lambda>(_, st1). quota_calls sha256 name env now cs st1)"

lemma quota_calls_reachable:
  "quota_calls sha256 name env now cs st = Inr st' \<Longrightarrow> reachable sha256 name st \<Longrightarrow> reachable sha256 name st'"
  by (induction cs arbitrary: st) (auto simp: and_then_Inr dest: reachable_step)

end
