(* ===== verification/Token.thy ===== *)
theory Token
  imports Credential "HOL-Library.Code_Target_Nat"
begin

section \<open>Token: what the signed relay tokens guarantee\<close>

text \<open>
  The contract of the tokens of Credential: a token that verifies is the one that signing its claims
  with the same key gives, and a signed token verifies within its life time and environment.
\<close>

subsection \<open>Well-formed UTF-8 of JSON text\<close>

lemma utf8_seq_pad:
  assumes "utf8_seq (codes (take 4 xs) @ [0, 0, 0, 0]) = n" "n \<noteq> 0" "xs \<noteq> []"
  shows "n \<le> length xs" "utf8_seq (codes (take 4 (xs @ ys)) @ [0, 0, 0, 0]) = n"
proof -
  have z: "utf8_seq (p # q # r # t # u) = utf8_seq [p, q, r, t]" for p q r t u by simp
  consider "xs = []" | a where "xs = [a]" | a b where "xs = [a, b]" | a b c where "xs = [a, b, c]"
    | a b c d s where "xs = a # b # c # d # s"
    by (metis neq_Nil_conv)
  then have "n \<le> length xs \<and> utf8_seq (codes (take 4 (xs @ ys)) @ [0, 0, 0, 0]) = n"
  proof cases
    case 1
    then show ?thesis using assms by (simp add: codes_def)
  next
    case (2 a)
    then have "(of_char a :: nat) < 128 \<and> n = 1" using assms by (auto simp: codes_def split: if_splits)
    then show ?thesis using 2 by (cases ys; cases "tl ys"; cases "tl (tl ys)") (simp_all add: codes_def)
  next
    case (3 a b)
    then show ?thesis using assms
      by (cases ys; cases "tl ys") (auto simp: codes_def split: if_splits)
  next
    case (4 a b c)
    then show ?thesis using assms
      by (cases ys) (auto simp: codes_def split: if_splits)
  next
    case (5 a b c d s)
    then show ?thesis using assms by (auto simp: codes_def split: if_splits)
  qed
  then show "n \<le> length xs" "utf8_seq (codes (take 4 (xs @ ys)) @ [0, 0, 0, 0]) = n" by blast+
qed

lemma utf8_valid_append:
  assumes "utf8_valid a"
  shows "utf8_valid (a @ b) = utf8_valid b"
  using assms
proof (induction a rule: utf8_valid.induct)
  case (1 s)
  show ?case
  proof (cases "s = []")
    case False
    define n where "n = utf8_seq (codes (take 4 s) @ [0, 0, 0, 0])"
    have n: "n \<noteq> 0 \<and> utf8_valid (drop n s)"
      using 1(2) False unfolding utf8_valid.simps[of s] by (simp add: n_def Let_def split: if_splits)
    note p = utf8_seq_pad[OF n_def[symmetric] conjunct1[OF n] False]
    have "utf8_valid (s @ b) = utf8_valid (drop n (s @ b))"
      using False n p(2)[of b] by (subst utf8_valid.simps) (simp add: Let_def)
    also have "drop n (s @ b) = drop n s @ b" using p(1) by simp
    also have "utf8_valid (drop n s @ b) = utf8_valid b"
      using 1(1)[OF False] n by (simp add: n_def)
    finally show ?thesis .
  qed simp
qed

lemma utf8_valid_ascii: "list_all (\<lambda>c. (of_char c :: nat) < 128) s \<Longrightarrow> utf8_valid s"
proof (induction s)
  case Nil
  then show ?case by (simp add: utf8_valid.simps)
next
  case (Cons c s)
  have "utf8_seq (codes (take 4 (c # s)) @ [0, 0, 0, 0]) = 1"
    using Cons.prems by (cases s; cases "tl s"; cases "tl (tl s)") (simp_all add: codes_def)
  then show ?case using Cons by (subst utf8_valid.simps) (simp add: Let_def)
qed

lemma utf8_valid_Nil [simp]: "utf8_valid []"
  by (simp add: utf8_valid_ascii)

text \<open>The four shapes of a well-formed sequence.\<close>

lemma utf8_seq_shape:
  assumes "utf8_seq (codes (take 4 s) @ [0, 0, 0, 0]) = n" "n \<noteq> 0" "s \<noteq> []"
  shows "(\<exists>a r. s = a # r \<and> n = 1 \<and> (of_char a :: nat) < 128) \<or>
    (\<exists>a b r. s = a # b # r \<and> n = 2 \<and> 194 \<le> (of_char a :: nat) \<and> of_char a \<le> (223 :: nat) \<and> 128 \<le> (of_char b :: nat)
       \<and> of_char b \<le> (191 :: nat)) \<or>
    (\<exists>a b c r. s = a # b # c # r \<and> n = 3 \<and> 224 \<le> (of_char a :: nat) \<and> 128 \<le> (of_char b :: nat) \<and> 128 \<le> (of_char c :: nat)
       \<and> of_char b \<le> (191 :: nat) \<and> of_char c \<le> (191 :: nat) \<and> (of_char a = (237 :: nat) \<longrightarrow> of_char b < (160 :: nat))) \<or>
    (\<exists>a b c d r. s = a # b # c # d # r \<and> n = 4 \<and> 240 \<le> (of_char a :: nat) \<and> 128 \<le> (of_char b :: nat)
       \<and> 128 \<le> (of_char c :: nat) \<and> 128 \<le> (of_char d :: nat) \<and> of_char b \<le> (191 :: nat) \<and> of_char c \<le> (191 :: nat)
       \<and> of_char d \<le> (191 :: nat))"
proof -
  consider a where "s = [a]" | a b where "s = [a, b]" | a b c where "s = [a, b, c]"
    | a b c d r where "s = a # b # c # d # r"
    using assms(3) by (metis neq_Nil_conv)
  then show ?thesis
    by cases (use assms(1,2) in \<open>simp add: codes_def split: if_splits; linarith?\<close>)+
qed

lemma utf8_seq_prefix:
  "utf8_seq (a # b # c # d # t) = 1 \<Longrightarrow> utf8_seq (a # b' # c' # d' # t') = 1"
  "utf8_seq (a # b # c # d # t) = 2 \<Longrightarrow> utf8_seq (a # b # c' # d' # t') = 2"
  "utf8_seq (a # b # c # d # t) = 3 \<Longrightarrow> utf8_seq (a # b # c # d' # t') = 3"
  "utf8_seq (a # b # c # d # t) = 4 \<Longrightarrow> utf8_seq (a # b # c # d # t') = 4"
  by (simp_all only: utf8_seq.simps split: if_splits) simp_all

lemma utf8_valid_take:
  assumes "utf8_seq (codes (take 4 s) @ [0, 0, 0, 0]) = n" "n \<noteq> 0" "s \<noteq> []"
  shows "utf8_valid (take n s)"
proof -
  have n: "n = 1 \<or> n = 2 \<or> n = 3 \<or> n = 4"
    using utf8_seq_shape[OF assms] by blast
  have l: "n \<le> length s" using utf8_seq_pad[OF assms] by simp
  have "utf8_seq (codes (take 4 (take n s)) @ [0, 0, 0, 0]) = n"
    using n
  proof (elim disjE)
    assume i: "n = 1"
    obtain a r where "s = a # r" using assms(3) by (cases s) auto
    then show ?thesis using assms(1) i by (cases r; cases "tl r"; cases "tl (tl r)") (auto simp: codes_def intro: utf8_seq_prefix(1)[unfolded One_nat_def] simp del: utf8_seq.simps)
  next
    assume i: "n = 2"
    obtain a b r where "s = a # b # r" using l i by (cases s; cases "tl s") auto
    then show ?thesis using assms(1) i by (cases r; cases "tl r") (auto simp: codes_def intro: utf8_seq_prefix(2) simp del: utf8_seq.simps)
  next
    assume i: "n = 3"
    obtain a b c r where "s = a # b # c # r" using l i by (cases s; cases "tl s"; cases "tl (tl s)") auto
    then show ?thesis using assms(1) i by (cases r) (auto simp: codes_def intro: utf8_seq_prefix(3) simp del: utf8_seq.simps)
  next
    assume i: "n = 4"
    then show ?thesis using assms(1) by simp
  qed
  then show ?thesis using assms(2) by (subst utf8_valid.simps) (simp add: Let_def)
qed

lemma utf8_valid_step:
  assumes "utf8_valid s" "s \<noteq> []"
  obtains n where "utf8_seq (codes (take 4 s) @ [0, 0, 0, 0]) = n" "n \<noteq> 0" "utf8_valid (drop n s)"
  using assms unfolding utf8_valid.simps[of s] by (simp add: Let_def split: if_splits)

lemma hex_char_ascii: "n < 16 \<Longrightarrow> (of_char (hex_char n) :: nat) < 128"
  by (simp add: hex_char_def)

lemma escape_char_ascii: "(of_char c :: nat) < 128 \<Longrightarrow> list_all (\<lambda>d. (of_char d :: nat) < 128) (escape_char c)"
  unfolding escape_char_def hex4_string_def by (simp add: hex_char_ascii)

lemma escape_char_high: "128 \<le> (of_char c :: nat) \<Longrightarrow> escape_char c = [c]"
proof -
  assume h: "128 \<le> (of_char c :: nat)"
  then have "c \<noteq> CHR 0x22" "c \<noteq> CHR 0x5C" "c \<noteq> CHR 0x08" "c \<noteq> CHR 0x09" "c \<noteq> CHR 0x0A" "c \<noteq> CHR 0x0C" "c \<noteq> CHR 0x0D"
    by auto
  then show ?thesis using h by (simp add: escape_char_def)
qed

lemma escape_utf8: "utf8_valid s \<Longrightarrow> utf8_valid (escape_body s)"
proof (induction s rule: utf8_valid.induct)
  case (1 s)
  show ?case
  proof (cases "s = []")
    case False
    obtain n where n: "utf8_seq (codes (take 4 s) @ [0, 0, 0, 0]) = n" "n \<noteq> 0" "utf8_valid (drop n s)"
      by (rule utf8_valid_step[OF 1(2) False])
    have IH: "utf8_valid (escape_body (drop n s))" using 1(1)[OF False n(1)[symmetric] n(2,3)] .
    have split: "escape_body s = escape_body (take n s) @ escape_body (drop n s)"
      unfolding escape_body_def by (metis append_take_drop_id concat_append map_append)
    have hi: "escape_body t = t" if "list_all (\<lambda>c. 128 \<le> (of_char c :: nat)) t" for t
      using that by (induction t) (auto simp: escape_char_high)
    have lo: "utf8_valid (escape_char c)" if "(of_char c :: nat) < 128" for c
      using escape_char_ascii[OF that] by (rule utf8_valid_ascii)
    have "utf8_valid (escape_body (take n s))"
      using utf8_seq_shape[OF n(1,2) False]
    proof (elim disjE exE conjE)
      fix a r assume "s = a # r" "n = 1" "(of_char a :: nat) < 128"
      then show ?thesis using lo by simp
    qed (use utf8_valid_take[OF n(1,2) False] hi[of "take n s"] in simp_all)
    then show ?thesis using IH by (simp add: split utf8_valid_append)
  qed simp
qed

declare utf8_encode.simps(1) [simp del]

lemma utf8_encode_step:
  "of_char x \<noteq> (237::nat) \<or> r = [] \<or> (of_char (hd r) :: nat) < 160 \<Longrightarrow> utf8_encode (x # r) = x # utf8_encode r"
  by (cases r; cases "tl r") (auto simp: utf8_encode.simps(1))

lemma utf8_valid_encode: "utf8_valid s \<Longrightarrow> utf8_encode s = s"
proof (induction s rule: utf8_valid.induct)
  case (1 s)
  show ?case
  proof (cases "s = []")
    case False
    obtain n where n: "utf8_seq (codes (take 4 s) @ [0, 0, 0, 0]) = n" "n \<noteq> 0" "utf8_valid (drop n s)"
      by (rule utf8_valid_step[OF 1(2) False])
    have IH: "utf8_encode (drop n s) = drop n s" using 1(1)[OF False n(1)[symmetric] n(2,3)] .
    show ?thesis
      using utf8_seq_shape[OF n(1,2) False] IH by (elim disjE exE conjE) (auto simp: utf8_encode_step)
  qed simp
qed

subsection \<open>A value that parses has distinct keys\<close>

lemma json_members_distinct:
  "distinct (map fst acc) \<Longrightarrow> json_members n acc s = Some (m, r) \<Longrightarrow> distinct (map fst m)"
proof (induction n arbitrary: acc s)
  case (Suc n)
  obtain cs key r1 r2 v r3 where h: "expect (CHR 0x22) (skip_ws s) = Some cs" "json_string True [] cs = Some (key, r1)"
    "expect (CHR '':'') (skip_ws r1) = Some r2" "json_value n r2 = Some (v, r3)"
    using Suc.prems(2) by (auto split: option.splits)
  have d: "distinct (map fst (kv_put key v acc))" using Suc.prems(1) by (rule distinct_update)
  show ?case
  proof (cases "expect (CHR '','') (skip_ws r3)")
    case None
    then show ?thesis using Suc.prems(2) h d by auto
  next
    case (Some r4)
    then have "json_members n (kv_put key v acc) r4 = Some (m, r)" using Suc.prems(2) h by simp
    then show ?thesis by (rule Suc.IH[OF d])
  qed
qed simp

lemma json_parse_distinct:
  assumes "json_parse t = Some v"
  shows "distinct (own_keys v)"
proof (cases v)
  case (JObj m)
  obtain n r where "json_value (Suc n) t = Some (JObj m, r)"
    using assms JObj by (auto simp: json_parse_def split: option.splits if_splits simp del: json_value.simps)
  then show ?thesis
    using json_members_distinct[of "[]" n] JObj
    by (auto simp: json_literal_def split: list.splits if_splits option.splits)
qed simp_all

subsection \<open>A verified token is a signed token\<close>

lemma split_at_ne: "split_at c s \<noteq> []"
  by (cases s) (simp_all split: list.split)

lemma split_at_cons:
  "split_at c (d # ds) = (if d = c then [] # split_at c ds else (d # hd (split_at c ds)) # tl (split_at c ds))"
  using split_at_ne[of c ds] by (cases "split_at c ds") simp_all

lemma split_at_single: "split_at c s = [a] \<longleftrightarrow> s = a \<and> c \<notin> set a"
proof (induction s arbitrary: a)
  case (Cons d ds)
  have "split_at c ds = [x] \<longleftrightarrow> hd (split_at c ds) = x \<and> tl (split_at c ds) = []" for x
    using split_at_ne[of c ds] by (cases "split_at c ds") auto
  with Cons.IH show ?case
    unfolding split_at_cons using split_at_ne[of c ds] by (cases a) auto
qed auto

lemma split_at_pair: "split_at c s = [a, b] \<longleftrightarrow> s = a @ c # b \<and> c \<notin> set a \<and> c \<notin> set b"
proof (induction s arbitrary: a)
  case (Cons d ds)
  have "split_at c ds = [x, b] \<longleftrightarrow> hd (split_at c ds) = x \<and> tl (split_at c ds) = [b]" for x
    using split_at_ne[of c ds] by (cases "split_at c ds") auto
  with Cons.IH show ?case
    unfolding split_at_cons using split_at_single[of c ds b] by (cases a) auto
qed auto

lemma split_at_append: "c \<notin> set a \<Longrightarrow> c \<notin> set b \<Longrightarrow> split_at c (a @ c # b) = [a, b]"
  by (simp add: split_at_pair)

lemma verifyRelayToken_sound:
  assumes "verifyRelayToken hmac tok key p parse wr = Inr (Some c)"
  shows "\<exists>v. distinct (own_keys v) \<and> parse v = Some c" "signRelayToken hmac (wr c) key p = Inr tok"
    "utf16_length tok \<le> RELAY_MAX_CONTEXT_HEADER_BYTES"
proof -
  show "utf16_length tok \<le> RELAY_MAX_CONTEXT_HEADER_BYTES"
    using assms unfolding verifyRelayToken_def by (simp split: if_splits)
  obtain pp mp where t: "split_at (CHR ''.'') tok = [pp, mp]"
    using assms unfolding verifyRelayToken_def by (simp split: if_splits list.splits)
  obtain pb mb where d: "decodeBase64UrlNoPadding pp = Some pb" "decodeBase64UrlNoPadding mp = Some mb"
    using assms t unfolding verifyRelayToken_def by (simp split: if_splits option.splits)
  obtain tx v canon where v: "constantTimeBytesEqual (computeRelayMac hmac key p pb) mb"
      "json_parse tx = Some v" "parse v = Some c" "serializeCanonicalJson (wr c) = Inr canon"
      "constantTimeBytesEqual (utf8_encode canon) pb"
    using assms t d unfolding verifyRelayToken_def by (simp split: if_splits option.splits sum.splits)
  show "\<exists>v. distinct (own_keys v) \<and> parse v = Some c" using v(2,3) json_parse_distinct by blast
  have tok: "tok = pp @ CHR ''.'' # mp" using t by (simp add: split_at_pair)
  then show "signRelayToken hmac (wr c) key p = Inr tok"
    using v(1,4,5) d by (simp add: signRelayToken_def Let_def constantTimeBytesEqual_iff decode_iff)
qed

subsection \<open>The canonical text\<close>

lemma string_token_escape: "string_token k (escape_body k)"
  by (simp add: string_token_def decodeJsonString_def json_string_escape_body)

lemma int_string_scalar: "list_all scalar_char (int_string n)"
proof -
  have d: "is_digit c \<Longrightarrow> scalar_char c" for c by (auto simp: scalar_char_def)
  have "list_all scalar_char (nat_string k)" for k
    using nat_string_digits[of k] by (rule list.pred_mono_strong) (rule d)
  then show ?thesis by (simp add: int_string_def scalar_char_def)
qed

text \<open>Claims are records of scalars and strings; these are the values in them.\<close>

fun claim_value :: "json \<Rightarrow> bool" where
  "claim_value (JStr s) = utf8_valid s"
| "claim_value (JNum (JsInt n)) = (\<bar>n\<bar> < 2 ^ 53)"
| "claim_value JNull = True"
| "claim_value _ = False"

definition claim_record :: "(string \<times> json) list \<Rightarrow> bool" where
  "claim_record m \<longleftrightarrow> m \<noteq> [] \<and> distinct (map fst m) \<and>
     list_all (\<lambda>kx. utf8_valid (fst kx) \<and> \<not> index_key (fst kx) \<and> claim_value (snd kx)) m"

definition sorted_members :: "(string \<times> json) list \<Rightarrow> (string \<times> json) list" where
  "sorted_members m = sort_key (\<lambda>kx. code_units (fst kx)) m"

definition member_text :: "string \<times> json \<Rightarrow> string" where
  "member_text kx = quote (fst kx) @ CHR '':'' # stringify (\<lambda>_. []) (snd kx)"

lemma claim_value_plain: "claim_value x \<Longrightarrow> json_plain x \<and> \<not> repeats_key x"
  by (cases x rule: claim_value.cases) (simp_all add: utf8_valid_encode)

lemma escape_canonical: "utf8_valid s \<Longrightarrow> escapeCanonicalJsonString s = quote s"
  by (simp add: escapeCanonicalJsonString_def quote_def quote_body_well_formed utf8_valid_encode)

lemma claim_value_canonical: "claim_value x \<Longrightarrow> serializeCanonicalJson x = Inr (stringify (\<lambda>_. []) x)"
  by (cases x rule: claim_value.cases) (auto simp: escape_canonical safe_int_def MAX_SAFE_INTEGER_def)

lemma claim_value_text: "claim_value x \<Longrightarrow> json_text x (stringify (\<lambda>_. []) x)"
proof (cases x rule: claim_value.cases)
  case (1 s)
  moreover assume "claim_value x"
  ultimately show ?thesis
    using json_text_elements_text_members_text.str[OF string_token_escape[of s]]
    by (simp add: quote_def quote_body_well_formed utf8_valid_encode)
next
  case (2 n)
  then show ?thesis by (simp add: json_text_elements_text_members_text.scalar int_string_scalar)
next
  case 3
  then show ?thesis by (simp add: json_text_elements_text_members_text.scalar scalar_char_def)
qed simp_all

lemma sort_key_map: "sort_key f (map g xs) = map g (sort_key (\<lambda>x. f (g x)) xs)"
proof -
  have "insort_key f (g x) (map g ys) = map g (insort_key (\<lambda>x. f (g x)) x ys)" for x ys
    by (induction ys) auto
  then show ?thesis by (induction xs) simp_all
qed

lemma collect_Inr: "collect (map (\<lambda>x. Inr (f x)) xs) = Inr (map f xs)"
  by (induction xs) simp_all

lemma claim_record_sorted: "claim_record m \<Longrightarrow> claim_record (sorted_members m)"
proof -
  have "distinct (map fst (sorted_members m)) = distinct (map fst m)"
    by (simp add: sorted_members_def distinct_map)
  then show "claim_record m \<Longrightarrow> claim_record (sorted_members m)"
    by (auto simp: claim_record_def sorted_members_def list_all_iff dest: arg_cong[where f = set])
qed

lemma canonical_claims:
  assumes "claim_record m"
  shows "serializeCanonicalJson (JObj m) = Inr (CHR 0x7B # join '','' (map member_text (sorted_members m)) @ [CHR 0x7D])"
proof -
  have "map canonical_member (sort_key (\<lambda>kv. code_units (fst kv)) (map (map_prod id serializeCanonicalJson) m))
      = map (\<lambda>kx. canonical_member (fst kx, serializeCanonicalJson (snd kx))) (sorted_members m)"
    by (simp add: sort_key_map sorted_members_def map_prod_def case_prod_beta)
  also have "\<dots> = map (\<lambda>kx. Inr (member_text kx)) (sorted_members m)"
    using claim_record_sorted[OF assms]
    by (auto simp: claim_record_def list_all_iff canonical_member_def member_text_def claim_value_canonical escape_canonical)
  finally show ?thesis by (simp add: canonical_record_def collect_Inr)
qed

text \<open>The canonical text is the JSON text of the sorted record: no key twice, well-formed, and it reads back.\<close>

lemma members_text_join:
  "m \<noteq> [] \<Longrightarrow> list_all (\<lambda>kx. utf8_valid (fst kx) \<and> claim_value (snd kx)) m \<Longrightarrow> members_text m (join '','' (map member_text m))"
proof (induction m)
  case (Cons kx m)
  obtain k x where kx: "kx = (k, x)" by (cases kx)
  have w: "white []" by (simp add: white_def)
  have t: "json_text x (stringify (\<lambda>_. []) x)" using Cons.prems kx by (simp add: claim_value_text)
  have m: "member_text kx = [] @ CHR 0x22 # escape_body k @ CHR 0x22 # [] @ CHR '':'' # stringify (\<lambda>_. []) x"
    using Cons.prems kx by (simp add: member_text_def quote_def quote_body_well_formed utf8_valid_encode)
  show ?case
  proof (cases "m = []")
    case True
    then show ?thesis
      using json_text_elements_text_members_text.mem[OF string_token_escape w w t] m kx by simp
  next
    case False
    then have "members_text m (join '','' (map member_text m))" using Cons by simp
    from json_text_elements_text_members_text.mems[OF string_token_escape w w t this False, of k] show ?thesis
      using False m kx by (cases m) simp_all
  qed
qed simp

lemma ascii_int_string: "list_all (\<lambda>c. (of_char c :: nat) < 128) (int_string n)"
proof -
  have d: "is_digit c \<Longrightarrow> (of_char c :: nat) < 128" for c by (auto simp: is_digit_code)
  have "list_all (\<lambda>c. (of_char c :: nat) < 128) (nat_string k)" for k
    using nat_string_digits[of k] by (rule list.pred_mono_strong) (rule d)
  then show ?thesis by (simp add: int_string_def)
qed

lemma utf8_valid_Cons: "(of_char c :: nat) < 128 \<Longrightarrow> utf8_valid (c # s) = utf8_valid s"
  using utf8_valid_append[OF utf8_valid_ascii[of "[c]"], of s] by simp

lemma quote_utf8: "utf8_valid s \<Longrightarrow> utf8_valid (quote s)"
  by (simp add: quote_def quote_body_well_formed utf8_valid_encode utf8_valid_Cons utf8_valid_append escape_utf8)

lemma claim_value_utf8: "claim_value x \<Longrightarrow> utf8_valid (stringify (\<lambda>_. []) x)"
  by (cases x rule: claim_value.cases) (simp_all add: quote_utf8 utf8_valid_ascii ascii_int_string)

lemma members_utf8:
  "list_all (\<lambda>kx. utf8_valid (fst kx) \<and> claim_value (snd kx)) m \<Longrightarrow> utf8_valid (join '','' (map member_text m))"
proof (induction m)
  case (Cons kx m)
  have "utf8_valid (member_text kx)"
    using Cons.prems by (simp add: member_text_def utf8_valid_append utf8_valid_Cons quote_utf8 claim_value_utf8)
  then show ?case using Cons by (cases m) (simp_all add: utf8_valid_append utf8_valid_Cons)
qed simp

lemma record_text:
  assumes "claim_record m"
  defines "t \<equiv> CHR 0x7B # join '','' (map member_text m) @ [CHR 0x7D]"
  shows "utf8_encode t = t" "utf8_decode_fatal t = Some t" "\<not> hasDuplicateJsonKeys t"
    and "json_parse t = Some (JObj m)" "stringify (\<lambda>_. []) (JObj m) = t"
proof -
  note r = assms(1)[unfolded claim_record_def list_all_iff]
  have v: "utf8_valid t"
    using r members_utf8[of "m"] unfolding t_def
    by (simp add: utf8_valid_Cons utf8_valid_append list_all_iff)
  then show "utf8_encode t = t" by (rule utf8_valid_encode)
  have "CHR 0x7B \<noteq> (char_of (239 :: nat) :: char)" by code_simp
  then have "take 3 t \<noteq> bytes_of [239, 187, 191]" by (simp add: t_def bytes_of_def numeral_3_eq_3)
  with v show "utf8_decode_fatal t = Some t" by (simp add: utf8_decode_fatal_def)
  have "json_text (JObj m) t"
    unfolding t_def using r by (intro json_text_elements_text_members_text.obj members_text_join) (simp_all add: list_all_iff)
  from dup_scan_text(1)[OF this, of "[]" "[]"] show "\<not> hasDuplicateJsonKeys t"
    using r claim_value_plain by (fastforce simp: hasDuplicateJsonKeys_def list_ex_iff)
  have p: "json_plain (JObj m)"
    using r claim_value_plain by (fastforce simp: list_all_iff utf8_valid_encode)
  have "keys_in_order (map (map_prod id (stringify (\<lambda>_. []))) m) = map (map_prod id (stringify (\<lambda>_. []))) m"
    using r by (intro keys_in_order_plain) (auto simp: list_all_iff)
  then show "stringify (\<lambda>_. []) (JObj m) = t"
    by (simp add: t_def member_text_def[abs_def] case_prod_beta comp_def)
  with json_parse_stringify[OF p, of "\<lambda>_. []"] show "json_parse t = Some (JObj m)" by simp
qed

lemma canonical_reads_back:
  assumes "claim_record m"
  defines "t \<equiv> CHR 0x7B # join '','' (map member_text (sorted_members m)) @ [CHR 0x7D]"
  shows "utf8_encode t = t" "utf8_decode_fatal t = Some t" "\<not> hasDuplicateJsonKeys t"
    and "json_parse t = Some (JObj (sorted_members m))"
  unfolding t_def by (rule record_text[OF claim_record_sorted[OF assms(1)]])+

text \<open>A bound on the length of a token, in terms of the members in any order.\<close>

lemma sum_sorted_members: "sum_list (map (f :: _ \<Rightarrow> nat) (sorted_members m)) = sum_list (map f m)"
proof -
  have "sum_list (map f (insort_key g x ys)) = f x + sum_list (map f ys)" for g :: "_ \<Rightarrow> nat list" and x ys
    by (induction ys) simp_all
  then show ?thesis unfolding sorted_members_def by (induction m) simp_all
qed

lemma group_encode_le: "length (group_encode bytes) \<le> 2 * length bytes"
proof (induction bytes rule: group_encode.induct)
  case (4 a b c s)
  show ?case using 4[OF refl refl refl] by (simp add: Let_def)
qed (simp_all add: Let_def)

lemma signed_length:
  assumes "wr c = JObj m" "claim_record m" "\<And>k x. length (hmac k x) \<le> 32"
  obtains tok where "signRelayToken hmac (wr c) key p = Inr tok"
    "utf16_length tok \<le> 4 * int (sum_list (map (\<lambda>kx. Suc (length (member_text kx))) m)) + 138"
proof -
  define t where "t = CHR 0x7B # join '','' (map member_text (sorted_members m)) @ [CHR 0x7D]"
  define tok where "tok = encodeBase64UrlNoPadding t @ CHR ''.'' # encodeBase64UrlNoPadding (computeRelayMac hmac key p t)"
  have "signRelayToken hmac (wr c) key p = Inr tok"
    using canonical_claims[OF assms(2)] canonical_reads_back(1)[OF assms(2)] assms(1)
    by (simp add: signRelayToken_def Let_def tok_def t_def)
  moreover have "length t = Suc (sum_list (map (\<lambda>kx. Suc (length (member_text kx))) m))"
  proof -
    have "length (join '','' (map member_text (sorted_members m))) + 1
        = sum_list (map (\<lambda>x. Suc (length x)) (map member_text (sorted_members m)))"
      using claim_record_sorted[OF assms(2)] by (intro join_length) (simp add: claim_record_def)
    also have "\<dots> = sum_list (map (\<lambda>kx. Suc (length (member_text kx))) m)"
      using sum_sorted_members[of "\<lambda>kx. Suc (length (member_text kx))" m] by (simp add: comp_def)
    finally show ?thesis by (simp add: t_def)
  qed
  then have "utf8_length tok \<le> 2 * int (Suc (sum_list (map (\<lambda>kx. Suc (length (member_text kx))) m))) + 67"
    using group_encode_le[of t] group_encode_le[of "computeRelayMac hmac key p t"] assms(3)[of key "p @ CHR 0x00 # t"]
    by (simp add: tok_def utf8_length_def encode_groups computeRelayMac_def)
  then have "utf16_length tok \<le> 4 * int (sum_list (map (\<lambda>kx. Suc (length (member_text kx))) m)) + 138"
    using utf16_length_le[of tok] by (simp add: algebra_simps)
  ultimately show ?thesis by (rule that)
qed

subsection \<open>A signed token verifies\<close>

lemma sorted_same_props:
  assumes "distinct (map fst m)"
  shows "same_props (JObj (sorted_members m)) (JObj m)" "distinct (own_keys (JObj (sorted_members m)))"
proof -
  show d: "distinct (own_keys (JObj (sorted_members m)))" using assms by (simp add: sorted_members_def distinct_map)
  have "map_of (sorted_members m) = map_of m"
    using assms d by (intro map_of_inject_set[THEN iffD2]) (simp_all add: sorted_members_def)
  then show "same_props (JObj (sorted_members m)) (JObj m)" by (simp add: same_props_def)
qed

lemma verifyRelayToken_complete:
  assumes "wr c = JObj m" "claim_record m" "parse (JObj (sorted_members m)) = Some c"
    and "signRelayToken hmac (wr c) key p = Inr tok" "\<And>k x. hmac k x \<noteq> []"
    and "utf16_length tok \<le> RELAY_MAX_CONTEXT_HEADER_BYTES"
  shows "verifyRelayToken hmac tok key p parse wr = Inr (Some c)"
proof -
  define t where "t = CHR 0x7B # join '','' (map member_text (sorted_members m)) @ [CHR 0x7D]"
  note r = canonical_reads_back[OF assms(2), folded t_def]
  have can: "serializeCanonicalJson (wr c) = Inr t" using canonical_claims[OF assms(2)] assms(1) by (simp add: t_def)
  have tok: "tok = encodeBase64UrlNoPadding t @ CHR ''.'' # encodeBase64UrlNoPadding (computeRelayMac hmac key p t)"
    using assms(4) can r(1) by (simp add: signRelayToken_def Let_def)
  have sp: "split_at (CHR ''.'') tok = [encodeBase64UrlNoPadding t, encodeBase64UrlNoPadding (computeRelayMac hmac key p t)]"
    unfolding tok by (intro split_at_append encode_no_dot)
  have ne: "encodeBase64UrlNoPadding t \<noteq> []" "encodeBase64UrlNoPadding (computeRelayMac hmac key p t) \<noteq> []"
    using assms(5) by (simp_all add: encode_empty t_def computeRelayMac_def)
  show ?thesis
    unfolding verifyRelayToken_def using assms(3,6) ne r can
    by (simp add: sp decode_encode constantTimeBytesEqual_iff)
qed

text \<open>The claims that pass the parsers are such records, provided the client and model names are well-formed.\<close>

lemma matches_ascii:
  assumes "matches ps s" "list_all (\<lambda>p. \<forall>c. p c \<longrightarrow> (of_char c :: nat) < 128) ps"
  shows "utf8_valid s"
proof -
  have "list_all (\<lambda>c. (of_char c :: nat) < 128) s"
    using assms unfolding matches_def by (induction rule: list_all2_induct) auto
  then show ?thesis by (rule utf8_valid_ascii)
qed

lemma class_ascii:
  "is_digit c \<Longrightarrow> (of_char c :: nat) < 128" "is_lower_hex c \<Longrightarrow> (of_char c :: nat) < 128"
  "is_crockford c \<Longrightarrow> (of_char c :: nat) < 128" "is_base64url c \<Longrightarrow> (of_char c :: nat) < 128"
  by (auto simp: is_digit_code is_lower_hex_def is_crockford_def is_base64url_def is_upper_def is_lower_def less_eq_char_def)

lemma pattern_utf8:
  "RELAY_REQUEST_ID_PATTERN s \<Longrightarrow> utf8_valid s" "RELAY_UUID_PATTERN s \<Longrightarrow> utf8_valid s"
  "RELAY_NONCE_PATTERN s \<Longrightarrow> utf8_valid s" "RELAY_KEY_HASH_PATTERN s \<Longrightarrow> utf8_valid s"
  "RELAY_UTC_DAY_PATTERN s \<Longrightarrow> utf8_valid s"
  unfolding RELAY_REQUEST_ID_PATTERN_def RELAY_UUID_PATTERN_def RELAY_NONCE_PATTERN_def RELAY_KEY_HASH_PATTERN_def
    RELAY_UTC_DAY_PATTERN_def utc_day_pattern_def
  by (erule matches_ascii; auto simp: class_ascii list_all_iff)+

lemma constant_utf8 [simp]:
  "utf8_valid RELAY_CONTEXT_AUDIENCE" "utf8_valid RELAY_GRANT_AUDIENCE" "utf8_valid (environment_name e)"
  "utf8_valid ''responses''" "utf8_valid (pool_name_string p)"
  by (cases e; cases p; auto intro: utf8_valid_ascii simp: RELAY_CONTEXT_AUDIENCE_def RELAY_GRANT_AUDIENCE_def)+

lemma hash_claim: "valid_hash h \<Longrightarrow> claim_value (hash_json h)"
  by (cases h) (simp_all add: hash_json_def valid_hash_def pattern_utf8)

lemma count_claim: "valid_count n \<Longrightarrow> \<bar>n\<bar> < 2 ^ 53"
  by (simp add: valid_count_def safe_int_def MAX_SAFE_INTEGER_def)

lemma not_index: "k \<noteq> [] \<Longrightarrow> \<not> is_digit (hd k) \<Longrightarrow> \<not> index_key k"
  by (cases k) (simp_all add: index_key_def)

definition claim_keys :: "string list \<Rightarrow> bool" where
  "claim_keys ks \<longleftrightarrow> ks \<noteq> [] \<and> distinct ks \<and> list_all (\<lambda>k. utf8_valid k \<and> k \<noteq> [] \<and> \<not> is_digit (hd k)) ks"

lemma claim_recordI: "claim_keys (map fst m) \<Longrightarrow> list_all claim_value (map snd m) \<Longrightarrow> claim_record m"
  by (auto simp: claim_record_def claim_keys_def list_all_iff not_index)

lemma claim_keys_constant: "claim_keys RELAY_CONTEXT_CLAIM_KEYS" "claim_keys RELAY_GRANT_CLAIM_KEYS"
  unfolding claim_keys_def RELAY_CONTEXT_CLAIM_KEYS_def RELAY_GRANT_CLAIM_KEYS_def
  by (auto intro!: utf8_valid_ascii simp: is_digit_code)

lemma context_record:
  assumes "valid_context c" "utf8_valid (c_clientId c)" "context_json c = JObj m"
  shows "claim_record m"
proof (rule claim_recordI)
  show "claim_keys (map fst m)"
    using claim_keys_constant(1) assms(3) by (auto simp: context_json_def RELAY_CONTEXT_CLAIM_KEYS_def)
  show "list_all claim_value (map snd m)"
    using assms by (auto simp: context_json_def valid_context_def hash_claim pattern_utf8 count_claim[simplified])
qed

lemma credential_record:
  assumes "valid_credential c" "utf8_valid (k_clientId c)" "utf8_valid (k_model c)" "grant_claims_json c = JObj m"
  shows "claim_record m"
proof (rule claim_recordI)
  show "claim_keys (map fst m)"
    using claim_keys_constant(2) assms(4) by (auto simp: grant_claims_json_def RELAY_GRANT_CLAIM_KEYS_def)
  show "list_all claim_value (map snd m)"
    using assms by (auto simp: grant_claims_json_def valid_credential_def hash_claim pattern_utf8 count_claim[simplified])
qed

text \<open>The signing of valid claims in force verifies.\<close>

lemma signed_context_verifies:
  assumes "\<And>k x. hmac k x \<noteq> []" "utf8_valid (c_clientId c)" "signRelayContext hmac c key = Inr tok" "valid_context c"
    and "c_issuedAtMs c \<le> now" "now < c_expiresAtMs c" "utf16_length tok \<le> RELAY_MAX_CONTEXT_HEADER_BYTES"
  shows "verifyRelayContext hmac tok key (c_environment c) now = Inr (Some c)"
proof -
  obtain m where m: "context_json c = JObj m" by (simp add: context_json_def)
  have r: "claim_record m" using context_record[OF _ assms(2) m] assms(4) by blast
  have "parseRelayContext (JObj (sorted_members m)) = Some c"
    using assms(4) r sorted_same_props[of m] by (subst parseRelayContext_iff) (simp_all add: claim_record_def m)
  from verifyRelayToken_complete[where wr = context_json and parse = parseRelayContext and hmac = hmac and p = RELAY_CONTEXT_PURPOSE and c = c and key = key and tok = tok,
      OF m r this _ assms(1)] assms(3-7)
  show ?thesis by (simp add: verifyRelayContext_def signRelayContext_def)
qed

text \<open>
  C17: a context token is accepted with claims \<open>c\<close> exactly when it is the token that signing \<open>c\<close> with the
  key gives, \<open>c\<close> is valid and of the expected environment, its life time covers the clock and the token
  fits the header limit: nothing but the signer's own output is accepted, and all of it is.
\<close>

theorem context_token_exact:
  assumes "\<And>k x. hmac k x \<noteq> []" "utf8_valid (c_clientId c)"
  shows "verifyRelayContext hmac tok key env now = Inr (Some c) \<longleftrightarrow>
    signRelayContext hmac c key = Inr tok \<and> valid_context c \<and> c_environment c = env \<and>
    c_issuedAtMs c \<le> now \<and> now < c_expiresAtMs c \<and> utf16_length tok \<le> RELAY_MAX_CONTEXT_HEADER_BYTES"
proof
  assume v: "verifyRelayContext hmac tok key env now = Inr (Some c)"
  then have t: "verifyRelayToken hmac tok key RELAY_CONTEXT_PURPOSE parseRelayContext context_json = Inr (Some c)"
    unfolding verifyRelayContext_def by (simp split: sum.splits option.splits if_splits)
  note s = verifyRelayToken_sound[OF t]
  have "valid_context c" using s(1) parseRelayContext_iff by blast
  with s(2,3) v show "signRelayContext hmac c key = Inr tok \<and> valid_context c \<and> c_environment c = env \<and>
    c_issuedAtMs c \<le> now \<and> now < c_expiresAtMs c \<and> utf16_length tok \<le> RELAY_MAX_CONTEXT_HEADER_BYTES"
    by (simp add: verifyRelayContext_def t signRelayContext_def split: if_splits)
qed (auto intro!: signed_context_verifies assms)

text \<open>the same for grant credentials.\<close>

lemma grant_credential_exact:
  assumes "\<And>k x. hmac k x \<noteq> []" "utf8_valid (k_clientId c)" "utf8_valid (k_model c)"
  shows "verifyRelayGrantCredential hmac tok key env now = Inr (Some c) \<longleftrightarrow>
    signRelayGrantCredential hmac c key = Inr tok \<and> valid_credential c \<and> k_environment c = env \<and>
    k_issuedAtMs c \<le> now \<and> now < k_expiresAtMs c \<and> utf16_length tok \<le> RELAY_MAX_CONTEXT_HEADER_BYTES"
proof
  assume v: "verifyRelayGrantCredential hmac tok key env now = Inr (Some c)"
  then have t: "verifyRelayToken hmac tok key RELAY_GRANT_PURPOSE parseRelayGrantCredential grant_claims_json = Inr (Some c)"
    unfolding verifyRelayGrantCredential_def by (simp split: sum.splits option.splits if_splits)
  note s = verifyRelayToken_sound[OF t]
  have "valid_credential c" using s(1) parseRelayGrantCredential_iff by blast
  with s(2,3) v show "signRelayGrantCredential hmac c key = Inr tok \<and> valid_credential c \<and> k_environment c = env \<and>
    k_issuedAtMs c \<le> now \<and> now < k_expiresAtMs c \<and> utf16_length tok \<le> RELAY_MAX_CONTEXT_HEADER_BYTES"
    by (simp add: verifyRelayGrantCredential_def t signRelayGrantCredential_def split: if_splits)
next
  assume h: "signRelayGrantCredential hmac c key = Inr tok \<and> valid_credential c \<and> k_environment c = env \<and>
    k_issuedAtMs c \<le> now \<and> now < k_expiresAtMs c \<and> utf16_length tok \<le> RELAY_MAX_CONTEXT_HEADER_BYTES"
  obtain m where m: "grant_claims_json c = JObj m" by (simp add: grant_claims_json_def)
  have r: "claim_record m" using credential_record[OF _ assms(2,3) m] h by blast
  have "parseRelayGrantCredential (JObj (sorted_members m)) = Some c"
    using h r sorted_same_props[of m] by (subst parseRelayGrantCredential_iff) (simp_all add: claim_record_def m)
  from verifyRelayToken_complete[where wr = grant_claims_json and parse = parseRelayGrantCredential and hmac = hmac and p = RELAY_GRANT_PURPOSE and c = c and key = key and tok = tok,
      OF m r this _ assms(1)] h
  show "verifyRelayGrantCredential hmac tok key env now = Inr (Some c)"
    by (simp add: verifyRelayGrantCredential_def signRelayGrantCredential_def)
qed

definition example_context :: relay_context where
  "example_context = \<lparr>c_environment = Preview, c_requestId = ''req_01ARZ3NDEKTSV4RRFFQ69G5FAV'', c_clientId = ''client'',
     c_idempotencyKeyHash = None, c_nonce = replicate 43 (CHR ''A''), c_issuedAtMs = 1000, c_expiresAtMs = 2000\<rparr>"

definition example_credential :: grant_credential where
  "example_credential = \<lparr>k_environment = Preview, k_requestId = ''req_01ARZ3NDEKTSV4RRFFQ69G5FAV'',
     k_grantId = ''00000000-0000-4000-8000-000000000000'', k_nonce = replicate 43 (CHR ''A''), k_clientId = ''client'',
     k_idempotencyKeyHash = None, k_model = ''gpt-5'', k_pool = MINI, k_admissionUtcDay = ''2026-01-01'',
     k_leaseGeneration = ''00000000-0000-4000-8000-000000000001'', k_issuedAtMs = 1000,
     k_expiresAtMs = 1000 + RELAY_GRANT_CREDENTIAL_TTL_MS\<rparr>"

lemma matches_simps:
  "matches (replicate n p) s \<longleftrightarrow> length s = n \<and> list_all p s"
  "matches (replicate n p @ ps) s \<longleftrightarrow> n \<le> length s \<and> list_all p (take n s) \<and> matches ps (drop n s)"
  "matches (p # ps) (c # s) \<longleftrightarrow> p c \<and> matches ps s"
proof -
  show r: "matches (replicate n p) s \<longleftrightarrow> length s = n \<and> list_all p s" for s
    unfolding matches_def by (auto simp: list_all2_conv_all_nth list_all_length)
  show "matches (replicate n p @ ps) s \<longleftrightarrow> n \<le> length s \<and> list_all p (take n s) \<and> matches ps (drop n s)"
  proof (cases "n \<le> length s")
    case True
    have "matches (replicate n p @ ps) (take n s @ drop n s) = (list_all2 (\<lambda>p c. p c) (replicate n p) (take n s) \<and> list_all2 (\<lambda>p c. p c) ps (drop n s))"
      unfolding matches_def using True by (intro list_all2_append) simp
    then show ?thesis using r[of "take n s"] True by (simp add: matches_def)
  next
    case False
    then show ?thesis using matches_length[of "replicate n p @ ps" s] by auto
  qed
  show "matches (p # ps) (c # s) \<longleftrightarrow> p c \<and> matches ps s" by (simp add: matches_def)
qed

lemma example_valid: "valid_context example_context" "valid_credential example_credential"
proof -
  have "RELAY_REQUEST_ID_PATTERN ''req_01ARZ3NDEKTSV4RRFFQ69G5FAV''"
    by (simp add: RELAY_REQUEST_ID_PATTERN_def matches_simps is_crockford_def is_upper_def is_digit_code less_eq_char_def)
  moreover have "RELAY_UUID_PATTERN ''00000000-0000-4000-8000-000000000000''" "RELAY_UUID_PATTERN ''00000000-0000-4000-8000-000000000001''"
    by (simp_all add: RELAY_UUID_PATTERN_def matches_simps is_lower_hex_def is_digit_code less_eq_char_def)
  moreover have "RELAY_NONCE_PATTERN (replicate 43 (CHR ''A''))"
    by (simp add: RELAY_NONCE_PATTERN_def matches_simps list_all_iff is_base64url_def is_upper_def less_eq_char_def)
  moreover have "RELAY_UTC_DAY_PATTERN ''2026-01-01''"
    by (simp add: RELAY_UTC_DAY_PATTERN_def utc_day_pattern_def matches_simps is_digit_code)
  ultimately show "valid_context example_context" "valid_credential example_credential"
    by (simp_all add: example_context_def example_credential_def valid_context_def valid_credential_def valid_hash_def
      valid_count_def safe_int_def MAX_SAFE_INTEGER_def RELAY_GRANT_CREDENTIAL_TTL_MS_def RELAY_MAX_CONTEXT_LIFETIME_MS_def
      utf8_length_def)
qed

lemma example_context_verifies:
  "\<exists>tok. signRelayContext (\<lambda>_ _. ''mac'') example_context key = Inr tok \<and> utf16_length tok \<le> RELAY_MAX_CONTEXT_HEADER_BYTES \<and>
     verifyRelayContext (\<lambda>_ _. ''mac'') tok key Preview 1500 = Inr (Some example_context)"
proof -
  have u: "utf8_valid (c_clientId example_context)" by (simp add: example_context_def utf8_valid_ascii)
  obtain m where m: "context_json example_context = JObj m" by (simp add: context_json_def)
  have "case context_json example_context of JObj m \<Rightarrow> sum_list (map (\<lambda>kx. Suc (length (member_text kx))) m) \<le> 900 | _ \<Rightarrow> False"
    by code_simp
  then have b: "sum_list (map (\<lambda>kx. Suc (length (member_text kx))) m) \<le> 900" by (simp add: m)
  obtain tok where "signRelayToken (\<lambda>_ _. ''mac'') (context_json example_context) key RELAY_CONTEXT_PURPOSE = Inr tok"
    "utf16_length tok \<le> 4 * int (sum_list (map (\<lambda>kx. Suc (length (member_text kx))) m)) + 138"
    by (rule signed_length[where wr = context_json and hmac = "\<lambda>_ _. ''mac''", OF m context_record[OF example_valid(1) u m]]) simp_all
  then have t: "signRelayContext (\<lambda>_ _. ''mac'') example_context key = Inr tok" "utf16_length tok \<le> RELAY_MAX_CONTEXT_HEADER_BYTES"
    using b by (simp_all add: signRelayContext_def RELAY_MAX_CONTEXT_HEADER_BYTES_def)
  have "verifyRelayContext (\<lambda>_ _. ''mac'') tok key (c_environment example_context) 1500 = Inr (Some example_context)"
    by (rule signed_context_verifies[OF _ u t(1) example_valid(1) _ _ t(2)]) (simp_all add: example_context_def)
  with t show ?thesis by (auto simp: example_context_def)
qed

lemma context_token_exact_witness:
  "\<exists>tok. signRelayContext (\<lambda>_ _. ''mac'') example_context [] = Inr tok \<and>
     verifyRelayContext (\<lambda>_ _. ''mac'') tok [] Preview 1500 = Inr (Some example_context)"
proof -
  obtain tok where t: "signRelayContext (\<lambda>_ _. ''mac'') example_context [] = Inr tok" "utf16_length tok \<le> RELAY_MAX_CONTEXT_HEADER_BYTES"
    using example_context_verifies by blast
  have "utf8_valid (c_clientId example_context)" by (simp add: example_context_def utf8_valid_ascii)
  then have "verifyRelayContext (\<lambda>_ _. ''mac'') tok [] Preview 1500 = Inr (Some example_context)"
    using context_token_exact[of "\<lambda>_ _. ''mac''" example_context tok "[]" Preview 1500] t example_valid(1)
    by (simp add: example_context_def)
  with t show ?thesis by blast
qed

lemma grant_credential_exact_witness:
  "\<exists>tok. signRelayGrantCredential (\<lambda>_ _. ''mac'') example_credential [] = Inr tok \<and>
     verifyRelayGrantCredential (\<lambda>_ _. ''mac'') tok [] Preview 1500 = Inr (Some example_credential)"
proof -
  have u: "utf8_valid (k_clientId example_credential)" "utf8_valid (k_model example_credential)"
    by (simp_all add: example_credential_def utf8_valid_ascii)
  obtain m where m: "grant_claims_json example_credential = JObj m" by (simp add: grant_claims_json_def)
  have "case grant_claims_json example_credential of JObj m \<Rightarrow> sum_list (map (\<lambda>kx. Suc (length (member_text kx))) m) \<le> 900 | _ \<Rightarrow> False"
    by code_simp
  then have b: "sum_list (map (\<lambda>kx. Suc (length (member_text kx))) m) \<le> 900" by (simp add: m)
  obtain tok where "signRelayToken (\<lambda>_ _. ''mac'') (grant_claims_json example_credential) [] RELAY_GRANT_PURPOSE = Inr tok"
    "utf16_length tok \<le> 4 * int (sum_list (map (\<lambda>kx. Suc (length (member_text kx))) m)) + 138"
    by (rule signed_length[where wr = grant_claims_json and hmac = "\<lambda>_ _. ''mac''", OF m credential_record[OF example_valid(2) u m]]) simp_all
  then have t: "signRelayGrantCredential (\<lambda>_ _. ''mac'') example_credential [] = Inr tok" "utf16_length tok \<le> RELAY_MAX_CONTEXT_HEADER_BYTES"
    using b by (simp_all add: signRelayGrantCredential_def RELAY_MAX_CONTEXT_HEADER_BYTES_def)
  have "verifyRelayGrantCredential (\<lambda>_ _. ''mac'') tok [] Preview 1500 = Inr (Some example_credential)"
    using grant_credential_exact[of "\<lambda>_ _. ''mac''" example_credential tok "[]" Preview 1500] u t example_valid(2)
    by (simp add: example_credential_def RELAY_GRANT_CREDENTIAL_TTL_MS_def)
  with t show ?thesis by blast
qed

end
