(* ===== verification/Samples.thy ===== *)
theory Samples
  imports Reachability Token
begin

section \<open>Samples: concrete runs of a controller\<close>

text \<open>
  A controller of one day with a limit of 100 tokens, and the states after a few calls, all at one time.
  The properties of the controller are shown to apply to these states.
\<close>

subsection \<open>The controller\<close>

definition day_name :: "string option" where
  "day_name = Some ''quota:STANDARD:2026-01-15''"

definition day_identity :: quota_identity where
  "day_identity = \<lparr>i_pool = STANDARD, i_utcDay = ''2026-01-15''\<rparr>"

definition day_env :: quota_env where
  "day_env = \<lparr>QUOTA_LIMIT_STANDARD = Some ''100'', QUOTA_LIMIT_MINI = None, MAX_IN_FLIGHT_REQUESTS = Some ''2'',
     OCTG_RELAY_ENVIRONMENT = Some ''preview'', CPU_GATE_STANDARD_CLIENT_ID = None, CPU_GATE_STANDARD_MODEL = None,
     CPU_GATE_MINI_CLIENT_ID = None, CPU_GATE_MINI_MODEL = None\<rparr>"

text \<open>The state after some calls at one time, or the empty one if a call throws.\<close>

definition after_calls :: "quota_call list \<Rightarrow> quota_store" where
  "after_calls cs = (case quota_calls (\<lambda>_. []) day_name day_env 1768435200000 cs empty_store of Inr st \<Rightarrow> st | Inl _ \<Rightarrow> empty_store)"

lemma after_calls_reachable [simp]: "reachable (\<lambda>_. []) day_name (after_calls cs)"
  by (auto simp: after_calls_def split: sum.split dest: quota_calls_reachable)

definition reserve_r1 :: quota_call where
  "reserve_r1 = Call_reserve ''r1'' (JsInt 60) (JsInt 80) (Some (JStr ''k'')) (Some ''c'')"

text \<open>The values that every call computes first.\<close>

lemma day_eval:
  "identity_of day_name = Inr day_identity" "to_iso_string 1768435200000 = ''2026-01-15T00:00:00.000Z''"
  "reset_at ''2026-01-15'' = Inr ''2026-01-16T00:00:00Z''" "resolveLimit day_env STANDARD = 100"
  "resolveMaxInFlightRequests (Some ''2'') = 2" "tierOf 100 100 = NORMAL" "tierOf 40 100 = NORMAL" "parseIdempotencyKey None = Key_absent"
  "parseIdempotencyKey (Some (JStr ''k'')) = Key_valid ''k''"
  by code_simp+

lemmas store_eval = empty_store_def loadPool_def savePool_def putEntry_def getEntry_def putIdempotencyRequestId_def
  getIdempotencyRequestId_def loadUnresolved_def saveUnresolved_def loadInFlight_def saveInFlight_def getRelayGrant_def
  putRelayGrant_def idem_key_def

lemmas call_eval = day_eval store_eval quota_rpc_def reserve_def reserve_transaction_def reserve_key_def reserve_target_def reserve_existing_def
  and_then_def tag_def Let_def write_reservation_def new_entry_def has_room_def remainingOf_def day_identity_def
  safe_int_def MAX_SAFE_INTEGER_def settle_def reconcileRequest_def parse_disposition_def settle_transition_def
  markUncertain_transition_def release_transition_def reconcile_transition_def markReserveOutcomeUnknown_def
  terminalizeGrantOnReconcile_def finalizeDay_def finalize_transaction_def

text \<open>A request that holds 60 tokens, one that a settlement closed, and one in doubt.\<close>

definition day_reserved :: quota_store where
  "day_reserved = after_calls [reserve_r1]"

definition day_settled :: quota_store where
  "day_settled = after_calls [reserve_r1, Call_settle ''r1'' (JsInt 55)]"

definition day_doubtful :: quota_store where
  "day_doubtful = after_calls [reserve_r1, Call_markUncertain ''r1'']"

lemmas sample_eval = day_reserved_def day_settled_def day_doubtful_def after_calls_def reserve_r1_def call_eval

lemma samples_reachable [simp]:
  "reachable (\<lambda>_. []) day_name day_reserved" "reachable (\<lambda>_. []) day_name day_settled" "reachable (\<lambda>_. []) day_name day_doubtful"
  by (simp_all add: day_reserved_def day_settled_def day_doubtful_def)

subsection \<open>A relay request\<close>

text \<open>The context of Token without a key, and the grant that the admission of it gives.\<close>

definition relay_meta :: request_meta where
  "relay_meta = \<lparr>m_model = ''gpt-5'', m_estimatedInputTokens = 20, m_maxOutputTokens = 10, m_inputBytes = 60,
     m_rawBodyBytes = 60, m_isToolUse = False, m_stream = True\<rparr>"

definition relay_input :: admission_input where
  "relay_input = \<lparr>a_reservedTokens = JsInt 30, a_upperBoundTokens = JsInt 40, a_maxOutputTokens = JsInt 10, a_cacheEnabled = False,
     a_context = context_json example_context, a_metadata = meta_json relay_meta, a_rawIdempotencyKey = None\<rparr>"

definition relay_admit :: quota_call where
  "relay_admit = Call_admitRelay relay_input ''00000000-0000-4000-8000-000000000001'' ''00000000-0000-4000-8000-000000000000''"

definition relay_binding :: grant_binding where
  "relay_binding = \<lparr>b_requestId = ''req_01ARZ3NDEKTSV4RRFFQ69G5FAV'', b_grantId = ''00000000-0000-4000-8000-000000000000'',
     b_leaseGeneration = ''00000000-0000-4000-8000-000000000001'',
     b_claims = example_credential\<lparr>k_pool := STANDARD, k_admissionUtcDay := ''2026-01-15'', k_issuedAtMs := 1768435200000,
       k_expiresAtMs := 1768435200000 + RELAY_GRANT_CREDENTIAL_TTL_MS\<rparr>\<rparr>"

lemma relay_eval:
  "parseRelayContext (context_json example_context) = Some example_context"
  "parseRelayRequestMeta (meta_json relay_meta) = Some relay_meta"
  "relayGrantRetentionDeadlineMs ''2026-01-15'' = Inr 1772409600000"
  "parse_environment ''preview'' = Some Preview"
proof -
  show "parseRelayContext (context_json example_context) = Some example_context"
    using example_valid(1) by (subst parseRelayContext_iff) (simp_all add: context_json_def same_props_def)
  show "parseRelayRequestMeta (meta_json relay_meta) = Some relay_meta"
    by (subst parseRelayRequestMeta_iff)
      (simp_all add: meta_json_def same_props_def valid_meta_def relay_meta_def valid_count_def safe_int_def MAX_SAFE_INTEGER_def
        utf8_length_def RELAY_MAX_INGRESS_BODY_BYTES_def)
  show "relayGrantRetentionDeadlineMs ''2026-01-15'' = Inr 1772409600000" by code_simp
  show "parse_environment ''preview'' = Some Preview" by code_simp
qed

lemma relay_fields:
  "OCTG_RELAY_ENVIRONMENT day_env = Some ''preview''" "MAX_IN_FLIGHT_REQUESTS day_env = Some ''2''"
  "c_environment example_context = Preview" "c_requestId example_context = ''req_01ARZ3NDEKTSV4RRFFQ69G5FAV''"
  "c_clientId example_context = ''client''" "c_idempotencyKeyHash example_context = None"
  "c_nonce example_context = replicate 43 (CHR ''A'')" "m_model relay_meta = ''gpt-5''"
  by (simp_all add: day_env_def example_context_def relay_meta_def)

lemmas relay_call_eval = relay_eval call_eval admitRelayInTransaction_def check_admission_def isNonNegativeSafeInteger_def
  resolveRelayEnvironment_def isKeyBindingConsistent_def key_taken_def admit_new_def normalizeInFlightState_def
  withoutExpiredLeases_def buildQuotaSnapshot_def relayLeaseExpiry_def new_grant_def activateRelayInTransaction_def
  grantBindingMismatch_def isTerminalGrantState_def activeGrantLeases_def lease_of_def lease_held_def
  DEFAULT_IN_FLIGHT_LEASE_TTL_MS_def RELAY_GRANT_CREDENTIAL_TTL_MS_def RELAY_GRANT_AUTHORIZATION_TTL_MS_def

definition day_admitted :: quota_store where
  "day_admitted = after_calls [relay_admit]"

definition day_activated :: quota_store where
  "day_activated = after_calls [relay_admit, Call_activateRelay relay_binding]"

lemmas relay_sample_eval = day_admitted_def day_activated_def after_calls_def relay_admit_def relay_input_def relay_binding_def
  example_credential_def relay_fields relay_call_eval

lemma relay_samples_reachable [simp]:
  "reachable (\<lambda>_. []) day_name day_admitted" "reachable (\<lambda>_. []) day_name day_activated"
  by (simp_all add: day_admitted_def day_activated_def)

end
