(* ===== verification/Quota_Contract.thy ===== *)
theory Quota_Contract
  imports Samples
begin

section \<open>Quota_Contract: what the quota controller promises about requests and the day\<close>

text \<open>
  The properties of reservations, transitions and the end of the day, in every reachable state and along the
  steps of one day.
\<close>

subsection \<open>Counters and capacity\<close>

text \<open>C2: In every reachable state of a quota controller the counters that the code keeps beside the request
  records are exactly the sums over those records: reserved tokens over the requests that hold tokens, uncertain
  tokens over those in doubt, confirmed tokens over what was spent, the request count, and the two counts that
  decide whether the day may be finalized.\<close>

theorem counters_are_sums:
  assumes "reachable sha256 name st"
  shows "reservedTokens (loadPool st env i now) = total held st \<and>
    uncertainTokens (loadPool st env i now) = total doubtful st \<and>
    confirmedTokens (loadPool st env i now) = total spent st \<and>
    requestCount (loadPool st env i now) = int (length (st_entries st)) \<and>
    reservedCount (loadUnresolved st) = total count_held st \<and>
    uncertainCount (loadUnresolved st) = total count_doubtful st"
  using ledger_counts[OF sound_parts(1)[OF reachable_sound[OF assms]]] by simp

theorem counters_are_sums_witness:
  "confirmedTokens (loadPool day_settled day_env day_identity 0) = total spent day_settled \<and>
   confirmedTokens (loadPool day_settled day_env day_identity 0) = 55"
  by (rule conjI) (use counters_are_sums[OF samples_reachable(2)] in blast, simp add: sample_eval)

text \<open>C1: The pool is never oversubscribed: in every reachable state the used tokens stay within the limit, but
  for what settlements reported beyond their reservations.\<close>

theorem never_oversubscribed:
  assumes "reachable sha256 name st"
  shows "0 \<le> limit (loadPool st env i now) \<and> - total over st \<le> remainingOf (loadPool st env i now)"
proof -
  note s = sound_parts[OF reachable_sound[OF assms]]
  note l = loadPool_limit[OF s(2)] and r = remaining_total[OF s(1), of env i now]
  show ?thesis
  proof (cases "pool_limit st")
    case None
    then have "st_entries st = []" using s(1) by (simp add: ledger_def pool_limit_def split: option.splits)
    then show ?thesis using r l(1) by (simp add: total_def)
  next
    case (Some x)
    then have "total held st + total doubtful st + total spent st \<le> x + total over st" using s(2) by (simp add: capacity_def)
    then show ?thesis using r l(1)[of env i now] l(2)[OF Some, of env i now] by linarith
  qed
qed

theorem never_oversubscribed_witness:
  "- total over day_reserved \<le> remainingOf (loadPool day_reserved day_env day_identity 0) \<and>
   remainingOf (loadPool day_reserved day_env day_identity 0) = 40"
  by (rule conjI) (use never_oversubscribed[OF samples_reachable(1)] in blast, simp add: sample_eval)

subsection \<open>Reservations\<close>

text \<open>A reservation that reaches its transaction.\<close>

lemma reserve_runs:
  assumes "reserve env i now r t u k c st = Inr (res, st')"
  obtains key resetAt where "key = (case parseIdempotencyKey k of Key_valid x \<Rightarrow> Some x | _ \<Rightarrow> None)"
    "reset_at (i_utcDay i) = Inr resetAt" "is_safe_integer t" "is_safe_integer u" "0 \<le> the_int t" "the_int t \<le> the_int u"
    "parseIdempotencyKey k \<noteq> Key_invalid"
    "reserve_transaction env i now r (the_int t) (the_int u) key c resetAt st = Inr (res, st')"
  using assms by (auto simp: reserve_def and_then_Inr split: if_splits parsed_key.splits)

text \<open>C4: A reservation for a request without a record gives one of three results.  It is accepted only while the day is
  not finalized and the tokens fit the remaining quota (near the limit also the upper bound must fit); then the
  request holds exactly its tokens, every other request, grant and lease stays, and the answer is the new remaining
  quota, which is not negative.  A refusal and a duplicate leave the storage, and a duplicate names a request that
  is not released.\<close>

theorem reserve_outcome:
  assumes "reachable sha256 name st" "look st r = None" "reserve env i now r t u k c st = Inr (res, st')"
  shows "case res of
      Reserve_ok remaining resetAt \<Rightarrow>
        \<not> st_finalized st \<and> the_int t \<le> remainingOf (loadPool st env i now) \<and>
        (tierOf (remainingOf (loadPool st env i now)) (limit (loadPool st env i now)) = STRICT \<longrightarrow>
          the_int u \<le> remainingOf (loadPool st env i now)) \<and>
        look st' = (look st)(r := Some (Held (the_int t))) \<and>
        remaining = remainingOf (loadPool st env i now) - the_int t \<and>
        remaining = remainingOf (loadPool st' env i now) \<and> 0 \<le> remaining \<and>
        st_grants st' = st_grants st \<and> st_in_flight st' = st_in_flight st
    | Reserve_insufficient remaining resetAt \<Rightarrow>
        st' = st \<and> (st_finalized st \<and> remaining = 0 \<or>
          remaining = remainingOf (loadPool st env i now) \<and> \<not> has_room (loadPool st env i now) (the_int t) (the_int u))
    | Reserve_duplicate m resetAt \<Rightarrow> st' = st \<and> m \<noteq> r \<and> look st m \<noteq> None \<and> look st m \<noteq> Some Freed"
proof -
  note s = reachable_sound[OF assms(1)]
  obtain key resetAt where p: "reset_at (i_utcDay i) = Inr resetAt" "0 \<le> the_int t" "the_int t \<le> the_int u"
    "reserve_transaction env i now r (the_int t) (the_int u) key c resetAt st = Inr (res, st')"
    using reserve_runs[OF assms(3)] by metis
  define target where "target = reserve_target st r (reserve_key st key c)"
  show ?thesis
  proof (cases "getEntry st target")
    case None
    note f = reserve_target_free[OF sound_parts(3)[OF s] None[unfolded target_def]]
    show ?thesis
    proof (cases "st_finalized st \<or> \<not> has_room (loadPool st env i now) (the_int t) (the_int u)")
      case True
      then show ?thesis using p(4) None by (auto simp: reserve_transaction_def target_def[symmetric] Let_def split: if_splits)
    next
      case False
      then have w: "res = Reserve_ok (remainingOf (loadPool st env i now) - the_int t) resetAt"
        "st' = write_reservation now (loadPool st env i now) r (the_int t) (the_int u) key c
           (Reserve_ok (remainingOf (loadPool st env i now) - the_int t) resetAt) st"
        using p(4) None by (auto simp: reserve_transaction_def target_def[symmetric] Let_def)
      note wl = write_reservation_ledger[OF sound_parts(1)[OF s] f(1) p(2,3) w(2)]
      have room: "has_room (loadPool st env i now) (the_int t) (the_int u)" using False by simp
      have s': "sound st'" "0 \<le> remainingOf (loadPool st' env i now)"
        using sound_reservation[OF s f(1) p(2,3) room w(2)] by simp_all
      have "limit (loadPool st' env i now) = limit (loadPool st env i now)"
        using loadPool_limit(2)[OF sound_parts(2)[OF s'(1)] wl(4)] .
      then have "remainingOf (loadPool st' env i now) = remainingOf (loadPool st env i now) - the_int t"
        using remaining_total[OF sound_parts(1)[OF s], of env i now] remaining_total[OF sound_parts(1)[OF s'(1)], of env i now]
        by (simp add: wl)
      then show ?thesis
        using False s'(2) room by (auto simp: w(1) wl has_room_def Let_def)
    qed
  next
    case (Some existing)
    have m: "reserve_key st key c = Some target" "e_state existing \<noteq> Req_released" "target \<noteq> r"
      using Some assms(2)
      by (auto simp: target_def reserve_target_def look_def split: option.splits if_splits)
    then have "look st target \<noteq> Some Freed" using Some by (cases "e_state existing") (simp_all add: look_def abs_entry_state)
    moreover have "reserve_target st r (Some target) = target" using m(1) target_def by simp
    ultimately show ?thesis using p(4) Some m
      by (auto simp: reserve_transaction_def target_def[symmetric] Let_def reserve_existing_def look_def)
  qed
qed

theorem reserve_outcome_witness:
  "\<exists>st'. reserve day_env day_identity 1768435200000 ''r2'' (JsInt 30) (JsInt 40) None None day_reserved
      = Inr (Reserve_ok 10 ''2026-01-16T00:00:00Z'', st') \<and> look st' ''r2'' = Some (Held 30)"
proof -
  obtain st' where r: "reserve day_env day_identity 1768435200000 ''r2'' (JsInt 30) (JsInt 40) None None day_reserved
      = Inr (Reserve_ok 10 ''2026-01-16T00:00:00Z'', st')"
    by (simp add: sample_eval)
  have "look day_reserved ''r2'' = None" by (simp add: sample_eval look_def)
  from reserve_outcome[OF samples_reachable(1) this r] r show ?thesis by simp
qed

text \<open>What a reservation saves stays saved: the size of the request, its result and its key.\<close>

definition saved_reservation ::
  "string \<Rightarrow> int \<Rightarrow> int \<Rightarrow> string option \<Rightarrow> string option \<Rightarrow> reserve_result \<Rightarrow> quota_store \<Rightarrow> bool" where
  "saved_reservation r t u key c res st \<longleftrightarrow>
     (\<exists>e. getEntry st r = Some e \<and> e_tokens e = t \<and> e_upperBoundTokens e = u \<and> res_reserve (e_results e) = Some res) \<and>
     (\<forall>k. key = Some k \<longrightarrow> getIdempotencyRequestId st k c = Some r \<or> look st r = Some Freed)"

lemma frame_freed: "frame st st' \<Longrightarrow> look st r = Some Freed \<Longrightarrow> look st' r = Some Freed"
  by (fastforce simp: frame_def entries_frame_def look_def)

lemma frame_saved:
  assumes "frame a b" "saved_reservation r t u key c res a"
  shows "saved_reservation r t u key c res b"
  using assms(2) frame_freed[OF assms(1), of r] assms(1)
  unfolding saved_reservation_def frame_def entries_frame_def keys_frame_def getIdempotencyRequestId_def
  by (fastforce simp: entry_evolves_def)

lemma later_saved:
  assumes "later sha256 name st st'" "sound st" "saved_reservation r t u key c res st"
  shows "saved_reservation r t u key c res st'"
  by (rule later_stable[where P = "saved_reservation r t u key c res", OF assms]) (rule frame_saved)

lemma write_reservation_saved:
  assumes "st' = write_reservation now p r t u key c res st"
  shows "saved_reservation r t u key c res st'"
  by (auto simp: assms saved_reservation_def write_reservation_def Let_def store_simps new_entry_def split: option.split)

lemma released_state: "abs_entry e \<noteq> Freed \<Longrightarrow> e_state e \<noteq> Req_released"
  by (auto simp: abs_entry_def)

text \<open>A reservation is idempotent for the rest of its day: once a request is reserved, the same call at any later
  time, after any other calls, gives the same answer and changes nothing, with a key as long as the request is not
  released, and without a key always.\<close>

lemma reserve_replays:
  assumes "reachable sha256 name st" "look st r = None"
    and "reserve env i now r t u k c st = Inr (Reserve_ok remaining resetAt, st1)" "later sha256 name st1 st2"
    and "parseIdempotencyKey k = Key_absent \<or> look st2 r \<noteq> Some Freed"
  shows "reserve env' i now' r t u k c st2 = Inr (Reserve_ok remaining resetAt, st2)"
proof -
  note s = reachable_sound[OF assms(1)]
  obtain key ra where p: "key = (case parseIdempotencyKey k of Key_valid x \<Rightarrow> Some x | _ \<Rightarrow> None)"
    "reset_at (i_utcDay i) = Inr ra" "is_safe_integer t" "is_safe_integer u" "0 \<le> the_int t" "the_int t \<le> the_int u"
    "parseIdempotencyKey k \<noteq> Key_invalid"
    "reserve_transaction env i now r (the_int t) (the_int u) key c ra st = Inr (Reserve_ok remaining resetAt, st1)"
    using reserve_runs[OF assms(3)] by metis
  have "getEntry st (reserve_target st r (reserve_key st key c)) = None"
  proof (rule ccontr)
    assume "getEntry st (reserve_target st r (reserve_key st key c)) \<noteq> None"
    then obtain e where e: "getEntry st (reserve_target st r (reserve_key st key c)) = Some e" by blast
    then have "reserve_key st key c \<noteq> None \<and> e_state e \<noteq> Req_released \<and> reserve_key st key c \<noteq> Some r"
      using assms(2) by (auto simp: reserve_target_def look_def split: option.splits if_splits)
    then show False using p(8) e by (simp add: reserve_transaction_def Let_def reserve_existing_def)
  qed
  then have "st1 = write_reservation now (loadPool st env i now) r (the_int t) (the_int u) key c (Reserve_ok remaining resetAt) st"
    using p(8) by (auto simp: reserve_transaction_def Let_def split: if_splits)
  from write_reservation_saved[OF this] reserve_sound[OF s assms(3)]
  have sv: "saved_reservation r (the_int t) (the_int u) key c (Reserve_ok remaining resetAt) st2"
    using later_saved[OF assms(4)] by blast
  have mapped: "reserve_key st2 key c = None \<or> reserve_key st2 key c = Some r"
    using sv assms(5) p(1) by (auto simp: reserve_key_def saved_reservation_def split: parsed_key.splits)
  obtain e where e: "getEntry st2 r = Some e" "e_tokens e = the_int t" "e_upperBoundTokens e = the_int u"
    "res_reserve (e_results e) = Some (Reserve_ok remaining resetAt)"
    using sv by (auto simp: saved_reservation_def)
  then have "reserve_transaction env' i now' r (the_int t) (the_int u) key c ra st2 = Inr (Reserve_ok remaining resetAt, st2)"
    using mapped by (auto simp: reserve_transaction_def Let_def reserve_target_def reserve_existing_def)
  then show ?thesis using p by (cases "parseIdempotencyKey k") (simp_all add: reserve_def)
qed

theorem reserve_replays_witness:
  "\<exists>st1. reserve day_env day_identity 1768435200000 ''r2'' (JsInt 30) (JsInt 40) None None day_reserved
      = Inr (Reserve_ok 10 ''2026-01-16T00:00:00Z'', st1) \<and>
    reserve day_env day_identity 1768435200005 ''r2'' (JsInt 30) (JsInt 40) None None st1
      = Inr (Reserve_ok 10 ''2026-01-16T00:00:00Z'', st1)"
proof -
  obtain st1 where r: "reserve day_env day_identity 1768435200000 ''r2'' (JsInt 30) (JsInt 40) None None day_reserved
      = Inr (Reserve_ok 10 ''2026-01-16T00:00:00Z'', st1)"
    by (simp add: sample_eval)
  have "look day_reserved ''r2'' = None" by (simp add: sample_eval look_def)
  moreover have "later (\<lambda>_. []) day_name st1 st1" by (simp add: later_def)
  ultimately show ?thesis using reserve_replays[OF samples_reachable(1) _ r] r by (simp add: day_eval)
qed

text \<open>C9: An idempotency key stays bound to its request for the day: while the request is not released, a reservation of
  another request under the same key and client is a duplicate that names it, and changes nothing.\<close>

theorem key_stays_bound:
  assumes "reachable sha256 name st" "getIdempotencyRequestId st x c = Some m" "later sha256 name st st2"
    and "look st2 m \<noteq> Some Freed" "m \<noteq> r" "parseIdempotencyKey k = Key_valid x"
    and "reserve env i now r t u k c st2 = Inr (res, st3)"
  shows "st3 = st2 \<and> (\<exists>resetAt. res = Reserve_duplicate m resetAt)"
proof -
  note s = reachable_sound[OF assms(1)]
  define P where "P = (\<lambda>a. kv_get (st_idem a) (idem_key c x) = Some m \<or> look a m = Some Freed)"
  have "P st" using assms(2) by (simp add: P_def getIdempotencyRequestId_def)
  moreover have "P b" if "frame a b" "P a" for a b
    using that frame_freed[OF that(1), of m] by (auto simp: P_def frame_def keys_frame_def)
  ultimately have st2: "P st2" "sound st2" using later_stable[OF assms(3) s, of P] by blast+
  then have m: "kv_get (st_idem st2) (idem_key c x) = Some m" using assms(4) by (simp add: P_def)
  then obtain e where e: "getEntry st2 m = Some e" using sound_parts(3)[OF st2(2)] by (fastforce simp: idem_ok_def look_def)
  then have "e_state e \<noteq> Req_released" using assms(4) released_freed by blast
  then show ?thesis
    using assms(5-7) m e
    by (auto simp: reserve_def and_then_Inr reserve_transaction_def reserve_key_def getIdempotencyRequestId_def
        reserve_target_def reserve_existing_def Let_def split: if_splits)
qed

theorem key_stays_bound_witness:
  "\<exists>resetAt. reserve day_env day_identity 1768435200000 ''r2'' (JsInt 1) (JsInt 1) (Some (JStr ''k'')) (Some ''c'') day_reserved
     = Inr (Reserve_duplicate ''r1'' resetAt, day_reserved)"
proof -
  obtain res st3 where r: "reserve day_env day_identity 1768435200000 ''r2'' (JsInt 1) (JsInt 1) (Some (JStr ''k'')) (Some ''c'') day_reserved
      = Inr (res, st3)"
    by (simp add: sample_eval)
  have "getIdempotencyRequestId day_reserved ''k'' (Some ''c'') = Some ''r1''" "look day_reserved ''r1'' \<noteq> Some Freed"
    by (simp_all add: sample_eval look_def abs_entry_def)
  moreover have "later (\<lambda>_. []) day_name day_reserved day_reserved" by (simp add: later_def)
  ultimately have "st3 = day_reserved \<and> (\<exists>resetAt. res = Reserve_duplicate ''r1'' resetAt)"
    using key_stays_bound[OF samples_reachable(1) _ _ _ _ _ r] by (simp add: day_eval)
  with r show ?thesis by blast
qed

subsection \<open>Transitions\<close>

text \<open>The abstract transition of a call, if it is one.\<close>

fun call_transition :: "quota_call \<Rightarrow> (string \<times> quota_transition) option" where
  "call_transition (Call_settle r n) = Some (r, Settle (the_int n))"
| "call_transition (Call_markUncertain r) = Some (r, Mark_uncertain)"
| "call_transition (Call_markReserveOutcomeUnknown r) = Some (r, Mark_uncertain)"
| "call_transition (Call_release r) = Some (r, Release)"
| "call_transition (Call_reconcileRequest r d) = map_option (\<lambda>x. (r, Reconcile x)) (parse_disposition d)"
| "call_transition _ = None"

text \<open>C3: The calls that move a request refine the four abstract transitions: after a settlement, a mark of
  uncertainty, a release or a reconciliation, the request is the abstract transition of what it was, every other
  request is as before, and the sums of any weight move by that one request.  The limit, the idempotency keys, the fences and
  the final mark stay.\<close>

theorem calls_refine_transitions:
  assumes "reachable sha256 name st" "quota_rpc sha256 name env now call st = Inr (a, st')" "call_transition call = Some (r, tr)"
  shows "look st' = (look st)(r := map_option (abs_step tr) (look st r)) \<and>
    (\<forall>f. total f st' = total f st + old_weight f (map_option (abs_step tr) (look st r)) - old_weight f (look st r)) \<and>
    pool_limit st' = pool_limit st \<and> st_idem st' = st_idem st \<and> st_fences st' = st_fences st \<and> st_finalized st' = st_finalized st"
proof -
  note l = sound_parts(1)[OF reachable_sound[OF assms(1)]]
  obtain i where t: "transaction sha256 env i now call st = Inr (a, st')" using rpc_transaction[OF assms(2)] by metis
  have "change r (map_option (abs_step tr) (look st r)) st st'"
  proof (cases call)
    case (Call_settle r' n)
    then show ?thesis using assms(3) t settle_refines[OF l, where n = "the_int n", THEN conjunct2]
      by (auto simp: settle_def tag_Inr intro: prod.exhaust split: if_splits)
  next
    case (Call_reconcileRequest r' d)
    then show ?thesis using assms(3) t reconcile_refines[OF l, THEN conjunct2] by (auto simp: reconcileRequest_def tag_Inr split: option.splits)
  qed (use assms(3) t markUncertain_refines[OF l, THEN conjunct2] release_refines[OF l, THEN conjunct2] markReserveOutcomeUnknown_refines[OF l, THEN conjunct2] in
      \<open>auto simp: tag_Inr\<close>)
  then show ?thesis by (simp add: change_def)
qed

theorem calls_refine_transitions_witness:
  "\<exists>a st'. quota_rpc (\<lambda>_. []) day_name day_env 1768435200000 (Call_settle ''r1'' (JsInt 55)) day_doubtful = Inr (a, st') \<and>
     look st' = (look day_doubtful)(''r1'' := Some (Spent 55 60))"
proof -
  obtain a st' where r: "quota_rpc (\<lambda>_. []) day_name day_env 1768435200000 (Call_settle ''r1'' (JsInt 55)) day_doubtful = Inr (a, st')"
    by (simp add: sample_eval)
  have "look day_doubtful ''r1'' = Some (Doubtful 60)" by (simp add: sample_eval look_def abs_entry_def)
  then show ?thesis using calls_refine_transitions[OF samples_reachable(3) r] r by simp
qed

text \<open>A request that is settled, reconciled or released stays as it is for the rest of the day, whatever calls follow;
  its size and its key never change.\<close>

lemma closed_requests_stay:
  assumes "reachable sha256 name st" "later sha256 name st st'" "getEntry st r = Some e" "abs_entry e = Freed \<or> abs_entry e = Spent n t"
  shows "look st' r = Some (abs_entry e) \<and> (\<exists>e'. getEntry st' r = Some e' \<and> entry_evolves e e')"
proof -
  define P where "P = (\<lambda>a. \<exists>e'. getEntry a r = Some e' \<and> abs_entry e' = abs_entry e \<and> entry_evolves e e')"
  have "P st" using assms(3) by (simp add: P_def entry_evolves_def)
  moreover have "P b" if fr: "frame a b" and pa: "P a" for a b
  proof -
    obtain e1 where e1: "getEntry a r = Some e1" "abs_entry e1 = abs_entry e" "entry_evolves e e1" using pa by (auto simp: P_def)
    then obtain e2 where e2: "getEntry b r = Some e2" "entry_evolves e1 e2"
      "abs_entry e2 = abs_entry e1 \<or> (\<exists>tr. abs_entry e2 = abs_step tr (abs_entry e1))"
      using fr by (fastforce simp: frame_def entries_frame_def)
    then have "abs_entry e2 = abs_entry e" using e1(2) assms(4) by auto
    then show ?thesis using e2 e1(3) by (auto simp: P_def entry_evolves_def)
  qed
  ultimately have "P st'" using later_stable(1)[OF assms(2) reachable_sound[OF assms(1)], of P] by blast
  then show ?thesis by (auto simp: P_def look_def)
qed

theorem closed_requests_stay_witness:
  "\<exists>a st'. quota_rpc (\<lambda>_. []) day_name day_env 1768435200000 (Call_release ''r1'') day_settled = Inr (a, st') \<and>
     look st' ''r1'' = Some (Spent 55 60)"
proof -
  obtain a st' where r: "quota_rpc (\<lambda>_. []) day_name day_env 1768435200000 (Call_release ''r1'') day_settled = Inr (a, st')"
    by (simp add: sample_eval)
  then have "later (\<lambda>_. []) day_name day_settled st'" by (auto simp: later_def intro!: r_into_rtranclp open_step.open_call)
  moreover obtain e where e: "getEntry day_settled ''r1'' = Some e" "abs_entry e = Spent 55 60"
    by (simp add: sample_eval abs_entry_def)
  ultimately have "look st' ''r1'' = Some (Spent 55 60)" using closed_requests_stay[OF samples_reachable(2)] by metis
  with r show ?thesis by blast
qed

subsection \<open>The end of the day\<close>

lemma total_zero_iff:
  assumes "ledger st" "\<And>x. 0 \<le> f x"
  shows "total f st \<le> 0 \<longleftrightarrow> (\<forall>r x. look st r = Some x \<longrightarrow> f x = 0)"
proof
  assume t: "total f st \<le> 0"
  show "\<forall>r x. look st r = Some x \<longrightarrow> f x = 0"
    using total_bounds(2)[OF assms(1), of f] assms(2) t by (fastforce simp: look_def intro: antisym)
next
  assume z: "\<forall>r x. look st r = Some x \<longrightarrow> f x = 0"
  have "distinct (map fst (st_entries st))" using assms(1) by (simp add: ledger_def)
  then have "f (abs_entry v) = 0" if "v \<in> snd ` set (st_entries st)" for v
    using that z by (force simp: look_def getEntry_def)
  then have "total f st = kv_sum (\<lambda>_. 0) (st_entries st)" unfolding total_def by (intro kv_sum_cong)
  then show "total f st \<le> 0" by (simp add: kv_sum_def sum_list_0)
qed

definition unresolved :: "abs_request \<Rightarrow> bool" where
  "unresolved x \<longleftrightarrow> (\<exists>t. x = Held t \<or> x = Doubtful t)"

lemma unresolved_counts:
  assumes "ledger st"
  shows "0 < total count_held st \<or> 0 < total count_doubtful st \<longleftrightarrow> (\<exists>r x. look st r = Some x \<and> unresolved x)"
proof -
  have nn: "0 \<le> count_held x" "0 \<le> count_doubtful x" "unresolved x \<longleftrightarrow> count_held x \<noteq> 0 \<or> count_doubtful x \<noteq> 0" for x
    by (cases x; simp add: unresolved_def)+
  show ?thesis
    using total_zero_iff[OF assms nn(1)] total_zero_iff[OF assms nn(2)] by (fastforce simp: nn(3) not_le[symmetric])
qed

text \<open>C12: In every reachable state \<open>finalizeDay\<close> succeeds exactly when no request holds tokens or is in doubt, and then
  empties the storage; otherwise it reports the two counts of unresolved requests, uncertain ones first, and leaves
  the storage.\<close>

theorem finalize_exact:
  assumes "reachable sha256 name st"
  shows "(case finalizeDay st of
      (Finalized, st') \<Rightarrow> (\<nexists>r x. look st r = Some x \<and> unresolved x) \<and> st' = empty_store
    | (Uncertain_remaining u h, st') \<Rightarrow> st' = st \<and> 0 < u \<and> u = total count_doubtful st \<and> h = total count_held st
    | (Reserved_remaining u h, st') \<Rightarrow> st' = st \<and> u = 0 \<and> 0 < h \<and> total count_doubtful st = 0 \<and> h = total count_held st)"
proof -
  note l = sound_parts(1)[OF reachable_sound[OF assms]]
  note c = ledger_counts(5,6)[OF l] and n = total_nonneg(4,5)[OF l]
  show ?thesis
    using unresolved_counts[OF l] n by (auto simp: finalizeDay_def finalize_transaction_def Let_def c)
qed

theorem finalize_exact_witness:
  "finalizeDay day_doubtful = (Uncertain_remaining 1 0, day_doubtful) \<and> total count_doubtful day_doubtful = 1 \<and>
   finalizeDay day_settled = (Finalized, empty_store) \<and> (\<nexists>r x. look day_settled r = Some x \<and> unresolved x)"
proof -
  have "finalizeDay day_doubtful = (Uncertain_remaining 1 0, day_doubtful)" "finalizeDay day_settled = (Finalized, empty_store)"
    by (simp_all add: sample_eval)
  then show ?thesis using finalize_exact[OF samples_reachable(3)] finalize_exact[OF samples_reachable(2)] by simp
qed

text \<open>Reconciling at time 0 never throws, so every request can be closed.\<close>

lemma legacy_leases_total: "\<exists>ls. legacy_leases rs 0 = Inr ls"
  by (induction rs)
    (auto simp: expiresAtMs_def Let_def DEFAULT_IN_FLIGHT_LEASE_TTL_MS_def safe_int_def MAX_SAFE_INTEGER_def)

lemma release_lease_total: "\<exists>res. releaseInFlightLease 0 r g st = Inr res"
proof -
  have "\<exists>ls m. normalizeInFlightState (loadInFlight st) 0 = Inr (ls, m)"
  proof (cases "loadInFlight st")
    case (Legacy_in_flight rs)
    then show ?thesis using legacy_leases_total[of rs] by (auto simp: normalizeInFlightState_def)
  qed (metis normalizeInFlightState_def in_flight_state.simps(6))
  then show ?thesis by (auto simp: releaseInFlightLease_def Let_def)
qed

lemma terminalize_total: "\<exists>st'. terminalizeGrantOnReconcile 0 r d st = Inr st'"
proof (cases "getRelayGrant st r")
  case (Some grant)
  obtain b st1 where "releaseInFlightLease 0 r (Some (gr_leaseGeneration grant)) st = Inr (b, st1)"
    using release_lease_total by (metis surj_pair)
  then show ?thesis using Some by (simp add: terminalizeGrantOnReconcile_def)
qed (simp add: terminalizeGrantOnReconcile_def)

lemma reconcile_total: "\<exists>res st'. reconcile_transition env i 0 r d st = Inr (res, st')"
proof -
  have "\<exists>res st'. and_then (terminalizeGrantOnReconcile 0 r d s) (\<lambda>st2. Inr (Reconcile_ok True, st2)) = Inr (res, st')" for d s
    using terminalize_total[of r d s] by auto
  then show ?thesis by (simp add: reconcile_transition_def Let_def split: option.split)
qed

lemma reconcile_all:
  assumes "identity_of name = Inr i" "sound st"
  shows "\<exists>st'. quota_calls sha256 name env 0 (map (\<lambda>r. Call_reconcileRequest r ''unused'') rs) st = Inr st' \<and> sound st' \<and>
    (\<forall>r x. look st' r = Some x \<longrightarrow> unresolved x \<longrightarrow> r \<notin> set rs \<and> look st r = Some x)"
  using assms(2)
proof (induction rs arbitrary: st)
  case (Cons r rs)
  obtain res st1 where r: "reconcile_transition env i 0 r Unused st = Inr (res, st1)" using reconcile_total by blast
  then have q: "quota_rpc sha256 name env 0 (Call_reconcileRequest r ''unused'') st = Inr (Ans_reconcile res, st1)"
    by (simp add: quota_rpc_def assms(1) reconcileRequest_def parse_disposition_def tag_def)
  have s1: "sound st1" using reconcile_sound[OF Cons.prems r] .
  have l1: "look st1 = (look st)(r := map_option (abs_step (Reconcile Unused)) (look st r))"
    using reconcile_refines[OF sound_parts(1)[OF Cons.prems] r] by (simp add: change_def)
  obtain st' where st': "quota_calls sha256 name env 0 (map (\<lambda>r. Call_reconcileRequest r ''unused'') rs) st1 = Inr st'" "sound st'"
    "\<forall>r x. look st' r = Some x \<longrightarrow> unresolved x \<longrightarrow> r \<notin> set rs \<and> look st1 r = Some x"
    using Cons.IH[OF s1] by blast
  have "\<not> unresolved (abs_step (Reconcile Unused) x)" for x by (cases x) (simp_all add: unresolved_def)
  then have "\<forall>r' x. look st' r' = Some x \<longrightarrow> unresolved x \<longrightarrow> r' \<notin> set (r # rs) \<and> look st r' = Some x"
    using st'(3) by (auto simp: l1 split: if_splits)
  then show ?case using st' q by auto
qed simp

text \<open>C13: The day can always be brought to its end: from every reachable state of a controller with a valid name there are
  calls that all succeed and after which \<open>finalizeDay\<close> finalizes the day.\<close>

theorem day_can_be_closed:
  assumes "reachable sha256 name st" "identity_of name = Inr i"
  shows "\<exists>cs st'. quota_calls sha256 name env 0 cs st = Inr st' \<and> finalizeDay st' = (Finalized, empty_store)"
proof -
  let ?cs = "map (\<lambda>r. Call_reconcileRequest r ''unused'') (map fst (st_entries st))"
  obtain st' where c: "quota_calls sha256 name env 0 ?cs st = Inr st'" "sound st'"
    "\<forall>r x. look st' r = Some x \<longrightarrow> unresolved x \<longrightarrow> r \<notin> set (map fst (st_entries st)) \<and> look st r = Some x"
    using reconcile_all[OF assms(2) reachable_sound[OF assms(1)]] by blast
  have "\<nexists>r x. look st' r = Some x \<and> unresolved x"
  proof
    assume "\<exists>r x. look st' r = Some x \<and> unresolved x"
    then obtain r x where "r \<notin> set (map fst (st_entries st))" "look st r = Some x" using c(3) by blast
    then show False by (auto simp: look_def getEntry_def dest!: map_of_SomeD intro: rev_image_eqI)
  qed
  then have "total count_held st' \<le> 0 \<and> total count_doubtful st' \<le> 0"
    using unresolved_counts[OF sound_parts(1)[OF c(2)]] by (meson not_less)
  then have "finalizeDay st' = (Finalized, empty_store)"
    by (simp add: finalizeDay_def finalize_transaction_def ledger_counts(5,6)[OF sound_parts(1)[OF c(2)]])
  with c(1) show ?thesis by blast
qed

theorem day_can_be_closed_witness:
  "\<exists>cs st'. quota_calls (\<lambda>_. []) day_name day_env 0 cs day_reserved = Inr st' \<and> finalizeDay st' = (Finalized, empty_store)"
  by (rule day_can_be_closed[OF samples_reachable(1) day_eval(1)])

end
