(* ===== verification/Grant_Contract.thy ===== *)
theory Grant_Contract
  imports Quota_Contract
begin

section \<open>Grant_Contract: what the quota controller promises about leases, grants and admission\<close>

text \<open>
  The fencing of leases by generations, the life of a grant along the calls of one day, and the admission of
  relay requests.
\<close>

subsection \<open>Leases\<close>

lemma lease_of_append:
  "lease_of r (ls @ [l]) = (case lease_of r ls of None \<Rightarrow> if l_requestId l = r then Some l else None | Some l' \<Rightarrow> Some l')"
  by (induction ls) (simp_all add: lease_of_def)

text \<open>Acquiring a lease respects the limit: a new lease is added to the active ones only below the limit, a request with an
  active lease gets that one back and nothing changes, and a refusal means that the limit is reached.\<close>

lemma acquire_respects_limit:
  assumes "acquireInFlightLease n uuid r lm ttl st = Inr (res, st')"
  shows "int (length (active_leases n st')) \<le> max (int (length (active_leases n st))) (the_int lm) \<and>
    (case res of
       Acquired l \<Rightarrow> lease_of r (active_leases n st') = Some l \<and>
         (lease_of r (active_leases n st) = None \<longrightarrow> l_generation l = uuid \<and> active_leases n st' = active_leases n st @ [l]) \<and>
         (lease_of r (active_leases n st) \<noteq> None \<longrightarrow> active_leases n st' = active_leases n st)
     | Concurrency_exceeded \<Rightarrow> the_int lm \<le> int (length (active_leases n st)) \<and> active_leases n st' = active_leases n st)"
  using acquire_active[OF assms] by (auto simp: lease_of_append split: acquire_result.splits if_splits option.splits)

theorem acquire_respects_limit_witness:
  "\<exists>l st'. acquireInFlightLease 5 ''u'' ''r1'' (JsInt 1) (JsInt 100) empty_store = Inr (Acquired l, st') \<and> length (active_leases 5 st') \<le> 1"
proof -
  obtain l st' where r: "acquireInFlightLease 5 ''u'' ''r1'' (JsInt 1) (JsInt 100) empty_store = Inr (Acquired l, st')"
    by (simp add: acquireInFlightLease_def expiresAtMs_def normalizeInFlightState_def lease_of_def relay_call_eval)
  have "active_leases 5 empty_store = []" by (simp add: active_leases_def normalizeInFlightState_def withoutExpiredLeases_def store_eval)
  then show ?thesis using acquire_respects_limit[OF r] r by simp
qed

text \<open>C11: A lease is fenced by its generation: renewing or releasing with another generation than that of the active lease is
  refused and leaves every active lease, and with the right one a renewal only moves the expiry of that
  lease into the future.\<close>

theorem stale_generation_powerless:
  assumes "lease_of r (active_leases n st) = Some l"
  shows "(l_generation l \<noteq> g \<longrightarrow>
      (\<forall>res st'. renewInFlightLease n r g ttl st = Inr (res, st') \<longrightarrow> res = Stale_generation \<and> active_leases n st' = active_leases n st) \<and>
      (\<forall>res st'. releaseInFlightLease n r (Some g) st = Inr (res, st') \<longrightarrow> res = Lease_release False \<and> active_leases n st' = active_leases n st)) \<and>
    (l_generation l = g \<longrightarrow>
      (\<forall>res st'. renewInFlightLease n r g ttl st = Inr (res, st') \<longrightarrow> (\<exists>t > n. res = Renewed (l\<lparr>l_expiresAtMs := t\<rparr>)) \<and>
         map l_generation (active_leases n st') = map l_generation (active_leases n st)) \<and>
      (\<forall>res st'. releaseInFlightLease n r (Some g) st = Inr (res, st') \<longrightarrow> res = Lease_release True \<and>
         active_leases n st' = remove_first (\<lambda>l. l_requestId l = r) (active_leases n st)))"
proof -
  have rel: "res = Lease_release (l_generation l = g) \<and>
      active_leases n st' = (if l_generation l = g then remove_first (\<lambda>l. l_requestId l = r) (active_leases n st) else active_leases n st)"
    if "releaseInFlightLease n r (Some g) st = Inr (res, st')" for res st'
    using release_active[of n r "Some g" st _ st'] that assms by (cases res) auto
  have gens: "map l_generation (replace_first (\<lambda>l. l_requestId l = r) (l\<lparr>l_expiresAtMs := t\<rparr>) ls) = map l_generation ls"
    if "lease_of r ls = Some l" for t ls
    using that by (induction ls) (auto simp: lease_of_def split: if_splits)
  show ?thesis
    using rel renew_active[of n r g ttl st] assms gens by (fastforce split: renew_result.splits)
qed

theorem stale_generation_powerless_witness:
  "\<exists>l. lease_of ''r1'' (active_leases 5 (saveInFlight [\<lparr>l_requestId = ''r1'', l_generation = ''g1'', l_expiresAtMs = 9\<rparr>] empty_store)) = Some l \<and>
    (\<forall>res st'. releaseInFlightLease 5 ''r1'' (Some ''g2'') (saveInFlight [\<lparr>l_requestId = ''r1'', l_generation = ''g1'', l_expiresAtMs = 9\<rparr>] empty_store)
       = Inr (res, st') \<longrightarrow> res = Lease_release False)"
proof -
  let ?st = "saveInFlight [\<lparr>l_requestId = ''r1'', l_generation = ''g1'', l_expiresAtMs = 9\<rparr>] empty_store"
  have l: "lease_of ''r1'' (active_leases 5 ?st) = Some \<lparr>l_requestId = ''r1'', l_generation = ''g1'', l_expiresAtMs = 9\<rparr>"
    by (simp add: lease_of_def withoutExpiredLeases_def)
  then show ?thesis using stale_generation_powerless[OF l, of "''g2''"] by simp
qed

subsection \<open>The life of a grant\<close>

text \<open>What a grant is: everything but its state and its report.\<close>

definition same_grant :: "relay_grant \<Rightarrow> relay_grant \<Rightarrow> bool" where
  "same_grant g g' \<longleftrightarrow> g'\<lparr>gr_state := gr_state g, gr_terminalReport := gr_terminalReport g, gr_terminalFingerprint := gr_terminalFingerprint g\<rparr> = g"

lemma same_grant_refl: "same_grant g g"
  by (simp add: same_grant_def)

lemma same_grant_evolves: "same_grant g a \<Longrightarrow> grant_evolves a b \<Longrightarrow> same_grant g b"
  by (auto simp: same_grant_def grant_evolves_def)

definition grant_since :: "string \<Rightarrow> relay_grant \<Rightarrow> quota_store \<Rightarrow> bool" where
  "grant_since r g st \<longleftrightarrow> (\<exists>g'. getRelayGrant st r = Some g' \<and> same_grant g g' \<and> grant_edge\<^sup>*\<^sup>* (gr_state g) (gr_state g') \<and>
     (isTerminalGrantState (gr_state g) \<longrightarrow> g' = g))"

lemma frame_grant_since:
  assumes "frame a b" "grant_since r g a"
  shows "grant_since r g b"
proof -
  obtain g1 where g1: "getRelayGrant a r = Some g1" "same_grant g g1" "grant_edge\<^sup>*\<^sup>* (gr_state g) (gr_state g1)"
    "isTerminalGrantState (gr_state g) \<longrightarrow> g1 = g" using assms(2) by (auto simp: grant_since_def)
  then obtain g2 where g2: "getRelayGrant b r = Some g2" "grant_evolves g1 g2"
    using assms(1) by (fastforce simp: frame_def grants_frame_def)
  then show ?thesis
    using g1 same_grant_evolves[OF g1(2) g2(2)] grant_evolves_same(7,8)[OF g2(2)]
    by (auto simp: grant_since_def intro: rtranclp.rtrancl_into_rtrancl)
qed

lemma later_grant:
  assumes "reachable sha256 name st" "later sha256 name st st'" "getRelayGrant st r = Some g"
  shows "grant_since r g st'"
  by (rule later_stable[where P = "grant_since r g", OF assms(2) reachable_sound[OF assms(1)]])
    (auto simp: grant_since_def assms(3) same_grant_refl intro: frame_grant_since[unfolded grant_since_def])

text \<open>C7: A stored grant keeps its identity for the rest of its day: later it is still there, differs at most in its state and
  its report, its state moved only along the edges of the grant machine, and once it is terminal nothing of it
  changes.\<close>

theorem grants_follow_the_machine:
  assumes "reachable sha256 name st" "later sha256 name st st'" "getRelayGrant st r = Some g"
  shows "\<exists>g'. getRelayGrant st' r = Some g' \<and> same_grant g g' \<and> grant_edge\<^sup>*\<^sup>* (gr_state g) (gr_state g') \<and>
    (isTerminalGrantState (gr_state g) \<longrightarrow> g' = g)"
  using later_grant[OF assms] by (simp add: grant_since_def)

lemma day_admitted_grant:
  "\<exists>g. getRelayGrant day_admitted ''req_01ARZ3NDEKTSV4RRFFQ69G5FAV'' = Some g \<and> gr_state g = Authorized"
  by (simp add: relay_sample_eval)

lemma day_admitted_to_activated: "later (\<lambda>_. []) day_name day_admitted day_activated"
proof -
  have "\<exists>a. quota_rpc (\<lambda>_. []) day_name day_env 1768435200000 (Call_activateRelay relay_binding) day_admitted = Inr (a, day_activated)"
    by (simp add: relay_sample_eval)
  then have "open_step (\<lambda>_. []) day_name day_admitted day_activated" by (auto intro: open_call)
  then show ?thesis by (simp add: later_def)
qed

lemma day_activated_grant:
  "\<exists>g. getRelayGrant day_activated ''req_01ARZ3NDEKTSV4RRFFQ69G5FAV'' = Some g \<and> gr_state g = Attempted"
  by (simp add: relay_sample_eval)

theorem grants_follow_the_machine_witness:
  "\<exists>g g'. getRelayGrant day_admitted ''req_01ARZ3NDEKTSV4RRFFQ69G5FAV'' = Some g \<and> gr_state g = Authorized \<and>
    getRelayGrant day_activated ''req_01ARZ3NDEKTSV4RRFFQ69G5FAV'' = Some g' \<and> gr_state g' = Attempted \<and> same_grant g g'"
  using grants_follow_the_machine[OF relay_samples_reachable(1) day_admitted_to_activated] day_admitted_grant day_activated_grant by fastforce

lemma activated_steps:
  assumes "activateRelayInTransaction env i now b st = Inr (Activated g, st')"
  shows "\<exists>grant. getRelayGrant st (b_requestId b) = Some grant \<and> gr_state grant = Authorized \<and> g = grant\<lparr>gr_state := Attempted\<rparr> \<and> st' = putRelayGrant g st"
proof (cases "getRelayGrant st (b_requestId b)")
  case (Some grant)
  from assms Some show ?thesis by (cases rule: activate_cases) (use Some in auto)
qed (use assms in \<open>simp add: activateRelayInTransaction_def\<close>)

text \<open>C14: An activation happens only for the stored grant that the credential names, authorized, in force, with its request still
  reserved and its own lease active; it changes nothing but the state of that grant.\<close>

theorem activated_only_in_force:
  assumes "activateRelayInTransaction env i now b st = Inr (Activated g, st')"
  shows "\<exists>grant l. getRelayGrant st (b_requestId b) = Some grant \<and> \<not> grantBindingMismatch grant b i \<and> gr_state grant = Authorized \<and>
    now < gr_authorizationExpiresAtMs grant \<and> now < gr_credentialExpiresAtMs grant \<and>
    (\<exists>e. getEntry st (gr_requestId grant) = Some e \<and> e_state e = Req_reserved) \<and>
    lease_of (gr_requestId grant) (active_leases now st) = Some l \<and> l_generation l = gr_leaseGeneration grant \<and>
    g = grant\<lparr>gr_state := Attempted\<rparr> \<and> st' = putRelayGrant g st"
proof (cases "getRelayGrant st (b_requestId b)")
  case (Some grant)
  from assms Some show ?thesis
  proof (cases rule: activate_cases)
    case (activated m ls al l)
    obtain e where e: "getEntry st (gr_requestId grant) = Some e" "e_state e = Req_reserved"
      "l = lease_of (gr_requestId grant) (active_leases now st)"
      using activated(7) purge_active(2)
      by (fastforce simp: activeGrantLeases_def and_then_Inr Let_def split: option.splits if_splits)
    then show ?thesis using activated Some by (auto simp: lease_held_def split: option.splits)
  qed simp_all
qed (use assms in \<open>simp add: activateRelayInTransaction_def\<close>)

theorem activated_only_in_force_witness:
  "\<exists>g st' grant. activateRelayInTransaction day_env day_identity 1768435200000 relay_binding day_admitted = Inr (Activated g, st') \<and>
    getRelayGrant day_admitted (b_requestId relay_binding) = Some grant \<and> \<not> grantBindingMismatch grant relay_binding day_identity"
proof -
  obtain g st' where a: "activateRelayInTransaction day_env day_identity 1768435200000 relay_binding day_admitted = Inr (Activated g, st')"
    by (simp add: relay_sample_eval)
  from activated_only_in_force[OF a] a show ?thesis by blast
qed

text \<open>C6: A grant is activated at most once: after an activation no later call of the day activates a grant of the same
  request, not even with the same credential.\<close>

theorem activated_at_most_once:
  assumes "reachable sha256 name st" "activateRelayInTransaction env i now b st = Inr (Activated g, st1)"
    and "later sha256 name st1 st2" "b_requestId b2 = b_requestId b"
    and "activateRelayInTransaction env2 i2 now2 b2 st2 = Inr (res, st3)"
  shows "\<nexists>g2. res = Activated g2"
proof
  assume "\<exists>g2. res = Activated g2"
  then obtain g2 where g2: "activateRelayInTransaction env2 i2 now2 b2 st2 = Inr (Activated g2, st3)" using assms(5) by blast
  obtain grant where a: "getRelayGrant st (b_requestId b) = Some grant" "g = grant\<lparr>gr_state := Attempted\<rparr>" "st1 = putRelayGrant g st"
    using activated_steps[OF assms(2)] by blast
  have s1: "sound st1" using activate_sound[OF reachable_sound[OF assms(1)] assms(2)] .
  have "gr_requestId grant = b_requestId b" using sound_parts(4)[OF reachable_sound[OF assms(1)]] a(1) by (simp add: grants_ok_def)
  then have "grant_since (b_requestId b) g st1" by (simp add: grant_since_def a(2,3) store_simps same_grant_refl)
  then have "grant_since (b_requestId b) g st2"
    using later_stable(1)[OF assms(3) s1, of "grant_since (b_requestId b) g"] frame_grant_since by blast
  then obtain g' where g': "getRelayGrant st2 (b_requestId b) = Some g'" "grant_edge\<^sup>*\<^sup>* Attempted (gr_state g')"
    by (auto simp: grant_since_def a(2))
  have "gr_state g' \<noteq> Authorized" using g'(2) by (induction rule: rtranclp_induct) auto
  then show False using activated_steps[OF g2] g'(1) assms(4) by auto
qed

theorem activated_at_most_once_witness:
  "\<exists>g st1. activateRelayInTransaction day_env day_identity 1768435200000 relay_binding day_admitted = Inr (Activated g, st1) \<and>
    (\<forall>res st3. activateRelayInTransaction day_env day_identity 1768435200001 relay_binding st1 = Inr (res, st3) \<longrightarrow> (\<nexists>g2. res = Activated g2))"
proof -
  obtain g st1 where a: "activateRelayInTransaction day_env day_identity 1768435200000 relay_binding day_admitted = Inr (Activated g, st1)"
    by (simp add: relay_sample_eval)
  have "later (\<lambda>_. []) day_name st1 st1" by (simp add: later_def)
  from activated_at_most_once[OF relay_samples_reachable(1) a this refl] a show ?thesis by blast
qed

subsection \<open>Admission\<close>

text \<open>The checked input of an admission, and the steps after the checks.\<close>

lemma admit_checked:
  assumes "admitRelayInTransaction sha256 env i input now g1 g2 st = Inr (Admitted g q, st')"
  obtains ctx metadata rawKey where "check_admission sha256 env input st = Inr (ctx, metadata, rawKey)" "\<not> key_taken st rawKey ctx"
    "getEntry st (c_requestId ctx) \<noteq> None \<Longrightarrow> st' = st \<and> getRelayGrant st (c_requestId ctx) = Some g \<and> gr_state g = Authorized \<and>
       matchesRelayAdmission g ctx metadata input \<and> buildQuotaSnapshot (loadPool st env i now) i = Inr q"
    "getEntry st (c_requestId ctx) = None \<Longrightarrow> \<not> st_finalized st \<and>
       admit_new env i now g1 g2 ctx metadata rawKey input st = Inr (Admitted g q, st')"
  using assms
  by (auto simp: admitRelayInTransaction_def replay_admission_def and_then_Inr split: sum.splits prod.splits if_splits option.splits)

lemma check_admission_context:
  assumes "check_admission sha256 env input st = Inr (ctx, metadata, rawKey)"
  shows "parseRelayContext (a_context input) = Some ctx" "parseRelayRequestMeta (a_metadata input) = Some metadata"
    "kv_get (st_fences st) (c_requestId ctx) \<noteq> Some True"
  using assms by (auto simp: check_admission_def Let_def split: option.splits if_splits)

lemma admit_denied:
  assumes "admitRelayInTransaction sha256 env i input now g1 g2 st = Inr (Admission_denied code, st')"
  shows "same_but_leases st st'"
proof -
  consider "st' = st" | ctx metadata rawKey where "admit_new env i now g1 g2 ctx metadata rawKey input st = Inr (Admission_denied code, st')"
    using assms by (auto simp: admitRelayInTransaction_def and_then_Inr split: sum.splits prod.splits if_splits)
  then show ?thesis
  proof cases
    case 2
    then show ?thesis by (cases rule: admit_new_cases) simp_all
  qed simp
qed

lemma active_live: "withoutExpiredLeases (active_leases n st) n = active_leases n st"
  by (simp add: active_leases_def withoutExpiredLeases_def split: sum.split prod.split)

text \<open>The remaining quota after a new reservation.\<close>

lemma reservation_remaining:
  assumes "sound st" "getEntry st r = None" "0 \<le> t" "t \<le> u" "has_room (loadPool st env i now) t u"
    and "st' = write_reservation now (loadPool st env i now) r t u key c (Reserve_ok rm ra) st"
  shows "remainingOf (loadPool st' env i now) = remainingOf (loadPool st env i now) - t"
proof -
  note wl = write_reservation_ledger[OF sound_parts(1)[OF assms(1)] assms(2-4,6)]
  have s': "sound st'" using sound_reservation[OF assms] by simp
  have "limit (loadPool st' env i now) = limit (loadPool st env i now)"
    using loadPool_limit(2)[OF sound_parts(2)[OF s'] wl(4)] .
  then show ?thesis
    using remaining_total[OF sound_parts(1)[OF assms(1)], of env i now] remaining_total[OF sound_parts(1)[OF s'], of env i now]
    by (simp add: wl)
qed

text \<open>What the steps after the checks store for a request without a record.\<close>

lemma admit_new_stored:
  assumes "sound st" "check_admission sha256 env input st = Inr (ctx, metadata, rawKey)" "getEntry st (c_requestId ctx) = None"
    and "admit_new env i now g1 g2 ctx metadata rawKey input st = Inr (Admitted g q, st')"
  obtains retention t where "g = new_grant i now g1 g2 retention ctx metadata input" "now < t"
    "look st' = (look st)(c_requestId ctx := Some (Held (the_int (a_reservedTokens input))))"
    "the_int (a_reservedTokens input) \<le> remainingOf (loadPool st env i now)"
    "getRelayGrant st' = (getRelayGrant st)(c_requestId ctx := Some g)"
    "loadInFlight st' = Lease_state (active_leases now st @ [\<lparr>l_requestId = c_requestId ctx, l_generation = g1, l_expiresAtMs = t\<rparr>])"
    "active_leases now st' = active_leases now st @ [\<lparr>l_requestId = c_requestId ctx, l_generation = g1, l_expiresAtMs = t\<rparr>]"
    "int (length (active_leases now st)) < resolveMaxInFlightRequests (MAX_IN_FLIGHT_REQUESTS env)"
    "q_remaining q = remainingOf (loadPool st' env i now)" "0 \<le> q_remaining q"
  using assms(4)
proof (cases rule: admit_new_cases)
  case (admitted st1 resetAt retention t q')
  note b = check_admission_bounds[OF assms(2)]
  note l = same_but_leases_loads[OF admitted(1)]
  have s1: "sound st1" using sound_leases[OF admitted(1)] assms(1) by simp
  have e1: "getEntry st1 (c_requestId ctx) = None" using assms(3) l by simp
  define st2 where "st2 = write_reservation now (loadPool st1 env i now) (c_requestId ctx) (the_int (a_reservedTokens input))
    (the_int (a_upperBoundTokens input)) rawKey (Some (c_clientId ctx))
    (Reserve_ok (remainingOf (loadPool st env i now) - the_int (a_reservedTokens input)) resetAt) st1"
  have room: "has_room (loadPool st1 env i now) (the_int (a_reservedTokens input)) (the_int (a_upperBoundTokens input))"
    using admitted(2) l by simp
  note wl = write_reservation_ledger[OF sound_parts(1)[OF s1] e1 b st2_def]
  note rem = reservation_remaining[OF s1 e1 b room st2_def] sound_reservation(2)[OF s1 e1 b room st2_def, where i' = i and now' = now]
  define al where "al = active_leases now st @ [\<lparr>l_requestId = c_requestId ctx, l_generation = g1, l_expiresAtMs = t\<rparr>]"
  have st': "st' = putRelayGrant g (saveInFlight al st2)" using admitted(3,4) by (simp add: st2_def al_def l)
  have t: "now < t" using admitted(6) by (simp add: relayLeaseExpiry_def Let_def DEFAULT_IN_FLIGHT_LEASE_TTL_MS_def split: if_splits)
  have lk: "look st' = look st2" "loadPool st' = loadPool st2" "loadInFlight st' = Lease_state al"
    by (simp_all add: st' look_def store_simps fun_eq_iff)
  have "withoutExpiredLeases al now = al"
    using t by (simp add: al_def withoutExpiredLeases_def active_live[unfolded withoutExpiredLeases_def])
  then have ac: "active_leases now st' = al" by (simp add: active_leases_def lk normalizeInFlightState_def)
  have "getRelayGrant st2 = getRelayGrant st1" by (simp add: fun_eq_iff getRelayGrant_def wl(6))
  then have gm: "getRelayGrant st' = (getRelayGrant st)(c_requestId ctx := Some g)"
    using admitted(4) l(4) by (auto simp: st' store_simps fun_eq_iff new_grant_def)
  show thesis
    by (rule that[of retention t, folded al_def])
      (use wl(2) l(1,3) lk ac t admitted(4,5,7) has_room_fits[OF room] rem gm in \<open>simp_all add: l\<close>)
qed simp

lemma admission_of_new:
  assumes "admitRelayInTransaction sha256 env i input now g1 g2 st = Inr (Admitted g q, st')"
    and "parseRelayContext (a_context input) = Some ctx" "look st (c_requestId ctx) = None"
  obtains metadata rawKey where "check_admission sha256 env input st = Inr (ctx, metadata, rawKey)"
    "admit_new env i now g1 g2 ctx metadata rawKey input st = Inr (Admitted g q, st')" "getEntry st (c_requestId ctx) = None"
proof (rule admit_checked[OF assms(1)])
  fix ctx' metadata rawKey
  assume c: "check_admission sha256 env input st = Inr (ctx', metadata, rawKey)"
  have "ctx' = ctx" using check_admission_context(1)[OF c] assms(2) by simp
  moreover assume "getEntry st (c_requestId ctx') = None \<Longrightarrow> \<not> st_finalized st \<and>
     admit_new env i now g1 g2 ctx' metadata rawKey input st = Inr (Admitted g q, st')"
  ultimately show thesis using that c assms(3) by (simp add: look_def)
qed

text \<open>C5: Admitting a request without a record is all or nothing.  When it is admitted, the request holds exactly its reserved
  tokens, which fit the remaining quota, an authorized grant is stored with a lease of its own generation, active from now on and
  within the limit, the answered snapshot is the pool after the reservation, and nothing else of the requests and grants changes.
  When it is denied, at most expired leases are removed.\<close>

theorem admission_atomic:
  assumes "reachable sha256 name st" "admitRelayInTransaction sha256 env i input now g1 g2 st = Inr (res, st')"
    and "parseRelayContext (a_context input) = Some ctx" "look st (c_requestId ctx) = None"
  shows "case res of
      Admission_denied code \<Rightarrow> same_but_leases st st'
    | Admitted g q \<Rightarrow>
        look st' = (look st)(c_requestId ctx := Some (Held (the_int (a_reservedTokens input)))) \<and>
        the_int (a_reservedTokens input) \<le> remainingOf (loadPool st env i now) \<and>
        gr_requestId g = c_requestId ctx \<and> gr_state g = Authorized \<and>
        getRelayGrant st' = (getRelayGrant st)(c_requestId ctx := Some g) \<and>
        (\<exists>t > now. active_leases now st' = active_leases now st @
           [\<lparr>l_requestId = c_requestId ctx, l_generation = gr_leaseGeneration g, l_expiresAtMs = t\<rparr>]) \<and>
        int (length (active_leases now st')) \<le> resolveMaxInFlightRequests (MAX_IN_FLIGHT_REQUESTS env) \<and>
        q_remaining q = remainingOf (loadPool st' env i now) \<and> 0 \<le> q_remaining q"
proof (cases res)
  case (Admission_denied code)
  then show ?thesis using admit_denied assms(2) by simp
next
  case (Admitted g q)
  obtain metadata rawKey where c: "check_admission sha256 env input st = Inr (ctx, metadata, rawKey)"
    "admit_new env i now g1 g2 ctx metadata rawKey input st = Inr (Admitted g q, st')" "getEntry st (c_requestId ctx) = None"
    using admission_of_new assms(2-4) Admitted by blast
  obtain retention t where "g = new_grant i now g1 g2 retention ctx metadata input" "now < t"
    "look st' = (look st)(c_requestId ctx := Some (Held (the_int (a_reservedTokens input))))"
    "the_int (a_reservedTokens input) \<le> remainingOf (loadPool st env i now)"
    "getRelayGrant st' = (getRelayGrant st)(c_requestId ctx := Some g)"
    "active_leases now st' = active_leases now st @ [\<lparr>l_requestId = c_requestId ctx, l_generation = g1, l_expiresAtMs = t\<rparr>]"
    "int (length (active_leases now st)) < resolveMaxInFlightRequests (MAX_IN_FLIGHT_REQUESTS env)"
    "q_remaining q = remainingOf (loadPool st' env i now)" "0 \<le> q_remaining q"
    using admit_new_stored[OF reachable_sound[OF assms(1)] c(1,3,2)] by blast
  then show ?thesis by (auto simp: Admitted new_grant_def)
qed

theorem admission_atomic_witness:
  "\<exists>g q st'. admitRelayInTransaction (\<lambda>_. []) day_env day_identity relay_input 1768435200000 ''00000000-0000-4000-8000-000000000001''
      ''00000000-0000-4000-8000-000000000000'' day_reserved = Inr (Admitted g q, st') \<and>
    look st' (c_requestId example_context) = Some (Held 30) \<and> q_remaining q = 10"
proof -
  obtain g q st' where a: "admitRelayInTransaction (\<lambda>_. []) day_env day_identity relay_input 1768435200000 ''00000000-0000-4000-8000-000000000001''
      ''00000000-0000-4000-8000-000000000000'' day_reserved = Inr (Admitted g q, st')" "q_remaining q = 10"
    by (simp add: relay_sample_eval day_reserved_def reserve_r1_def)
  have p: "parseRelayContext (a_context relay_input) = Some example_context" by (simp add: relay_input_def relay_eval)
  have "look day_reserved (c_requestId example_context) = None"
    by (simp add: relay_sample_eval day_reserved_def reserve_r1_def look_def)
  from admission_atomic[OF samples_reachable(1) a(1) p this] a(2) a show ?thesis by (auto simp: relay_input_def)
qed

text \<open>What a new admission leaves for its repetition.\<close>

definition admitted_as :: "relay_context \<Rightarrow> string option \<Rightarrow> relay_grant \<Rightarrow> quota_store \<Rightarrow> bool" where
  "admitted_as ctx rawKey g st \<longleftrightarrow>
     getEntry st (c_requestId ctx) \<noteq> None \<and> kv_get (st_fences st) (c_requestId ctx) \<noteq> Some True \<and>
     (\<forall>k. rawKey = Some k \<longrightarrow>
        getIdempotencyRequestId st k (Some (c_clientId ctx)) = Some (c_requestId ctx) \<or> look st (c_requestId ctx) = Some Freed) \<and>
     (\<exists>g'. getRelayGrant st (c_requestId ctx) = Some g' \<and> (gr_state g' = Authorized \<longrightarrow> g' = g))"

lemma frame_admitted_as:
  assumes "frame a b" "admitted_as ctx rawKey g a"
  shows "admitted_as ctx rawKey g b"
proof -
  let ?r = "c_requestId ctx"
  note f = assms(1)[unfolded frame_def]
  have "getEntry b ?r \<noteq> None" using assms(2) f by (fastforce simp: admitted_as_def entries_frame_def)
  moreover have "kv_get (st_fences b) ?r \<noteq> Some True" using assms(2) f by (auto simp: admitted_as_def)
  moreover have "getIdempotencyRequestId b k (Some (c_clientId ctx)) = Some ?r \<or> look b ?r = Some Freed" if "rawKey = Some k" for k
    using assms(2) that f frame_freed[OF assms(1), of ?r] by (auto simp: admitted_as_def keys_frame_def getIdempotencyRequestId_def)
  moreover have "\<exists>g'. getRelayGrant b ?r = Some g' \<and> (gr_state g' = Authorized \<longrightarrow> g' = g)"
  proof -
    obtain g1 where g1: "getRelayGrant a ?r = Some g1" "gr_state g1 = Authorized \<longrightarrow> g1 = g" using assms(2) by (auto simp: admitted_as_def)
    then obtain g2 where "getRelayGrant b ?r = Some g2" "grant_evolves g1 g2" using f by (fastforce simp: grants_frame_def)
    then show ?thesis using g1(2) by (auto simp: grant_evolves_def)
  qed
  ultimately show ?thesis by (simp add: admitted_as_def)
qed

lemma safe_JsInt: "is_safe_integer x \<Longrightarrow> JsInt (the_int x) = x"
  by (cases x) simp_all

lemma new_grant_matches:
  assumes "check_admission sha256 env input st = Inr (ctx, metadata, rawKey)"
  shows "matchesRelayAdmission (new_grant i now g1 g2 retention ctx metadata input) ctx metadata input"
proof -
  have "is_safe_integer (a_reservedTokens input)" "is_safe_integer (a_upperBoundTokens input)" "is_safe_integer (a_maxOutputTokens input)"
    using assms by (auto simp: check_admission_def isNonNegativeSafeInteger_def Let_def split: option.splits if_splits)
  then show ?thesis by (simp add: matchesRelayAdmission_def new_grant_def Let_def safe_JsInt)
qed

lemma new_admission:
  assumes "admitRelayInTransaction sha256 env i input now g1 g2 st = Inr (Admitted g q, st')" "look st (gr_requestId g) = None" "sound st"
  obtains ctx metadata rawKey where "check_admission sha256 env input st = Inr (ctx, metadata, rawKey)" "gr_requestId g = c_requestId ctx"
    "admitted_as ctx rawKey g st'" "matchesRelayAdmission g ctx metadata input"
proof (rule admit_checked[OF assms(1)])
  fix ctx metadata rawKey
  assume c: "check_admission sha256 env input st = Inr (ctx, metadata, rawKey)"
    and old: "getEntry st (c_requestId ctx) \<noteq> None \<Longrightarrow> st' = st \<and> getRelayGrant st (c_requestId ctx) = Some g \<and> gr_state g = Authorized \<and>
       matchesRelayAdmission g ctx metadata input \<and> buildQuotaSnapshot (loadPool st env i now) i = Inr q"
    and new: "getEntry st (c_requestId ctx) = None \<Longrightarrow> \<not> st_finalized st \<and>
       admit_new env i now g1 g2 ctx metadata rawKey input st = Inr (Admitted g q, st')"
  have "getEntry st (c_requestId ctx) = None"
  proof (rule ccontr)
    assume "getEntry st (c_requestId ctx) \<noteq> None"
    with old have "getRelayGrant st (c_requestId ctx) = Some g" by blast
    then show False using sound_parts(4)[OF assms(3)] assms(2) by (fastforce simp: grants_ok_def)
  qed
  then have "admit_new env i now g1 g2 ctx metadata rawKey input st = Inr (Admitted g q, st')" using new by blast
  then show thesis
  proof (cases rule: admit_new_cases)
    case (admitted st1 resetAt retention t q')
    define st2 where "st2 = write_reservation now (loadPool st env i now) (c_requestId ctx) (the_int (a_reservedTokens input))
      (the_int (a_upperBoundTokens input)) rawKey (Some (c_clientId ctx))
      (Reserve_ok (remainingOf (loadPool st env i now) - the_int (a_reservedTokens input)) resetAt) st1"
    have sv: "saved_reservation (c_requestId ctx) (the_int (a_reservedTokens input)) (the_int (a_upperBoundTokens input)) rawKey
      (Some (c_clientId ctx)) (Reserve_ok (remainingOf (loadPool st env i now) - the_int (a_reservedTokens input)) resetAt) st2"
      by (rule write_reservation_saved) (simp add: st2_def)
    have st': "st' = putRelayGrant g (saveInFlight (active_leases now st @ [\<lparr>l_requestId = c_requestId ctx, l_generation = g1, l_expiresAtMs = t\<rparr>]) st2)"
      using admitted(3,4) by (simp add: st2_def)
    have g: "gr_requestId g = c_requestId ctx" "matchesRelayAdmission g ctx metadata input"
      using admitted(4) new_grant_matches[OF c] by (simp_all add: new_grant_def)
    have "st_fences st2 = st_fences st"
      using same_but_leases_fields(7)[OF admitted(1)] by (simp add: st2_def write_reservation_def Let_def store_simps split: option.split)
    then have "admitted_as ctx rawKey g st'"
      using sv check_admission_context(3)[OF c] g(1) by (auto simp: admitted_as_def saved_reservation_def st' store_simps look_def)
    then show thesis using that[OF c g(1)] g(2) by blast
  qed simp
qed

text \<open>The checks look at the storage only for the fence.\<close>

lemma check_admission_fence:
  assumes "check_admission sha256 env input st = Inr (ctx, metadata, rawKey)" "kv_get (st_fences st2) (c_requestId ctx) \<noteq> Some True"
  shows "check_admission sha256 env input st2 = Inr (ctx, metadata, rawKey)"
  using assms by (auto simp: check_admission_def Let_def split: option.splits if_splits)

text \<open>An admission is idempotent while its grant waits: repeated later in the day with the same input, it gives the stored
  grant again and changes nothing, unless the request was released meanwhile.\<close>

lemma admission_replays:
  assumes "reachable sha256 name st" "look st (gr_requestId g) = None"
    and "admitRelayInTransaction sha256 env i input now g1 g2 st = Inr (Admitted g q, st1)" "later sha256 name st1 st2"
    and "getRelayGrant st2 (gr_requestId g) = Some g'" "gr_state g' = Authorized" "look st2 (gr_requestId g) \<noteq> Some Freed"
    and "admitRelayInTransaction sha256 env i input now' g1' g2' st2 = Inr (res, st3)"
  shows "st3 = st2 \<and> g' = g \<and> (\<exists>q'. res = Admitted g q')"
proof -
  note s = reachable_sound[OF assms(1)]
  obtain ctx metadata rawKey where c: "check_admission sha256 env input st = Inr (ctx, metadata, rawKey)" "gr_requestId g = c_requestId ctx"
    "admitted_as ctx rawKey g st1" "matchesRelayAdmission g ctx metadata input"
    using new_admission[OF assms(3,2) s] by blast
  have a: "admitted_as ctx rawKey g st2"
    by (rule later_stable(1)[where P = "admitted_as ctx rawKey g", OF assms(4) admit_sound[OF s assms(3)] c(3)]) (rule frame_admitted_as)
  then have k: "check_admission sha256 env input st2 = Inr (ctx, metadata, rawKey)"
    by (intro check_admission_fence[OF c(1)]) (simp add: admitted_as_def)
  have "\<not> key_taken st2 rawKey ctx" "g' = g" "getEntry st2 (c_requestId ctx) \<noteq> None"
    using a assms(5-7) c(2) by (auto simp: admitted_as_def key_taken_def split: option.splits)
  then show ?thesis
    using assms(5,6,8) c(2,4) by (auto simp: admitRelayInTransaction_def k replay_admission_def and_then_Inr split: if_splits)
qed

theorem admission_replays_witness:
  "\<exists>g q st1. admitRelayInTransaction (\<lambda>_. []) day_env day_identity relay_input 1768435200000 ''00000000-0000-4000-8000-000000000001''
      ''00000000-0000-4000-8000-000000000000'' day_reserved = Inr (Admitted g q, st1) \<and>
    (\<exists>q' st2. admitRelayInTransaction (\<lambda>_. []) day_env day_identity relay_input 1768435200000 ''00000000-0000-4000-8000-000000000002''
      ''00000000-0000-4000-8000-000000000003'' st1 = Inr (Admitted g q', st1))"
proof -
  obtain g q st1 res st3 where a: "admitRelayInTransaction (\<lambda>_. []) day_env day_identity relay_input 1768435200000 ''00000000-0000-4000-8000-000000000001''
      ''00000000-0000-4000-8000-000000000000'' day_reserved = Inr (Admitted g q, st1)"
    "admitRelayInTransaction (\<lambda>_. []) day_env day_identity relay_input 1768435200000 ''00000000-0000-4000-8000-000000000002''
      ''00000000-0000-4000-8000-000000000003'' st1 = Inr (res, st3)"
    "getRelayGrant st1 (gr_requestId g) = Some g" "gr_state g = Authorized" "look day_reserved (gr_requestId g) = None"
    "look st1 (gr_requestId g) = Some (Held 30)"
    by (simp add: relay_sample_eval day_reserved_def reserve_r1_def look_def matchesRelayAdmission_def replay_admission_def abs_entry_def)
  have "later (\<lambda>_. []) day_name st1 st1" by (simp add: later_def)
  from admission_replays[OF samples_reachable(1) a(5,1) this a(3,4) _ a(2)] a show ?thesis by auto
qed

text \<open>A setup fence is final: once a request is fenced, every later admission of the day that names it is denied as an invalid
  context and changes nothing.\<close>

lemma fence_blocks_admission:
  assumes "reachable sha256 name st" "kv_get (st_fences st) (c_requestId ctx) = Some True" "later sha256 name st st2"
    and "parseRelayContext (a_context input) = Some ctx" "parseRelayRequestMeta (a_metadata input) = Some metadata"
  shows "admitRelayInTransaction sha256 env i input now g1 g2 st2 = Inr (Admission_denied Invalid_context, st2)"
proof -
  have "kv_get (st_fences st2) (c_requestId ctx) = Some True"
    by (rule later_stable(1)[where P = "\<lambda>a. kv_get (st_fences a) (c_requestId ctx) = Some True", OF assms(3) reachable_sound[OF assms(1)] assms(2)])
      (simp add: frame_def)
  then show ?thesis using assms(4,5) by (simp add: admitRelayInTransaction_def check_admission_def)
qed

definition day_fenced :: quota_store where
  "day_fenced = after_calls [Call_fence ''req_01ARZ3NDEKTSV4RRFFQ69G5FAV'']"

theorem fence_blocks_admission_witness:
  "admitRelayInTransaction (\<lambda>_. []) day_env day_identity relay_input 5 ''u1'' ''u2'' day_fenced = Inr (Admission_denied Invalid_context, day_fenced)"
proof -
  have "RELAY_REQUEST_ID_PATTERN ''req_01ARZ3NDEKTSV4RRFFQ69G5FAV''" using example_valid(1) by (simp add: valid_context_def example_context_def)
  then have "kv_get (st_fences day_fenced) (c_requestId example_context) = Some True"
    by (simp add: day_fenced_def fenceRelayCpuGateSetup_def getRelayCpuGateGrantInspection_def relay_sample_eval)
  moreover have "reachable (\<lambda>_. []) day_name day_fenced" by (simp add: day_fenced_def)
  moreover have "later (\<lambda>_. []) day_name day_fenced day_fenced" by (simp add: later_def)
  ultimately show ?thesis
    using fence_blocks_admission[where ctx = example_context and metadata = relay_meta and input = relay_input] by (simp add: relay_input_def relay_eval)
qed

subsection \<open>Reports and reconciliation\<close>

lemma terminalized:
  assumes "terminalizeGrantOnReconcile now r d st = Inr st'" "getRelayGrant st' r = Some g"
    and "\<And>g. getRelayGrant st r = Some g \<Longrightarrow> gr_requestId g = r"
  shows "isTerminalGrantState (gr_state g)"
proof -
  consider "st' = st" "\<And>g. getRelayGrant st r = Some g \<Longrightarrow> isTerminalGrantState (gr_state g)"
    | grant st1 b where "getRelayGrant st r = Some grant" "releaseInFlightLease now r (Some (gr_leaseGeneration grant)) st = Inr (b, st1)"
      "st' = putRelayGrant (grant\<lparr>gr_state := (if d = Consumed then Reconciled_consumed else Reconciled_unused),
         gr_terminalReport := None, gr_terminalFingerprint := Some (disposition_name d)\<rparr>) st1"
    using assms(1) by (auto simp: terminalizeGrantOnReconcile_def and_then_Inr split: option.splits if_splits)
  then show ?thesis
  proof cases
    case (2 grant st1 b)
    have "getRelayGrant st1 r = Some grant" using same_but_leases_loads(4)[OF lease_ops_same(3)[OF 2(2)]] 2(1) by simp
    then show ?thesis
      using assms(2,3) 2 by (auto simp: store_simps isTerminalGrantState_def split: if_splits)
  qed (use assms(2) in simp)
qed

lemma grant_request_id: "reachable sha256 name st \<Longrightarrow> getRelayGrant st r = Some g \<Longrightarrow> gr_requestId g = r"
  using sound_parts(4)[OF reachable_sound] by (fastforce simp: grants_ok_def)

text \<open>The two ways in which a report is accepted.\<close>

lemma finish_accepted_cases:
  assumes "finishRelayInTransaction env i now b rep fp st = Inr (Finish_accepted g e, st')"
  obtains (replay) "st' = st" "getRelayGrant st (b_requestId b) = Some g" "isTerminalGrantState (gr_state g)"
    "gr_terminalFingerprint g = Some fp" "getEntry st (gr_requestId g) = Some e" "\<not> grantBindingMismatch g b i"
  | (reported) grant report ap st1 st2 where "getRelayGrant st (b_requestId b) = Some grant" "parseRelayTerminal rep = Some report"
    "grant_edge (gr_state grant) (gr_state g)"
    "applyQuotaLifecycleTransition env i now (gr_requestId grant) (outcome_transition (t_outcome report)) st = Inr (ap, st1)"
    "releaseGrantLease now grant st1 = Inr st2" "st' = putRelayGrant g st2" "getEntry st' (gr_requestId grant) = Some e"
    "g = grant\<lparr>gr_state := outcome_state (t_outcome report), gr_terminalReport := Some report, gr_terminalFingerprint := Some fp\<rparr>"
    "\<not> grantBindingMismatch grant b i"
proof -
  obtain report where p: "parseRelayTerminal rep = Some report" "getRelayGrant st (b_requestId b) \<noteq> None"
    using assms by (auto simp: finishRelayInTransaction_def split: option.splits if_splits)
  then obtain grant where g: "getRelayGrant st (b_requestId b) = Some grant" by blast
  consider "isTerminalGrantState (gr_state grant)" "gr_terminalFingerprint grant = Some fp" "getEntry st (gr_requestId grant) = Some e" "st' = st" "g = grant"
      "\<not> grantBindingMismatch grant b i"
    | "\<not> isTerminalGrantState (gr_state grant)" "t_outcome report = Outcome_release \<Longrightarrow> gr_state grant = Authorized"
      "is_settle (t_outcome report) \<Longrightarrow> gr_state grant \<noteq> Authorized" "finish_apply env i now grant report fp st = Inr (Finish_accepted g e, st')"
      "\<not> grantBindingMismatch grant b i"
    using assms p(1) g
    by (auto simp: finishRelayInTransaction_def and_then_Inr simp del: applyQuotaLifecycleTransition.simps split: if_splits option.splits)
  then show thesis
  proof cases
    case 2
    show thesis
      using 2(4) reported[OF g p(1)] report_edge[OF 2(1-3)] 2(5)
      by (auto simp: finish_apply_def Let_def and_then_Inr simp del: applyQuotaLifecycleTransition.simps split: if_splits option.splits)
  qed (use replay g in simp)
qed


text \<open>A terminal report is idempotent and final: after a report that made the grant terminal, the same report with the same
  fingerprint is accepted again for as long as the credential lives, with another fingerprint it is refused, and neither
  changes anything.\<close>

lemma finish_replays:
  assumes "reachable sha256 name st" "finishRelayInTransaction env i now b rep fp st = Inr (Finish_accepted g e, st1)"
    and "isTerminalGrantState (gr_state g)" "later sha256 name st1 st2" "now2 < gr_credentialExpiresAtMs g"
    and "0 < utf16_length fp2" "utf16_length fp2 \<le> MAX_FINGERPRINT_BYTES"
  shows "\<exists>e2. getEntry st2 (b_requestId b) = Some e2 \<and> finishRelayInTransaction env2 i now2 b rep fp2 st2 =
    Inr (if fp2 = fp then Finish_accepted g e2 else Finish_denied Grant_terminalized (Some (gr_state g)), st2)"
proof -
  obtain report where p: "parseRelayTerminal rep = Some report" "t_grantId report = b_grantId b" "t_leaseGeneration report = b_leaseGeneration b"
    using assms(2) by (auto simp: finishRelayInTransaction_def split: option.splits if_splits)
  have g1: "getRelayGrant st1 (b_requestId b) = Some g \<and> gr_terminalFingerprint g = Some fp \<and> \<not> grantBindingMismatch g b i \<and>
    getEntry st1 (b_requestId b) = Some e \<and> gr_requestId g = b_requestId b"
    using assms(2)
  proof (cases rule: finish_accepted_cases)
    case replay
    then show ?thesis using grant_request_id[OF assms(1)] by auto
  next
    case (reported grant report ap sa sb)
    have "gr_requestId grant = b_requestId b" using grant_request_id[OF assms(1) reported(1)] .
    moreover have "\<not> grantBindingMismatch g b i" using reported(8,9) by (simp add: grantBindingMismatch_def Let_def)
    ultimately show ?thesis using reported(6-8) by (simp add: store_simps)
  qed
  define P where "P = (\<lambda>a. getRelayGrant a (b_requestId b) = Some g \<and> getEntry a (b_requestId b) \<noteq> None)"
  have "P c2" if "frame c1 c2" "P c1" for c1 c2
    using that assms(3) terminal_no_edge by (fastforce simp: P_def frame_def entries_frame_def grants_frame_def grant_evolves_def)
  then have "P st2"
    using later_stable(1)[OF assms(4) finish_sound[OF reachable_sound[OF assms(1)] assms(2)], of P] g1 by (auto simp: P_def)
  then obtain e2 where "getRelayGrant st2 (b_requestId b) = Some g" "getEntry st2 (b_requestId b) = Some e2" by (auto simp: P_def)
  then show ?thesis
    using g1 p assms(3,5-7) by (auto simp: finishRelayInTransaction_def)
qed

text \<open>C15: Reconciling an unresolved request always applies: it closes the request as consumed or unused, and leaves every grant of
  it terminal, so neither an activation nor a report can move it again.\<close>

theorem reconcile_closes_grant:
  assumes "reachable sha256 name st" "look st r = Some x" "unresolved x"
    and "reconcileRequest env i now r d st = Inr (res, st')" "parse_disposition d = Some disp"
  shows "res = Reconcile_ok True \<and> look st' r = Some (abs_step (Reconcile disp) x) \<and>
    (\<exists>t. abs_step (Reconcile disp) x = (if disp = Consumed then Spent t t else Freed)) \<and>
    (\<forall>g. getRelayGrant st' r = Some g \<longrightarrow> isTerminalGrantState (gr_state g))"
proof -
  note s = reachable_sound[OF assms(1)]
  have t: "reconcile_transition env i now r disp st = Inr (res, st')" using assms(4,5) by (simp add: reconcileRequest_def)
  obtain e where e: "getEntry st r = Some e" "x = abs_entry e" using assms(2) by (auto simp: look_def)
  have u: "e_state e = Req_reserved \<or> e_state e = Req_uncertain"
    using assms(3) e(2) by (auto simp: unresolved_def abs_entry_def split: request_state.splits)
  then have "res_reconcile (e_results e) = None"
    using ledger_entry_ok[OF sound_parts(1)[OF s] e(1)] by (auto simp: entry_ok_def)
  then obtain s1 where s1: "res = Reconcile_ok True" "terminalizeGrantOnReconcile now r disp s1 = Inr st'" "getRelayGrant s1 r = getRelayGrant st r"
    using t e(1) u by (auto simp: reconcile_transition_def Let_def and_then_Inr store_simps split: if_splits)
  have "isTerminalGrantState (gr_state g)" if "getRelayGrant st' r = Some g" for g
    using terminalized[OF s1(2) that] grant_request_id[OF assms(1)] s1(3) by simp
  moreover have "\<exists>t. abs_step (Reconcile disp) x = (if disp = Consumed then Spent t t else Freed)"
    using assms(3) by (auto simp: unresolved_def)
  ultimately show ?thesis
    using s1(1) reconcile_refines[OF sound_parts(1)[OF s] t] assms(2) by (auto simp: change_def)
qed

theorem reconcile_closes_grant_witness:
  "\<exists>st'. reconcileRequest day_env day_identity 1768435200000 ''r1'' ''consumed'' day_doubtful = Inr (Reconcile_ok True, st') \<and>
    look st' ''r1'' = Some (Spent 60 60)"
proof -
  obtain res st' where r: "reconcileRequest day_env day_identity 1768435200000 ''r1'' ''consumed'' day_doubtful = Inr (res, st')"
    by (simp add: sample_eval)
  have l: "look day_doubtful ''r1'' = Some (Doubtful 60)" by (simp add: sample_eval look_def abs_entry_def)
  have d: "parse_disposition ''consumed'' = Some Consumed" by (simp add: parse_disposition_def)
  from reconcile_closes_grant[OF samples_reachable(3) l _ r d] r show ?thesis by (simp add: unresolved_def)
qed

definition relay_report :: json where
  "relay_report = terminal_json \<lparr>t_grantId = ''00000000-0000-4000-8000-000000000000'',
     t_leaseGeneration = ''00000000-0000-4000-8000-000000000001'', t_outcome = Outcome_settle 25\<rparr>"

lemma relay_report_eval:
  "parseRelayTerminal relay_report = Some \<lparr>t_grantId = ''00000000-0000-4000-8000-000000000000'',
     t_leaseGeneration = ''00000000-0000-4000-8000-000000000001'', t_outcome = Outcome_settle 25\<rparr>"
proof -
  have "RELAY_UUID_PATTERN ''00000000-0000-4000-8000-000000000000'' \<and> RELAY_UUID_PATTERN ''00000000-0000-4000-8000-000000000001''"
    using example_valid(2) by (simp add: valid_credential_def example_credential_def)
  then show ?thesis
    unfolding relay_report_def
    by (subst parseRelayTerminal_iff)
      (simp_all add: terminal_json_def same_props_def valid_terminal_def valid_count_def safe_int_def MAX_SAFE_INTEGER_def)
qed

lemma relay_finished:
  "\<exists>g e st'. finishRelayInTransaction day_env day_identity 1768435200000 relay_binding relay_report ''fp'' day_activated
     = Inr (Finish_accepted g e, st') \<and> gr_state g = Settled \<and> gr_credentialExpiresAtMs g = 1768435200000 + RELAY_GRANT_CREDENTIAL_TTL_MS"
  by (simp add: relay_sample_eval finishRelayInTransaction_def relay_report_eval finish_apply_def releaseGrantLease_def
      releaseInFlightLease_def utf16_length_def utf16_units_of_byte_def MAX_FINGERPRINT_BYTES_def)


theorem finish_replays_witness:
  "\<exists>g e e2 st'. finishRelayInTransaction day_env day_identity 1768435200000 relay_binding relay_report ''fp'' day_activated
     = Inr (Finish_accepted g e, st') \<and>
    finishRelayInTransaction day_env day_identity 1768435200001 relay_binding relay_report ''fp'' st' = Inr (Finish_accepted g e2, st')"
proof -
  obtain g e st' where f: "finishRelayInTransaction day_env day_identity 1768435200000 relay_binding relay_report ''fp'' day_activated
     = Inr (Finish_accepted g e, st')" "gr_state g = Settled" "1768435200001 < gr_credentialExpiresAtMs g"
    using relay_finished by (auto simp: RELAY_GRANT_CREDENTIAL_TTL_MS_def)
  have "later (\<lambda>_. []) day_name st' st'" by (simp add: later_def)
  from finish_replays[OF relay_samples_reachable(2) f(1) _ this f(3), of "''fp''"] f show ?thesis
    by (auto simp: isTerminalGrantState_def utf16_length_def utf16_units_of_byte_def MAX_FINGERPRINT_BYTES_def)
qed

end
