(* ===== verification/Grant_Origin.thy ===== *)
theory Grant_Origin
  imports Grant_Contract
begin

section \<open>Grant_Origin: what every stored grant carries\<close>

text \<open>
  A stored grant comes from an admission of its own controller, so in every reachable state it names the pool and
  the day of the controller, its expiry times follow from its issue time, and its request id, client, key hash,
  nonce and model passed the parsers.  So the claims signed for it name the controller that stores it.
\<close>

definition placed :: "quota_identity \<Rightarrow> relay_grant \<Rightarrow> bool" where
  "placed i g \<longleftrightarrow> gr_pool g = i_pool i \<and> gr_admissionUtcDay g = i_utcDay i \<and>
     gr_credentialExpiresAtMs g = gr_issuedAtMs g + RELAY_GRANT_CREDENTIAL_TTL_MS \<and>
     gr_authorizationExpiresAtMs g = gr_issuedAtMs g + RELAY_GRANT_AUTHORIZATION_TTL_MS \<and>
     RELAY_REQUEST_ID_PATTERN (gr_requestId g) \<and> gr_clientId g \<noteq> [] \<and> utf8_length (gr_clientId g) \<le> 128 \<and>
     valid_hash (gr_idempotencyKeyHash g) \<and> RELAY_NONCE_PATTERN (gr_nonce g) \<and> gr_model g \<noteq> [] \<and> utf8_length (gr_model g) \<le> 256"

lemma placed_state [simp]:
  "placed i (g\<lparr>gr_state := s\<rparr>) = placed i g"
  "placed i (g\<lparr>gr_state := s, gr_terminalReport := t, gr_terminalFingerprint := f\<rparr>) = placed i g"
  by (simp_all add: placed_def)

definition grants_placed :: "quota_identity \<Rightarrow> quota_store \<Rightarrow> bool" where
  "grants_placed i st \<longleftrightarrow> (\<forall>r g. getRelayGrant st r = Some g \<longrightarrow> placed i g)"

lemma grants_placedD: "grants_placed i st \<Longrightarrow> getRelayGrant st r = Some g \<Longrightarrow> placed i g"
  by (simp add: grants_placed_def)

lemma grants_placed_same: "grants_placed i st \<Longrightarrow> st_grants st' = st_grants st \<Longrightarrow> grants_placed i st'"
  by (simp add: grants_placed_def getRelayGrant_def)

lemma grants_placed_put: "grants_placed i st \<Longrightarrow> st_grants st1 = st_grants st \<Longrightarrow> placed i g \<Longrightarrow> grants_placed i (putRelayGrant g st1)"
  by (auto simp: grants_placed_def store_simps getRelayGrant_def[of st1] getRelayGrant_def[of st] split: if_splits)

lemma grants_placed_leases: "grants_placed i st \<Longrightarrow> same_but_leases st st' \<Longrightarrow> grants_placed i st'"
  by (rule grants_placed_same) (simp_all add: same_but_leases_fields)

subsection \<open>The parsers\<close>

lemma parsed_context_valid: "parseRelayContext v = Some c \<Longrightarrow> valid_context c"
  by (auto simp: parseRelayContext_def Let_def claim_iff valid_context_def valid_count_def split: if_splits option.splits)

lemma parsed_meta_model: "parseRelayRequestMeta v = Some m \<Longrightarrow> m_model m \<noteq> [] \<and> utf8_length (m_model m) \<le> 256"
  by (auto simp: parseRelayRequestMeta_def json_iff split: if_splits option.splits)

lemma new_grant_placed:
  assumes "valid_context c" "m_model m \<noteq> []" "utf8_length (m_model m) \<le> 256"
  shows "placed i (new_grant i now g1 g2 ret c m input)"
  using assms by (simp add: placed_def new_grant_def valid_context_def)

subsection \<open>The operations\<close>

lemma admit_placed:
  assumes "grants_placed i st" "admitRelayInTransaction sha256 env i input now g1 g2 st = Inr (res, st')"
  shows "grants_placed i st'"
proof (cases "check_admission sha256 env input st")
  case (Inr ok)
  obtain c m k where ok: "check_admission sha256 env input st = Inr (c, m, k)" using Inr by (cases ok) auto
  then have p: "parseRelayContext (a_context input) = Some c" "parseRelayRequestMeta (a_metadata input) = Some m"
    by (auto simp: check_admission_def Let_def split: if_splits option.splits)
  consider "st' = st" | "admit_new env i now g1 g2 c m k input st = Inr (res, st')"
    using assms(2) by (auto simp: admitRelayInTransaction_def ok and_then_Inr split: if_splits)
  then show ?thesis
  proof cases
    case 2
    then show ?thesis
    proof (cases rule: admit_new_cases)
      case (denied code)
      then show ?thesis using grants_placed_leases[OF assms(1)] by simp
    next
      case (admitted st1 resetAt retention t q)
      show ?thesis unfolding admitted(3)
        by (rule grants_placed_put[OF assms(1)])
          (use admitted(1) new_grant_placed[OF parsed_context_valid[OF p(1)]] parsed_meta_model[OF p(2)] in
            \<open>auto simp: same_but_leases_fields write_reservation_def Let_def store_simps split: option.split\<close>)
    qed
  qed (use assms(1) in simp)
qed (use assms in \<open>simp add: admitRelayInTransaction_def\<close>)

lemma apply_placed:
  assumes "sound st" "grants_placed i st" "applyQuotaLifecycleTransition env i now r tr st = Inr (res, st1)" "legal_transition tr"
    "\<And>d. tr \<noteq> Reconcile d" "releaseGrantLease now g st1 = Inr st2" "placed i g'"
  shows "grants_placed i (putRelayGrant g' st2)"
  using apply_plain[OF assms(1,3,4,5)] same_but_leases_fields(6)[OF releaseGrantLease_leases[OF assms(6)]]
  by (intro grants_placed_put[OF assms(2) _ assms(7)]) simp

lemma expire_placed:
  assumes "sound st" "grants_placed i st" "expireAttemptedGrant env i now g st = Inr st'" "placed i g"
  shows "grants_placed i st'"
  using assms(3) apply_placed[OF assms(1,2), where tr = Mark_uncertain and g' = "g\<lparr>gr_state := Uncertain\<rparr>"] assms(4)
  by (auto simp: expireAttemptedGrant_def and_then_Inr simp del: applyQuotaLifecycleTransition.simps)

lemma activate_placed:
  assumes "sound st" "grants_placed i st" "activateRelayInTransaction env i now b st = Inr (res, st')"
  shows "grants_placed i st'"
proof (cases "getRelayGrant st (b_requestId b)")
  case None
  then show ?thesis using assms by (auto simp: activateRelayInTransaction_def)
next
  case (Some g)
  from assms(3) Some show ?thesis
  proof (cases rule: activate_cases)
    case (released r1 st1 st2)
    then show ?thesis using apply_placed[OF assms(1,2) released(1) _ _ released(2)] grants_placedD[OF assms(2) Some] by simp
  qed (use assms(2) grants_placedD[OF assms(2) Some] in \<open>auto intro: grants_placed_put\<close>)
qed

lemma renew_placed:
  assumes "sound st" "grants_placed i st" "renewRelayInTransaction env i now b st = Inr (res, st')"
  shows "grants_placed i st'"
proof (cases "getRelayGrant st (b_requestId b)")
  case None
  then show ?thesis using assms by (auto simp: renewRelayInTransaction_def)
next
  case (Some g)
  from assms(3) Some show ?thesis
    by (cases rule: renew_cases)
      (use assms(2) grants_placed_leases[OF assms(2)] expire_placed[OF assms(1,2) _ grants_placedD[OF assms(2) Some]] in auto)
qed

lemma finish_placed:
  assumes "sound st" "grants_placed i st" "finishRelayInTransaction env i now b rep fp st = Inr (res, st')"
  shows "grants_placed i st'"
  using assms(3)
proof (cases rule: finish_cases)
  case (expired g)
  then show ?thesis using expire_placed[OF assms(1,2)] grants_placedD[OF assms(2)] by blast
next
  case (reported g report)
  have p: "placed i g" by (rule grants_placedD[OF assms(2) reported(1)])
  obtain ap st1 where a: "applyQuotaLifecycleTransition env i now (gr_requestId g) (outcome_transition (t_outcome report)) st = Inr (ap, st1)"
    using reported(8) by (auto simp: finish_apply_def and_then_Inr simp del: applyQuotaLifecycleTransition.simps)
  have n: "outcome_transition oc \<noteq> Reconcile d" for oc d by (cases oc) simp_all
  note l = parsed_terminal_legal[OF reported(2)]
  consider "st' = st1" | st2 s t f where "releaseGrantLease now g st1 = Inr st2"
      "st' = putRelayGrant (g\<lparr>gr_state := s, gr_terminalReport := t, gr_terminalFingerprint := f\<rparr>) st2"
    using reported(8) by (auto simp: finish_apply_def a and_then_Inr Let_def split: if_splits option.splits)
  then show ?thesis
  proof cases
    case 1
    then show ?thesis using apply_plain[OF assms(1) a l n] grants_placed_same[OF assms(2)] by simp
  next
    case 2
    show ?thesis unfolding 2(2) by (rule apply_placed[OF assms(1,2) a l n 2(1)]) (use p in simp)
  qed
qed (use assms(2) in simp)

lemma reconcile_placed:
  assumes "sound st" "grants_placed i st" "reconcile_transition env i now r d st = Inr (res, st')"
  shows "grants_placed i st'"
  using reconcile_split[OF sound_parts(1)[OF assms(1)] assms(3)]
proof cases
  case (2 st1)
  then have g: "grants_placed i st1" using grants_placed_same[OF assms(2)] by (simp add: reconcile_ledger_def)
  consider "st' = st1" | gr st2 b s t f where "getRelayGrant st1 r = Some gr"
      "releaseInFlightLease now r (Some (gr_leaseGeneration gr)) st1 = Inr (b, st2)"
      "st' = putRelayGrant (gr\<lparr>gr_state := s, gr_terminalReport := t, gr_terminalFingerprint := f\<rparr>) st2"
    using 2(2) by (auto simp: terminalizeGrantOnReconcile_def and_then_Inr split: option.splits if_splits)
  then show ?thesis
  proof cases
    case (2 gr st2 b s t f)
    show ?thesis unfolding 2(3)
      by (rule grants_placed_put[OF g same_but_leases_fields(6)[OF lease_ops_same(3)[OF 2(2)]]])
        (use grants_placedD[OF g 2(1)] in simp)
  qed (use g in simp)
qed (use assms(2) in simp)

lemma plain_placed:
  assumes "grants_placed i st"
  shows "settle_transition env i now r n st = (a, st') \<Longrightarrow> grants_placed i st'"
    "markUncertain_transition env i now r st = (a, st') \<Longrightarrow> grants_placed i st'"
    "release_transition env i now r st = (a, st') \<Longrightarrow> grants_placed i st'"
    "markReserveOutcomeUnknown env i now r st = (b, st') \<Longrightarrow> grants_placed i st'"
  by (rule grants_placed_same[OF assms], drule plain_transition_grants, simp)+

lemma reserve_placed: "grants_placed i st \<Longrightarrow> reserve env i now r t u k c st = Inr (res, st') \<Longrightarrow> grants_placed i st'"
  by (erule reserve_cases)
    (auto intro!: grants_placed_same[of i st] simp: write_reservation_def Let_def store_simps split: option.split)

lemma fence_placed: "grants_placed i st \<Longrightarrow> fenceRelayCpuGateSetup st env i r now = Inr (res, st') \<Longrightarrow> grants_placed i st'"
  by (erule fence_cases) (auto intro: grants_placed_same[of i st])

lemmas operation_placed = reserve_placed plain_placed lease_ops_same[THEN grants_placed_leases[rotated]]
  admit_placed activate_placed renew_placed finish_placed reconcile_placed fence_placed

lemma finalize_placed: "grants_placed i st \<Longrightarrow> finalize_transaction st = (res, st') \<Longrightarrow> grants_placed i st'"
  by (auto intro!: grants_placed_same[of i st] simp: finalize_transaction_def Let_def split: if_splits)

lemma transaction_placed:
  assumes "sound st" "grants_placed i st" "transaction sha256 env i now call st = Inr (a, st')"
  shows "grants_placed i st'"
proof (cases call)
  case (Call_settle r n)
  then show ?thesis using assms plain_placed(1)[OF assms(2)] by (auto simp: settle_def tag_Inr split: if_splits)
next
  case (Call_reconcileRequest r d)
  then show ?thesis using assms reconcile_placed by (auto simp: reconcileRequest_def tag_Inr split: option.splits)
next
  case (Call_fence r)
  then show ?thesis using assms fence_placed by (auto simp: tag_Inr split: if_splits)
next
  case Call_finalizeDay
  have "grants_placed i empty_store" by (simp add: grants_placed_def getRelayGrant_def empty_store_def)
  then show ?thesis using assms Call_finalizeDay finalize_placed[OF assms(2)]
    by (auto simp: tag_Inr finalizeDay_def split: prod.splits if_splits)
qed (use assms in \<open>auto simp: tag_Inr dest: operation_placed\<close>)

subsection \<open>Every reachable state\<close>

interpretation placed_system: invariant_system "quota_step sha256 name" empty_store
  "\<lambda>st. sound st \<and> (\<forall>i. identity_of name = Inr i \<longrightarrow> grants_placed i st)" for sha256 name
proof
  show "sound empty_store \<and> (\<forall>i. identity_of name = Inr i \<longrightarrow> grants_placed i empty_store)"
    by (simp add: sound_empty grants_placed_def getRelayGrant_def) (simp add: empty_store_def)
  fix s s' assume s: "sound s \<and> (\<forall>i. identity_of name = Inr i \<longrightarrow> grants_placed i s)" "quota_step sha256 name s s'"
  then have "sound s'" by (blast intro: quota.keeps)
  moreover have "grants_placed i s'" if "identity_of name = Inr i" for i
    using s(2,1) that
    by cases (auto elim!: rpc_transaction dest: transaction_placed finalize_placed)
  ultimately show "sound s' \<and> (\<forall>i. identity_of name = Inr i \<longrightarrow> grants_placed i s')" by blast
qed

lemma reachable_placed:
  "reachable sha256 name st \<Longrightarrow> identity_of name = Inr i \<Longrightarrow> getRelayGrant st r = Some g \<Longrightarrow> placed i g"
  unfolding reachable_def by (drule placed_system.always) (auto dest: grants_placedD)

end
