(* ===== verification/Wire_Contract.thy ===== *)
theory Wire_Contract
  imports Samples
begin

section \<open>Wire_Contract: names, claims and encodings\<close>

text \<open>
  The strict acceptance of object names, request envelopes and claims, the duplicate-key scan, and the encodings
  that tokens use.
\<close>

subsection \<open>The name of a controller\<close>

lemma split_at_triple: "split_at c s = [a, b, d] \<longleftrightarrow> s = a @ c # b @ c # d \<and> c \<notin> set a \<and> c \<notin> set b \<and> c \<notin> set d"
proof (induction s arbitrary: a)
  case (Cons x xs)
  have "split_at c xs = [y, b, d] \<longleftrightarrow> hd (split_at c xs) = y \<and> tl (split_at c xs) = [b, d]" for y
    using split_at_ne[of c xs] by (cases "split_at c xs") auto
  with Cons.IH show ?case
    unfolding split_at_cons using split_at_pair[of c xs b d] by (cases a) auto
qed simp

lemma ascii_utf16_length: "list_all (\<lambda>c. (of_char c :: nat) < 128) s \<Longrightarrow> utf16_length s = int (length s)"
  by (induction s) (simp_all add: utf16_length_def utf16_units_of_byte_def)

lemma digit_ascii: "is_digit c \<Longrightarrow> (of_char c :: nat) < 128"
  by (simp add: is_digit_code)

lemma utc_day_pattern_iff:
  "utc_day_pattern s \<longleftrightarrow> (\<exists>a b c d e f g h. s = [a, b, c, d, CHR ''-'', e, f, CHR ''-'', g, h] \<and> list_all is_digit [a, b, c, d, e, f, g, h])"
  unfolding utc_day_pattern_def matches_def by (auto simp: numeral_eq_Suc list_all2_Cons1)

lemma day_text:
  assumes "valid_civil y m d" "0 \<le> y" "y \<le> 9999"
  shows "utc_day_pattern (pad4 y @ ''-'' @ pad2 m @ ''-'' @ pad2 d)" "utc_day_of (day_of_civil y m d * MS_PER_DAY) = pad4 y @ ''-'' @ pad2 m @ ''-'' @ pad2 d"
proof -
  have ms: "day_of_civil y m d * MS_PER_DAY div MS_PER_DAY = day_of_civil y m d" by (simp add: MS_PER_DAY_def)
  have c: "civil_of_day (day_of_civil y m d) = (y, m, d)" using civil_of_day_of_civil[OF assms(1)] .
  have yr: "year_of_day (day_of_civil y m d) = y" using day_of_civil_of_day(3)[OF c] by simp
  show "utc_day_of (day_of_civil y m d * MS_PER_DAY) = pad4 y @ ''-'' @ pad2 m @ ''-'' @ pad2 d"
    using utc_day_of_digits[of "day_of_civil y m d * MS_PER_DAY"] assms(2,3) by (simp add: ms yr day_digits_def c year_digits_def)
  show "utc_day_pattern (pad4 y @ ''-'' @ pad2 m @ ''-'' @ pad2 d)"
    using parse_day_digits[OF assms] by (auto simp: parse_utc_day_def Let_def split: if_splits)
qed

lemma day_of_text:
  assumes "utc_day_pattern day" "utc_day_of ms = day"
  shows "\<exists>y m d. valid_civil y m d \<and> 0 \<le> y \<and> y \<le> 9999 \<and> day = pad4 y @ ''-'' @ pad2 m @ ''-'' @ pad2 d"
proof -
  obtain y m d where c: "civil_of_day (ms div MS_PER_DAY) = (y, m, d)" by (metis prod_cases3)
  note v = day_of_civil_of_day[OF c]
  have h: "is_digit (hd day)" using assms(1) by (auto simp: utc_day_pattern_iff)
  have y: "0 \<le> y \<and> y \<le> 9999"
  proof (rule ccontr)
    assume "\<not> (0 \<le> y \<and> y \<le> 9999)"
    then have "hd day = CHR ''-'' \<or> hd day = CHR ''+''"
      by (auto simp: assms(2)[symmetric] utc_day_of_def to_iso_string_def Let_def day_digits_def c year_digits_def)
    then show False using h by (auto simp: is_digit_code)
  qed
  then have "day = pad4 y @ ''-'' @ pad2 m @ ''-'' @ pad2 d"
    using utc_day_of_digits[of ms] assms(2) v(3) by (simp add: day_digits_def c year_digits_def)
  then show ?thesis using v(1) y by blast
qed

text \<open>The pool and the day of a controller give back its name.\<close>

lemma identity_name:
  assumes "identity_of (Some n) = Inr i"
  shows "n = quotaIdOf (i_pool i) (i_utcDay i)"
proof -
  obtain q p where n: "split_at (CHR '':'') n = [q, p, i_utcDay i]" "q = ''quota''" "parse_pool_name p = Some (i_pool i)"
    using assms by (auto simp: identity_of_def split: option.splits list.splits if_splits)
  then show ?thesis using parse_pool_name_SomeD[OF n(3)] by (simp add: split_at_triple quotaIdOf_def)
qed

text \<open>A Durable Object accepts exactly the names of quota controllers: the pool and the day of a name are read back only from the
  name that \<open>quotaIdOf\<close> writes for them, and the day is a date of the calendar, written as four, two and two
  digits; every other name is refused.\<close>

lemma controller_names_exact:
  "identity_of name = Inr i \<longleftrightarrow>
     name = Some (quotaIdOf (i_pool i) (i_utcDay i)) \<and>
     (\<exists>y m d. valid_civil y m d \<and> 0 \<le> y \<and> y \<le> 9999 \<and> i_utcDay i = pad4 y @ ''-'' @ pad2 m @ ''-'' @ pad2 d)"
proof
  assume id: "identity_of name = Inr i"
  then obtain n day ms where n: "name = Some n"
    "utc_day_pattern day" "parse_utc_day day = Some ms" "take 10 (to_iso_string ms) = day" "i_utcDay i = day"
    by (auto simp: identity_of_def split: option.splits list.splits if_splits)
  then have "n = quotaIdOf (i_pool i) (i_utcDay i)" using id identity_name by blast
  then show "name = Some (quotaIdOf (i_pool i) (i_utcDay i)) \<and>
     (\<exists>y m d. valid_civil y m d \<and> 0 \<le> y \<and> y \<le> 9999 \<and> i_utcDay i = pad4 y @ ''-'' @ pad2 m @ ''-'' @ pad2 d)"
    using day_of_text[OF n(2), of ms] n(1,4,5) by (simp add: utc_day_of_def)
next
  assume a: "name = Some (quotaIdOf (i_pool i) (i_utcDay i)) \<and>
     (\<exists>y m d. valid_civil y m d \<and> 0 \<le> y \<and> y \<le> 9999 \<and> i_utcDay i = pad4 y @ ''-'' @ pad2 m @ ''-'' @ pad2 d)"
  then obtain y m d where c: "valid_civil y m d" "0 \<le> y" "y \<le> 9999" "i_utcDay i = pad4 y @ ''-'' @ pad2 m @ ''-'' @ pad2 d" by blast
  note t = day_text[OF c(1-3), folded c(4)] parse_day_digits[OF c(1-3), folded c(4)]
  have colon: "CHR '':'' \<noteq> c" if "is_digit c" for c using that by (auto simp: is_digit_code)
  obtain ds where ds: "i_utcDay i = ds" "length ds = 10" "list_all (\<lambda>c. (of_char c :: nat) < 128) ds" "CHR '':'' \<notin> set ds" "ds \<noteq> []"
    using t(1) digit_ascii colon by (auto simp: utc_day_pattern_iff)
  have "CHR '':'' \<notin> set (pool_name_string (i_pool i))" by (cases "i_pool i") simp_all
  then have "split_at (CHR '':'') (quotaIdOf (i_pool i) (i_utcDay i)) = [''quota'', pool_name_string (i_pool i), i_utcDay i]"
    using ds(1,4) by (simp add: split_at_append quotaIdOf_def)
  then show "identity_of name = Inr i"
    using a t ds by (simp add: identity_of_def ascii_utf16_length utc_day_of_def)
qed

subsection \<open>Envelopes and claims\<close>

text \<open>C18: The wire parsers are strict: request metadata, a terminal report, a context and a grant credential are read from a JSON
  value exactly when it is the record of a valid one, with each of its properties and no other, in any
  order.\<close>

theorem wire_parsers_strict:
  assumes "distinct (own_keys v)"
  shows "(parseRelayRequestMeta v = Some m \<longleftrightarrow> valid_meta m \<and> same_props v (meta_json m)) \<and>
    (parseRelayTerminal v = Some t \<longleftrightarrow> valid_terminal t \<and> same_props v (terminal_json t)) \<and>
    (parseRelayContext v = Some c \<longleftrightarrow> valid_context c \<and> same_props v (context_json c)) \<and>
    (parseRelayGrantCredential v = Some k \<longleftrightarrow> valid_credential k \<and> same_props v (grant_claims_json k))"
  using parseRelayRequestMeta_iff[OF assms] parseRelayTerminal_iff[OF assms] parseRelayContext_iff[OF assms]
    parseRelayGrantCredential_iff[OF assms] by simp

theorem wire_parsers_strict_witness:
  "parseRelayContext (context_json example_context) = Some example_context \<and>
   parseRelayContext (grant_claims_json example_credential) \<noteq> Some example_context"
proof -
  have d: "distinct (own_keys (context_json example_context))" "distinct (own_keys (grant_claims_json example_credential))"
    by (simp_all add: context_json_def grant_claims_json_def)
  have "\<not> same_props (grant_claims_json example_credential) (context_json example_context)"
  proof
    assume "same_props (grant_claims_json example_credential) (context_json example_context)"
    then have "js_get (grant_claims_json example_credential) ''grantId'' = js_get (context_json example_context) ''grantId''"
      by (simp add: same_props_def)
    then show False by (simp add: context_json_def grant_claims_json_def)
  qed
  then show ?thesis
    using wire_parsers_strict[OF d(1), of relay_meta _ example_context example_credential]
      wire_parsers_strict[OF d(2), of relay_meta _ example_context example_credential] example_valid(1)
    by (auto simp: same_props_def context_json_def)
qed

text \<open>C19: The scan for duplicate keys decides exactly whether some object of a JSON text repeats a key, at any depth, with any
  white space and any spelling of the keys by escapes.\<close>

theorem duplicate_keys_exact:
  assumes "json_text v text"
  shows "hasDuplicateJsonKeys text \<longleftrightarrow> repeats_key v"
  using dup_scan_text(1)[OF assms, of "[]" "[]"] by (simp add: hasDuplicateJsonKeys_def)

theorem duplicate_keys_exact_witness:
  "hasDuplicateJsonKeys [CHR 0x7B, CHR 0x22, CHR ''a'', CHR 0x22, CHR '':'', CHR ''1'', CHR '','', CHR 0x22, CHR ''a'', CHR 0x22, CHR '':'', CHR ''2'', CHR 0x7D]
   \<and> repeats_key (JObj [(''a'', JNull), (''a'', JNull)])"
proof -
  have k: "string_token ''a'' ''a''" by (simp add: string_token_def decodeJsonString_def)
  have w: "white []" by (simp add: white_def)
  have s: "json_text JNull [CHR ''1'']" "json_text JNull [CHR ''2'']" by (intro json_text_elements_text_members_text.scalar; simp add: scalar_char_def)+
  have "members_text [(''a'', JNull), (''a'', JNull)]
    ([] @ CHR 0x22 # ''a'' @ CHR 0x22 # [] @ CHR '':'' # [CHR ''1''] @ CHR '','' # ([] @ CHR 0x22 # ''a'' @ CHR 0x22 # [] @ CHR '':'' # [CHR ''2'']))"
    by (intro json_text_elements_text_members_text.mems json_text_elements_text_members_text.mem k w s) simp
  from json_text_elements_text_members_text.obj[OF this] show ?thesis
    using duplicate_keys_exact[of "JObj [(''a'', JNull), (''a'', JNull)]"] by simp
qed

subsection \<open>Encodings\<close>

text \<open>C20: The base64url decoder accepts exactly the encodings: every byte string decodes from its own encoding only, so no two texts
  of a token part mean the same bytes.\<close>

theorem base64url_exact:
  "decodeBase64UrlNoPadding t = Some bytes \<longleftrightarrow> t = encodeBase64UrlNoPadding bytes"
  by (rule decode_iff)

text \<open>The comparisons that run over the whole length decide equality: of bytes exactly, and of texts by their code units.\<close>

lemma constant_time_exact:
  "(constantTimeBytesEqual a b \<longleftrightarrow> a = b) \<and> (constantTimeHexEqual s t \<longleftrightarrow> code_units s = code_units t)"
  using constantTimeBytesEqual_iff constantTimeHexEqual_iff by simp

end
