(* ===== verification/Callback.thy ===== *)
theory Callback
  imports Decision
begin

section \<open>Callback: the relay callbacks of the gateway\<close>

text \<open>
  apps/gateway-worker/src/relay-callback.ts: the decision, activation, renewal and terminal callbacks of the
  Deno relay.  A request is the parts that the handler reads; its body is the list of chunks that the stream
  gives.  The log lines of \<open>emitRelayInvocation\<close> are not modelled.
\<close>

subsection \<open>Requests and responses\<close>

record http_request =
  rq_method :: string
  rq_pathname :: string
  rq_authorization :: "string option"
  rq_content_type :: "string option"
  rq_relay_context :: "string option"
  rq_idempotency_key :: "string option"
  rq_relay_grant :: "string option"
  rq_body :: "string list option"

datatype response_body = No_body | Text_body string | Json_body json

record http_response =
  rs_status :: int
  rs_body :: response_body
  rs_headers :: "(string \<times> string) list"

datatype callback_action = Action_decision | Action_activation | Action_renewal | Action_terminal

definition callbackAction :: "string \<Rightarrow> callback_action option" where
  "callbackAction pathname =
     (let p = ''/internal/relay/v1/''
      in if \<not> startsWith pathname p then None
         else let action = drop (length p) pathname
              in if action = ''decision'' then Some Action_decision
                 else if action = ''activation'' then Some Action_activation
                 else if action = ''renewal'' then Some Action_renewal
                 else if action = ''terminal'' then Some Action_terminal else None)"

definition jsonEnvelope :: "json \<Rightarrow> int \<Rightarrow> (string \<times> string) list \<Rightarrow> http_response" where
  "jsonEnvelope body status headers =
     \<lparr>rs_status = status, rs_body = Json_body body, rs_headers = (''content-type'', ''application/json'') # headers\<rparr>"

definition errorEnvelope :: "relay_error_code \<Rightarrow> int \<Rightarrow> http_response" where
  "errorEnvelope code status =
     jsonEnvelope (JObj [(''version'', JNum (JsInt 1)), (''error'', JObj [(''code'', JStr (relay_code_name code))])]) status []"

text \<open>\<open>toLowerCase\<close> on a header value: other letters than these never give an ASCII letter there.\<close>

definition ascii_lower :: "string \<Rightarrow> string" where
  "ascii_lower s = map (\<lambda>c. if is_upper c then char_of (of_char c + 32 :: nat) else c) s"

definition isRelayJsonContentType :: "string option \<Rightarrow> bool" where
  "isRelayJsonContentType headerValue =
     (case headerValue of
        None \<Rightarrow> False
      | Some v \<Rightarrow>
          (case map (\<lambda>segment. ascii_lower (js_trim segment)) (split_at (CHR '';'') v) of
             [] \<Rightarrow> False
           | mediaType # parameters \<Rightarrow>
               if mediaType \<noteq> ''application/json'' then False else list_all (\<lambda>p. p = ''charset=utf-8'') parameters))"

text \<open>The loop of \<open>readBoundedBytes\<close>; \<open>None\<close> is \<open>too_large\<close>.\<close>

fun read_chunks :: "int \<Rightarrow> int \<Rightarrow> string \<Rightarrow> string list \<Rightarrow> string option" where
  "read_chunks maxBytes read bytes [] = Some bytes"
| "read_chunks maxBytes read bytes (chunk # chunks) =
     (let read' = read + int (length chunk)
      in if read' > maxBytes then None else read_chunks maxBytes read' (bytes @ chunk) chunks)"

definition readBoundedBytes :: "string list option \<Rightarrow> int \<Rightarrow> string option" where
  "readBoundedBytes stream maxBytes =
     (case stream of None \<Rightarrow> Some [] | Some chunks \<Rightarrow> read_chunks maxBytes 0 [] chunks)"

subsection \<open>The routing hint\<close>

definition base64_digit :: "char \<Rightarrow> nat option" where
  "base64_digit c = (let i = index_of c BASE64_ALPHABET in if i < 0 then None else Some (nat i))"

definition is_ascii_whitespace :: "char \<Rightarrow> bool" where
  "is_ascii_whitespace c \<longleftrightarrow> c \<in> {CHR 0x09, CHR 0x0A, CHR 0x0C, CHR 0x0D, CHR '' ''}"

text \<open>The groups of four digits; two or three digits at the end give one or two bytes and the other bits are dropped.\<close>

fun base64_groups :: "nat list \<Rightarrow> string option" where
  "base64_groups [] = Some []"
| "base64_groups [a, b] = Some [char_of (a * 4 + b div 16)]"
| "base64_groups [a, b, c] = Some [char_of (a * 4 + b div 16), char_of (b mod 16 * 16 + c div 4)]"
| "base64_groups (a # b # c # d # ds) =
     (case base64_groups ds of
        None \<Rightarrow> None
      | Some s \<Rightarrow> Some (char_of (a * 4 + b div 16) # char_of (b mod 16 * 16 + c div 4) # char_of (c mod 4 * 64 + d) # s))"
| "base64_groups ds = None"

text \<open>The standard \<open>atob\<close>; its result, a string of code units below 256, is the list of those bytes.\<close>

definition atob :: "string \<Rightarrow> string option" where
  "atob data =
     (let s = filter (\<lambda>c. \<not> is_ascii_whitespace c) data;
          s' = (if length s mod 4 = 0 then
                  (if drop (length s - 2) s = ''=='' then take (length s - 2) s
                   else if drop (length s - 1) s = ''='' then take (length s - 1) s else s)
                else s)
      in if length s' mod 4 = 1 then None
         else if list_ex (\<lambda>c. base64_digit c = None) s' then None
         else base64_groups (map (\<lambda>c. the (base64_digit c)) s'))"

definition extractRequestIdHint :: "string \<Rightarrow> string option" where
  "extractRequestIdHint token =
     (case split_at (CHR ''.'') token of
        [payloadPart, _] \<Rightarrow>
          if payloadPart = [] then None
          else let normalized = replaceAll (CHR ''_'') ''/'' (replaceAll (CHR ''-'') ''+'' payloadPart);
                   padded = normalized @ replicate (nat ((4 - utf16_length normalized mod 4) mod 4)) (CHR ''='')
               in (case Option.bind (atob padded) utf8_decode_fatal of
                     None \<Rightarrow> None
                   | Some payloadText \<Rightarrow>
                       (case json_parse payloadText of
                          None \<Rightarrow> None
                        | Some payload \<Rightarrow>
                            if \<not> is_record payload then None
                            else (case js_get payload ''requestId'' of
                               Some (JStr requestId) \<Rightarrow> if RELAY_REQUEST_ID_PATTERN requestId then Some requestId else None
                             | _ \<Rightarrow> None)))
      | _ \<Rightarrow> None)"

subsection \<open>The decision callback\<close>

definition snapshot_json :: "quota_snapshot \<Rightarrow> json" where
  "snapshot_json q = JObj
     [(''pool'', JStr (pool_name_string (q_pool q))), (''limit'', JNum (JsInt (q_limit q))), (''used'', JNum (JsInt (q_used q))),
      (''remaining'', JNum (JsInt (q_remaining q))), (''resetAt'', JStr (q_resetAt q))]"

fun decision_json :: "relay_decision \<Rightarrow> json" where
  "decision_json (Decision_reject code status) = JObj
     [(''version'', JNum (JsInt 1)), (''kind'', JStr ''reject''), (''code'', JStr (relay_code_name code)), (''status'', JNum (JsInt status))]"
| "decision_json (Decision_allow grantId generation out cache quota) = JObj
     [(''version'', JNum (JsInt 1)), (''kind'', JStr ''allow''), (''grantId'', JStr grantId), (''leaseGeneration'', JStr generation),
      (''maxOutputTokens'', JNum (JsInt out)), (''cacheEnabled'', JBool cache), (''quota'', snapshot_json quota)]"

definition dispatch_response :: "dispatch_result \<Rightarrow> http_response" where
  "dispatch_response result =
     (case result of
        Dispatch_allow decision grantCredential \<Rightarrow> jsonEnvelope (decision_json decision) 200 [(''X-OCTG-Relay-Grant'', grantCredential)]
      | Dispatch_reject decision \<Rightarrow> jsonEnvelope (decision_json decision) 200 []
      | Dispatch_protocol_error code \<Rightarrow> errorEnvelope code 400
      | Dispatch_internal_error _ \<Rightarrow> errorEnvelope Internal_error 500)"

definition handleDecision ::
  "runtime \<Rightarrow> gateway_env \<Rightarrow> enabled_relay_config \<Rightarrow> http_request \<Rightarrow> gateway_state \<Rightarrow> http_response throws \<times> gateway_state" where
  "handleDecision rt env config request gs =
     (case rq_relay_context request of
        None \<Rightarrow> (Inr (errorEnvelope Invalid_context 400), gs)
      | Some contextToken \<Rightarrow>
          if utf16_length contextToken > RELAY_MAX_CONTEXT_HEADER_BYTES then (Inr (errorEnvelope Invalid_context 400), gs)
          else (let parsed = parseIdempotencyKey (map_option JStr (rq_idempotency_key request));
                    rawKey = (case parsed of Key_valid k \<Rightarrow> Some k | _ \<Rightarrow> None)
                in if parsed = Key_invalid then (Inr (errorEnvelope Invalid_request 400), gs)
                   else case readBoundedBytes (rq_body request) RELAY_MAX_CALLBACK_BODY_BYTES of
                     None \<Rightarrow> (Inr (errorEnvelope Code_request_too_large 413), gs)
                   | Some bytes \<Rightarrow>
                       (case extractRequestIdHint contextToken of
                          None \<Rightarrow> (Inr (errorEnvelope Invalid_context 400), gs)
                        | Some requestIdHint \<Rightarrow>
                            (let shardName = relayDecisionShardName (rc_environment config) requestIdHint
                             in case decide rt env (Some shardName)
                                   \<lparr>di_decisionBody = bytes, di_contextToken = contextToken,
                                    di_rawIdempotencyKey = map_option JStr rawKey\<rparr> gs of
                                  (Inl e, gs') \<Rightarrow> (Inl e, gs')
                                | (Inr result, gs') \<Rightarrow> (Inr (dispatch_response result), gs')))))"

subsection \<open>The callbacks of a grant\<close>

definition code_json :: "relay_error_code option \<Rightarrow> json" where
  "code_json code = (case code of None \<Rightarrow> JNull | Some c \<Rightarrow> JStr (relay_code_name c))"

definition activate_response :: "activate_result \<Rightarrow> http_response" where
  "activate_response result =
     (let code = (case result of Activated _ \<Rightarrow> None | Activation_denied c \<Rightarrow> Some c)
      in jsonEnvelope (JObj [(''version'', JNum (JsInt 1)), (''activated'', JBool (code = None)), (''code'', code_json code)]) 200 [])"

definition renew_response :: "renew_relay_result \<Rightarrow> http_response" where
  "renew_response result =
     (let code = (case result of Relay_renewed _ _ \<Rightarrow> None | Renewal_denied c \<Rightarrow> Some c)
      in jsonEnvelope (JObj [(''version'', JNum (JsInt 1)), (''renewed'', JBool (code = None)), (''code'', code_json code)]) 200 [])"

definition state_json :: "grant_state option \<Rightarrow> json" where
  "state_json s = (case s of None \<Rightarrow> JNull | Some x \<Rightarrow> JStr (name_in RELAY_GRANT_STATES x))"

definition finish_response :: "finish_result \<Rightarrow> http_response" where
  "finish_response result =
     (case result of
        Finish_accepted grant _ \<Rightarrow> jsonEnvelope (JObj [(''version'', JNum (JsInt 1)), (''accepted'', JBool True),
          (''state'', state_json (Some (gr_state grant))), (''code'', code_json None)]) 200 []
      | Finish_denied code st \<Rightarrow> jsonEnvelope (JObj [(''version'', JNum (JsInt 1)), (''accepted'', JBool False),
          (''state'', state_json st), (''code'', code_json (Some code))]) 200 [])"

text \<open>A stub call of the callback with its response.\<close>

definition dispatch_call ::
  "runtime \<Rightarrow> string \<Rightarrow> (quota_identity \<Rightarrow> quota_store \<Rightarrow> ('a \<times> quota_store) throws) \<Rightarrow> ('a \<Rightarrow> http_response) \<Rightarrow> gateway_state \<Rightarrow>
     http_response throws \<times> gateway_state" where
  "dispatch_call rt name op respond gs =
     (case stub_call (rt_call_fate rt) name (\<lambda>st. and_then (identity_of (Some name)) (\<lambda>identity. op identity st)) (gs_quotas gs) of
        (Inl e, quotas) \<Rightarrow> (Inl e, gs\<lparr>gs_quotas := quotas\<rparr>)
      | (Inr a, quotas) \<Rightarrow> (Inr (respond a), gs\<lparr>gs_quotas := quotas\<rparr>))"

definition reference_matches :: "grant_reference option \<Rightarrow> grant_credential \<Rightarrow> bool" where
  "reference_matches reference grant =
     (case reference of
        None \<Rightarrow> False
      | Some r \<Rightarrow> \<not> (g_grantId r \<noteq> k_grantId grant \<or> g_leaseGeneration r \<noteq> k_leaseGeneration grant))"

definition credential_binding :: "grant_credential \<Rightarrow> grant_binding" where
  "credential_binding grant = \<lparr>b_requestId = k_requestId grant, b_grantId = k_grantId grant,
     b_leaseGeneration = k_leaseGeneration grant, b_claims = grant\<rparr>"

text \<open>The switch over the action once the credential and the body are read.\<close>

definition grant_action ::
  "callback_action \<Rightarrow> runtime \<Rightarrow> gateway_env \<Rightarrow> grant_credential \<Rightarrow> json \<Rightarrow> gateway_state \<Rightarrow> http_response throws \<times> gateway_state" where
  "grant_action action rt env grant parsedBody gs =
     (let name = quotaIdOf (k_pool grant) (k_admissionUtcDay grant);
          binding = credential_binding grant;
          now = rt_quota_now rt
      in case action of
           Action_activation \<Rightarrow>
             if \<not> reference_matches (parseRelayActivation parsedBody) grant then (Inr (errorEnvelope Invalid_request 400), gs)
             else dispatch_call rt name (\<lambda>identity. activateRelayInTransaction (ge_quota env) identity now binding) activate_response gs
         | Action_renewal \<Rightarrow>
             if \<not> reference_matches (parseRelayRenewal parsedBody) grant then (Inr (errorEnvelope Invalid_request 400), gs)
             else dispatch_call rt name (\<lambda>identity. renewRelayInTransaction (ge_quota env) identity now binding) renew_response gs
         | _ \<Rightarrow>
             (case parseRelayTerminal parsedBody of
                None \<Rightarrow> (Inr (errorEnvelope Invalid_request 400), gs)
              | Some report \<Rightarrow>
                  dispatch_call rt name (\<lambda>identity. finishRelayInTransaction (ge_quota env) identity now binding (terminal_json report)
                    (relayTerminalFingerprint report)) finish_response gs))"

definition handleGrantCallback ::
  "callback_action \<Rightarrow> runtime \<Rightarrow> gateway_env \<Rightarrow> enabled_relay_config \<Rightarrow> http_request \<Rightarrow> gateway_state \<Rightarrow>
     http_response throws \<times> gateway_state" where
  "handleGrantCallback action rt env config request gs =
     (case readBoundedBytes (rq_body request) RELAY_MAX_CALLBACK_BODY_BYTES of
        None \<Rightarrow> (Inr (errorEnvelope Code_request_too_large 413), gs)
      | Some bytes \<Rightarrow>
          (case verifyRelayGrantHeader (rt_hmac rt) (rq_relay_grant request) config (rt_now rt) of
             Inl e \<Rightarrow> (Inl e, gs)
           | Inr None \<Rightarrow> (Inr (errorEnvelope Invalid_context 400), gs)
           | Inr (Some grant) \<Rightarrow>
               (case parseRelayJsonBody bytes RELAY_MAX_CALLBACK_BODY_BYTES of
                  Inl e \<Rightarrow> (if e = ProtocolError then (Inr (errorEnvelope Invalid_request 400), gs) else (Inl e, gs))
                | Inr parsedBody \<Rightarrow> grant_action action rt env grant parsedBody gs)))"

definition handleRelayCallbackRequest ::
  "runtime \<Rightarrow> gateway_env \<Rightarrow> http_request \<Rightarrow> gateway_state \<Rightarrow> http_response \<times> gateway_state" where
  "handleRelayCallbackRequest rt env request gs =
     (case callbackAction (rq_pathname request) of
        None \<Rightarrow> (\<lparr>rs_status = 404, rs_body = Text_body ''Not Found'', rs_headers = []\<rparr>, gs)
      | Some action \<Rightarrow>
          if rq_method request \<noteq> ''POST'' then (\<lparr>rs_status = 405, rs_body = No_body, rs_headers = [(''Allow'', ''POST'')]\<rparr>, gs)
          else (case resolveRelayConfig (rt_new_url rt) (ge_relay env) of
             Relay_enabled config \<Rightarrow>
               if \<not> verifyRelayServiceAuth (rq_authorization request) config then (errorEnvelope Unauthorized_service 401, gs)
               else if \<not> isRelayJsonContentType (rq_content_type request) then (errorEnvelope Invalid_request 400, gs)
               else (case (if action = Action_decision then handleDecision rt env config request gs
                           else handleGrantCallback action rt env config request gs) of
                  (Inl _, gs') \<Rightarrow> (errorEnvelope Internal_error 500, gs')
                | (Inr response, gs') \<Rightarrow> (response, gs'))
           | _ \<Rightarrow> (errorEnvelope Internal_error 500, gs)))"

end
