(* ===== verification/Routing_Contract.thy ===== *)
theory Routing_Contract
  imports Callback Token
begin

section \<open>Routing_Contract: a request reaches the shard of its context\<close>

text \<open>
  The decision callback reads the request id of the context token without checking it, only to choose the shard;
  the decision controller verifies the token and refuses a request of another shard.  The hint of a token that
  verifies is its request id, so a verified request always runs on its own shard.
\<close>

subsection \<open>The two readings of base64url\<close>

fun digit_groups :: "string \<Rightarrow> nat list" where
  "digit_groups [] = []"
| "digit_groups [a] = (let x = of_char a in [x div 4, x mod 4 * 16])"
| "digit_groups [a, b] = (let x = of_char a; y = of_char b in [x div 4, x mod 4 * 16 + y div 16, y mod 16 * 4])"
| "digit_groups (a # b # c # s) = (let x = of_char a; y = of_char b; z = of_char c in
     [x div 4, x mod 4 * 16 + y div 16, y mod 16 * 4 + z div 64, z mod 64] @ digit_groups s)"

lemma digit_groups_range: "n \<in> set (digit_groups bytes) \<Longrightarrow> n < 64"
  by (induction bytes rule: digit_groups.induct) (auto simp: Let_def byte_bounds)

lemma digit_groups_encode: "group_encode bytes = map u64 (digit_groups bytes)"
  by (induction bytes rule: digit_groups.induct) (simp_all add: Let_def)

lemma byte_parts:
  "of_char b div 16 div 16 = (0::nat)" "of_char b div 16 mod 16 = (of_char b div 16 :: nat)"
  "of_char b div 64 div 4 = (0::nat)" "of_char b div 64 mod 4 = (of_char b div 64 :: nat)"
proof -
  have "(of_char b :: nat) < 256" by simp
  then have "of_char b div 16 < (16::nat)" "of_char b div 64 < (4::nat)" by (simp_all add: div_less_iff_less_mult)
  then show "of_char b div 16 div 16 = (0::nat)" "of_char b div 16 mod 16 = (of_char b div 16 :: nat)"
    "of_char b div 64 div 4 = (0::nat)" "of_char b div 64 mod 4 = (of_char b div 64 :: nat)" by simp_all
qed

lemma base64_groups_digits: "base64_groups (digit_groups bytes) = Some bytes"
  by (induction bytes rule: digit_groups.induct) (simp_all add: Let_def byte_parts)

lemma standard_digit:
  assumes "n < 64"
  shows "replaceAll (CHR ''_'') ''/'' (replaceAll (CHR ''-'') ''+'' [u64 n]) = [b64 n]" "base64_digit (b64 n) = Some n"
    "\<not> is_ascii_whitespace (b64 n)" "b64 n \<noteq> CHR ''=''" "utf16_units_of_byte (b64 n) = 1"
proof -
  have a: "list_all (\<lambda>n. replaceAll (CHR ''_'') ''/'' (replaceAll (CHR ''-'') ''+'' [u64 n]) = [b64 n]) [0..<64]"
    unfolding b64_def u64_def BASE64_ALPHABET_def BASE64URL_ALPHABET_def by (simp add: upt_rec)
  have b: "list_all (\<lambda>n. base64_digit (b64 n) = Some n) [0..<64]"
    unfolding b64_def base64_digit_def BASE64_ALPHABET_def by (simp add: upt_rec)
  have c: "list_all (\<lambda>n. \<not> is_ascii_whitespace (b64 n) \<and> b64 n \<noteq> CHR ''='' \<and> utf16_units_of_byte (b64 n) = 1) [0..<64]"
    unfolding b64_def is_ascii_whitespace_def utf16_units_of_byte_def BASE64_ALPHABET_def by (simp add: upt_rec)
  show "replaceAll (CHR ''_'') ''/'' (replaceAll (CHR ''-'') ''+'' [u64 n]) = [b64 n]" "base64_digit (b64 n) = Some n"
    "\<not> is_ascii_whitespace (b64 n)" "b64 n \<noteq> CHR ''=''" "utf16_units_of_byte (b64 n) = 1"
    using a b c assms by (simp_all add: list_all_iff)
qed

lemma normalized_digits:
  assumes "\<forall>n \<in> set ns. n < 64"
  shows "replaceAll (CHR ''_'') ''/'' (replaceAll (CHR ''-'') ''+'' (map u64 ns)) = map b64 ns"
  using assms
proof (induction ns)
  case (Cons n ns)
  have "replaceAll (CHR ''_'') ''/'' (replaceAll (CHR ''-'') ''+'' (u64 n # map u64 ns)) =
    replaceAll (CHR ''_'') ''/'' (replaceAll (CHR ''-'') ''+'' [u64 n]) @ replaceAll (CHR ''_'') ''/'' (replaceAll (CHR ''-'') ''+'' (map u64 ns))"
    by (simp add: replaceAll_append)
  then show ?case using Cons standard_digit(1)[of n] by simp
qed simp

lemma b64_length: "\<forall>n \<in> set ns. n < 64 \<Longrightarrow> utf16_length (map b64 ns) = int (length ns)"
  by (induction ns) (simp_all add: utf16_length_def standard_digit(5))

text \<open>Reading padded digits.\<close>

lemma atob_padded:
  assumes "\<forall>n \<in> set ns. n < 64" "length ns mod 4 \<noteq> 1"
  shows "atob (map b64 ns @ replicate (nat ((4 - int (length ns) mod 4) mod 4)) (CHR ''='')) = base64_groups ns"
proof -
  define k where "k = nat ((4 - int (length ns) mod 4) mod 4)"
  have mod4: "x \<noteq> 0 \<Longrightarrow> x \<noteq> 2 \<Longrightarrow> x < 4 \<Longrightarrow> x \<noteq> 1 \<Longrightarrow> x = 3" for x :: nat by arith
  have m: "length ns mod 4 \<in> {0, 2, 3}" using assms(2) by (auto intro: mod4)
  have im: "int (length ns) mod 4 = int (length ns mod 4)" by (simp add: zmod_int)
  have k: "(length ns mod 4 = 0 \<and> k = 0) \<or> (length ns mod 4 = 2 \<and> k = 2) \<or> (length ns mod 4 = 3 \<and> k = 1)"
    using m by (auto simp: k_def im)
  have f: "filter (\<lambda>c. \<not> is_ascii_whitespace c) (map b64 ns @ replicate k (CHR ''='')) = map b64 ns @ replicate k (CHR ''='')"
    using assms(1) standard_digit(3) by (auto simp: filter_empty_conv is_ascii_whitespace_def intro!: filter_True)
  have nd: "c \<noteq> CHR ''=''" if "c \<in> set (map b64 ns)" for c using that assms(1) standard_digit(4) by auto
  have none: "drop (length (map b64 ns) - j) (map b64 ns) \<noteq> replicate j (CHR ''='')" if "0 < j" for j
  proof
    assume d: "drop (length (map b64 ns) - j) (map b64 ns) = replicate j (CHR ''='')"
    have "CHR ''='' \<in> set (drop (length (map b64 ns) - j) (map b64 ns))" using that by (simp only: d) simp
    then have "CHR ''='' \<in> set (map b64 ns)" by (rule in_set_dropD)
    then show False using nd by blast
  qed
  have two: "drop (length (map b64 ns @ [CHR ''='']) - 2) (map b64 ns @ [CHR ''='']) \<noteq> ''==''"
  proof
    assume d: "drop (length (map b64 ns @ [CHR ''='']) - 2) (map b64 ns @ [CHR ''='']) = ''==''"
    then have "ns \<noteq> []" by auto
    then have "drop (length ns - 1) (map b64 ns) = [b64 (last ns)]" by (cases ns rule: rev_cases) simp_all
    then have "b64 (last ns) = CHR ''=''" using d \<open>ns \<noteq> []\<close> by (cases ns rule: rev_cases) simp_all
    then show False using nd[of "b64 (last ns)"] \<open>ns \<noteq> []\<close> by simp
  qed
  define data where "data = map b64 ns @ replicate k (CHR ''='')"
  have s: "(if length data mod 4 = 0 then
        (if drop (length data - 2) data = ''=='' then take (length data - 2) data
         else if drop (length data - 1) data = ''='' then take (length data - 1) data else data)
      else data) = map b64 ns"
    using k none[of 1] none[of 2] two by (auto simp: data_def numeral_2_eq_2 mod_Suc)
  have d: "list_ex (\<lambda>c. base64_digit c = None) (map b64 ns) = False" "map (\<lambda>c. the (base64_digit c)) (map b64 ns) = ns"
    using assms(1) standard_digit(2) by (auto simp: list_ex_iff intro: map_idI)
  show ?thesis
    using s f d assms(2) unfolding atob_def k_def[symmetric] data_def[symmetric] by (simp add: Let_def)
qed

lemma atob_decode:
  assumes "decodeBase64UrlNoPadding t = Some bytes"
  shows "atob (replaceAll (CHR ''_'') ''/'' (replaceAll (CHR ''-'') ''+'' t) @
     replicate (nat ((4 - utf16_length (replaceAll (CHR ''_'') ''/'' (replaceAll (CHR ''-'') ''+'' t)) mod 4) mod 4)) (CHR ''='')) = Some bytes"
proof -
  have t: "t = map u64 (digit_groups bytes)" using assms by (simp add: decode_iff encode_groups digit_groups_encode)
  have r: "\<forall>n \<in> set (digit_groups bytes). n < 64" using digit_groups_range by blast
  have l: "length (digit_groups bytes) mod 4 \<noteq> 1" using group_encode_length[of bytes] by (simp add: digit_groups_encode)
  show ?thesis unfolding t normalized_digits[OF r] b64_length[OF r] using atob_padded[OF r l] base64_groups_digits by simp
qed

subsection \<open>The shard of a verified request\<close>

lemma environment_no_colon: "CHR '':'' \<notin> set (environment_name e)"
  by (cases e) simp_all

lemma pad2_no_colon: "0 \<le> n \<Longrightarrow> n < 64 \<Longrightarrow> CHR '':'' \<notin> set (pad2 n)"
proof -
  have "list_all (\<lambda>n. CHR '':'' \<notin> set (pad2 (int n))) [0..<64]" by code_simp
  then have a: "m < 64 \<Longrightarrow> CHR '':'' \<notin> set (pad2 (int m))" for m by (simp add: list_all_iff)
  show "0 \<le> n \<Longrightarrow> n < 64 \<Longrightarrow> CHR '':'' \<notin> set (pad2 n)" using a[of "nat n"] by simp
qed

lemma shard_index_no_colon: "CHR '':'' \<notin> set (relayShardIndex r)"
proof -
  define h where "h = foldl shard_step FNV_OFFSET_BASIS (code_points (codes r))"
  have "h AND SHARD_MASK = h AND mask 6" by (simp add: SHARD_MASK_def mask_eq_exp_minus_1)
  then have "uint (h AND SHARD_MASK) = uint h mod 64" by (simp add: and_mask_bintr take_bit_eq_mod uint_word_of_int)
  then show ?thesis by (simp add: relayShardIndex_def h_def[symmetric] pad2_no_colon)
qed

lemma own_shard: "checkShardIdentity (Some (relayDecisionShardName env r)) env r = Shard_ok"
proof -
  have s: "split_at (CHR '':'') (relayDecisionShardName env r) = [''relay-decision'', ''v1'', environment_name env, relayShardIndex r]"
    using split_at_append[OF environment_no_colon[of env] shard_index_no_colon[of r]] by (simp add: relayDecisionShardName_def)
  show ?thesis by (simp add: checkShardIdentity_def s)
qed

text \<open>C26: A verified request runs on its own shard.  The hint that the callback reads from a context token that verifies is the request
  id of the context, so the decision controller that the callback chooses accepts the request as one of its shard.\<close>

theorem verified_request_routed:
  assumes "verifyRelayContext hmac token key env now = Inr (Some ctx)"
  shows "extractRequestIdHint token = Some (c_requestId ctx) \<and>
    checkShardIdentity (Some (relayDecisionShardName env (the (extractRequestIdHint token)))) env (c_requestId ctx) = Shard_ok"
proof -
  have v: "verifyRelayToken hmac token key RELAY_CONTEXT_PURPOSE parseRelayContext context_json = Inr (Some ctx)"
    using assms unfolding verifyRelayContext_def by (simp split: sum.splits option.splits if_splits)
  obtain pp mp where t: "split_at (CHR ''.'') token = [pp, mp]" "pp \<noteq> []"
    using v unfolding verifyRelayToken_def by (simp split: if_splits list.splits)
  obtain pb where d: "decodeBase64UrlNoPadding pp = Some pb"
    using v t unfolding verifyRelayToken_def by (simp split: if_splits option.splits)
  obtain tx j where x: "utf8_decode_fatal pb = Some tx" "json_parse tx = Some j" "parseRelayContext j = Some ctx"
    using v t d unfolding verifyRelayToken_def by (simp split: if_splits option.splits sum.splits)
  have j: "valid_context ctx" "same_props j (context_json ctx)"
    using x(3) parseRelayContext_iff[OF json_parse_distinct[OF x(2)]] by simp_all
  have "is_record j" "js_get j ''requestId'' = Some (JStr (c_requestId ctx))"
    using j(2) by (simp_all add: same_props_def context_json_def)
  then have "extractRequestIdHint token = Some (c_requestId ctx)"
    using t x(1,2) j(1) atob_decode[OF d] by (simp add: extractRequestIdHint_def Let_def valid_context_def)
  then show ?thesis by (simp add: own_shard)
qed

theorem verified_request_routed_witness:
  "\<exists>tok. verifyRelayContext (\<lambda>_ _. ''mac'') tok [] Preview 1500 = Inr (Some example_context) \<and>
     extractRequestIdHint tok = Some ''req_01ARZ3NDEKTSV4RRFFQ69G5FAV''"
proof -
  obtain tok where v: "verifyRelayContext (\<lambda>_ _. ''mac'') tok [] Preview 1500 = Inr (Some example_context)"
    using example_context_verifies by blast
  from verified_request_routed[OF v] v show ?thesis by (auto simp: example_context_def)
qed

end
