(* ===== verification/Gateway_Samples.thy ===== *)
theory Gateway_Samples
  imports Samples Routing_Contract
begin

section \<open>Gateway_Samples: a gateway with its relay and one decision\<close>

text \<open>
  A gateway of the preview environment with one model, and a decision on a request for it, with the context of
  Token: the properties of decisions and of the proxy are shown to apply here.
\<close>

definition gw_relay_env :: relay_env_config where
  "gw_relay_env = \<lparr>OCTG_RELAY_ENABLED = Some ''true'', OCTG_RELAY_ENVIRONMENT' = Some ''preview'',
     OCTG_RELAY_INGRESS_ENDPOINT = Some ''https://relay.example'', OCTG_RELAY_INGRESS_AUTH_TOKEN = Some (replicate 32 (CHR ''i'')),
     OCTG_RELAY_SERVICE_AUTH_TOKEN = Some (replicate 32 (CHR ''s'')), OCTG_RELAY_CPU_GATE_AUTH_TOKEN = None,
     OCTG_RELAY_CONTEXT_HMAC_KEY = Some (replicate 43 (CHR ''A''))\<rparr>"

definition gw_new_url :: "string \<Rightarrow> url option" where
  "gw_new_url s = Some \<lparr>u_protocol = ''https:'', u_username = [], u_password = [], u_pathname = ''/'', u_search = [], u_hash = []\<rparr>"

definition gw_config :: enabled_relay_config where
  "gw_config = \<lparr>rc_environment = Preview, rc_ingressEndpoint = ''https://relay.example'', rc_ingressAuthToken = replicate 32 (CHR ''i''),
     rc_serviceAuthToken = replicate 32 (CHR ''s''), rc_contextHmacKey = replicate 32 (CHR 0x00)\<rparr>"

lemma gw_config_resolved: "resolveRelayConfig gw_new_url gw_relay_env = Relay_enabled gw_config"
  by code_simp

definition gw_quota_env :: quota_env where
  "gw_quota_env = day_env\<lparr>QUOTA_LIMIT_STANDARD := Some ''2000''\<rparr>"

definition gw_env :: gateway_env where
  "gw_env = \<lparr>ge_relay = gw_relay_env, ge_quota = gw_quota_env,
     ge_registry = Inr [\<lparr>row_model = ''gpt-5'', row_provider = ''openai'', row_pool = Complimentary STANDARD, row_enabled = 1,
       row_fallback_model = None, row_updated_at = ''2026-01-01''\<rparr>],
     ge_policies = (\<lambda>_. Inr None)\<rparr>"

definition gw_runtime :: runtime where
  "gw_runtime = \<lparr>rt_sha256 = (\<lambda>_. []), rt_hmac = (\<lambda>_ _. ''mac''), rt_new_url = gw_new_url, rt_now = 1500, rt_quota_now = 1500,
     rt_generation = ''00000000-0000-4000-8000-000000000001'', rt_grantId = ''00000000-0000-4000-8000-000000000000'',
     rt_signing_rejects = False, rt_state_fate = Delivered, rt_call_fate = Delivered, rt_release_fate = Delivered\<rparr>"

definition gw_start :: gateway_state where
  "gw_start = \<lparr>gs_quotas = (\<lambda>_. empty_store), gs_caches = \<lparr>registryCache = None, policyCache = []\<rparr>\<rparr>"

definition gw_body :: string where
  "gw_body = ''{\"version\":1,\"metadata\":{\"model\":\"gpt-5\",\"estimatedInputTokens\":20,\"maxOutputTokens\":10,\"inputBytes\":60,\"rawBodyBytes\":60,\"isToolUse\":false,\"stream\":true}}''"

definition gw_shard :: "string option" where
  "gw_shard = Some (relayDecisionShardName Preview ''req_01ARZ3NDEKTSV4RRFFQ69G5FAV'')"

definition gw_input :: "string \<Rightarrow> decision_input" where
  "gw_input tok = \<lparr>di_decisionBody = gw_body, di_contextToken = tok, di_rawIdempotencyKey = None\<rparr>"

lemma gw_body_parsed: "parseRelayJsonBody gw_body RELAY_MAX_CALLBACK_BODY_BYTES = Inr (JObj [(''version'', JNum (JsInt 1)), (''metadata'', meta_json relay_meta)])"
  by code_simp

definition gw_budget :: budget where
  "gw_budget = \<lparr>margin = 256, upperBound = 542, maxOutputTokens = 10, reservation = 286\<rparr>"

lemma gw_budget_resolved:
  "resolveTokenBudget \<lparr>b_estimatedInput = JsInt 20, b_maxOutputTokens = JsInt 10, b_remaining = JsInt 2000, b_limit = JsInt 2000,
     b_outputLimitMode = REJECT\<rparr> = Resolved gw_budget"
proof -
  have mg: "safetyMargin 20 (fl (of_int 2000 / of_int 2000)) = 256" "upperBoundOf 20 10 = 542"
    using safetyMargin_integer[of 20 2000 2000 10] by simp_all
  show ?thesis
    unfolding resolveTokenBudget_def Let_def budget_arguments.simps the_int.simps mg
    by (simp add: validArguments_def safe_int_def MAX_SAFE_INTEGER_def decideOutput_def gw_budget_def)
qed

lemma gw_day:
  "utc_day_of 1500 = ''1970-01-01''" "identity_of (Some (quotaIdOf STANDARD ''1970-01-01'')) = Inr \<lparr>i_pool = STANDARD, i_utcDay = ''1970-01-01''\<rparr>"
  "reset_at ''1970-01-01'' = Inr ''1970-01-02T00:00:00Z''" "resolveLimit gw_quota_env STANDARD = 2000"
  "relayGrantRetentionDeadlineMs ''1970-01-01'' = Inr 3974400000" "tierOf 2000 2000 = NORMAL" "to_iso_string 1500 = ''1970-01-01T00:00:01.500Z''"
  by code_simp+

lemma gw_request_parsed:
  "parseRelayDecisionRequest (JObj [(''version'', JNum (JsInt 1)), (''metadata'', meta_json relay_meta)]) = Some relay_meta"
  by (simp add: parseRelayDecisionRequest_def hasExactKeys_def field_def is_one_def relay_eval)

lemma gw_checked:
  assumes "verifyRelayContext (\<lambda>_ _. ''mac'') tok (rc_contextHmacKey gw_config) Preview 1500 = Inr (Some example_context)"
  shows "check_decision (gw_runtime\<lparr>rt_signing_rejects := rej\<rparr>) gw_config gw_shard (gw_input tok) = Inr (Inr (example_context, None, relay_meta))"
proof -
  have "rc_environment gw_config = Preview" by (simp add: gw_config_def)
  then show ?thesis
    using assms own_shard[of Preview "''req_01ARZ3NDEKTSV4RRFFQ69G5FAV''"]
    by (simp add: check_decision_def gw_runtime_def gw_input_def and_then_def relay_fields gw_shard_def isRawKeyBindingConsistent_def
        day_eval gw_body_parsed relay_eval gw_request_parsed)
qed

lemma gw_quota_fields:
  "OCTG_RELAY_ENVIRONMENT gw_quota_env = Some ''preview''" "MAX_IN_FLIGHT_REQUESTS gw_quota_env = Some ''2''"
  by (simp_all add: gw_quota_env_def relay_fields)

lemmas gw_eval = gw_day relay_eval store_eval relay_fields gw_env_def gw_runtime_def gw_start_def gw_quota_fields

definition gw_store :: quota_store where
  "gw_store = (case admitRelayInTransaction (\<lambda>_. []) gw_quota_env \<lparr>i_pool = STANDARD, i_utcDay = ''1970-01-01''\<rparr>
     (admission_of example_context relay_meta None gw_budget DEFAULT_CLIENT_POLICY) 1500 (rt_generation gw_runtime) (rt_grantId gw_runtime) empty_store of
     Inr (res, st) \<Rightarrow> st | Inl _ \<Rightarrow> empty_store)"

definition gw_claims :: grant_credential where
  "gw_claims = example_credential\<lparr>k_pool := STANDARD, k_admissionUtcDay := ''1970-01-01'', k_issuedAtMs := 1500,
     k_expiresAtMs := 1500 + RELAY_GRANT_CREDENTIAL_TTL_MS\<rparr>"

lemma gw_claims_signed: "\<exists>tok. signRelayGrantCredential (\<lambda>_ _. ''mac'') gw_claims key = Inr tok"
proof -
  have "RELAY_UTC_DAY_PATTERN ''1970-01-01''" by (simp add: RELAY_UTC_DAY_PATTERN_def utc_day_pattern_def matches_simps is_digit_code)
  then have v: "valid_credential gw_claims"
    using example_valid(2)
    by (simp add: gw_claims_def valid_credential_def example_credential_def valid_count_def safe_int_def MAX_SAFE_INTEGER_def
        RELAY_GRANT_CREDENTIAL_TTL_MS_def)
  have u: "utf8_valid (k_clientId gw_claims)" "utf8_valid (k_model gw_claims)"
    by (simp_all add: gw_claims_def example_credential_def utf8_valid_ascii)
  obtain m where m: "grant_claims_json gw_claims = JObj m" by (simp add: grant_claims_json_def)
  show ?thesis
    using canonical_claims[OF credential_record[OF v u m]] by (simp add: signRelayGrantCredential_def signRelayToken_def m Let_def)
qed

lemma gw_admits:
  "\<exists>g q. relayGrantClaimsOf g = gw_claims \<and> admitRelayInTransaction (\<lambda>_. []) gw_quota_env \<lparr>i_pool = STANDARD, i_utcDay = ''1970-01-01''\<rparr>
     (admission_of example_context relay_meta None gw_budget DEFAULT_CLIENT_POLICY) 1500 (rt_generation gw_runtime) (rt_grantId gw_runtime) empty_store
     = Inr (Admitted g q, gw_store)"
  unfolding gw_store_def
  by (simp add: admission_of_def gw_budget_def relay_sample_eval gw_eval admitRelayInTransaction_def check_admission_def
      gw_claims_def relayGrantClaimsOf_def)

lemma gw_seen:
  "getState (Some (quotaIdOf STANDARD ''1970-01-01'')) gw_quota_env 1500 empty_store =
     Inr \<lparr>qv_state = loadPool empty_store gw_quota_env \<lparr>i_pool = STANDARD, i_utcDay = ''1970-01-01''\<rparr> 1500, qv_pool = STANDARD, qv_remaining = 2000\<rparr>"
  "limit (loadPool empty_store gw_quota_env \<lparr>i_pool = STANDARD, i_utcDay = ''1970-01-01''\<rparr> 1500) = 2000"
  by (simp_all add: getState_def gw_day and_then_def store_eval remainingOf_def)

text \<open>With any outcome of the signing and of the call of the release.\<close>

lemma gw_decided:
  assumes "verifyRelayContext (\<lambda>_ _. ''mac'') tok (rc_contextHmacKey gw_config) Preview 1500 = Inr (Some example_context)"
  obtains g q caches where "relayGrantClaimsOf g = gw_claims"
    "admitRelayInTransaction (\<lambda>_. []) gw_quota_env \<lparr>i_pool = STANDARD, i_utcDay = ''1970-01-01''\<rparr>
       (admission_of example_context relay_meta None gw_budget DEFAULT_CLIENT_POLICY) 1500 (rt_generation gw_runtime) (rt_grantId gw_runtime) empty_store
     = Inr (Admitted g q, gw_store)"
    "decide (gw_runtime\<lparr>rt_signing_rejects := rej\<rparr>) gw_env gw_shard (gw_input tok) gw_start =
       (case answer_admission (gw_runtime\<lparr>rt_signing_rejects := rej\<rparr>) gw_env gw_config (quotaIdOf STANDARD ''1970-01-01'') gw_budget
          DEFAULT_CLIENT_POLICY (Admitted g q) ((\<lambda>_. empty_store)(quotaIdOf STANDARD ''1970-01-01'' := gw_store)) of
        (r, quotas) \<Rightarrow> (r, \<lparr>gs_quotas = quotas, gs_caches = caches\<rparr>))"
proof -
  obtain g q where a: "relayGrantClaimsOf g = gw_claims"
    "admitRelayInTransaction (\<lambda>_. []) gw_quota_env \<lparr>i_pool = STANDARD, i_utcDay = ''1970-01-01''\<rparr>
     (admission_of example_context relay_meta None gw_budget DEFAULT_CLIENT_POLICY) 1500 (rt_generation gw_runtime) (rt_grantId gw_runtime) empty_store
     = Inr (Admitted g q, gw_store)" using gw_admits by blast
  have c: "check_decision (gw_runtime\<lparr>rt_signing_rejects := rej\<rparr>) gw_config gw_shard (gw_input tok) = Inr (Inr (example_context, None, relay_meta))"
    using gw_checked[OF assms] by simp
  have m: "m_model relay_meta = ''gpt-5''" "m_isToolUse relay_meta = False" "m_estimatedInputTokens relay_meta = 20" "m_maxOutputTokens relay_meta = 10"
    by (simp_all add: relay_meta_def)
  have b: "resolveTokenBudget (budget_arguments_of relay_meta \<lparr>qv_state = loadPool empty_store gw_quota_env
      \<lparr>i_pool = STANDARD, i_utcDay = ''1970-01-01''\<rparr> 1500, qv_pool = STANDARD, qv_remaining = 2000\<rparr> DEFAULT_CLIENT_POLICY) = Resolved gw_budget"
    using gw_budget_resolved by (simp add: budget_arguments_of_def m gw_seen(2) DEFAULT_CLIENT_POLICY_def)
  have rpc: "admitRelay_rpc (gw_runtime\<lparr>rt_signing_rejects := rej\<rparr>) gw_quota_env (quotaIdOf STANDARD ''1970-01-01'')
      (admission_of example_context relay_meta None gw_budget DEFAULT_CLIENT_POLICY) (\<lambda>_. empty_store)
    = (Inr (Admitted g q), (\<lambda>_. empty_store)(quotaIdOf STANDARD ''1970-01-01'' := gw_store))"
    using a(2) by (simp add: admitRelay_rpc_def stub_call_def gw_runtime_def gw_day and_then_def)
  have ad: "admit_decision (gw_runtime\<lparr>rt_signing_rejects := rej\<rparr>) gw_env gw_config example_context None relay_meta STANDARD DEFAULT_CLIENT_POLICY (\<lambda>_. empty_store)
    = answer_admission (gw_runtime\<lparr>rt_signing_rejects := rej\<rparr>) gw_env gw_config (quotaIdOf STANDARD ''1970-01-01'') gw_budget
          DEFAULT_CLIENT_POLICY (Admitted g q) ((\<lambda>_. empty_store)(quotaIdOf STANDARD ''1970-01-01'' := gw_store))"
    using b rpc unfolding admit_decision_def
    by (simp add: stub_call_def gw_runtime_def gw_day gw_env_def gw_seen(1) and_then_def Let_def)
  have e: "ge_registry gw_env = Inr [\<lparr>row_model = ''gpt-5'', row_provider = ''openai'', row_pool = Complimentary STANDARD, row_enabled = 1,
       row_fallback_model = None, row_updated_at = ''2026-01-01''\<rparr>]" "ge_policies gw_env = (\<lambda>_. Inr None)" "ge_relay gw_env = gw_relay_env"
    "gs_quotas gw_start = (\<lambda>_. empty_store)" "gs_caches gw_start = \<lparr>registryCache = None, policyCache = []\<rparr>"
    "rt_new_url gw_runtime = gw_new_url" "rt_now gw_runtime = 1500"
    by (simp_all add: gw_env_def gw_start_def gw_runtime_def)
  show thesis
    by (rule that[OF a])
      (simp add: decide_def e gw_config_resolved c loadRegistry_def listRegistryRows_def registry_map_def and_then_def classifyModel_def m
        loadPolicy_def policy_of_row_def ad split: prod.split)
qed

end
