(* ===== verification/Lease_Frames.thy ===== *)
theory Lease_Frames
  imports Reachability
begin

section \<open>Lease_Frames: the in-flight leases that the calls of a quota controller leave\<close>

text \<open>
  Which requests have a lease at a controller, which calls leave the leases alone, and that the stored leases of a
  reachable controller are never of the old form without generations, so that no operation fails on them.
\<close>

subsection \<open>The requests with a lease\<close>

definition lease_holders :: "quota_store \<Rightarrow> string list" where
  "lease_holders st = (case loadInFlight st of Legacy_in_flight rs \<Rightarrow> rs | Lease_state ls \<Rightarrow> map l_requestId ls)"

definition stored_leases :: "quota_store \<Rightarrow> in_flight_lease list" where
  "stored_leases st = (case loadInFlight st of Legacy_in_flight rs \<Rightarrow> [] | Lease_state ls \<Rightarrow> ls)"

definition leases_for :: "string \<Rightarrow> quota_store \<Rightarrow> in_flight_lease list" where
  "leases_for r st = filter (\<lambda>l. l_requestId l = r) (stored_leases st)"

definition readable :: "quota_store \<Rightarrow> bool" where
  "readable st \<longleftrightarrow> loadInFlight st = Legacy_in_flight [] \<or> (\<exists>ls. loadInFlight st = Lease_state ls)"

lemma readable_normal: "readable st \<Longrightarrow> \<exists>m. normalizeInFlightState (loadInFlight st) n = Inr (stored_leases st, m)"
  by (auto simp: readable_def normalizeInFlightState_def stored_leases_def)

lemma leases_for_holders: "readable st \<Longrightarrow> leases_for r st = [] \<longleftrightarrow> r \<notin> set (lease_holders st)"
  by (auto simp: readable_def leases_for_def stored_leases_def lease_holders_def filter_empty_conv)

lemma saved_leases [simp]: "stored_leases (saveInFlight ls st) = ls" "readable (saveInFlight ls st)"
  by (simp_all add: stored_leases_def readable_def store_simps)

lemma same_leases: "loadInFlight st' = loadInFlight st \<Longrightarrow> leases_for r st' = leases_for r st"
  by (simp add: leases_for_def stored_leases_def)

lemma normal_stored: "readable st \<Longrightarrow> normalizeInFlightState (loadInFlight st) n = Inr (ls, m) \<Longrightarrow> ls = stored_leases st"
  using readable_normal[of st n] by auto

subsection \<open>The calls that leave the leases alone\<close>

lemma transitions_keep_leases:
  "settle_transition env i now r n st = (a, st') \<Longrightarrow> loadInFlight st' = loadInFlight st"
  "markUncertain_transition env i now r st = (a, st') \<Longrightarrow> loadInFlight st' = loadInFlight st"
  "markReserveOutcomeUnknown env i now r st = (b, st') \<Longrightarrow> loadInFlight st' = loadInFlight st"
  "release_transition env i now r st = (a, st') \<Longrightarrow> loadInFlight st' = loadInFlight st"
  by (auto simp: settle_transition_def markUncertain_transition_def markReserveOutcomeUnknown_def release_transition_def Let_def store_simps
      split: option.splits if_splits)

lemma settle_keeps_leases: "settle env i now r n st = Inr (a, st') \<Longrightarrow> loadInFlight st' = loadInFlight st"
  by (auto simp: settle_def dest: transitions_keep_leases(1) split: if_splits)

lemma write_reservation_leases: "loadInFlight (write_reservation now p r t u k c res st) = loadInFlight st"
  by (simp add: write_reservation_def Let_def store_simps split: option.split)

lemma reserve_keeps_leases: "reserve env i now r t u k c st = Inr (a, st') \<Longrightarrow> loadInFlight st' = loadInFlight st"
  by (auto simp: reserve_def reserve_transaction_def and_then_Inr Let_def write_reservation_leases split: if_splits option.splits parsed_key.splits)

subsection \<open>Reachable controllers\<close>

lemma readable_same: "loadInFlight st' = loadInFlight st \<Longrightarrow> readable st' = readable st"
  by (simp add: readable_def)

lemma lease_ops_readable:
  "acquireInFlightLease n u r lm t st = Inr (a, st') \<Longrightarrow> readable st \<Longrightarrow> readable st'"
  "renewInFlightLease n r g t st = Inr (b, st') \<Longrightarrow> readable st \<Longrightarrow> readable st'"
  "releaseInFlightLease n r go st = Inr (c, st') \<Longrightarrow> readable st \<Longrightarrow> readable st'"
  "releaseGrantLease n gr st = Inr st' \<Longrightarrow> readable st \<Longrightarrow> readable st'"
  by (auto simp: releaseGrantLease_def acquireInFlightLease_def renewInFlightLease_def releaseInFlightLease_def Let_def and_then_Inr
      split: if_splits sum.splits prod.splits option.splits)

lemma put_grant_readable [simp]: "readable (putRelayGrant g st) = readable st"
  by (rule readable_same) (simp add: store_simps)

lemma reconcile_readable: "reconcile_transition env i now r d st = Inr (a, st') \<Longrightarrow> readable st \<Longrightarrow> readable st'"
  by (auto simp: reconcile_transition_def terminalizeGrantOnReconcile_def and_then_Inr Let_def store_simps readable_def
      split: option.splits if_splits dest!: lease_ops_readable(3,4))

lemma apply_readable: "applyQuotaLifecycleTransition env i now r t st = Inr (a, st') \<Longrightarrow> readable st \<Longrightarrow> readable st'"
  by (cases t) (auto simp: map_prod_def and_then_Inr dest: transitions_keep_leases readable_same reconcile_readable split: prod.splits)

lemma given_up_readable:
  "applyQuotaLifecycleTransition env i now r t st = Inr (a, st1) \<Longrightarrow> releaseGrantLease n g st1 = Inr st2 \<Longrightarrow> readable st \<Longrightarrow> readable st2"
  using apply_readable lease_ops_readable(4) by blast

lemma finish_apply_readable: "finish_apply env i now g rep fp st = Inr (a, st') \<Longrightarrow> readable st \<Longrightarrow> readable st'"
  by (auto simp: finish_apply_def and_then_Inr Let_def simp del: applyQuotaLifecycleTransition.simps split: if_splits option.splits
      intro: apply_readable) (rule given_up_readable; assumption)+

lemma expire_readable: "expireAttemptedGrant env i now g st = Inr st' \<Longrightarrow> readable st \<Longrightarrow> readable st'"
  by (auto simp: expireAttemptedGrant_def and_then_Inr simp del: applyQuotaLifecycleTransition.simps)
    (rule given_up_readable; assumption)

lemma activate_readable:
  assumes "activateRelayInTransaction env i now b st = Inr (res, st')" "readable st"
  shows "readable st'"
proof (cases "getRelayGrant st (b_requestId b)")
  case None
  then show ?thesis using assms by (auto simp: activateRelayInTransaction_def)
next
  case (Some grant)
  from assms(1) Some show ?thesis
    by (cases rule: activate_cases)
      (use assms(2) in \<open>auto simp del: applyQuotaLifecycleTransition.simps intro: given_up_readable[where t = Release]\<close>)
qed

lemma renew_readable:
  assumes "renewRelayInTransaction env i now b st = Inr (res, st')" "readable st"
  shows "readable st'"
proof (cases "getRelayGrant st (b_requestId b)")
  case None
  then show ?thesis using assms by (auto simp: renewRelayInTransaction_def)
next
  case (Some grant)
  from assms(1) Some show ?thesis
    by (cases rule: renew_cases) (use assms(2) expire_readable in auto)
qed

lemma finish_readable: "finishRelayInTransaction env i now b rep fp st = Inr (res, st') \<Longrightarrow> readable st \<Longrightarrow> readable st'"
  by (erule finish_cases) (auto dest: expire_readable finish_apply_readable)

lemma admit_readable: "admitRelayInTransaction sha256 env i input now g1 g2 st = Inr (a, st') \<Longrightarrow> readable st \<Longrightarrow> readable st'"
  by (auto simp: admitRelayInTransaction_def admit_new_def and_then_Inr Let_def split: sum.splits if_splits)

lemma fence_readable:
  assumes "fenceRelayCpuGateSetup st env i r now = Inr (a, st')" "readable st"
  shows "readable st'"
proof -
  have "loadInFlight st' = loadInFlight st"
    using assms(1)[unfolded fenceRelayCpuGateSetup_def and_then_Inr]
    by (elim exE conjE, rename_tac x, case_tac x) (auto simp: loadInFlight_def split: if_splits)
  then show ?thesis using assms(2) readable_same by blast
qed

lemma transaction_readable: "transaction sha256 env i now c st = Inr (a, st') \<Longrightarrow> readable st \<Longrightarrow> readable st'"
proof (cases c)
  case Call_finalizeDay
  assume "transaction sha256 env i now c st = Inr (a, st')" "readable st"
  then show ?thesis
    by (auto simp: Call_finalizeDay tag_def finalizeDay_def finalize_transaction_def Let_def readable_def loadInFlight_def empty_store_def
        split: if_splits)
next
  case (Call_fence r)
  assume "transaction sha256 env i now c st = Inr (a, st')" "readable st"
  then show ?thesis by (auto simp: Call_fence tag_def and_then_Inr dest: fence_readable split: if_splits)
qed (auto simp: tag_def and_then_Inr reconcileRequest_def dest: reserve_keeps_leases settle_keeps_leases transitions_keep_leases readable_same
    lease_ops_readable activate_readable renew_readable finish_readable admit_readable reconcile_readable split: option.splits prod.splits)

interpretation lease_system: invariant_system "quota_step sha256 name" empty_store readable for sha256 name
proof
  show "readable empty_store" by (simp add: readable_def loadInFlight_def empty_store_def)
  show "readable s'" if "readable s" "quota_step sha256 name s s'" for s s'
    using that(2,1)
    by cases (auto simp: finalize_transaction_def Let_def readable_def loadInFlight_def elim!: rpc_transaction
        dest!: transaction_readable split: if_splits)
qed

lemma reachable_readable: "reachable sha256 name st \<Longrightarrow> readable st"
  unfolding reachable_def by (rule lease_system.always)

subsection \<open>Acquiring and releasing a lease\<close>

lemma acquired_leases:
  assumes "acquireInFlightLease now u r lm ttl st = Inr (a, st')" "readable st" "leases_for r st = []"
  shows "leases_for r st' = (case a of Acquired l \<Rightarrow> [l] | Concurrency_exceeded \<Rightarrow> [])"
proof -
  obtain ls m where n: "normalizeInFlightState (loadInFlight st) now = Inr (ls, m)" "ls = stored_leases st"
    using readable_normal[OF assms(2)] by blast
  have f: "filter (\<lambda>l. l_requestId l = r) (withoutExpiredLeases ls now) = []"
    using assms(3) by (auto simp: n(2) leases_for_def withoutExpiredLeases_def filter_empty_conv)
  then have "lease_of r (withoutExpiredLeases ls now) = None" by (auto simp: lease_of_None filter_empty_conv)
  moreover have "leases_for r (if b then saveInFlight (withoutExpiredLeases ls now) st else st) = []" for b
    using f assms(3) by (simp add: leases_for_def)
  ultimately show ?thesis
    using assms(1) f assms(3)[unfolded leases_for_def]
    by (auto simp: acquireInFlightLease_def n(1) Let_def leases_for_def split: if_splits sum.splits)
qed

lemma lease_of_filter: "lease_of r ls = (case filter (\<lambda>l. l_requestId l = r) ls of [] \<Rightarrow> None | l # _ \<Rightarrow> Some l)"
  by (induction ls) (simp_all add: lease_of_def)

lemma released_leases:
  assumes "readable st" "leases_for r st = [l]"
  obtains a st' where "releaseInFlightLease now r (Some (l_generation l)) st = Inr (a, st')" "leases_for r st' = []"
proof -
  obtain m where n: "normalizeInFlightState (loadInFlight st) now = Inr (stored_leases st, m)"
    using readable_normal[OF assms(1)] by blast
  let ?ls = "stored_leases st" and ?p = "\<lambda>k. l_requestId k = r"
  have f: "filter ?p ?ls = [l]" using assms(2) by (simp add: leases_for_def)
  define act where "act = withoutExpiredLeases ?ls now"
  define ret where "ret = (if (case lease_of r act of None \<Rightarrow> False | Some k \<Rightarrow> l_generation k = l_generation l) then remove_first ?p act else act)"
  have fa: "filter ?p act = (if l_expiresAtMs l > now then [l] else [])"
    using arg_cong[OF f, of "filter (\<lambda>k. l_expiresAtMs k > now)"]
    by (simp add: act_def withoutExpiredLeases_def conj_commute)
  have "filter ?p ret = []"
  proof (cases "l_expiresAtMs l > now")
    case True
    then have "lease_of r act = Some l" using fa by (simp add: lease_of_filter)
    moreover have "filter ?p (remove_first ?p act) = tl (filter ?p act)" by (induction act) auto
    ultimately show ?thesis using fa True by (simp add: ret_def)
  next
    case False
    then have "lease_of r act = None" using fa by (auto simp: lease_of_None filter_empty_conv)
    then show ?thesis using fa False by (simp add: ret_def)
  qed
  moreover have "length ret \<noteq> length ?ls"
  proof
    assume len: "length ret = length ?ls"
    have le: "length ret \<le> length act" "length act \<le> length ?ls"
      using length_remove_first[of ?p act] by (simp_all add: ret_def act_def withoutExpiredLeases_def)
    then have "act = ?ls" using len withoutExpired_length[of ?ls now] by (simp add: act_def)
    moreover have "ret = act" using len le remove_first_same[of ?p act] by (simp add: ret_def split: if_splits)
    ultimately show False using \<open>filter ?p ret = []\<close> f by simp
  qed
  moreover have "releaseInFlightLease now r (Some (l_generation l)) st =
      Inr (Lease_release (case lease_of r act of None \<Rightarrow> False | Some k \<Rightarrow> l_generation k = l_generation l),
        if m \<or> length ret \<noteq> length ?ls then saveInFlight ret st else st)"
    by (simp only: releaseInFlightLease_def n sum.case prod.case Let_def option.case act_def ret_def)
  ultimately show thesis using that by (simp add: leases_for_def)
qed

lemma released_free:
  assumes "releaseInFlightLease now r g st = Inr (a, st')" "readable st" "leases_for r' st = []"
  shows "leases_for r' st' = []"
proof -
  obtain ls m where n: "normalizeInFlightState (loadInFlight st) now = Inr (ls, m)" "ls = stored_leases st"
    using readable_normal[OF assms(2)] by blast
  have f: "filter (\<lambda>l. l_requestId l = r') (withoutExpiredLeases ls now) = []"
    using assms(3) by (auto simp: n(2) leases_for_def withoutExpiredLeases_def filter_empty_conv)
  have rem: "filter p xs = [] \<Longrightarrow> filter p (remove_first q xs) = []" for p q and xs :: "in_flight_lease list"
    by (induction xs) (auto split: if_splits)
  show ?thesis
    using assms(1) f rem[OF f] assms(3)[unfolded leases_for_def]
    by (auto simp: releaseInFlightLease_def n(1) Let_def leases_for_def split: if_splits option.splits)
qed

end
