(* ===== verification/Decision_Contract.thy ===== *)
theory Decision_Contract
  imports Grant_Origin Wire_Contract Gateway_Samples Lease_Frames
begin

section \<open>Decision_Contract: what a decision of the relay promises\<close>

text \<open>
  The properties of the decision controller together with the quota controllers it calls: an allow decision is
  backed by an authorized grant, a grant whose credential cannot be signed is given back, a repeated decision
  never reserves again, and a request is always routed to the shard that its context names.
\<close>

subsection \<open>Calls of a stub\<close>

definition quotas_reachable :: "(string \<Rightarrow> string) \<Rightarrow> quotas \<Rightarrow> bool" where
  "quotas_reachable sha256 quotas \<longleftrightarrow> (\<forall>name. reachable sha256 (Some name) (quotas name))"

lemma stub_call_cases:
  assumes "stub_call fate name op quotas = (r, quotas')"
  obtains (unchanged) "quotas' = quotas" "\<And>a. r = Inr a \<Longrightarrow> op (quotas name) = Inr (a, quotas name)"
    | (called) a st where "op (quotas name) = Inr (a, st)" "quotas' = quotas(name := st)" "r = Inr a \<or> fate = Lost_reply \<and> r = Inl rpc_lost"
  using assms by (cases "op (quotas name)") (auto simp: stub_call_def split: if_splits)

lemma stub_call_Inr:
  "stub_call fate name op quotas = (Inr a, quotas') \<Longrightarrow>
     \<exists>st. fate = Delivered \<and> op (quotas name) = Inr (a, st) \<and> quotas' = quotas(name := st)"
  by (cases fate) (auto simp: stub_call_def split: sum.splits prod.splits if_splits)

lemma stub_call_delivered:
  "op (quotas name) = Inr (a, st) \<Longrightarrow> stub_call Delivered name op quotas = (Inr a, quotas(name := st))"
  by (simp add: stub_call_def)

lemma stub_call_reachable:
  assumes "quotas_reachable sha256 quotas" "stub_call fate name op quotas = (r, quotas')"
    and "\<And>a st. op (quotas name) = Inr (a, st) \<Longrightarrow> reachable sha256 (Some name) st"
  shows "quotas_reachable sha256 quotas'"
  using assms(2) by (cases rule: stub_call_cases) (use assms(1,3) in \<open>auto simp: quotas_reachable_def\<close>)

lemma admit_rpc_reachable:
  assumes "reachable sha256 (Some name) st" "identity_of (Some name) = Inr i"
    and "admitRelayInTransaction sha256 env i input now g1 g2 st = Inr (res, st')"
  shows "reachable sha256 (Some name) st'"
  using reachable_step[OF assms(1), of env now "Call_admitRelay input g1 g2" "Ans_admission res" st'] assms(2,3)
  by (simp add: quota_rpc_def tag_Inr)

lemma finish_rpc_reachable:
  assumes "reachable sha256 (Some name) st" "identity_of (Some name) = Inr i"
    and "finishRelayInTransaction env i now b rep fp st = Inr (res, st')"
  shows "reachable sha256 (Some name) st'"
  using reachable_step[OF assms(1), of env now "Call_finishRelay b rep fp" "Ans_finish res" st'] assms(2,3)
  by (simp add: quota_rpc_def tag_Inr)

subsection \<open>The cases of a decision\<close>

text \<open>The checks of a decision: they pass with a verified context on its own shard, or they answer without allowing.\<close>

lemma check_decision_cases:
  assumes "check_decision rt config own input = Inr res"
  obtains (answered) d where "res = Inl d" "\<And>x t. d \<noteq> Dispatch_allow x t"
    | (passed) ctx rawKey meta body where "res = Inr (ctx, rawKey, meta)"
      "verifyRelayContext (rt_hmac rt) (di_contextToken input) (rc_contextHmacKey config) (rc_environment config) (rt_now rt) = Inr (Some ctx)"
      "checkShardIdentity own (rc_environment config) (c_requestId ctx) = Shard_ok"
      "rawKey = (case parseIdempotencyKey (di_rawIdempotencyKey input) of Key_valid k \<Rightarrow> Some k | _ \<Rightarrow> None)"
      "isRawKeyBindingConsistent (rt_sha256 rt) ctx rawKey"
      "parseRelayJsonBody (di_decisionBody input) RELAY_MAX_CALLBACK_BODY_BYTES = Inr body" "parseRelayDecisionRequest body = Some meta"
proof -
  define v where "v = verifyRelayContext (rt_hmac rt) (di_contextToken input) (rc_contextHmacKey config) (rc_environment config) (rt_now rt)"
  note a = assms[unfolded check_decision_def v_def[symmetric]]
  consider "v = Inr None" | ctx where "v = Inr (Some ctx)" using a by (cases v; cases "projr v") auto
  then show thesis
  proof cases
    case 1
    then show thesis using a answered by auto
  next
    case (2 ctx)
    define sh where "sh = checkShardIdentity own (rc_environment config) (c_requestId ctx)"
    define k where "k = (case parseIdempotencyKey (di_rawIdempotencyKey input) of Key_valid k \<Rightarrow> Some k | _ \<Rightarrow> None)"
    note b = a[unfolded 2 and_then_simps option.case sh_def[symmetric] Let_def k_def[symmetric]]
    consider "sh = Shard_ok" "parseIdempotencyKey (di_rawIdempotencyKey input) \<noteq> Key_invalid" "isRawKeyBindingConsistent (rt_sha256 rt) ctx k"
      | d where "res = Inl d" "\<And>x t. d \<noteq> Dispatch_allow x t"
      using b by (cases sh) (auto split: if_splits)
    then show thesis
    proof cases
      case 1
      note c = b[unfolded 1 shard_check.case, simplified 1 if_True if_False not_True_eq_False not_False_eq_True]
      consider body meta where "parseRelayJsonBody (di_decisionBody input) RELAY_MAX_CALLBACK_BODY_BYTES = Inr body"
          "parseRelayDecisionRequest body = Some meta" "res = Inr (ctx, k, meta)"
        | d where "res = Inl d" "\<And>x t. d \<noteq> Dispatch_allow x t"
        using c by (auto split: sum.splits js_error.splits option.splits)
      then show thesis
        by cases (use passed[OF _ 2[unfolded v_def] 1(1)[unfolded sh_def] k_def 1(3)] answered in blast)+
    qed (rule answered)
  qed
qed

text \<open>The decision that reaches the quota controller, and the others, which call no controller that writes.\<close>

lemma decide_cases:
  assumes "decide rt env own input gs = (r, gs')"
  obtains (answered) "gs_quotas gs' = gs_quotas gs" "\<And>d tok. r \<noteq> Inr (Dispatch_allow d tok)"
  | (admitting) config ctx rawKey meta pool policy where
      "resolveRelayConfig (rt_new_url rt) (ge_relay env) = Relay_enabled config"
      "check_decision rt config own input = Inr (Inr (ctx, rawKey, meta))"
      "admit_decision rt env config ctx rawKey meta pool policy (gs_quotas gs) = (r, gs_quotas gs')"
proof (cases "\<exists>config ctx rawKey meta. resolveRelayConfig (rt_new_url rt) (ge_relay env) = Relay_enabled config \<and>
    check_decision rt config own input = Inr (Inr (ctx, rawKey, meta))")
  case True
  then obtain config ctx rawKey meta where c: "resolveRelayConfig (rt_new_url rt) (ge_relay env) = Relay_enabled config"
    "check_decision rt config own input = Inr (Inr (ctx, rawKey, meta))" by blast
  note d = assms[unfolded decide_def c relay_config.case sum.case prod.case]
  show thesis
  proof (rule ccontr)
    assume n: "\<not> thesis"
    have a: "\<not> (gs_quotas gs' = gs_quotas gs \<and> (\<forall>d tok. r \<noteq> Inr (Dispatch_allow d tok)))" using answered n by blast
    have b: "admit_decision rt env config ctx rawKey meta pool policy (gs_quotas gs) \<noteq> (r, gs_quotas gs')" for pool policy
      using admitting c n by blast
    show False
      using d a b by (auto simp: rejectDecision_def split: sum.splits prod.splits complimentary_pool.splits if_splits)
  qed
next
  case False
  show thesis
  proof (cases "resolveRelayConfig (rt_new_url rt) (ge_relay env)")
    case (Relay_enabled config)
    then show thesis using assms answered False
      by (cases "check_decision rt config own input") (auto simp: decide_def elim!: check_decision_cases)
  qed (use assms answered in \<open>auto simp: decide_def\<close>)
qed

lemma admit_decision_cases:
  assumes "admit_decision rt env config ctx rawKey meta pool policy quotas = (r, quotas')"
  obtains (unchanged) "quotas' = quotas" "\<And>d tok. r \<noteq> Inr (Dispatch_allow d tok)"
    | (lost) b e where "r = Inl e"
      "admitRelay_rpc rt (ge_quota env) (quotaIdOf pool (utc_day_of (rt_now rt))) (admission_of ctx meta rawKey b policy) quotas = (Inl e, quotas')"
    | (admission) b adm q1 where
      "admitRelay_rpc rt (ge_quota env) (quotaIdOf pool (utc_day_of (rt_now rt))) (admission_of ctx meta rawKey b policy) quotas = (Inr adm, q1)"
      "answer_admission rt env config (quotaIdOf pool (utc_day_of (rt_now rt))) b policy adm q1 = (r, quotas')"
  using assms by (auto simp: admit_decision_def Let_def rejectDecision_def split: sum.splits prod.splits budget_outcome.splits)

lemma answer_admission_cases:
  assumes "answer_admission rt env config name b policy adm q1 = (r, q2)"
  obtains (denied) code where "adm = Admission_denied code" "r = Inr (rejectDecision code)" "q2 = q1"
    | (signed) g q tok where "adm = Admitted g q" "\<not> rt_signing_rejects rt" "q2 = q1"
      "signRelayGrantCredential (rt_hmac rt) (relayGrantClaimsOf g) (rc_contextHmacKey config) = Inr tok"
      "r = Inr (Dispatch_allow (Decision_allow (gr_grantId g) (gr_leaseGeneration g) (maxOutputTokens b) (p_cacheEnabled policy) q) tok)"
    | (unsigned) g q fr where "adm = Admitted g q"
      "finishRelay_rpc (rt_release_fate rt) (rt_quota_now rt) (ge_quota env) name (binding_of g) (release_report g) q1 = (fr, q2)"
      "r = (case fr of Inl e \<Rightarrow> Inl e | Inr _ \<Rightarrow> Inr (Dispatch_internal_error Internal_error))"
  using assms by (auto simp: answer_admission_def Let_def split: admission_result.splits sum.splits prod.splits if_splits)

subsection \<open>The admission of a verified context\<close>

lemma verified_context:
  assumes "verifyRelayContext hmac tok key env now = Inr (Some ctx)"
  shows "valid_context ctx" "parseRelayContext (context_json ctx) = Some ctx"
proof -
  have t: "verifyRelayToken hmac tok key RELAY_CONTEXT_PURPOSE parseRelayContext context_json = Inr (Some ctx)"
    using assms unfolding verifyRelayContext_def by (simp split: sum.splits option.splits if_splits)
  show "valid_context ctx" using verifyRelayToken_sound(1)[OF t] parsed_context_valid by blast
  then show "parseRelayContext (context_json ctx) = Some ctx"
    by (subst parseRelayContext_iff) (simp_all add: context_json_def same_props_def)
qed

text \<open>A call of the admission, on the store of one controller.\<close>

lemma admission_fields [simp]:
  "a_context (admission_of ctx meta rawKey b policy) = context_json ctx"
  "a_reservedTokens (admission_of ctx meta rawKey b policy) = JsInt (reservation b)"
  by (simp_all add: admission_of_def)

lemma same_look: "same_but_leases st st' \<Longrightarrow> look st' = look st"
  by (simp add: same_but_leases_fields look_def fun_eq_iff getEntry_def)

text \<open>Whatever it answers, it changes at most the request of the context, and that one only when it has no record.\<close>

lemma admission_look:
  assumes "reachable sha256 name st" "admitRelayInTransaction sha256 env i input now g1 g2 st = Inr (res, st')"
    and "parseRelayContext (a_context input) = Some ctx"
  shows "look st (c_requestId ctx) \<noteq> None \<Longrightarrow> look st' = look st"
    "look st' = look st \<or> (\<exists>g q. res = Admitted g q \<and> look st (c_requestId ctx) = None \<and>
       look st' = (look st)(c_requestId ctx := Some (Held (the_int (a_reservedTokens input)))))"
proof -
  show a: "look st (c_requestId ctx) \<noteq> None \<Longrightarrow> look st' = look st"
  proof (cases res)
    case (Admitted g q)
    assume l: "look st (c_requestId ctx) \<noteq> None"
    show ?thesis
    proof (rule admit_checked[OF assms(2)[unfolded Admitted]])
      fix ctx' meta rawKey
      assume c: "check_admission sha256 env input st = Inr (ctx', meta, rawKey)"
      have "ctx' = ctx" using check_admission_context(1)[OF c] assms(3) by simp
      moreover assume "getEntry st (c_requestId ctx') \<noteq> None \<Longrightarrow> st' = st \<and> getRelayGrant st (c_requestId ctx') = Some g \<and>
        gr_state g = Authorized \<and> matchesRelayAdmission g ctx' meta input \<and> buildQuotaSnapshot (loadPool st env i now) i = Inr q"
      ultimately show ?thesis using l by (simp add: look_def)
    qed
  qed (use admit_denied assms(2) same_look in blast)
  show "look st' = look st \<or> (\<exists>g q. res = Admitted g q \<and> look st (c_requestId ctx) = None \<and>
      look st' = (look st)(c_requestId ctx := Some (Held (the_int (a_reservedTokens input)))))"
  proof (cases "look st (c_requestId ctx)")
    case None
    show ?thesis
    proof (cases res)
      case (Admitted g q)
      with None show ?thesis
        using admission_of_new[OF assms(2)[unfolded Admitted] assms(3) None] admit_new_stored[OF reachable_sound[OF assms(1)]] by metis
    qed (use admit_denied assms(2) same_look in blast)
  qed (use a in simp)
qed

text \<open>The grant that an admission answers with.\<close>

lemma admitted_grant:
  assumes "reachable sha256 (Some name) st" "identity_of (Some name) = Inr i"
    and "admitRelayInTransaction sha256 env i input now g1 g2 st = Inr (Admitted g q, st')" "parseRelayContext (a_context input) = Some ctx"
  shows "getRelayGrant st' (c_requestId ctx) = Some g" "gr_state g = Authorized" "gr_requestId g = c_requestId ctx"
    "gr_clientId g = c_clientId ctx" "gr_idempotencyKeyHash g = c_idempotencyKeyHash ctx"
    "a_maxOutputTokens input = JsInt n \<Longrightarrow> ad_maxOutputTokens (gr_admission g) = n"
    "ad_cacheEnabled (gr_admission g) = a_cacheEnabled input" "reachable sha256 (Some name) st'" "placed i g"
    "look st (c_requestId ctx) = None \<Longrightarrow> look st' (c_requestId ctx) = Some (Held (ad_reservedTokens (gr_admission g)))"
    "look st (c_requestId ctx) \<noteq> None \<Longrightarrow> st' = st"
proof -
  show "st' = st" if "look st (c_requestId ctx) \<noteq> None"
  proof (rule admit_checked[OF assms(3)])
    fix ctx' metadata rawKey
    assume c: "check_admission sha256 env input st = Inr (ctx', metadata, rawKey)"
    have "ctx' = ctx" using check_admission_context(1)[OF c] assms(4) by simp
    moreover assume "getEntry st (c_requestId ctx') \<noteq> None \<Longrightarrow> st' = st \<and> getRelayGrant st (c_requestId ctx') = Some g \<and>
      gr_state g = Authorized \<and> matchesRelayAdmission g ctx' metadata input \<and> buildQuotaSnapshot (loadPool st env i now) i = Inr q"
    ultimately show "st' = st" using that by (auto simp: look_def)
  qed
  show r: "reachable sha256 (Some name) st'" by (rule admit_rpc_reachable[OF assms(1,2,3)])
  have "getRelayGrant st' (c_requestId ctx) = Some g \<and> gr_state g = Authorized \<and> gr_clientId g = c_clientId ctx \<and>
      gr_idempotencyKeyHash g = c_idempotencyKeyHash ctx \<and> (a_maxOutputTokens input = JsInt n \<longrightarrow> ad_maxOutputTokens (gr_admission g) = n) \<and>
      ad_cacheEnabled (gr_admission g) = a_cacheEnabled input"
  proof (cases "look st (c_requestId ctx)")
    case None
    obtain metadata rawKey where c: "check_admission sha256 env input st = Inr (ctx, metadata, rawKey)"
      "admit_new env i now g1 g2 ctx metadata rawKey input st = Inr (Admitted g q, st')" "getEntry st (c_requestId ctx) = None"
      by (rule admission_of_new[OF assms(3,4) None])
    show ?thesis
      by (rule admit_new_stored[OF reachable_sound[OF assms(1)] c(1,3,2)]) (simp add: new_grant_def)
  next
    case (Some x)
    show ?thesis
    proof (rule admit_checked[OF assms(3)])
      fix ctx' metadata rawKey
      assume c: "check_admission sha256 env input st = Inr (ctx', metadata, rawKey)"
      have "ctx' = ctx" using check_admission_context(1)[OF c] assms(4) by simp
      moreover assume "getEntry st (c_requestId ctx') \<noteq> None \<Longrightarrow> st' = st \<and> getRelayGrant st (c_requestId ctx') = Some g \<and>
        gr_state g = Authorized \<and> matchesRelayAdmission g ctx' metadata input \<and> buildQuotaSnapshot (loadPool st env i now) i = Inr q"
      ultimately show ?thesis using Some by (auto simp: look_def matchesRelayAdmission_def Let_def)
    qed
  qed
  then show g: "getRelayGrant st' (c_requestId ctx) = Some g" "gr_state g = Authorized" "gr_clientId g = c_clientId ctx"
      "gr_idempotencyKeyHash g = c_idempotencyKeyHash ctx" "a_maxOutputTokens input = JsInt n \<Longrightarrow> ad_maxOutputTokens (gr_admission g) = n"
      "ad_cacheEnabled (gr_admission g) = a_cacheEnabled input" by simp_all
  note ok = sound_parts(4)[OF reachable_sound[OF r], unfolded grants_ok_def, rule_format, OF g(1)]
  show "gr_requestId g = c_requestId ctx" using ok by simp
  show "placed i g" using reachable_placed[OF r assms(2) g(1)] .
  assume n: "look st (c_requestId ctx) = None"
  obtain metadata rawKey where c: "check_admission sha256 env input st = Inr (ctx, metadata, rawKey)"
    "admit_new env i now g1 g2 ctx metadata rawKey input st = Inr (Admitted g q, st')" "getEntry st (c_requestId ctx) = None"
    by (rule admission_of_new[OF assms(3,4) n])
  show "look st' (c_requestId ctx) = Some (Held (ad_reservedTokens (gr_admission g)))"
    by (rule admit_new_stored[OF reachable_sound[OF assms(1)] c(1,3,2)]) (simp add: new_grant_def)
qed

lemma admit_rpc_cases:
  assumes "admitRelay_rpc rt env name input quotas = (fr, q1)"
  obtains (none) "q1 = quotas" "\<And>a. fr \<noteq> Inr a"
    | (ran) i res st where "identity_of (Some name) = Inr i" "q1 = quotas(name := st)" "fr = Inr res \<or> rt_call_fate rt = Lost_reply \<and> fr = Inl rpc_lost"
      "admitRelayInTransaction (rt_sha256 rt) env i input (rt_quota_now rt) (rt_generation rt) (rt_grantId rt) (quotas name) = Inr (res, st)"
  using assms unfolding admitRelay_rpc_def stub_call_def
  by (cases "rt_call_fate rt") (auto simp: and_then_Inr split: sum.splits prod.splits if_splits)

lemma finish_rpc_cases:
  assumes "finishRelay_rpc fate now env name binding report quotas = (fr, q1)"
  obtains (none) "q1 = quotas" "\<And>a. fr \<noteq> Inr a"
    | (ran) i res st where "identity_of (Some name) = Inr i" "q1 = quotas(name := st)" "fr = Inr res \<or> fate = Lost_reply \<and> fr = Inl rpc_lost"
      "finishRelayInTransaction env i now binding (terminal_json report) (relayTerminalFingerprint report) (quotas name) = Inr (res, st)"
  using assms unfolding finishRelay_rpc_def stub_call_def
  by (cases fate) (auto simp: and_then_Inr split: sum.splits prod.splits if_splits)

text \<open>Every decision, up to its one call of the admission and what follows it.\<close>

lemma decide_effect:
  assumes "decide rt env own input gs = (r, gs')"
  obtains (answered) "gs_quotas gs' = gs_quotas gs" "\<And>d tok. r \<noteq> Inr (Dispatch_allow d tok)"
    | (called) config ctx rawKey meta pool policy b fr q1 where
      "resolveRelayConfig (rt_new_url rt) (ge_relay env) = Relay_enabled config"
      "verifyRelayContext (rt_hmac rt) (di_contextToken input) (rc_contextHmacKey config) (rc_environment config) (rt_now rt) = Inr (Some ctx)"
      "checkShardIdentity own (rc_environment config) (c_requestId ctx) = Shard_ok"
      "admitRelay_rpc rt (ge_quota env) (quotaIdOf pool (utc_day_of (rt_now rt))) (admission_of ctx meta rawKey b policy) (gs_quotas gs) = (fr, q1)"
      "case fr of Inl e \<Rightarrow> r = Inl e \<and> gs_quotas gs' = q1
       | Inr adm \<Rightarrow> answer_admission rt env config (quotaIdOf pool (utc_day_of (rt_now rt))) b policy adm q1 = (r, gs_quotas gs')"
  using assms
proof (cases rule: decide_cases)
  case (admitting config ctx rawKey meta pool policy)
  have v: "verifyRelayContext (rt_hmac rt) (di_contextToken input) (rc_contextHmacKey config) (rc_environment config) (rt_now rt) = Inr (Some ctx)"
    "checkShardIdentity own (rc_environment config) (c_requestId ctx) = Shard_ok"
    by (rule check_decision_cases[OF admitting(2)]; simp)+
  from admitting(3) show thesis
    by (cases rule: admit_decision_cases) (use answered called[OF admitting(1) v] in \<open>auto split: sum.splits\<close>)
qed (use answered in blast)

text \<open>An allow decision, with the call that admitted it.\<close>

lemma allow_effect:
  assumes "quotas_reachable (rt_sha256 rt) (gs_quotas gs)" "decide rt env own input gs = (Inr (Dispatch_allow d credential), gs')"
  obtains config ctx rawKey meta policy b i name g q st where
    "resolveRelayConfig (rt_new_url rt) (ge_relay env) = Relay_enabled config"
    "verifyRelayContext (rt_hmac rt) (di_contextToken input) (rc_contextHmacKey config) (rc_environment config) (rt_now rt) = Inr (Some ctx)"
    "checkShardIdentity own (rc_environment config) (c_requestId ctx) = Shard_ok" "identity_of (Some name) = Inr i"
    "admitRelayInTransaction (rt_sha256 rt) (ge_quota env) i (admission_of ctx meta rawKey b policy) (rt_quota_now rt)
       (rt_generation rt) (rt_grantId rt) (gs_quotas gs name) = Inr (Admitted g q, st)"
    "gs_quotas gs' = (gs_quotas gs)(name := st)"
    "d = Decision_allow (gr_grantId g) (gr_leaseGeneration g) (maxOutputTokens b) (p_cacheEnabled policy) q"
    "signRelayGrantCredential (rt_hmac rt) (relayGrantClaimsOf g) (rc_contextHmacKey config) = Inr credential"
  using assms(2)
proof (cases rule: decide_effect)
  case (called config ctx rawKey meta pool policy b fr q1)
  define name where "name = quotaIdOf pool (utc_day_of (rt_now rt))"
  note c = called[folded name_def]
  obtain adm where fr: "fr = Inr adm" "answer_admission rt env config name b policy adm q1 = (Inr (Dispatch_allow d credential), gs_quotas gs')"
    using c(5) by (cases fr) auto
  from fr(2) obtain g q where a: "adm = Admitted g q" "gs_quotas gs' = q1"
    "signRelayGrantCredential (rt_hmac rt) (relayGrantClaimsOf g) (rc_contextHmacKey config) = Inr credential"
    "d = Decision_allow (gr_grantId g) (gr_leaseGeneration g) (maxOutputTokens b) (p_cacheEnabled policy) q"
    by (cases rule: answer_admission_cases) (auto simp: rejectDecision_def split: sum.splits)
  from c(4) show thesis
    by (cases rule: admit_rpc_cases) (use fr(1) a that c(1-3) in auto)
qed blast

text \<open>The decision of the sample allows its request.\<close>

lemma gw_reachable [simp]: "quotas_reachable sha256 (gs_quotas gw_start)"
  by (simp add: quotas_reachable_def gw_start_def reachable_def)

lemma gw_allows:
  "\<exists>tok d credential gs'. verifyRelayContext (\<lambda>_ _. ''mac'') tok (rc_contextHmacKey gw_config) Preview 1500 = Inr (Some example_context) \<and>
     decide gw_runtime gw_env gw_shard (gw_input tok) gw_start = (Inr (Dispatch_allow d credential), gs')"
proof -
  obtain tok where v: "verifyRelayContext (\<lambda>_ _. ''mac'') tok (rc_contextHmacKey gw_config) Preview 1500 = Inr (Some example_context)"
    using example_context_verifies by blast
  obtain credential where c: "signRelayGrantCredential (\<lambda>_ _. ''mac'') gw_claims (rc_contextHmacKey gw_config) = Inr credential"
    using gw_claims_signed by blast
  have r: "gw_runtime\<lparr>rt_signing_rejects := False\<rparr> = gw_runtime" by (simp add: gw_runtime_def)
  show ?thesis
    by (rule gw_decided[OF v, of False]) (use v c in \<open>auto simp: r answer_admission_def gw_runtime_def\<close>)
qed

text \<open>C23: An allow decision is backed by a stored grant.  When the relay answers allow, the relay is enabled, the context is verified and
  on its own shard; the grant that the decision names is stored, authorized, for the request and the client of that context, in the
  controller of its own pool and day, with the output limit and the cache flag of the answer; the credential is the signing of the
  claims of that grant, which the controller accepts as its own.  A request without a record is reserved: it then holds exactly the tokens
  of the grant, and no other controller changed.  A request with a record is only answered again: its grant was stored before and no store
  changed at all.\<close>

theorem decision_backed:
  assumes "quotas_reachable (rt_sha256 rt) (gs_quotas gs)" "decide rt env own input gs = (Inr (Dispatch_allow d credential), gs')"
  shows "\<exists>config ctx g q i. resolveRelayConfig (rt_new_url rt) (ge_relay env) = Relay_enabled config \<and>
    verifyRelayContext (rt_hmac rt) (di_contextToken input) (rc_contextHmacKey config) (rc_environment config) (rt_now rt) = Inr (Some ctx) \<and>
    checkShardIdentity own (rc_environment config) (c_requestId ctx) = Shard_ok \<and>
    d = Decision_allow (gr_grantId g) (gr_leaseGeneration g) (ad_maxOutputTokens (gr_admission g)) (ad_cacheEnabled (gr_admission g)) q \<and>
    signRelayGrantCredential (rt_hmac rt) (relayGrantClaimsOf g) (rc_contextHmacKey config) = Inr credential \<and>
    identity_of (Some (quotaIdOf (gr_pool g) (gr_admissionUtcDay g))) = Inr i \<and> \<not> grantBindingMismatch g (binding_of g) i \<and>
    gr_state g = Authorized \<and> gr_clientId g = c_clientId ctx \<and> gr_idempotencyKeyHash g = c_idempotencyKeyHash ctx \<and>
    (let st = gs_quotas gs (quotaIdOf (gr_pool g) (gr_admissionUtcDay g)); st' = gs_quotas gs' (quotaIdOf (gr_pool g) (gr_admissionUtcDay g)) in
       getRelayGrant st' (c_requestId ctx) = Some g \<and>
       (if look st (c_requestId ctx) = None then look st' (c_requestId ctx) = Some (Held (ad_reservedTokens (gr_admission g)))
        else gs_quotas gs' = gs_quotas gs) \<and>
       (\<forall>other. other \<noteq> quotaIdOf (gr_pool g) (gr_admissionUtcDay g) \<longrightarrow> gs_quotas gs' other = gs_quotas gs other))"
proof -
  obtain config ctx rawKey meta policy b i name g q st where a: "resolveRelayConfig (rt_new_url rt) (ge_relay env) = Relay_enabled config"
    "verifyRelayContext (rt_hmac rt) (di_contextToken input) (rc_contextHmacKey config) (rc_environment config) (rt_now rt) = Inr (Some ctx)"
    "checkShardIdentity own (rc_environment config) (c_requestId ctx) = Shard_ok" "identity_of (Some name) = Inr i"
    "admitRelayInTransaction (rt_sha256 rt) (ge_quota env) i (admission_of ctx meta rawKey b policy) (rt_quota_now rt)
       (rt_generation rt) (rt_grantId rt) (gs_quotas gs name) = Inr (Admitted g q, st)"
    "gs_quotas gs' = (gs_quotas gs)(name := st)"
    "d = Decision_allow (gr_grantId g) (gr_leaseGeneration g) (maxOutputTokens b) (p_cacheEnabled policy) q"
    "signRelayGrantCredential (rt_hmac rt) (relayGrantClaimsOf g) (rc_contextHmacKey config) = Inr credential"
    by (rule allow_effect[OF assms])
  note r = assms(1)[unfolded quotas_reachable_def, rule_format, of name]
  note g = admitted_grant[OF r a(4,5), unfolded admission_fields, OF verified_context(2)[OF a(2)]]
  have n: "name = quotaIdOf (gr_pool g) (gr_admissionUtcDay g)" using identity_name[OF a(4)] g(9) by (simp add: placed_def)
  have "\<not> grantBindingMismatch g (binding_of g) i"
    using g(3,9) by (simp add: grantBindingMismatch_def binding_of_def relayGrantClaimsOf_def placed_def)
  moreover have "d = Decision_allow (gr_grantId g) (gr_leaseGeneration g) (ad_maxOutputTokens (gr_admission g)) (ad_cacheEnabled (gr_admission g)) q"
    using a(7) g(6)[of "maxOutputTokens b"] g(7) by (simp add: admission_of_def)
  moreover have "if look (gs_quotas gs name) (c_requestId ctx) = None then look st (c_requestId ctx) = Some (Held (ad_reservedTokens (gr_admission g)))
      else gs_quotas gs' = gs_quotas gs"
    using g(10,11) a(6) by auto
  ultimately show ?thesis using a(1-4,6,8) g(1,2,4,5) unfolding n Let_def by fastforce
qed

theorem decision_backed_witness:
  "\<exists>tok d credential gs'. decide gw_runtime gw_env gw_shard (gw_input tok) gw_start = (Inr (Dispatch_allow d credential), gs') \<and>
    (\<exists>g. getRelayGrant (gs_quotas gs' (quotaIdOf (gr_pool g) (gr_admissionUtcDay g))) ''req_01ARZ3NDEKTSV4RRFFQ69G5FAV'' = Some g \<and>
       gr_state g = Authorized)"
proof -
  obtain tok d credential gs' where a: "decide gw_runtime gw_env gw_shard (gw_input tok) gw_start = (Inr (Dispatch_allow d credential), gs')"
    "verifyRelayContext (\<lambda>_ _. ''mac'') tok (rc_contextHmacKey gw_config) Preview 1500 = Inr (Some example_context)"
    using gw_allows by blast
  have f: "rt_new_url gw_runtime = gw_new_url" "ge_relay gw_env = gw_relay_env" "rt_hmac gw_runtime = (\<lambda>_ _. ''mac'')"
    "rt_now gw_runtime = 1500" "rc_environment gw_config = Preview" "di_contextToken (gw_input tok) = tok"
    by (simp_all add: gw_runtime_def gw_env_def gw_config_def gw_input_def)
  show ?thesis
    using decision_backed[OF gw_reachable a(1)] a unfolding f gw_config_resolved
    by (fastforce simp: Let_def f relay_fields)
qed

subsection \<open>Giving a grant back\<close>

lemma release_outcome [simp]:
  "t_outcome (release_report g) = Outcome_release" "t_grantId (release_report g) = gr_grantId g"
  "t_leaseGeneration (release_report g) = gr_leaseGeneration g" "relayTerminalFingerprint (release_report g) = ''release:null''"
  "b_requestId (binding_of g) = gr_requestId g" "b_grantId (binding_of g) = gr_grantId g" "b_leaseGeneration (binding_of g) = gr_leaseGeneration g"
  by (simp_all add: release_report_def relayTerminalFingerprint_def binding_of_def)

lemma finish_release_apply:
  assumes "sound st" "finish_apply env i now g report fp st = Inr (res, st')" "t_outcome report = Outcome_release"
  shows "look st' = (look st)(gr_requestId g := map_option (abs_step Release) (look st (gr_requestId g)))"
proof -
  obtain ap st1 where a: "applyQuotaLifecycleTransition env i now (gr_requestId g) Release st = Inr (ap, st1)"
    using assms(2,3) by (auto simp: finish_apply_def and_then_Inr simp del: applyQuotaLifecycleTransition.simps)
  have l: "look st1 = (look st)(gr_requestId g := map_option (abs_step Release) (look st (gr_requestId g)))"
    using apply_plain[OF assms(1) a] by simp
  consider "st' = st1" | st2 g' where "releaseGrantLease now g st1 = Inr st2" "st' = putRelayGrant g' st2"
    using assms(2,3)
    by (auto simp: finish_apply_def a and_then_Inr Let_def simp del: applyQuotaLifecycleTransition.simps split: if_splits option.splits)
  then show ?thesis
  proof cases
    case (2 st2 g')
    have "look st' = look st2" by (simp add: 2(2) look_def store_simps fun_eq_iff)
    also have "\<dots> = look st1" using same_look releaseGrantLease_leases[OF 2(1)] by blast
    finally show ?thesis using l by simp
  qed (use l in simp)
qed

lemma release_look:
  assumes "sound st" "getRelayGrant st (gr_requestId g) = Some g" "gr_state g = Authorized"
    and "finishRelayInTransaction env i now (binding_of g) rep fp st = Inr (res, st')" "parseRelayTerminal rep \<noteq> None \<Longrightarrow> parseRelayTerminal rep = Some (release_report g)"
  shows "look st' = look st \<or> look st' = (look st)(gr_requestId g := map_option (abs_step Release) (look st (gr_requestId g)))"
  using assms(4)
proof (cases rule: finish_cases)
  case (reported grant report)
  then show ?thesis using finish_release_apply[OF assms(1)] assms(2,5) by fastforce
qed (use assms(2,3) in auto)

lemma release_report_parsed:
  "parseRelayTerminal (terminal_json (release_report g)) =
     (if RELAY_UUID_PATTERN (gr_grantId g) \<and> RELAY_UUID_PATTERN (gr_leaseGeneration g) then Some (release_report g) else None)"
proof -
  have d: "distinct (own_keys (terminal_json (release_report g)))" by (simp add: terminal_json_def)
  have v: "valid_terminal (release_report g) \<longleftrightarrow> RELAY_UUID_PATTERN (gr_grantId g) \<and> RELAY_UUID_PATTERN (gr_leaseGeneration g)"
    by (simp add: valid_terminal_def)
  show ?thesis
  proof (cases "valid_terminal (release_report g)")
    case True
    then have "parseRelayTerminal (terminal_json (release_report g)) = Some (release_report g)"
      by (subst parseRelayTerminal_iff[OF d]) (simp add: same_props_def terminal_json_def)
    then show ?thesis using True v by simp
  next
    case False
    have "\<not> (valid_terminal t \<and> same_props (terminal_json (release_report g)) (terminal_json t))" for t
    proof
      assume t: "valid_terminal t \<and> same_props (terminal_json (release_report g)) (terminal_json t)"
      then have "js_get (terminal_json (release_report g)) k = js_get (terminal_json t) k" for k by (simp add: same_props_def)
      from this[of "''grantId''"] this[of "''leaseGeneration''"] t False show False by (simp add: terminal_json_def valid_terminal_def)
    qed
    then show ?thesis using parseRelayTerminal_iff[OF d] False v by (cases "parseRelayTerminal (terminal_json (release_report g))") auto
  qed
qed

lemma release_applied:
  assumes "sound st" "readable st" "getRelayGrant st (gr_requestId g) = Some g" "gr_state g = Authorized" "placed i g" "now < gr_credentialExpiresAtMs g"
    and "RELAY_UUID_PATTERN (gr_grantId g)" "RELAY_UUID_PATTERN (gr_leaseGeneration g)" "look st (gr_requestId g) = Some (Held t)"
  obtains res st' g' where
    "finishRelayInTransaction env i now (binding_of g) (terminal_json (release_report g)) ''release:null'' st = Inr (res, st')"
    "look st' (gr_requestId g) = Some Freed"
    "getRelayGrant st' (gr_requestId g) = Some g'" "gr_state g' = Released" "gr_grantId g' = gr_grantId g"
proof -
  have m: "\<not> grantBindingMismatch g (binding_of g) i"
    using assms(5) by (simp add: grantBindingMismatch_def binding_of_def relayGrantClaimsOf_def placed_def)
  have f: "finishRelayInTransaction env i now (binding_of g) (terminal_json (release_report g)) ''release:null'' st
      = finish_apply env i now g (release_report g) ''release:null'' st"
    using assms(3,4,6-8) m by (simp add: finishRelayInTransaction_def release_report_parsed isTerminalGrantState_def
        MAX_FINGERPRINT_BYTES_def ascii_utf16_length)
  obtain e where e: "getEntry st (gr_requestId g) = Some e" "abs_entry e = Held t" using assms(9) by (auto simp: look_def)
  then have held: "e_state e = Req_reserved" by (auto simp: abs_entry_def split: request_state.splits)
  obtain ap st1 where a: "applyQuotaLifecycleTransition env i now (gr_requestId g) Release st = Inr (ap, st1)"
    by (cases "release_transition env i now (gr_requestId g) st") simp
  have ap: "ap \<noteq> Ok_transition Unknown_request"
    using held a e(1) ledger_entry[OF sound_parts(1)[OF assms(1)] e(1)]
    by (auto simp: release_transition_def Let_def entry_ok_def split: option.splits if_splits)
  note p = apply_plain[OF assms(1) a]
  obtain st2 where r: "releaseGrantLease now g st1 = Inr st2"
  proof -
    obtain m where "normalizeInFlightState (loadInFlight st1) now = Inr (stored_leases st1, m)"
      using readable_normal[OF apply_readable[OF a assms(2)]] by blast
    then show thesis using that by (auto simp: releaseGrantLease_def releaseInFlightLease_def Let_def)
  qed
  have l: "look st2 (gr_requestId g) = Some Freed" using same_look[OF releaseGrantLease_leases[OF r]] p assms(9) by simp
  then obtain e2 where e2: "getEntry st2 (gr_requestId g) = Some e2" by (auto simp: look_def)
  define g' where "g' = g\<lparr>gr_state := Released, gr_terminalReport := Some (release_report g), gr_terminalFingerprint := Some ''release:null''\<rparr>"
  have g': "gr_state g' = Released" "gr_grantId g' = gr_grantId g" "gr_requestId g' = gr_requestId g" by (simp_all add: g'_def)
  have y: "finish_apply env i now g (release_report g) ''release:null'' st = Inr (Finish_accepted g' e2, putRelayGrant g' st2)"
    unfolding finish_apply_def release_outcome(1) outcome_transition.simps outcome_state.simps a and_then_simps prod.case Let_def g'_def[symmetric]
    using ap e2 by (simp add: r store_simps)
  show thesis
    by (rule that[OF f[unfolded y] _ _ g'(1,2)]) (use l in \<open>simp_all add: look_def store_simps flip: g'(3)\<close>)
qed

subsection \<open>What a decision can change\<close>

definition own_change :: "abs_request option \<Rightarrow> abs_request option \<Rightarrow> bool" where
  "own_change x y \<longleftrightarrow> y = x \<or> x = None \<and> (y = Some Freed \<or> (\<exists>t. y = Some (Held t))) \<or> (\<exists>t. x = Some (Held t)) \<and> y = Some Freed"

lemma own_change_release: "own_change x y \<Longrightarrow> own_change x (map_option (abs_step Release) y)"
  by (cases x; cases "the x") (auto simp: own_change_def)

text \<open>The grant that is given back is the one that the admission stored.\<close>

lemma unsigned_effect:
  assumes "quotas_reachable sha256 q1" "finishRelay_rpc fate now env name (binding_of g) (release_report g) q1 = (fr, q2)"
    and "getRelayGrant (q1 name) (gr_requestId g) = Some g" "gr_state g = Authorized"
  shows "quotas_reachable sha256 q2" "\<And>n. n \<noteq> name \<Longrightarrow> q2 n = q1 n"
    "look (q2 name) = look (q1 name) \<or>
     look (q2 name) = (look (q1 name))(gr_requestId g := map_option (abs_step Release) (look (q1 name) (gr_requestId g)))"
proof -
  have r: "reachable sha256 (Some name) (q1 name)" using assms(1) by (simp add: quotas_reachable_def)
  have "quotas_reachable sha256 q2 \<and> (\<forall>n. n \<noteq> name \<longrightarrow> q2 n = q1 n) \<and> (look (q2 name) = look (q1 name) \<or>
     look (q2 name) = (look (q1 name))(gr_requestId g := map_option (abs_step Release) (look (q1 name) (gr_requestId g))))"
    using assms(2)
  proof (cases rule: finish_rpc_cases)
    case (ran i res st)
    have "reachable sha256 (Some name) st" by (rule finish_rpc_reachable[OF r ran(1,4)])
    then show ?thesis
      using release_look[OF reachable_sound[OF r] assms(3,4) ran(4)] ran(2) assms(1) release_report_parsed[of g]
      by (auto simp: quotas_reachable_def split: if_splits)
  qed (use assms(1) in simp)
  then show "quotas_reachable sha256 q2" "\<And>n. n \<noteq> name \<Longrightarrow> q2 n = q1 n"
    "look (q2 name) = look (q1 name) \<or>
     look (q2 name) = (look (q1 name))(gr_requestId g := map_option (abs_step Release) (look (q1 name) (gr_requestId g)))" by blast+
qed

text \<open>The stores after the call of the admission, and after the answer.\<close>

lemma admission_effect:
  assumes "quotas_reachable (rt_sha256 rt) quotas" "admitRelay_rpc rt env name input quotas = (fr, q1)" "parseRelayContext (a_context input) = Some ctx"
  shows "quotas_reachable (rt_sha256 rt) q1" "\<And>n. n \<noteq> name \<Longrightarrow> q1 n = quotas n"
    "\<And>r. r \<noteq> c_requestId ctx \<Longrightarrow> look (q1 name) r = look (quotas name) r"
    "own_change (look (quotas name) (c_requestId ctx)) (look (q1 name) (c_requestId ctx))"
    "\<And>g q. fr = Inr (Admitted g q) \<Longrightarrow> gr_requestId g = c_requestId ctx \<and> getRelayGrant (q1 name) (c_requestId ctx) = Some g \<and> gr_state g = Authorized"
proof -
  have r: "reachable (rt_sha256 rt) (Some name) (quotas name)" using assms(1) by (simp add: quotas_reachable_def)
  have "quotas_reachable (rt_sha256 rt) q1 \<and> (\<forall>n. n \<noteq> name \<longrightarrow> q1 n = quotas n) \<and>
    (\<forall>r. r \<noteq> c_requestId ctx \<longrightarrow> look (q1 name) r = look (quotas name) r) \<and>
    own_change (look (quotas name) (c_requestId ctx)) (look (q1 name) (c_requestId ctx)) \<and>
    (\<forall>g q. fr = Inr (Admitted g q) \<longrightarrow> gr_requestId g = c_requestId ctx \<and> getRelayGrant (q1 name) (c_requestId ctx) = Some g \<and> gr_state g = Authorized)"
    using assms(2)
  proof (cases rule: admit_rpc_cases)
    case none
    then show ?thesis using assms(1) by (simp add: own_change_def)
  next
    case (ran i res st)
    have "reachable (rt_sha256 rt) (Some name) st" by (rule admit_rpc_reachable[OF r ran(1,4)])
    moreover have "\<forall>g q. res = Admitted g q \<longrightarrow> gr_requestId g = c_requestId ctx \<and> getRelayGrant st (c_requestId ctx) = Some g \<and> gr_state g = Authorized"
      using admitted_grant(1-3)[OF r ran(1) _ assms(3)] ran(4) by metis
    ultimately show ?thesis
      using admission_look(2)[OF r ran(4) assms(3)] ran(2,3) assms(1) by (auto simp: quotas_reachable_def own_change_def)
  qed
  then show "quotas_reachable (rt_sha256 rt) q1" "\<And>n. n \<noteq> name \<Longrightarrow> q1 n = quotas n"
    "\<And>r. r \<noteq> c_requestId ctx \<Longrightarrow> look (q1 name) r = look (quotas name) r"
    "own_change (look (quotas name) (c_requestId ctx)) (look (q1 name) (c_requestId ctx))"
    "\<And>g q. fr = Inr (Admitted g q) \<Longrightarrow> gr_requestId g = c_requestId ctx \<and> getRelayGrant (q1 name) (c_requestId ctx) = Some g \<and> gr_state g = Authorized"
    by blast+
qed

text \<open>C24: A decision touches one request of one controller.  Whatever calls are lost, whatever fails and whatever it answers, the stores
  stay reachable, every controller but one stays as it is, and in that one every request but one; that one is the request of the
  verified context, and its record at most starts to exist, held or already given back, or goes from held to given back: a repeated
  decision never reserves a second time.\<close>

theorem decision_changes_one_request:
  assumes "quotas_reachable (rt_sha256 rt) (gs_quotas gs)" "decide rt env own input gs = (r, gs')"
  shows "quotas_reachable (rt_sha256 rt) (gs_quotas gs') \<and> (gs_quotas gs' = gs_quotas gs \<or> (\<exists>name config ctx.
    resolveRelayConfig (rt_new_url rt) (ge_relay env) = Relay_enabled config \<and>
    verifyRelayContext (rt_hmac rt) (di_contextToken input) (rc_contextHmacKey config) (rc_environment config) (rt_now rt) = Inr (Some ctx) \<and>
    (\<forall>n. n \<noteq> name \<longrightarrow> gs_quotas gs' n = gs_quotas gs n) \<and>
    (\<forall>q. q \<noteq> c_requestId ctx \<longrightarrow> look (gs_quotas gs' name) q = look (gs_quotas gs name) q) \<and>
    own_change (look (gs_quotas gs name) (c_requestId ctx)) (look (gs_quotas gs' name) (c_requestId ctx))))"
  using assms(2)
proof (cases rule: decide_effect)
  case (called config ctx rawKey meta pool policy b fr q1)
  define name where "name = quotaIdOf pool (utc_day_of (rt_now rt))"
  note c = called[folded name_def]
  note e = admission_effect[OF assms(1) c(4), unfolded admission_fields, OF verified_context(2)[OF c(2)]]
  have "quotas_reachable (rt_sha256 rt) (gs_quotas gs') \<and> (\<forall>n. n \<noteq> name \<longrightarrow> gs_quotas gs' n = gs_quotas gs n) \<and>
      (\<forall>q. q \<noteq> c_requestId ctx \<longrightarrow> look (gs_quotas gs' name) q = look (gs_quotas gs name) q) \<and>
      own_change (look (gs_quotas gs name) (c_requestId ctx)) (look (gs_quotas gs' name) (c_requestId ctx))"
  proof (cases fr)
    case (Inr adm)
    with c(5) have a: "answer_admission rt env config name b policy adm q1 = (r, gs_quotas gs')" by simp
    then show ?thesis
    proof (cases rule: answer_admission_cases)
      case (unsigned g q fr')
      have "gr_requestId g = c_requestId ctx" using e(5) Inr unsigned(1) by blast
      then show ?thesis
        using unsigned_effect[OF e(1) unsigned(2)] e(2-5) Inr unsigned(1) own_change_release[OF e(4)] by fastforce
    qed (use e in blast)+
  qed (use c(5) e in auto)
  then show ?thesis using c(1,2) by blast
qed (use assms(1) in simp)

theorem decision_changes_one_request_witness:
  "\<exists>tok r gs'. decide gw_runtime gw_env gw_shard (gw_input tok) gw_start = (r, gs') \<and> gs_quotas gs' \<noteq> gs_quotas gw_start \<and>
    (\<exists>name. \<forall>n. n \<noteq> name \<longrightarrow> gs_quotas gs' n = empty_store)"
proof -
  obtain tok d credential gs' where a: "decide gw_runtime gw_env gw_shard (gw_input tok) gw_start = (Inr (Dispatch_allow d credential), gs')"
    using gw_allows by blast
  have "\<exists>name r g. getRelayGrant (gs_quotas gs' name) r = Some g"
  proof (rule allow_effect[OF gw_reachable a])
    fix config ctx rawKey meta policy b i name g q st
    assume v: "verifyRelayContext (rt_hmac gw_runtime) (di_contextToken (gw_input tok)) (rc_contextHmacKey config) (rc_environment config) (rt_now gw_runtime) = Inr (Some ctx)"
      and i: "identity_of (Some name) = Inr i"
      and ad: "admitRelayInTransaction (rt_sha256 gw_runtime) (ge_quota gw_env) i (admission_of ctx meta rawKey b policy) (rt_quota_now gw_runtime)
        (rt_generation gw_runtime) (rt_grantId gw_runtime) (gs_quotas gw_start name) = Inr (Admitted g q, st)"
      and q: "gs_quotas gs' = (gs_quotas gw_start)(name := st)"
    have r: "reachable (rt_sha256 gw_runtime) (Some name) (gs_quotas gw_start name)" using gw_reachable by (simp add: quotas_reachable_def)
    have "getRelayGrant st (c_requestId ctx) = Some g"
      by (rule admitted_grant(1)[OF r i ad]) (simp add: verified_context(2)[OF v])
    then have "getRelayGrant (gs_quotas gs' name) (c_requestId ctx) = Some g" by (simp add: q)
    then show ?thesis by blast
  qed
  then have "gs_quotas gs' \<noteq> gs_quotas gw_start" by (auto simp: gw_start_def store_eval)
  with decision_changes_one_request[OF gw_reachable a] a show ?thesis by (auto simp: gw_start_def)
qed

subsection \<open>A credential that cannot be signed\<close>

text \<open>The call that gives the grant back, when it runs.\<close>

lemma given_back:
  assumes "reachable sha256 (Some name) (q1 name)" "identity_of (Some name) = Inr i" "getRelayGrant (q1 name) (gr_requestId g) = Some g"
    and "gr_state g = Authorized" "placed i g" "now < gr_credentialExpiresAtMs g" "RELAY_UUID_PATTERN (gr_grantId g)" "RELAY_UUID_PATTERN (gr_leaseGeneration g)"
    and "look (q1 name) (gr_requestId g) = Some (Held t)"
    and "fate \<noteq> Lost_request" "finishRelay_rpc fate now env name (binding_of g) (release_report g) q1 = (fr, q2)"
  shows "look (q2 name) (gr_requestId g) = Some Freed \<and>
    (\<exists>g'. getRelayGrant (q2 name) (gr_requestId g) = Some g' \<and> gr_state g' = Released \<and> gr_grantId g' = gr_grantId g)"
proof -
  obtain res st' g' where f:
    "finishRelayInTransaction env i now (binding_of g) (terminal_json (release_report g)) ''release:null'' (q1 name) = Inr (res, st')"
    "look st' (gr_requestId g) = Some Freed" "getRelayGrant st' (gr_requestId g) = Some g'" "gr_state g' = Released" "gr_grantId g' = gr_grantId g"
    by (rule release_applied[OF reachable_sound[OF assms(1)] reachable_readable[OF assms(1)] assms(3-9)])
  have "q2 name = st'"
    using assms(10,11) f(1) by (cases fate) (auto simp: finishRelay_rpc_def stub_call_def assms(2))
  then show ?thesis using f(2-5) by blast
qed

lemma fresh_grant_in_force:
  assumes "admitRelayInTransaction sha256 env i input now g1 g2 st = Inr (Admitted g q, st')" "parseRelayContext (a_context input) = Some ctx"
    and "look st (c_requestId ctx) = None" "reachable sha256 (Some name) st"
  shows "now < gr_credentialExpiresAtMs g"
proof -
  obtain metadata rawKey where c: "check_admission sha256 env input st = Inr (ctx, metadata, rawKey)"
    "admit_new env i now g1 g2 ctx metadata rawKey input st = Inr (Admitted g q, st')" "getEntry st (c_requestId ctx) = None"
    by (rule admission_of_new[OF assms(1-3)])
  show ?thesis
    by (rule admit_new_stored[OF reachable_sound[OF assms(4)] c(1,3,2)]) (simp add: new_grant_def RELAY_GRANT_CREDENTIAL_TTL_MS_def)
qed

text \<open>What signing decides is only the answer to an admission.\<close>

lemma signing_fields [simp]:
  "check_decision (rt\<lparr>rt_signing_rejects := b\<rparr>) = check_decision rt"
  "admitRelay_rpc (rt\<lparr>rt_signing_rejects := b\<rparr>) = admitRelay_rpc rt"
proof -
  have f: "rt_sha256 (rt\<lparr>rt_signing_rejects := b\<rparr>) = rt_sha256 rt" "rt_hmac (rt\<lparr>rt_signing_rejects := b\<rparr>) = rt_hmac rt"
    "rt_now (rt\<lparr>rt_signing_rejects := b\<rparr>) = rt_now rt" by simp_all
  show "check_decision (rt\<lparr>rt_signing_rejects := b\<rparr>) = check_decision rt"
    unfolding fun_eq_iff check_decision_def f by simp
  show "admitRelay_rpc (rt\<lparr>rt_signing_rejects := b\<rparr>) = admitRelay_rpc rt" by (simp add: fun_eq_iff admitRelay_rpc_def)
qed

lemma allow_path:
  assumes "decide rt env own input gs = (Inr (Dispatch_allow d credential), gs1)"
  obtains config ctx rawKey meta policy b name g q caches where
    "verifyRelayContext (rt_hmac rt) (di_contextToken input) (rc_contextHmacKey config) (rc_environment config) (rt_now rt) = Inr (Some ctx)"
    "admitRelay_rpc rt (ge_quota env) name (admission_of ctx meta rawKey b policy) (gs_quotas gs) = (Inr (Admitted g q), gs_quotas gs1)"
    "d = Decision_allow (gr_grantId g) (gr_leaseGeneration g) (maxOutputTokens b) (p_cacheEnabled policy) q"
    "\<And>rej. decide (rt\<lparr>rt_signing_rejects := rej\<rparr>) env own input gs =
       (case answer_admission (rt\<lparr>rt_signing_rejects := rej\<rparr>) env config name b policy (Admitted g q) (gs_quotas gs1) of
          (r, qs) \<Rightarrow> (r, \<lparr>gs_quotas = qs, gs_caches = caches\<rparr>))"
proof -
  obtain config where config: "resolveRelayConfig (rt_new_url rt) (ge_relay env) = Relay_enabled config"
    using assms by (cases "resolveRelayConfig (rt_new_url rt) (ge_relay env)") (simp_all add: decide_def)
  obtain ctx rawKey meta where check: "check_decision rt config own input = Inr (Inr (ctx, rawKey, meta))"
  proof (cases "check_decision rt config own input")
    case (Inr res)
    then show thesis
      by (rule check_decision_cases) (use assms that Inr in \<open>auto simp: decide_def config\<close>)
  qed (use assms in \<open>simp add: decide_def config\<close>)
  note d1 = assms[unfolded decide_def config check relay_config.case sum.case prod.case]
  obtain registry c1 pool where reg: "loadRegistry (ge_registry env) (rt_now rt) (gs_caches gs) = Inr (registry, c1)"
    "classifyModel (m_model meta) registry = Complimentary pool"
    using d1 by (auto simp: rejectDecision_def split: sum.splits prod.splits complimentary_pool.splits)
  note d2 = d1[unfolded reg sum.case prod.case complimentary_pool.case]
  obtain policy caches where pol: "loadPolicy (ge_policies env) (c_clientId ctx) (rt_now rt) c1 = Inr (policy, caches)"
      "\<not> (m_isToolUse meta \<and> p_toolsMode policy \<noteq> Tools_allow)"
    using d2 by (auto simp: rejectDecision_def split: sum.splits prod.splits if_splits)
  then have ad: "admit_decision rt env config ctx rawKey meta pool policy (gs_quotas gs) = (Inr (Dispatch_allow d credential), gs_quotas gs1)"
    using d2 by (auto split: prod.splits)
  define name where "name = quotaIdOf pool (utc_day_of (rt_now rt))"
  obtain view b where seen: "fst (stub_call (rt_state_fate rt) name
      (\<lambda>st. and_then (getState (Some name) (ge_quota env) (rt_quota_now rt) st) (\<lambda>v. Inr (v, st))) (gs_quotas gs)) = Inr view"
    "resolveTokenBudget (budget_arguments_of meta view policy) = Resolved b"
    using ad by (auto simp: admit_decision_def Let_def rejectDecision_def name_def split: sum.splits budget_outcome.splits)
  note d3 = ad[unfolded admit_decision_def Let_def, folded name_def, unfolded seen sum.case budget_outcome.case]
  obtain adm q1 where admitted: "admitRelay_rpc rt (ge_quota env) name (admission_of ctx meta rawKey b policy) (gs_quotas gs) = (Inr adm, q1)"
    "answer_admission rt env config name b policy adm q1 = (Inr (Dispatch_allow d credential), gs_quotas gs1)"
    using d3 by (auto split: prod.splits sum.splits)
  from admitted(2) obtain g q where g: "adm = Admitted g q" "gs_quotas gs1 = q1"
    "d = Decision_allow (gr_grantId g) (gr_leaseGeneration g) (maxOutputTokens b) (p_cacheEnabled policy) q"
    by (cases rule: answer_admission_cases) (auto simp: rejectDecision_def split: sum.splits)
  have v: "verifyRelayContext (rt_hmac rt) (di_contextToken input) (rc_contextHmacKey config) (rc_environment config) (rt_now rt) = Inr (Some ctx)"
    by (rule check_decision_cases[OF check]) simp_all
  have path: "decide (rt\<lparr>rt_signing_rejects := rej\<rparr>) env own input gs =
       (case answer_admission (rt\<lparr>rt_signing_rejects := rej\<rparr>) env config name b policy (Admitted g q) (gs_quotas gs1) of
          (r, qs) \<Rightarrow> (r, \<lparr>gs_quotas = qs, gs_caches = caches\<rparr>))" for rej
    using pol(2) seen admitted(1) by (auto simp: decide_def config check reg pol(1) admit_decision_def Let_def g name_def)
  show thesis by (rule that[OF v _ g(3) path]) (use admitted(1) g in simp)
qed

text \<open>C25: A grant whose credential cannot be signed is given back.  Take a decision that would be an allow.  When signing fails and the
  call of the release runs, the client gets no allow; if the request of the grant was held after the admission, and the admission was
  a new one or the grant is still in force, then the request is freed and the grant is released, at the controller that stored it; so a
  failed signature never keeps tokens of the quota.\<close>

theorem unsigned_grant_given_back:
  assumes "quotas_reachable (rt_sha256 rt) (gs_quotas gs)"
    and "decide (rt\<lparr>rt_signing_rejects := False\<rparr>) env own input gs =
      (Inr (Dispatch_allow (Decision_allow grantId generation maxOut cacheOn q) credential), allowed)"
    and "decide (rt\<lparr>rt_signing_rejects := True\<rparr>) env own input gs = (r, gs')"
    and "rt_release_fate rt \<noteq> Lost_request" "RELAY_UUID_PATTERN grantId" "RELAY_UUID_PATTERN generation"
  shows "(\<forall>d tok. r \<noteq> Inr (Dispatch_allow d tok)) \<and> (\<exists>name rid g. getRelayGrant (gs_quotas allowed name) rid = Some g \<and>
    gr_grantId g = grantId \<and> gr_leaseGeneration g = generation \<and> gr_state g = Authorized \<and>
    (look (gs_quotas gs name) rid = None \<longrightarrow> (\<exists>t. look (gs_quotas allowed name) rid = Some (Held t)) \<and> rt_quota_now rt < gr_credentialExpiresAtMs g) \<and>
    ((\<exists>t. look (gs_quotas allowed name) rid = Some (Held t)) \<and> rt_quota_now rt < gr_credentialExpiresAtMs g \<longrightarrow>
       look (gs_quotas gs' name) rid = Some Freed \<and>
       (\<exists>g'. getRelayGrant (gs_quotas gs' name) rid = Some g' \<and> gr_state g' = Released \<and> gr_grantId g' = grantId)))"
proof (rule allow_path[OF assms(2)])
  fix config ctx rawKey meta policy b name g q1 caches
  assume v: "verifyRelayContext (rt_hmac (rt\<lparr>rt_signing_rejects := False\<rparr>)) (di_contextToken input) (rc_contextHmacKey config)
      (rc_environment config) (rt_now (rt\<lparr>rt_signing_rejects := False\<rparr>)) = Inr (Some ctx)"
    and adm: "admitRelay_rpc (rt\<lparr>rt_signing_rejects := False\<rparr>) (ge_quota env) name (admission_of ctx meta rawKey b policy) (gs_quotas gs) =
      (Inr (Admitted g q1), gs_quotas allowed)"
    and d: "Decision_allow grantId generation maxOut cacheOn q = Decision_allow (gr_grantId g) (gr_leaseGeneration g) (maxOutputTokens b) (p_cacheEnabled policy) q1"
    and path: "\<And>rej. decide (rt\<lparr>rt_signing_rejects := False, rt_signing_rejects := rej\<rparr>) env own input gs =
       (case answer_admission (rt\<lparr>rt_signing_rejects := False, rt_signing_rejects := rej\<rparr>) env config name b policy (Admitted g q1) (gs_quotas allowed) of
          (r, qs) \<Rightarrow> (r, \<lparr>gs_quotas = qs, gs_caches = caches\<rparr>))"
  note p = verified_context(2)[OF v]
  from adm[simplified] obtain i st where ran: "identity_of (Some name) = Inr i" "gs_quotas allowed = (gs_quotas gs)(name := st)"
    "admitRelayInTransaction (rt_sha256 rt) (ge_quota env) i (admission_of ctx meta rawKey b policy) (rt_quota_now rt) (rt_generation rt)
       (rt_grantId rt) (gs_quotas gs name) = Inr (Admitted g q1, st)"
    by (cases rule: admit_rpc_cases) auto
  have r0: "reachable (rt_sha256 rt) (Some name) (gs_quotas gs name)" using assms(1) by (simp add: quotas_reachable_def)
  note a = admitted_grant[OF r0 ran(1,3), unfolded admission_fields, OF p]
  have st: "gs_quotas allowed name = st" using ran(2) by simp
  obtain fr where undone: "finishRelay_rpc (rt_release_fate rt) (rt_quota_now rt) (ge_quota env) name (binding_of g) (release_report g)
      (gs_quotas allowed) = (fr, gs_quotas gs')" "\<forall>d tok. r \<noteq> Inr (Dispatch_allow d tok)"
    using assms(3) path[of True] by (auto simp: answer_admission_def Let_def split: prod.splits sum.splits)
  have fresh: "(\<exists>t. look st (c_requestId ctx) = Some (Held t)) \<and> rt_quota_now rt < gr_credentialExpiresAtMs g"
    if "look (gs_quotas gs name) (c_requestId ctx) = None"
    using a(10)[OF that] fresh_grant_in_force[OF ran(3) _ that r0] p by simp
  have "look (gs_quotas gs' name) (gr_requestId g) = Some Freed \<and>
      (\<exists>g'. getRelayGrant (gs_quotas gs' name) (gr_requestId g) = Some g' \<and> gr_state g' = Released \<and> gr_grantId g' = gr_grantId g)"
    if "look st (c_requestId ctx) = Some (Held t)" "rt_quota_now rt < gr_credentialExpiresAtMs g" for t
    by (rule given_back[OF _ ran(1) _ a(2,9) that(2) _ _ _ assms(4) undone(1), unfolded st])
      (use a(1,3,8) that(1) d assms(5,6) in simp_all)
  then show ?thesis using undone(2) fresh a(1-3) d st by fastforce
qed

theorem unsigned_grant_given_back_witness:
  "\<exists>tok r gs' name rid g. verifyRelayContext (\<lambda>_ _. ''mac'') tok (rc_contextHmacKey gw_config) Preview 1500 = Inr (Some example_context) \<and>
    decide (gw_runtime\<lparr>rt_signing_rejects := True\<rparr>) gw_env gw_shard (gw_input tok) gw_start = (r, gs') \<and>
    look (gs_quotas gs' name) rid = Some Freed \<and> getRelayGrant (gs_quotas gs' name) rid = Some g \<and> gr_state g = Released"
proof -
  obtain tok where v: "verifyRelayContext (\<lambda>_ _. ''mac'') tok (rc_contextHmacKey gw_config) Preview 1500 = Inr (Some example_context)"
    using example_context_verifies by blast
  obtain credential where c: "signRelayGrantCredential (\<lambda>_ _. ''mac'') gw_claims (rc_contextHmacKey gw_config) = Inr credential"
    using gw_claims_signed by blast
  obtain m cache q gs1 where d: "decide (gw_runtime\<lparr>rt_signing_rejects := False\<rparr>) gw_env gw_shard (gw_input tok) gw_start =
      (Inr (Dispatch_allow (Decision_allow (k_grantId gw_claims) (k_leaseGeneration gw_claims) m cache q) credential), gs1)"
  proof (rule gw_decided[OF v, of False])
    fix g q caches
    assume g: "relayGrantClaimsOf g = gw_claims"
      and d: "decide (gw_runtime\<lparr>rt_signing_rejects := False\<rparr>) gw_env gw_shard (gw_input tok) gw_start =
       (case answer_admission (gw_runtime\<lparr>rt_signing_rejects := False\<rparr>) gw_env gw_config (quotaIdOf STANDARD ''1970-01-01'') gw_budget
          DEFAULT_CLIENT_POLICY (Admitted g q) ((\<lambda>_. empty_store)(quotaIdOf STANDARD ''1970-01-01'' := gw_store)) of
        (r, quotas) \<Rightarrow> (r, \<lparr>gs_quotas = quotas, gs_caches = caches\<rparr>))"
    have "gr_grantId g = k_grantId gw_claims" "gr_leaseGeneration g = k_leaseGeneration gw_claims"
      unfolding g[symmetric] by (simp_all add: relayGrantClaimsOf_def)
    then show thesis using that d c by (simp add: answer_admission_def g gw_runtime_def)
  qed
  obtain r gs' where u: "decide (gw_runtime\<lparr>rt_signing_rejects := True\<rparr>) gw_env gw_shard (gw_input tok) gw_start = (r, gs')"
    by (meson surj_pair)
  have ids: "RELAY_UUID_PATTERN (k_grantId gw_claims)" "RELAY_UUID_PATTERN (k_leaseGeneration gw_claims)"
    using example_valid(2) by (simp_all add: gw_claims_def valid_credential_def example_credential_def gw_runtime_def)
  have e: "look (gs_quotas gw_start name) rid = None" for name rid by (simp add: gw_start_def look_def store_eval)
  have f: "rt_release_fate gw_runtime \<noteq> Lost_request" by (simp add: gw_runtime_def)
  from unsigned_grant_given_back[OF _ d u f ids] e v u show ?thesis by fastforce
qed

end
