(* ===== verification/Proxy_Steps.thy ===== *)
theory Proxy_Steps
  imports Proxy Decision_Contract
begin

section \<open>Proxy_Steps: the steps of the handler and the account of a request\<close>

text \<open>
  Weakest preconditions of the steps of a run, with a rule for every call of a quota controller.  The invariant of a
  run is about the account of the request: the record it has at the one quota controller that the run uses, together
  with what was sent upstream.
\<close>

subsection \<open>Weakest preconditions\<close>

definition wp :: "'a px \<Rightarrow> ('a \<Rightarrow> proxy_run \<Rightarrow> bool) \<Rightarrow> (js_error \<Rightarrow> proxy_run \<Rightarrow> bool) \<Rightarrow> proxy_run \<Rightarrow> bool" where
  "wp m Q E s \<longleftrightarrow> (case m s of (Inr a, s') \<Rightarrow> Q a s' | (Inl e, s') \<Rightarrow> E e s')"

lemma wp_simps [simp]:
  "wp (px_return a) Q E = Q a"
  "wp (px_throw err) Q E = E err"
  "wp (px_of r) Q E = (case r of Inl e \<Rightarrow> E e | Inr b \<Rightarrow> Q b)"
  "wp (px_get f) P E = (\<lambda>s. P (f s) s)"
  "wp (px_set g) U E = (\<lambda>s. U () (g s))"
  "wp (px_bind m k) Q E = wp m (\<lambda>b. wp (k b) Q E) E"
  "wp (px_then m n) Q E = wp m (\<lambda>_. wp n Q E) E"
  "wp (px_quiet m) U E = wp m (\<lambda>_. U ()) (\<lambda>_. U ())"
  "wp (px_catch n h) Q E = wp n Q (\<lambda>e. wp (h e) Q E)"
  by (auto simp: fun_eq_iff wp_def px_return_def px_throw_def px_of_def px_get_def px_set_def px_bind_def px_then_def px_quiet_def px_catch_def
      split: sum.split prod.split)

lemma wp_mono:
  assumes "wp m Q E s" "\<And>a t. Q a t \<Longrightarrow> Q' a t" "\<And>e t. E e t \<Longrightarrow> E' e t"
  shows "wp m Q' E' s"
  using assms by (auto simp: wp_def split: prod.splits sum.splits)

subsection \<open>The account of a request\<close>

text \<open>What other requests do between two calls leaves the record of this request.\<close>

definition undisturbed :: "proxy_world \<Rightarrow> string \<Rightarrow> bool" where
  "undisturbed w rid \<longleftrightarrow> (\<forall>t quotas. quotas_reachable (pw_sha256 w) quotas \<longrightarrow>
     quotas_reachable (pw_sha256 w) (tn_between (pw_turns w t) quotas) \<and>
     (\<forall>n. look (tn_between (pw_turns w t) quotas n) rid = look (quotas n) rid))"

text \<open>Every call arrives and its answer comes back.\<close>

definition calls_arrive :: "proxy_world \<Rightarrow> bool" where
  "calls_arrive w \<longleftrightarrow> (\<forall>t. tn_fate (pw_turns w t) = Delivered)"

text \<open>The request has the record \<open>x\<close> at the quota controller of its pool and day and none elsewhere.\<close>

definition account :: "proxy_world \<Rightarrow> string \<Rightarrow> abs_request option \<Rightarrow> proxy_run \<Rightarrow> bool" where
  "account w rid x s \<longleftrightarrow> quotas_reachable (pw_sha256 w) (pr_quotas s) \<and> (pr_stub s = None \<longrightarrow> x = None) \<and>
     (\<forall>n. look (pr_quotas s n) rid = (if pr_stub s = Some n then x else None))"

lemma account_fields [simp]:
  "account w rid x (s\<lparr>pr_turn := t\<rparr>) = account w rid x s"
  "account w rid x (s\<lparr>pr_caches := c\<rparr>) = account w rid x s"
  "account w rid x (s\<lparr>pr_reservation := r\<rparr>) = account w rid x s"
  "account w rid x (s\<lparr>pr_attempted := b\<rparr>) = account w rid x s"
  "account w rid x (s\<lparr>pr_reached := b\<rparr>) = account w rid x s"
  "account w rid x (s\<lparr>pr_acquired := b\<rparr>) = account w rid x s"
  "account w rid x (s\<lparr>pr_lease := l\<rparr>) = account w rid x s"
  "account w rid x (s\<lparr>pr_sent := us\<rparr>) = account w rid x s"
  by (simp_all add: account_def)

definition accounted :: "abs_request option \<Rightarrow> bool" where
  "accounted x \<longleftrightarrow> x \<noteq> None \<and> x \<noteq> Some Freed"

definition is_held :: "abs_request option \<Rightarrow> bool" where
  "is_held x \<longleftrightarrow> (case x of Some (Held t) \<Rightarrow> True | _ \<Rightarrow> False)"

lemma record_simps [simp]:
  "\<not> accounted None" "accounted (Some a) \<longleftrightarrow> a \<noteq> Freed"
  "\<not> is_held None" "is_held (Some (Held t))" "\<not> is_held (Some (Doubtful t))" "\<not> is_held (Some (Spent n t))" "\<not> is_held (Some Freed)"
  by (auto simp: accounted_def is_held_def)

lemma marked_record [simp]:
  "accounted (map_option (abs_step Mark_uncertain) x) = accounted x" "\<not> is_held (map_option (abs_step Mark_uncertain) x)"
  "\<not> is_held (map_option (abs_step Release) x)"
  by (cases x; cases "the x"; simp)+

subsection \<open>The calls of a quota controller\<close>

text \<open>A controller whose name is not that of a pool and a day never has a record.\<close>

lemma nameless_empty:
  assumes "reachable sha256 name st" "identity_of name = Inl e"
  shows "look st r = None"
proof -
  have "st_entries st = []" using assms(1)[unfolded reachable_def]
    by (induction rule: rtranclp_induct)
      (auto simp: empty_store_def finalize_transaction_def quota_rpc_def assms(2) Let_def elim!: quota_step.cases split: if_splits)
  then show ?thesis by (simp add: look_def getEntry_def)
qed

text \<open>
  A call with the relation \<open>R\<close> between its answer and the new record of the request.  When it throws, the record is
  the old one, or the answer was lost; a call of the total operations throws only when a call was lost or there is no record.
\<close>

lemma wp_stub:
  assumes u: "undisturbed w rid" and a: "account w rid x s" "pr_stub s = Some name"
    and op: "\<And>now uuid i st r st'. reachable (pw_sha256 w) (Some name) st \<Longrightarrow> identity_of (Some name) = Inr i \<Longrightarrow> look st rid = x \<Longrightarrow>
      op now uuid i st = Inr (r, st') \<Longrightarrow> reachable (pw_sha256 w) (Some name) st' \<and> R r (look st' rid)"
    and tot: "\<And>now uuid i st. tot \<Longrightarrow> \<exists>r. op now uuid i st = Inr r"
    and q: "\<And>r y q t. R r y \<Longrightarrow> account w rid y (s\<lparr>pr_quotas := q, pr_turn := t\<rparr>) \<Longrightarrow> Q r (s\<lparr>pr_quotas := q, pr_turn := t\<rparr>)"
    and e: "\<And>e r y q t. y = x \<and> (tot \<and> calls_arrive w \<longrightarrow> x = None) \<or> R r y \<and> \<not> calls_arrive w \<Longrightarrow>
      account w rid y (s\<lparr>pr_quotas := q, pr_turn := t\<rparr>) \<Longrightarrow> E e (s\<lparr>pr_quotas := q, pr_turn := t\<rparr>)"
  shows "wp (px_stub w name op) Q E s"
proof -
  define t where "t = pw_turns w (pr_turn s)"
  define q0 where "q0 = tn_between t (pr_quotas s)"
  define op' where "op' = (\<lambda>st. and_then (identity_of (Some name)) (\<lambda>i. op (tn_now t) (tn_uuid t) i st))"
  have q0: "quotas_reachable (pw_sha256 w) q0" "\<And>n. look (q0 n) rid = (if n = name then x else None)"
    using u a by (auto simp: undisturbed_def account_def q0_def t_def)
  obtain r q' where c: "stub_call (tn_fate t) name op' q0 = (r, q')" by fastforce
  have same: "account w rid x (s\<lparr>pr_quotas := q0, pr_turn := n\<rparr>)" for n using q0 a(2) by (simp add: account_def)
  have run: "px_stub w name op s = (r, s\<lparr>pr_quotas := q', pr_turn := Suc (pr_turn s)\<rparr>)"
    using c by (simp add: px_stub_def Let_def t_def[symmetric] q0_def[symmetric] op'_def[symmetric])
  have new: "R b y \<and> account w rid y (s\<lparr>pr_quotas := q0(name := st), pr_turn := n\<rparr>)"
    if "op' (q0 name) = Inr (b, st)" "look st rid = y" for b y st n
    using that op[of "q0 name" _ "tn_now t" "tn_uuid t" b st] q0 a(2)
    by (auto simp: op'_def and_then_Inr account_def quotas_reachable_def)
  show ?thesis
  proof (cases "op' (q0 name)")
    case (Inl err)
    then have q': "q' = q0" "\<exists>e'. r = Inl e'" using c by (auto simp: stub_call_def split: if_splits)
    have "x = None" if total: "tot"
    proof -
      have "identity_of (Some name) \<noteq> Inr i" for i
        using Inl tot[OF total, of "tn_now t" "tn_uuid t" i "q0 name"] by (auto simp: op'_def)
      then obtain err' where "identity_of (Some name) = Inl err'" by (cases "identity_of (Some name)") auto
      with q0(1) have "look (q0 name) rid = None" by (intro nameless_empty) (auto simp: quotas_reachable_def)
      then show ?thesis using q0(2)[of name] by simp
    qed
    then show ?thesis using q' run e[of x, OF _ same] by (auto simp: wp_def)
  next
    case (Inr p)
    obtain b st where p: "p = (b, st)" by fastforce
    note n = new[OF Inr[unfolded p] refl, of "Suc (pr_turn s)"]
    consider "tn_fate t = Delivered" "r = Inr b" "q' = q0(name := st)"
      | "tn_fate t \<noteq> Delivered" "r = Inl rpc_lost" "q' = q0 \<or> q' = q0(name := st)"
      using c Inr p by (cases "tn_fate t") (auto simp: stub_call_def)
    then show ?thesis
    proof cases
      case 1
      then show ?thesis using q[OF conjunct1[OF n] conjunct2[OF n]] by (simp add: wp_def run)
    next
      case 2
      then have "\<not> calls_arrive w" by (auto simp: calls_arrive_def t_def)
      then show ?thesis using e[of x, OF _ same] e[of "look st rid" b] 2 n by (auto simp: wp_def run)
    qed
  qed
qed

text \<open>The transitions of a request, as calls.\<close>

lemma transition_rpc:
  assumes "reachable sha256 (Some name) st" "identity_of (Some name) = Inr i" "transaction sha256 env i now c st = Inr (a, st')"
  shows "reachable sha256 (Some name) st'"
  by (rule reachable_step[OF assms(1), of env now c a]) (simp add: quota_rpc_def assms(2,3))

lemma transition_record:
  assumes "reachable sha256 (Some name) st" "identity_of (Some name) = Inr i"
  shows "markUncertain_transition env i now r st = (a, st') \<Longrightarrow>
      reachable sha256 (Some name) st' \<and> look st' r = map_option (abs_step Mark_uncertain) (look st r)"
    "markReserveOutcomeUnknown env i now r st = (b, st') \<Longrightarrow>
      reachable sha256 (Some name) st' \<and> look st' r = map_option (abs_step Mark_uncertain) (look st r)"
    "release_transition env i now r st = (a, st') \<Longrightarrow>
      reachable sha256 (Some name) st' \<and> look st' r = map_option (abs_step Release) (look st r)"
    "settle env i now r n st = Inr (a, st') \<Longrightarrow>
      reachable sha256 (Some name) st' \<and> look st' r = map_option (abs_step (Settle (the_int n))) (look st r)"
proof -
  note l = sound_parts(1)[OF reachable_sound[OF assms(1)]] and rpc = transition_rpc[OF assms, where now = now and env = env]
  show "reachable sha256 (Some name) st' \<and> look st' r = map_option (abs_step Mark_uncertain) (look st r)"
    if "markUncertain_transition env i now r st = (a, st')"
    using markUncertain_refines[OF l that] rpc[of "Call_markUncertain r" "Ans_ok a" st'] that by (simp add: tag_def change_def)
  show "reachable sha256 (Some name) st' \<and> look st' r = map_option (abs_step Mark_uncertain) (look st r)"
    if "markReserveOutcomeUnknown env i now r st = (b, st')"
    using markReserveOutcomeUnknown_refines[OF l that] rpc[of "Call_markReserveOutcomeUnknown r" "Ans_mark_unknown b" st'] that
    by (simp add: tag_def change_def)
  show "reachable sha256 (Some name) st' \<and> look st' r = map_option (abs_step Release) (look st r)"
    if "release_transition env i now r st = (a, st')"
    using release_refines[OF l that] rpc[of "Call_release r" "Ans_ok a" st'] that by (simp add: tag_def change_def)
  show "reachable sha256 (Some name) st' \<and> look st' r = map_option (abs_step (Settle (the_int n))) (look st r)"
    if t: "settle env i now r n st = Inr (a, st')"
  proof -
    have s: "0 \<le> the_int n" "settle_transition env i now r (the_int n) st = (a, st')" using t by (auto simp: settle_def split: if_splits)
    show ?thesis
      using settle_refines[OF l s] rpc[of "Call_settle r n" "Ans_ok a" st'] t by (simp add: tag_def change_def)
  qed
qed

lemma lease_record:
  assumes "reachable sha256 (Some name) st" "identity_of (Some name) = Inr i"
  shows "acquireInFlightLease now uuid r lm ttl st = Inr (a, st') \<Longrightarrow> reachable sha256 (Some name) st' \<and> look st' = look st"
    "releaseInFlightLease now r g st = Inr (b, st') \<Longrightarrow> reachable sha256 (Some name) st' \<and> look st' = look st"
proof -
  note rpc = transition_rpc[OF assms, where now = now and env = undefined]
  show "reachable sha256 (Some name) st' \<and> look st' = look st" if "acquireInFlightLease now uuid r lm ttl st = Inr (a, st')"
    using same_look[OF lease_ops_same(1)[OF that]] rpc[of "Call_acquireInFlight r lm ttl uuid" "Ans_acquire a" st'] that by (simp add: tag_def)
  show "reachable sha256 (Some name) st' \<and> look st' = look st" if "releaseInFlightLease now r g st = Inr (b, st')"
    using same_look[OF lease_ops_same(3)[OF that]] rpc[of "Call_releaseInFlight r g" "Ans_release_lease b" st'] that by (simp add: tag_def)
qed

lemma reserve_new_cases:
  assumes "reserve env i now r t u k c st = Inr (res, st')" "look st r = None"
  obtains (refused) "st' = st" "\<And>m ra. res \<noteq> Reserve_ok m ra"
  | (reserved) key resetAt where "getEntry st (reserve_target st r (reserve_key st key c)) = None" "0 \<le> the_int t" "the_int t \<le> the_int u"
      "res = Reserve_ok (remainingOf (loadPool st env i now) - the_int t) resetAt"
      "st' = write_reservation now (loadPool st env i now) r (the_int t) (the_int u) key c
        (Reserve_ok (remainingOf (loadPool st env i now) - the_int t) resetAt) st"
proof -
  obtain key resetAt where p: "0 \<le> the_int t" "the_int t \<le> the_int u"
    "reserve_transaction env i now r (the_int t) (the_int u) key c resetAt st = Inr (res, st')"
    using reserve_runs[OF assms(1)] by metis
  show thesis
  proof (cases "getEntry st (reserve_target st r (reserve_key st key c))")
    case None
    show ?thesis
    proof (cases "st_finalized st \<or> \<not> has_room (loadPool st env i now) (the_int t) (the_int u)")
      case True
      then show ?thesis using p(3) None by (intro refused) (auto simp: reserve_transaction_def Let_def split: if_splits)
    next
      case False
      then show ?thesis using p None by (intro reserved[of key resetAt]) (auto simp: reserve_transaction_def Let_def)
    qed
  next
    case (Some e)
    then show ?thesis using p(3) assms(2) by (intro refused)
      (auto simp: reserve_transaction_def reserve_existing_def reserve_target_def look_def and_then_Inr Let_def split: if_splits option.splits)
  qed
qed

lemma reserve_record:
  assumes "reachable sha256 (Some name) st" "identity_of (Some name) = Inr i" "reserve env i now r t u k c st = Inr (res, st')"
  shows "reachable sha256 (Some name) st'"
    "if look st r = None then look st' r = (case res of Reserve_ok _ _ \<Rightarrow> Some (Held (the_int t)) | _ \<Rightarrow> None) else look st' r = look st r"
proof -
  note s = reachable_sound[OF assms(1)]
  show "reachable sha256 (Some name) st'"
    using transition_rpc[OF assms(1,2), of env now "Call_reserve r t u k c" "Ans_reserve res"] assms(3) by (simp add: tag_def)
  show "if look st r = None then look st' r = (case res of Reserve_ok _ _ \<Rightarrow> Some (Held (the_int t)) | _ \<Rightarrow> None) else look st' r = look st r"
  proof (cases "look st r = None")
    case True
    from assms(3) this show ?thesis
    proof (cases rule: reserve_new_cases)
      case (reserved key resetAt)
      note f = reserve_target_free[OF sound_parts(3)[OF s] reserved(1)]
      show ?thesis
        using write_reservation_ledger[OF sound_parts(1)[OF s] f(1) reserved(2,3,5)] True reserved(4) by (simp add: change_def)
    qed (use True in \<open>auto split: reserve_result.split\<close>)
  next
    case False
    from assms(3) show ?thesis
    proof (cases rule: reserve_cases)
      case (reserved key resetAt)
      show ?thesis using reserve_target_free(1)[OF sound_parts(3)[OF s] reserved(1)] False by (simp add: look_def)
    qed (use False in auto)
  qed
qed

text \<open>
  The rules for the calls.  In every one, \<open>x\<close> is the record before the call.
\<close>

lemma wp_mark:
  assumes "undisturbed w rid" "account w rid x s" "pr_stub s = Some name"
    and "\<And>r q t. account w rid (map_option (abs_step Mark_uncertain) x) (s\<lparr>pr_quotas := q, pr_turn := t\<rparr>) \<Longrightarrow> Q r (s\<lparr>pr_quotas := q, pr_turn := t\<rparr>)"
    and "\<And>e y q t. y = x \<and> (calls_arrive w \<longrightarrow> x = None) \<or> y = map_option (abs_step Mark_uncertain) x \<and> \<not> calls_arrive w \<Longrightarrow>
      account w rid y (s\<lparr>pr_quotas := q, pr_turn := t\<rparr>) \<Longrightarrow> E e (s\<lparr>pr_quotas := q, pr_turn := t\<rparr>)"
  shows "wp (stub_markUncertain w name rid) Q E s"
  unfolding stub_markUncertain_def
  by (rule wp_stub[where R = "\<lambda>_ y. y = map_option (abs_step Mark_uncertain) x" and tot = True, OF assms(1-3)])
    (use assms(4,5) transition_record(1) in auto)

lemma wp_mark_unknown:
  assumes "undisturbed w rid" "account w rid x s" "pr_stub s = Some name"
    and "\<And>r q t. account w rid (map_option (abs_step Mark_uncertain) x) (s\<lparr>pr_quotas := q, pr_turn := t\<rparr>) \<Longrightarrow> Q r (s\<lparr>pr_quotas := q, pr_turn := t\<rparr>)"
    and "\<And>e y q t. y = x \<and> (calls_arrive w \<longrightarrow> x = None) \<or> y = map_option (abs_step Mark_uncertain) x \<and> \<not> calls_arrive w \<Longrightarrow>
      account w rid y (s\<lparr>pr_quotas := q, pr_turn := t\<rparr>) \<Longrightarrow> E e (s\<lparr>pr_quotas := q, pr_turn := t\<rparr>)"
  shows "wp (stub_markReserveOutcomeUnknown w name rid) Q E s"
  unfolding stub_markReserveOutcomeUnknown_def
  by (rule wp_stub[where R = "\<lambda>_ y. y = map_option (abs_step Mark_uncertain) x" and tot = True, OF assms(1-3)])
    (use assms(4,5) transition_record(2) in auto)

lemma wp_release:
  assumes "undisturbed w rid" "account w rid x s" "pr_stub s = Some name"
    and "\<And>r q t. account w rid (map_option (abs_step Release) x) (s\<lparr>pr_quotas := q, pr_turn := t\<rparr>) \<Longrightarrow> Q r (s\<lparr>pr_quotas := q, pr_turn := t\<rparr>)"
    and "\<And>e y q t. y = x \<and> (calls_arrive w \<longrightarrow> x = None) \<or> y = map_option (abs_step Release) x \<and> \<not> calls_arrive w \<Longrightarrow>
      account w rid y (s\<lparr>pr_quotas := q, pr_turn := t\<rparr>) \<Longrightarrow> E e (s\<lparr>pr_quotas := q, pr_turn := t\<rparr>)"
  shows "wp (stub_release w name rid) Q E s"
  unfolding stub_release_def
  by (rule wp_stub[where R = "\<lambda>_ y. y = map_option (abs_step Release) x" and tot = True, OF assms(1-3)])
    (use assms(4,5) transition_record(3) in auto)

lemma wp_settle:
  assumes "undisturbed w rid" "account w rid x s" "pr_stub s = Some name"
    and "\<And>r q t. account w rid (map_option (abs_step (Settle (the_int n))) x) (s\<lparr>pr_quotas := q, pr_turn := t\<rparr>) \<Longrightarrow> Q r (s\<lparr>pr_quotas := q, pr_turn := t\<rparr>)"
    and "\<And>e y q t. y = x \<or> y = map_option (abs_step (Settle (the_int n))) x \<and> \<not> calls_arrive w \<Longrightarrow>
      account w rid y (s\<lparr>pr_quotas := q, pr_turn := t\<rparr>) \<Longrightarrow> E e (s\<lparr>pr_quotas := q, pr_turn := t\<rparr>)"
  shows "wp (stub_settle w name rid n) Q E s"
  unfolding stub_settle_def
  by (rule wp_stub[where R = "\<lambda>_ y. y = map_option (abs_step (Settle (the_int n))) x" and tot = False, OF assms(1-3)])
    (use assms(4,5) transition_record(4) in auto)

definition lease_granted :: "string \<Rightarrow> acquire_result \<Rightarrow> bool" where
  "lease_granted rid r \<longleftrightarrow> (case r of Acquired l \<Rightarrow> l_requestId l = rid | Concurrency_exceeded \<Rightarrow> True)"

lemma lease_is_granted: "acquireInFlightLease now uuid r lm ttl st = Inr (a, st') \<Longrightarrow> lease_granted r a"
  by (auto simp: acquireInFlightLease_def lease_granted_def lease_of_def find_Some_iff Let_def split: if_splits sum.splits prod.splits option.splits)

lemma wp_lease_calls:
  assumes "undisturbed w rid" "account w rid x s" "pr_stub s = Some name"
    and e: "\<And>e q t. account w rid x (s\<lparr>pr_quotas := q, pr_turn := t\<rparr>) \<Longrightarrow> E e (s\<lparr>pr_quotas := q, pr_turn := t\<rparr>)"
  shows "(\<And>r q t. account w rid x (s\<lparr>pr_quotas := q, pr_turn := t\<rparr>) \<Longrightarrow> lease_granted rid r \<Longrightarrow> A r (s\<lparr>pr_quotas := q, pr_turn := t\<rparr>)) \<Longrightarrow>
      wp (stub_acquireInFlight w name rid lm ttl) A E s"
    "(\<And>r q t. account w rid x (s\<lparr>pr_quotas := q, pr_turn := t\<rparr>) \<Longrightarrow> B r (s\<lparr>pr_quotas := q, pr_turn := t\<rparr>)) \<Longrightarrow>
      wp (stub_releaseInFlight w name r g) B E s"
    "(\<And>r q t. account w rid x (s\<lparr>pr_quotas := q, pr_turn := t\<rparr>) \<Longrightarrow> C r (s\<lparr>pr_quotas := q, pr_turn := t\<rparr>)) \<Longrightarrow>
      wp (stub_getState w name) C E s"
proof -
  show "wp (stub_acquireInFlight w name rid lm ttl) A E s"
    if "\<And>r q t. account w rid x (s\<lparr>pr_quotas := q, pr_turn := t\<rparr>) \<Longrightarrow> lease_granted rid r \<Longrightarrow> A r (s\<lparr>pr_quotas := q, pr_turn := t\<rparr>)"
    unfolding stub_acquireInFlight_def
    by (rule wp_stub[where R = "\<lambda>r y. y = x \<and> lease_granted rid r" and tot = False, OF assms(1-3)]) (use that e lease_record(1) lease_is_granted in auto)
  show "wp (stub_releaseInFlight w name r g) B E s"
    if "\<And>r q t. account w rid x (s\<lparr>pr_quotas := q, pr_turn := t\<rparr>) \<Longrightarrow> B r (s\<lparr>pr_quotas := q, pr_turn := t\<rparr>)"
    unfolding stub_releaseInFlight_def
    by (rule wp_stub[where R = "\<lambda>_ y. y = x" and tot = False, OF assms(1-3)]) (use that e lease_record(2) in auto)
  show "wp (stub_getState w name) C E s"
    if "\<And>r q t. account w rid x (s\<lparr>pr_quotas := q, pr_turn := t\<rparr>) \<Longrightarrow> C r (s\<lparr>pr_quotas := q, pr_turn := t\<rparr>)"
    unfolding stub_getState_def
    by (rule wp_stub[where R = "\<lambda>_ y. y = x" and tot = False, OF assms(1-3)]) (use that e in \<open>auto simp: and_then_Inr\<close>)
qed

text \<open>A reservation, repeated when its first answer is lost.\<close>

lemma wp_reserve:
  assumes "undisturbed w rid" "account w rid x s" "pr_stub s = Some name" "x = None \<or> x = Some (Held n)"
    and "\<And>r y q t. y = Some (Held n) \<and> (x = None \<longrightarrow> (\<exists>m ra. r = Reserve_ok m ra)) \<or> y = None \<and> \<not> (\<exists>m ra. r = Reserve_ok m ra) \<Longrightarrow>
      account w rid y (s\<lparr>pr_quotas := q, pr_turn := t\<rparr>) \<Longrightarrow> Q r (s\<lparr>pr_quotas := q, pr_turn := t\<rparr>)"
    and "\<And>e y q t. y = x \<or> y = Some (Held n) \<and> \<not> calls_arrive w \<Longrightarrow>
      account w rid y (s\<lparr>pr_quotas := q, pr_turn := t\<rparr>) \<Longrightarrow> E e (s\<lparr>pr_quotas := q, pr_turn := t\<rparr>)"
  shows "wp (stub_reserve w name rid n ub key client) Q E s"
  unfolding stub_reserve_def
proof (rule wp_stub[where R = "\<lambda>r y. if x = None then y = (case r of Reserve_ok _ _ \<Rightarrow> Some (Held n) | _ \<Rightarrow> None) else y = x" and tot = False, OF assms(1-3)])
  fix e r y q t
  assume "y = x \<and> (False \<and> calls_arrive w \<longrightarrow> x = None) \<or>
      (if x = None then y = (case r of Reserve_ok _ _ \<Rightarrow> Some (Held n) | _ \<Rightarrow> None) else y = x) \<and> \<not> calls_arrive w"
    "account w rid y (s\<lparr>pr_quotas := q, pr_turn := t\<rparr>)"
  then show "E e (s\<lparr>pr_quotas := q, pr_turn := t\<rparr>)" using assms(6) by (auto split: if_splits reserve_result.splits)
qed (use assms(4,5) reserve_record in \<open>fastforce split: if_splits reserve_result.splits\<close>)+

subsection \<open>The steps of the handler\<close>

text \<open>The record that an answer with this text leaves: spent as its usage says, in doubt without a usage.\<close>

definition settled_by :: "string \<Rightarrow> abs_request option \<Rightarrow> bool" where
  "settled_by t x \<longleftrightarrow>
     (case json_parse t of
        None \<Rightarrow> False
      | Some data \<Rightarrow>
          (case total_tokens (js_get data ''usage'') of
             Some n \<Rightarrow> (\<exists>h. x = Some (Spent (the_int n) h))
           | None \<Rightarrow> (\<exists>h. x = Some (Doubtful h))))"

text \<open>The text is the one that upstream answered the request with that was sent.\<close>

definition forwarded :: "proxy_world \<Rightarrow> proxy_run \<Rightarrow> string \<Rightarrow> bool" where
  "forwarded w s t \<longleftrightarrow> (\<exists>request u. pr_sent s = [request] \<and> pw_transport w request = Upstream_answers u \<and>
     200 \<le> ua_status u \<and> ua_status u \<le> 299 \<and> ua_text u = Some t)"

lemma forwarded_fields [simp]:
  "forwarded w (s\<lparr>pr_quotas := q\<rparr>) = forwarded w s" "forwarded w (s\<lparr>pr_turn := n\<rparr>) = forwarded w s"
  "forwarded w (s\<lparr>pr_reservation := r\<rparr>) = forwarded w s" "forwarded w (s\<lparr>pr_reached := b\<rparr>) = forwarded w s"
  "forwarded w (s\<lparr>pr_acquired := b\<rparr>) = forwarded w s" "forwarded w (s\<lparr>pr_lease := l\<rparr>) = forwarded w s"
  by (simp_all add: forwarded_def fun_eq_iff)

text \<open>A run that answers, and a run that throws.  A run that answers with a stream keeps the lease of its request.\<close>

definition leased :: "string \<Rightarrow> proxy_run \<Rightarrow> bool" where
  "leased rid s \<longleftrightarrow> (\<exists>l. pr_lease s = Some l \<and> l_requestId l = rid)"

lemma leased_fields [simp]:
  "leased rid (s\<lparr>pr_quotas := q\<rparr>) = leased rid s" "leased rid (s\<lparr>pr_turn := t\<rparr>) = leased rid s"
  "leased rid (s\<lparr>pr_attempted := b\<rparr>) = leased rid s" "leased rid (s\<lparr>pr_reached := b\<rparr>) = leased rid s"
  "leased rid (s\<lparr>pr_acquired := b\<rparr>) = leased rid s" "leased rid (s\<lparr>pr_sent := us\<rparr>) = leased rid s"
  by (simp_all add: leased_def)

definition answered :: "proxy_world \<Rightarrow> string \<Rightarrow> octg_response \<Rightarrow> proxy_run \<Rightarrow> bool" where
  "answered w rid r s \<longleftrightarrow> (\<exists>x. account w rid x s \<and> length (pr_sent s) \<le> 1 \<and> (pr_sent s \<noteq> [] \<longrightarrow> accounted x) \<and>
     (calls_arrive w \<and> is_held x \<longrightarrow> os_body r = Body_stream) \<and>
     (calls_arrive w \<and> pr_sent s = [] \<longrightarrow> x = None \<or> x = Some Freed) \<and>
     (\<forall>t. os_body r = Body_text t \<longrightarrow> forwarded w s t \<and> settled_by t x) \<and>
     (os_body r = Body_stream \<longrightarrow> pr_sent s \<noteq> [] \<and> is_held x \<and> leased rid s))"

definition failing :: "proxy_world \<Rightarrow> string \<Rightarrow> proxy_run \<Rightarrow> bool" where
  "failing w rid s \<longleftrightarrow> (\<exists>x. account w rid x s \<and> length (pr_sent s) \<le> 1 \<and> (pr_sent s \<noteq> [] \<longrightarrow> pr_attempted s \<and> accounted x) \<and>
     (calls_arrive w \<and> is_held x \<longrightarrow> pr_reservation s = Reservation_resolved) \<and>
     (calls_arrive w \<and> pr_sent s = [] \<longrightarrow> x = None \<or> x = Some Freed \<or> is_held x \<and> \<not> pr_attempted s \<and> \<not> pr_reached s))"

lemma error_body [simp]: "os_body (error_answer w e) = Body_json (error_json e)"
  by (simp add: error_answer_def withWorkerVersion_def errorResponse_def)

lemma octg_body [simp]: "os_body (octg_answer w rid q st ct b) = b"
  by (simp add: octg_answer_def)

lemma upstream_body [simp]: "os_body (upstreamResponse w rid q a) = Body_upstream (ua_text a)"
  by (simp add: upstreamResponse_def)

lemma answeredI:
  assumes "account w rid x s" "length (pr_sent s) \<le> 1" "pr_sent s \<noteq> [] \<longrightarrow> accounted x" "calls_arrive w \<and> is_held x \<longrightarrow> os_body r = Body_stream"
    "calls_arrive w \<and> pr_sent s = [] \<longrightarrow> x = None \<or> x = Some Freed" "\<And>t. os_body r = Body_text t \<Longrightarrow> forwarded w s t \<and> settled_by t x"
    "os_body r = Body_stream \<Longrightarrow> pr_sent s \<noteq> [] \<and> is_held x \<and> leased rid s"
  shows "answered w rid r s"
  using assms unfolding answered_def by blast

lemma failingI:
  assumes "account w rid x s" "length (pr_sent s) \<le> 1" "pr_sent s \<noteq> [] \<longrightarrow> pr_attempted s \<and> accounted x"
    "calls_arrive w \<and> is_held x \<longrightarrow> pr_reservation s = Reservation_resolved"
    "calls_arrive w \<and> pr_sent s = [] \<longrightarrow> x = None \<or> x = Some Freed \<or> is_held x \<and> \<not> pr_attempted s \<and> \<not> pr_reached s"
  shows "failing w rid s"
  using assms unfolding failing_def by blast

lemma wp_end_lease:
  assumes "undisturbed w rid" "account w rid x s" "pr_stub s = Some name"
    and "\<And>q t. account w rid x (s\<lparr>pr_quotas := q, pr_turn := t\<rparr>) \<Longrightarrow>
      Q () (s\<lparr>pr_quotas := q, pr_turn := t, pr_acquired := False, pr_lease := None\<rparr>)"
    and "\<And>e q t. account w rid x (s\<lparr>pr_quotas := q, pr_turn := t\<rparr>) \<Longrightarrow> E e (s\<lparr>pr_quotas := q, pr_turn := t\<rparr>)"
  shows "wp (px_end_lease w name rid) Q E s"
proof (cases "pr_lease s")
  case None
  then show ?thesis using assms(5)[where q = "pr_quotas s" and t = "pr_turn s"] assms(2) by (simp add: px_end_lease_def)
next
  case (Some l)
  have "wp (stub_releaseInFlight w name rid (l_generation l))
      (\<lambda>_. wp (px_set (\<lambda>s. s\<lparr>pr_acquired := False, pr_lease := None\<rparr>)) Q E) E s"
    by (rule wp_lease_calls(2)[OF assms(1-3)]) (use assms(4,5) in simp_all)
  then show ?thesis using Some by (simp add: px_end_lease_def)
qed

text \<open>The last steps after the record is final.\<close>

definition closed :: "proxy_world \<Rightarrow> abs_request option \<Rightarrow> proxy_run \<Rightarrow> bool" where
  "closed w x s \<longleftrightarrow> length (pr_sent s) \<le> 1 \<and> (pr_sent s \<noteq> [] \<longrightarrow> pr_attempted s \<and> accounted x) \<and>
     (calls_arrive w \<longrightarrow> \<not> is_held x) \<and> (calls_arrive w \<and> pr_sent s = [] \<longrightarrow> x = None \<or> x = Some Freed)"

lemma closed_fields [simp]:
  "closed w x (s\<lparr>pr_quotas := q\<rparr>) = closed w x s" "closed w x (s\<lparr>pr_turn := t\<rparr>) = closed w x s"
  "closed w x (s\<lparr>pr_reservation := r\<rparr>) = closed w x s" "closed w x (s\<lparr>pr_acquired := b\<rparr>) = closed w x s"
  "closed w x (s\<lparr>pr_lease := l\<rparr>) = closed w x s"
  by (simp_all add: closed_def)

lemma closed_failing: "account w rid x s \<Longrightarrow> closed w x s \<Longrightarrow> failing w rid s"
  by (rule failingI) (auto simp: closed_def)

lemma closed_answered:
  "account w rid x s \<Longrightarrow> closed w x s \<Longrightarrow> (\<And>t. os_body r = Body_text t \<Longrightarrow> forwarded w s t \<and> settled_by t x) \<Longrightarrow>
    os_body r \<noteq> Body_stream \<Longrightarrow> answered w rid r s"
  by (rule answeredI) (auto simp: closed_def)

lemma wp_last_steps:
  assumes "undisturbed w rid" "account w rid x s" "pr_stub s = Some name" "closed w x s"
    and "\<And>t. os_body r = Body_text t \<Longrightarrow> forwarded w s t \<and> settled_by t x" "os_body r \<noteq> Body_stream" "\<And>s'. answered w rid r s' \<Longrightarrow> Q k s'"
  shows "wp (px_then px_unreserved (px_then (px_end_lease w name rid) (px_return k))) Q (\<lambda>_. failing w rid) s"
  using assms(2-6)
  by (auto simp: px_unreserved_def intro!: wp_end_lease[OF assms(1), where x = x] assms(7) closed_answered[where x = x]
      intro: closed_failing[where x = x])

text \<open>A request that was sent and not answered well stays in doubt.\<close>

lemma wp_doubtful:
  assumes "undisturbed w rid" "account w rid (Some (Held h)) s" "pr_stub s = Some name" "length (pr_sent s) = 1" "pr_attempted s"
    "pr_reservation s = Reservation_resolved"
    and "\<And>t. os_body r = Body_text t \<Longrightarrow> forwarded w s t \<and> settled_by t (Some (Doubtful h))" "os_body r \<noteq> Body_stream" "\<And>s'. answered w rid r s' \<Longrightarrow> Q k s'"
  shows "wp (px_then (stub_markUncertain w name rid) (px_then px_unreserved (px_then (px_end_lease w name rid) (px_return k))))
    Q (\<lambda>_. failing w rid) s"
  unfolding wp_simps(7)[of "stub_markUncertain w name rid"]
proof (rule wp_mark[OF assms(1-3)])
  have sent: "pr_sent s \<noteq> []" using assms(4) by auto
  fix a e y q t
  show "wp (px_then px_unreserved (px_then (px_end_lease w name rid) (px_return k))) Q (\<lambda>_. failing w rid) (s\<lparr>pr_quotas := q, pr_turn := t\<rparr>)"
    if "account w rid (map_option (abs_step Mark_uncertain) (Some (Held h))) (s\<lparr>pr_quotas := q, pr_turn := t\<rparr>)"
    by (rule wp_last_steps[OF assms(1) that]) (use assms(3-9) sent in \<open>auto simp: closed_def\<close>)
  show "failing w rid (s\<lparr>pr_quotas := q, pr_turn := t\<rparr>)"
    if "y = Some (Held h) \<and> (calls_arrive w \<longrightarrow> Some (Held h) = None) \<or>
        y = map_option (abs_step Mark_uncertain) (Some (Held h)) \<and> \<not> calls_arrive w" "account w rid y (s\<lparr>pr_quotas := q, pr_turn := t\<rparr>)"
    by (rule failingI[OF that(2)]) (use that(1) assms(3-6) sent in auto)
qed

lemma wp_settled:
  assumes "undisturbed w rid" "account w rid (Some (Held h)) s" "pr_stub s = Some name" "length (pr_sent s) = 1" "pr_attempted s"
    "pr_reservation s = Reservation_resolved"
    and "\<And>t. os_body r = Body_text t \<Longrightarrow> forwarded w s t \<and> settled_by t (Some (Spent (the_int n) h))" "os_body r \<noteq> Body_stream" "\<And>s'. answered w rid r s' \<Longrightarrow> Q k s'"
  shows "wp (px_then (stub_settle w name rid n) (px_then px_unreserved (px_then (px_end_lease w name rid) (px_return k))))
    Q (\<lambda>_. failing w rid) s"
  unfolding wp_simps(7)[of "stub_settle w name rid n"]
proof (rule wp_settle[OF assms(1-3)])
  have sent: "pr_sent s \<noteq> []" using assms(4) by auto
  fix a e y q t
  show "wp (px_then px_unreserved (px_then (px_end_lease w name rid) (px_return k))) Q (\<lambda>_. failing w rid) (s\<lparr>pr_quotas := q, pr_turn := t\<rparr>)"
    if "account w rid (map_option (abs_step (Settle (the_int n))) (Some (Held h))) (s\<lparr>pr_quotas := q, pr_turn := t\<rparr>)"
    by (rule wp_last_steps[OF assms(1) that]) (use assms(3-9) sent in \<open>auto simp: closed_def\<close>)
  show "failing w rid (s\<lparr>pr_quotas := q, pr_turn := t\<rparr>)"
    if "y = Some (Held h) \<or> y = map_option (abs_step (Settle (the_int n))) (Some (Held h)) \<and> \<not> calls_arrive w"
      "account w rid y (s\<lparr>pr_quotas := q, pr_turn := t\<rparr>)"
    by (rule failingI[OF that(2)]) (use that(1) assms(3-6) sent in auto)
qed

lemma px_then_assoc: "px_then (px_then a b) c = px_then a (px_then b c)"
  by (rule ext) (simp add: px_then_def px_bind_def split: prod.split sum.split)

lemma wp_completed:
  assumes u: "undisturbed w rid" and a: "account w rid (Some (Held h)) s" "pr_stub s = Some name" "length (pr_sent s) = 1"
    "pr_attempted s" "pr_reservation s = Reservation_resolved" "leased rid s"
    and f: "\<And>t. 200 \<le> ua_status upstream \<Longrightarrow> ua_status upstream \<le> 299 \<Longrightarrow> ua_text upstream = Some t \<Longrightarrow> forwarded w s t"
  shows "wp (handleCompletedUpstream w name rid stream q upstream) (answered w rid) (\<lambda>_. failing w rid) s"
proof -
  let ?s = "s\<lparr>pr_reached := True\<rparr>"
  have s: "account w rid (Some (Held h)) ?s" "pr_stub ?s = Some name" "length (pr_sent ?s) = 1" "pr_attempted ?s"
    "pr_reservation ?s = Reservation_resolved" "pr_sent ?s \<noteq> []" "leased rid ?s"
    using a by auto
  have fail: "failing w rid ?s" by (rule failingI[OF s(1)]) (use s in auto)
  note doubtful = wp_doubtful[OF u s(1-5)] and settled = wp_settled[OF u s(1-5)]
  consider (stream) "stream" "200 \<le> ua_status upstream \<and> ua_status upstream \<le> 299"
    | (failed) "\<not> (200 \<le> ua_status upstream \<and> ua_status upstream \<le> 299)"
    | (whole) "\<not> stream" "200 \<le> ua_status upstream \<and> ua_status upstream \<le> 299" by blast
  then show ?thesis
  proof cases
    case stream
    then show ?thesis using fail s
      by (auto simp: handleCompletedUpstream_def split: option.split intro!: answeredI[where x = "Some (Held h)"])
  next
    case failed
    have "wp (px_then (stub_markUncertain w name rid) (px_then px_unreserved (px_then (px_end_lease w name rid)
        (px_return (upstreamResponse w rid q upstream))))) (answered w rid) (\<lambda>_. failing w rid) ?s"
      by (rule doubtful[where r = "upstreamResponse w rid q upstream"]) simp_all
    then show ?thesis using failed by (auto simp: handleCompletedUpstream_def Let_def)
  next
    case whole
    show ?thesis
    proof (cases "Option.bind (ua_text upstream) json_parse")
      case None
      have "wp (px_then (stub_markUncertain w name rid) (px_then px_unreserved (px_then (px_end_lease w name rid)
          (px_return (error_answer w (errInternal rid None None)))))) (answered w rid) (\<lambda>_. failing w rid) ?s"
        by (rule doubtful[where r = "error_answer w (errInternal rid None None)"]) simp_all
      then show ?thesis using whole None by (auto simp: handleCompletedUpstream_def Let_def)
    next
      case (Some data)
      then obtain t where t: "ua_text upstream = Some t" "json_parse t = Some data" by (cases "ua_text upstream") auto
      define r where "r = octg_answer w rid q 200 ''application/json'' (Body_text t)"
      have r: "os_body r = Body_text t" by (simp add: r_def)
      have sent: "forwarded w s t" using f[OF _ _ t(1)] whole(2) by simp
      show ?thesis
      proof (cases "data = JNull")
        case True
        then show ?thesis using whole Some fail by (auto simp: handleCompletedUpstream_def Let_def)
      next
        case False
        define m where "m = (case total_tokens (js_get data ''usage'') of
             Some n \<Rightarrow> px_then (stub_settle w name rid n) (px_then px_unreserved (px_then (px_end_lease w name rid) (px_return r)))
           | None \<Rightarrow> px_then (stub_markUncertain w name rid) (px_then px_unreserved (px_then (px_end_lease w name rid) (px_return r))))"
        have "wp m (answered w rid) (\<lambda>_. failing w rid) ?s"
        proof (cases "total_tokens (js_get data ''usage'')")
          case None
          then show ?thesis unfolding m_def None option.case by (intro doubtful[where r = r]) (auto simp: r settled_by_def t None sent)
        next
          case (Some n)
          then show ?thesis unfolding m_def Some option.case by (intro settled[where r = r]) (auto simp: r settled_by_def t Some sent)
        qed
        moreover have "handleCompletedUpstream w name rid stream q upstream = px_then (px_set (\<lambda>s. s\<lparr>pr_reached := True\<rparr>)) m"
          using whole Some False t by (cases data) (auto simp: handleCompletedUpstream_def Let_def px_then_assoc r_def m_def split: option.split)
        ultimately show ?thesis by simp
      qed
    qed
  qed
qed

text \<open>Whatever was thrown, the handler clears the account.\<close>

lemma wp_failed:
  assumes u: "undisturbed w rid" and f: "failing w rid s"
  shows "wp (proxy_failed w rid) (answered w rid) E s"
proof -
  let ?r = "error_answer w (errInternal rid None None)"
  obtain x where x: "account w rid x s" "length (pr_sent s) \<le> 1" "pr_sent s \<noteq> [] \<longrightarrow> pr_attempted s \<and> accounted x"
     "calls_arrive w \<and> is_held x \<longrightarrow> pr_reservation s = Reservation_resolved"
     "calls_arrive w \<and> pr_sent s = [] \<longrightarrow> x = None \<or> x = Some Freed \<or> is_held x \<and> \<not> pr_attempted s \<and> \<not> pr_reached s"
    using f by (auto simp: failing_def)
  show ?thesis
  proof (cases "pr_stub s")
    case None
    then have "x = None" using x(1) by (simp add: account_def)
    then show ?thesis using x None by (auto simp: proxy_failed_def intro!: answeredI[OF x(1)])
  next
    case (Some name)
    define clean where "clean y \<longleftrightarrow> (pr_sent s \<noteq> [] \<longrightarrow> accounted y) \<and> (calls_arrive w \<longrightarrow> \<not> is_held y) \<and>
      (calls_arrive w \<and> pr_sent s = [] \<longrightarrow> y = None \<or> y = Some Freed)" for y
    define P where "P s' \<longleftrightarrow> (\<exists>y. account w rid y s' \<and> pr_stub s' = Some name \<and> pr_sent s' = pr_sent s \<and> clean y)" for s'
    have P: "P (s\<lparr>pr_quotas := q, pr_turn := t\<rparr>)" if "account w rid y (s\<lparr>pr_quotas := q, pr_turn := t\<rparr>)" "clean y" for y q t
      using that Some by (auto simp: P_def)
    have a: "answered w rid ?r s'" if "P s'" for s'
      using that x(2) by (auto simp: P_def clean_def intro!: answeredI)
    define last_step where "last_step = (case (pr_acquired s, pr_lease s) of
          (True, Some l) \<Rightarrow> px_quiet (stub_releaseInFlight w name (l_requestId l) (l_generation l)) | _ \<Rightarrow> px_return ())"
    define record_step where "record_step = (case pr_reservation s of
           Reservation_unknown \<Rightarrow> px_quiet (stub_markReserveOutcomeUnknown w name rid)
         | Reservation_resolved \<Rightarrow>
             if pr_attempted s \<or> pr_reached s then px_quiet (stub_markUncertain w name rid) else px_quiet (stub_release w name rid)
         | Reservation_none \<Rightarrow> px_return ())"
    have lease: "wp last_step (\<lambda>_. answered w rid ?r) E s'" if s': "P s'" for s'
    proof -
      obtain y where y: "account w rid y s'" "pr_stub s' = Some name" "pr_sent s' = pr_sent s" "clean y" using s' by (auto simp: P_def)
      have "answered w rid ?r (s'\<lparr>pr_quotas := q, pr_turn := t\<rparr>)" if "account w rid y (s'\<lparr>pr_quotas := q, pr_turn := t\<rparr>)" for q t
        by (rule a) (use y that in \<open>auto simp: P_def\<close>)
      then show ?thesis using a[OF s'] by (auto simp: last_step_def split: option.split bool.split intro!: wp_lease_calls(2)[OF u y(1,2)])
    qed
    have "wp record_step (\<lambda>_. P) E s"
    proof (cases "pr_reservation s = Reservation_unknown \<or> pr_reservation s = Reservation_resolved \<and> (pr_attempted s \<or> pr_reached s)")
      case True
      then have "clean (map_option (abs_step Mark_uncertain) x)" "x = None \<Longrightarrow> clean None" "\<not> calls_arrive w \<Longrightarrow> clean x"
        using x by (auto simp: clean_def)
      then show ?thesis using True by (auto simp: record_step_def intro!: wp_mark[OF u x(1) Some] wp_mark_unknown[OF u x(1) Some] P)
    next
      case False
      show ?thesis
      proof (cases "pr_reservation s")
        case Reservation_none
        then show ?thesis using x Some by (auto simp: record_step_def P_def clean_def)
      next
        case Reservation_resolved
        then have "pr_sent s = []" "\<not> (pr_attempted s \<or> pr_reached s)" using False x(3) by auto
        then have "clean (map_option (abs_step Release) x)" "x = None \<Longrightarrow> clean None" "\<not> calls_arrive w \<Longrightarrow> clean y" for y
          using x(5) by (auto simp: clean_def is_held_def split: option.splits abs_request.splits)
        then show ?thesis using Reservation_resolved \<open>\<not> (pr_attempted s \<or> pr_reached s)\<close>
          by (auto simp: record_step_def intro!: wp_release[OF u x(1) Some] P)
      qed (use False in simp)
    qed
    then have "wp record_step (\<lambda>_. wp last_step (\<lambda>_. answered w rid ?r) E) E s" by (rule wp_mono) (use lease in simp_all)
    moreover have "proxy_failed w rid s = px_then record_step (px_then last_step (px_return ?r)) s"
      by (simp add: proxy_failed_def px_bind_def px_get_def Some px_then_assoc record_step_def last_step_def)
    ultimately show ?thesis unfolding wp_def[of "proxy_failed w rid"] by (simp add: wp_def[of "px_then _ _", symmetric])
  qed
qed

text \<open>A reservation for which nothing was sent is given back.\<close>

lemma wp_given_back:
  assumes "undisturbed w rid" "account w rid (Some (Held h)) s" "pr_stub s = Some name" "pr_sent s = []"
    and "\<And>q t. account w rid (Some Freed) (s\<lparr>pr_quotas := q, pr_turn := t\<rparr>) \<Longrightarrow> closed w (Some Freed) s \<Longrightarrow>
      Q () (s\<lparr>pr_quotas := q, pr_turn := t\<rparr>)"
  shows "wp (px_then (stub_release w name rid) (px_return ())) Q (\<lambda>_. failing w rid) s"
proof -
  have "wp (stub_release w name rid) (\<lambda>_. Q ()) (\<lambda>_. failing w rid) s"
  proof (rule wp_release[OF assms(1-3)])
    fix a e y q t
    show "Q () (s\<lparr>pr_quotas := q, pr_turn := t\<rparr>)"
      if "account w rid (map_option (abs_step Release) (Some (Held h))) (s\<lparr>pr_quotas := q, pr_turn := t\<rparr>)"
      using assms(5) that by (simp add: closed_def assms(4))
    show "failing w rid (s\<lparr>pr_quotas := q, pr_turn := t\<rparr>)"
      if "y = Some (Held h) \<and> (calls_arrive w \<longrightarrow> Some (Held h) = None) \<or>
          y = map_option (abs_step Release) (Some (Held h)) \<and> \<not> calls_arrive w" "account w rid y (s\<lparr>pr_quotas := q, pr_turn := t\<rparr>)"
      by (rule failingI[OF that(2)]) (use that(1) assms(4) in auto)
  qed
  then show ?thesis by simp
qed

lemma upstream_call_error: "upstream_call w path body m ck ik = Inl e \<Longrightarrow> e = upstream_config_error"
  by (auto simp: upstream_call_def split: option.splits if_splits)

lemma wp_send:
  assumes u: "undisturbed w rid" and a: "account w rid (Some (Held h)) s" "pr_stub s = Some name" "pr_sent s = []"
    "pr_reservation s = Reservation_resolved" "leased rid s"
  shows "wp (send_upstream w name rid client ik body rd pool policy b q) (answered w rid) (\<lambda>_. failing w rid) s"
proof -
  let ?s = "s\<lparr>pr_attempted := True\<rparr>" and ?r = "error_answer w (errInternal rid None None)"
  let ?call = "upstream_call w (if nr_endpoint rd = Endpoint_chat then ''/chat/completions'' else ''/responses'')
    (buildUpstreamBody (nr_endpoint rd) body (maxOutputTokens b))
    \<lparr>um_client_id = client, um_pool = toPoolLower pool, um_request_id = rid\<rparr>
    (if p_cacheEnabled policy then Some (''octg:'' @ client) else None) ik"
  have s: "account w rid (Some (Held h)) ?s" "pr_stub ?s = Some name" "pr_sent ?s = []" using a by simp_all
  show ?thesis
  proof (cases ?call)
    case (Inl e)
    have "wp (px_then (stub_release w name rid) (px_return ())) (\<lambda>_. wp (px_then px_unreserved (px_then (px_end_lease w name rid) (px_return ())))
        (\<lambda>_. answered w rid ?r) (\<lambda>_. failing w rid)) (\<lambda>_. failing w rid) ?s"
      by (rule wp_given_back[OF u s]) (rule wp_last_steps[OF u, where r = ?r], use s in simp_all)
    then show ?thesis using upstream_call_error[OF Inl] by (simp add: send_upstream_def callUpstream_def Inl)
  next
    case (Inr request)
    let ?t = "?s\<lparr>pr_sent := [request]\<rparr>"
    have t: "account w rid (Some (Held h)) ?t" "pr_stub ?t = Some name" "length (pr_sent ?t) = 1" "pr_attempted ?t"
      "pr_reservation ?t = Reservation_resolved" "leased rid ?t" using a by simp_all
    have "wp (px_then (stub_markUncertain w name rid) (px_then px_unreserved (px_then (px_end_lease w name rid) (px_return ()))))
        (\<lambda>_. answered w rid ?r) (\<lambda>_. failing w rid) ?t"
      by (rule wp_doubtful[OF u t(1-5), where r = ?r]) simp_all
    moreover have "wp (handleCompletedUpstream w name rid (nr_stream rd) q x) (answered w rid) (\<lambda>_. failing w rid) ?t"
      if "pw_transport w request = Upstream_answers x" for x
      by (rule wp_completed[OF u t]) (use that in \<open>simp add: forwarded_def\<close>)
    ultimately show ?thesis
      by (cases "pw_transport w request") (simp_all add: send_upstream_def callUpstream_def Inr a(3) upstream_config_error_def)
  qed
qed

lemma wp_reserved:
  assumes u: "undisturbed w rid" and a: "account w rid (Some (Held h)) s" "pr_stub s = Some name" "pr_sent s = []"
    "pr_reservation s = Reservation_resolved" "\<not> pr_attempted s" "\<not> pr_reached s"
  shows "wp (with_reservation w name rid client ik body rd pool policy b q) (answered w rid) (\<lambda>_. failing w rid) s"
  unfolding with_reservation_def wp_simps(6)
proof (rule wp_lease_calls(1)[OF u a(1,2)])
  fix e p t
  assume s': "account w rid (Some (Held h)) (s\<lparr>pr_quotas := p, pr_turn := t\<rparr>)"
  let ?s = "s\<lparr>pr_quotas := p, pr_turn := t\<rparr>"
  show "failing w rid ?s" by (rule failingI[OF s']) (use a in simp_all)
  fix r :: acquire_result
  assume granted: "lease_granted rid r"
  show "wp (case r of
      Concurrency_exceeded \<Rightarrow> px_then (stub_release w name rid) (px_then px_unreserved
        (px_return (error_answer w (errWorkerConcurrencyExceeded q rid))))
    | Acquired l \<Rightarrow> px_then (px_set (\<lambda>s. s\<lparr>pr_acquired := True, pr_lease := Some l\<rparr>))
        (send_upstream w name rid client ik body rd pool policy b q)) (answered w rid) (\<lambda>_. failing w rid) ?s"
  proof (cases r)
    case Concurrency_exceeded
    have "wp (px_then (stub_release w name rid) (px_return ()))
        (\<lambda>_ s. answered w rid (error_answer w (errWorkerConcurrencyExceeded q rid)) (s\<lparr>pr_reservation := Reservation_none\<rparr>))
        (\<lambda>_. failing w rid) ?s"
      by (rule wp_given_back[OF u s']) (use a in \<open>auto intro!: closed_answered[where x = "Some Freed"]\<close>)
    then show ?thesis by (simp add: Concurrency_exceeded px_unreserved_def)
  next
    case (Acquired l)
    have "wp (send_upstream w name rid client ik body rd pool policy b q) (answered w rid) (\<lambda>_. failing w rid)
        (?s\<lparr>pr_acquired := True, pr_lease := Some l\<rparr>)"
      by (rule wp_send[OF u]) (use a s' granted in \<open>simp_all add: Acquired lease_granted_def leased_def\<close>)
    then show ?thesis by (simp add: Acquired)
  qed
qed

text \<open>What a reservation leaves: the tokens held when it is accepted, nothing when it is refused, and either when the answers were lost.\<close>

definition reserved_as :: "proxy_world \<Rightarrow> int \<Rightarrow> reserve_outcome \<Rightarrow> abs_request option \<Rightarrow> bool" where
  "reserved_as w n outcome y \<longleftrightarrow>
     (case outcome of
        Reserve_resolved (Reserve_ok _ _) \<Rightarrow> y = Some (Held n)
      | _ \<Rightarrow> y = None \<or> y = Some (Held n) \<and> \<not> calls_arrive w)"

definition reservation_of :: "reserve_outcome \<Rightarrow> reservation_state" where
  "reservation_of outcome =
     (case outcome of Reserve_unknown \<Rightarrow> Reservation_unknown | Reserve_resolved (Reserve_ok _ _) \<Rightarrow> Reservation_resolved
      | Reserve_resolved _ \<Rightarrow> Reservation_none)"

lemma wp_reserve_request:
  assumes u: "undisturbed w rid" and a: "account w rid None s" "pr_stub s = Some name"
    and q: "\<And>outcome y q t. account w rid y (s\<lparr>pr_quotas := q, pr_turn := t\<rparr>) \<Longrightarrow> reserved_as w (reservation b) outcome y \<Longrightarrow>
      Q outcome (s\<lparr>pr_quotas := q, pr_turn := t, pr_reservation := reservation_of outcome\<rparr>)"
  shows "wp (reserveRequest w name rid b ik client) Q E s"
proof -
  let ?n = "reservation b"
  let ?Q = "\<lambda>outcome s. Q outcome (s\<lparr>pr_reservation := reservation_of outcome\<rparr>)"
  let ?call = "stub_reserve w name rid ?n (upperBound b) ik client"
  have again: "wp ?call (\<lambda>r. ?Q (Reserve_resolved r)) (\<lambda>_. ?Q Reserve_unknown) (s\<lparr>pr_quotas := p, pr_turn := t\<rparr>)"
    if s': "account w rid y (s\<lparr>pr_quotas := p, pr_turn := t\<rparr>)" and y: "y = None \<or> y = Some (Held ?n) \<and> \<not> calls_arrive w" for y p t
  proof (rule wp_reserve[OF u s'])
    fix r y' e p' t'
    show "?Q (Reserve_resolved r) (s\<lparr>pr_quotas := p, pr_turn := t, pr_quotas := p', pr_turn := t'\<rparr>)"
      if "account w rid y' (s\<lparr>pr_quotas := p, pr_turn := t, pr_quotas := p', pr_turn := t'\<rparr>)"
        "y' = Some (Held ?n) \<and> (y = None \<longrightarrow> (\<exists>m ra. r = Reserve_ok m ra)) \<or> y' = None \<and> \<not> (\<exists>m ra. r = Reserve_ok m ra)"
      using q[where y = y' and q = p' and t = t' and outcome = "Reserve_resolved r"] that y by (cases r) (auto simp: reserved_as_def)
    show "?Q Reserve_unknown (s\<lparr>pr_quotas := p, pr_turn := t, pr_quotas := p', pr_turn := t'\<rparr>)"
      if "account w rid y' (s\<lparr>pr_quotas := p, pr_turn := t, pr_quotas := p', pr_turn := t'\<rparr>)"
        "y' = y \<or> y' = Some (Held ?n) \<and> \<not> calls_arrive w"
      using q[where y = y' and q = p' and t = t' and outcome = Reserve_unknown] that y by (auto simp: reserved_as_def)
  qed (use a y in auto)
  have "wp ?call (\<lambda>r. ?Q (Reserve_resolved r)) (\<lambda>_. wp ?call (\<lambda>r. ?Q (Reserve_resolved r)) (\<lambda>_. ?Q Reserve_unknown)) s"
  proof (rule wp_reserve[OF u a])
    fix r y p t
    show "?Q (Reserve_resolved r) (s\<lparr>pr_quotas := p, pr_turn := t\<rparr>)"
      if "account w rid y (s\<lparr>pr_quotas := p, pr_turn := t\<rparr>)"
        "y = Some (Held ?n) \<and> (None = None \<longrightarrow> (\<exists>m ra. r = Reserve_ok m ra)) \<or> y = None \<and> \<not> (\<exists>m ra. r = Reserve_ok m ra)"
      using q[where y = y and q = p and t = t and outcome = "Reserve_resolved r"] that by (cases r) (auto simp: reserved_as_def)
  qed (use again in auto)
  then show ?thesis
    by (simp add: reserveRequest_def reserveFailClosed_def reservation_of_def)
qed

lemma wp_unknown:
  assumes u: "undisturbed w rid" and a: "account w rid y s" "pr_stub s = Some name" "pr_sent s = []" "y = None \<or> \<not> calls_arrive w"
  shows "wp (rejectUnknownReservation w name rid q) (answered w rid) E s"
  unfolding rejectUnknownReservation_def wp_simps
  by (rule wp_mark_unknown[OF u a(1,2)]; rule answeredI) (use a(3,4) in auto)

text \<open>Before the reservation every answer is an error, and every throw leaves nothing to clear.\<close>

lemma untouched:
  assumes "account w rid None s" "pr_sent s = []"
  shows "failing w rid s" "answered w rid (error_answer w e) s"
  using assms by (auto intro!: failingI[OF assms(1)] answeredI[OF assms(1)])

lemma wp_after_reservation:
  assumes u: "undisturbed w rid" and a: "account w rid y s" "pr_stub s = Some name" "pr_sent s = []" "\<not> pr_attempted s" "\<not> pr_reached s"
    and r: "reserved_as w (reservation b) outcome y" "pr_reservation s = reservation_of outcome"
  shows "wp (after_reservation w name rid client ik body rd pool policy q b outcome) (answered w rid) (\<lambda>_. failing w rid) s"
proof (cases outcome)
  case Reserve_unknown
  have "wp (rejectUnknownReservation w name rid q) (answered w rid) (\<lambda>_. failing w rid) s"
    by (rule wp_unknown[OF u a(1-3)]) (use r in \<open>auto simp: reserved_as_def Reserve_unknown\<close>)
  then show ?thesis by (simp add: after_reservation_def Reserve_unknown)
next
  case (Reserve_resolved res)
  show ?thesis
  proof (cases "\<exists>m ra. res = Reserve_ok m ra")
    case True
    then have h: "y = Some (Held (reservation b))" "pr_reservation s = Reservation_resolved"
      using r by (auto simp: reserved_as_def reservation_of_def Reserve_resolved)
    have "wp (with_reservation w name rid client ik body rd pool policy b q) (answered w rid) (\<lambda>_. failing w rid) s"
      by (rule wp_reserved[OF u a(1)[unfolded h(1)] a(2,3) h(2) a(4,5)])
    then show ?thesis using True by (auto simp: after_reservation_def Reserve_resolved)
  next
    case False
    have "answered w rid (error_answer w (reserveFailureError rid q res)) s"
      by (rule answeredI[OF a(1)]) (use a r(1) False in \<open>cases res; auto simp: reserved_as_def Reserve_resolved\<close>)+
    then show ?thesis using False by (cases res) (auto simp: after_reservation_def Reserve_resolved)
  qed
qed

lemma wp_metered:
  assumes u: "undisturbed w rid" and a: "account w rid None s" "pr_stub s = Some name" "pr_sent s = []" "\<not> pr_attempted s" "\<not> pr_reached s"
  shows "wp (meter w name rid client ik body rd pool policy cfg) (answered w rid) (\<lambda>_. failing w rid) s"
  unfolding meter_def wp_simps
proof (rule wp_lease_calls(3)[OF u a(1,2)])
  fix before :: quota_view and e p t
  let ?s = "s\<lparr>pr_quotas := p, pr_turn := t\<rparr>"
  assume s': "account w rid None ?s"
  show fail: "failing w rid ?s" by (rule untouched[OF s']) (use a in simp)
  have err: "answered w rid (error_answer w e) ?s" for e by (rule untouched(2)[OF s']) (use a in simp)
  have "wp (reserveRequest w name rid b ik client) (\<lambda>outcome. wp (after_reservation w name rid client ik body rd pool policy q b outcome)
      (answered w rid) (\<lambda>_. failing w rid)) (\<lambda>_. failing w rid) ?s" for b q
    by (rule wp_reserve_request[OF u s']) (use a in \<open>auto intro!: wp_after_reservation[OF u]\<close>)
  then have "wp (meter_tokens w name rid client ik body rd pool policy cfg before q) (answered w rid) (\<lambda>_. failing w rid) ?s" for q
    using err by (auto simp: meter_tokens_def Let_def split: routed_outcome.split budget_outcome.split)
  then show "(case snapshotOf before of Inl e \<Rightarrow> (\<lambda>_. failing w rid) e
     | Inr q \<Rightarrow> wp (meter_tokens w name rid client ik body rd pool policy cfg before q) (answered w rid) (\<lambda>_. failing w rid)) ?s"
    using fail by (auto split: sum.split)
qed

lemma wp_tool_use:
  assumes u: "undisturbed w rid" and a: "account w rid None s" "pr_stub s = Some name" "pr_sent s = []"
  shows "wp (px_bind (stub_getState w name) (\<lambda>state. px_bind (px_of (snapshotOf state)) (\<lambda>q.
      px_return (error_answer w (errModelNotAllowed rid (Some q)))))) (answered w rid) (\<lambda>_. failing w rid) s"
  unfolding wp_simps
  by (rule wp_lease_calls(3)[OF u a(1,2)]) (use a(3) in \<open>auto intro!: untouched split: sum.split\<close>)

lemma wp_admitted:
  assumes u: "undisturbed w rid" and a: "account w rid None s" "pr_stub s = None" "pr_sent s = []" "\<not> pr_attempted s" "\<not> pr_reached s"
  shows "wp (admit_body w rid client ik ep body mx cfg) (answered w rid) (\<lambda>_. failing w rid) s"
proof (cases "if ep = Endpoint_chat then normalizeChatCompletions (pw_number_text w) body mx else normalizeResponses (pw_number_text w) body mx")
  case (Inl e)
  then show ?thesis using untouched(2)[OF a(1,3)] by (simp add: admit_body_def)
next
  case (Inr rd)
  note run = admit_body_def[of w rid client ik ep body mx cfg, unfolded Inr sum.case]
  have registry_fails: ?thesis if "loadRegistry (ge_registry (pw_env w)) (pw_now w) (pr_caches s) = Inl e" for e
    unfolding run using that untouched(1)[OF a(1,3)] by simp
  have admitted: ?thesis if l: "loadRegistry (ge_registry (pw_env w)) (pw_now w) (pr_caches s) = Inr (registry, c1)" for registry c1
  proof (cases "classifyModel (nr_model rd) registry")
    case No_pool
    then show ?thesis unfolding run using l untouched(2)[of w rid "s\<lparr>pr_caches := c1\<rparr>"] a by simp
  next
    case (Complimentary pool)
    let ?name = "quotaIdOf pool (utc_day_of (pw_now w))"
    define t where "t c = s\<lparr>pr_caches := c, pr_stub := Some ?name\<rparr>" for c
    have t: "account w rid None (t c)" "pr_stub (t c) = Some ?name" "pr_sent (t c) = []" "\<not> pr_attempted (t c)" "\<not> pr_reached (t c)" for c
      using a by (simp_all add: account_def t_def)
    have t_swap: "t c = s\<lparr>pr_stub := Some ?name, pr_caches := c\<rparr>" for c by (simp add: t_def)
    show ?thesis
    proof (cases "loadPolicy (ge_policies (pw_env w)) client (pw_now w) c1")
      case (Inl e)
      then show ?thesis unfolding run using l Complimentary untouched(1)[OF t(1,3)] by (simp add: Let_def t_def)
    next
      case (Inr pc)
      obtain policy c2 where pc: "pc = (policy, c2)" by fastforce
      show ?thesis
        unfolding run using l Complimentary Inr pc wp_tool_use[OF u t(1-3)] wp_metered[OF u t]
        by (simp add: Let_def t_swap)
    qed
  qed
  show ?thesis
    using registry_fails admitted by (cases "loadRegistry (ge_registry (pw_env w)) (pw_now w) (pr_caches s)") auto
qed

text \<open>The other routes leave the request untouched.\<close>

definition handled :: "proxy_world \<Rightarrow> string \<Rightarrow> octg_response option \<Rightarrow> proxy_run \<Rightarrow> bool" where
  "handled w rid r s \<longleftrightarrow> (case r of None \<Rightarrow> account w rid None s \<and> pr_sent s = [] | Some a \<Rightarrow> answered w rid a s)"

lemma handled_simps [simp]:
  "handled w rid None s \<longleftrightarrow> account w rid None s \<and> pr_sent s = []" "handled w rid (Some a) s = answered w rid a s"
  by (simp_all add: handled_def)

lemma wp_main:
  assumes u: "undisturbed w rid" and a: "account w rid None s" "pr_stub s = None" "pr_sent s = []" "\<not> pr_attempted s" "\<not> pr_reached s"
  shows "wp (proxy_main w ep rid request) (handled w rid) (\<lambda>_. failing w rid) s"
proof -
  note e = untouched[OF a(1,3)]
  have "wp (route_request w ep rid client ik request) (handled w rid) (\<lambda>_. failing w rid) s" for client ik
    using e a(1,3) wp_admitted[OF u a] by (auto simp: route_request_def Let_def split: sum.split body_result.split)
  then show ?thesis
    using e a(1,3) by (auto simp: proxy_main_def Let_def split: sum.split endpoint.split relay_config.split)
qed

text \<open>A run starts with the stores and the configuration caches.\<close>

definition px_start :: "quotas \<Rightarrow> config_caches \<Rightarrow> proxy_run" where
  "px_start quotas caches =
     \<lparr>pr_quotas = quotas, pr_turn = 0, pr_caches = caches, pr_stub = None, pr_reservation = Reservation_none, pr_attempted = False,
      pr_reached = False, pr_acquired = False, pr_lease = None, pr_sent = []\<rparr>"

definition new_request :: "proxy_world \<Rightarrow> string \<Rightarrow> quotas \<Rightarrow> bool" where
  "new_request w rid quotas \<longleftrightarrow> quotas_reachable (pw_sha256 w) quotas \<and> (\<forall>n. look (quotas n) rid = None)"

lemma proxy_handled:
  assumes "undisturbed w rid" "new_request w rid quotas" "handleProxy w ep rid request (px_start quotas caches) = (r, s)"
  obtains a where "r = Inr a" "handled w rid a s"
proof -
  have start: "account w rid None (px_start quotas caches)" using assms(2) by (simp add: account_def new_request_def px_start_def)
  have "wp (handleProxy w ep rid request) (handled w rid) (\<lambda>_ _. False) (px_start quotas caches)"
    unfolding handleProxy_def wp_simps
    by (rule wp_mono[OF wp_main[OF assms(1) start]])
      (auto simp: px_start_def intro!: wp_failed[OF assms(1), THEN wp_mono])
  then show thesis using assms(3) that by (auto simp: wp_def split: sum.splits)
qed

end
