(* ===== verification/Proxy_Samples.thy ===== *)
theory Proxy_Samples
  imports Proxy_Steps Gateway_Samples
begin

section \<open>Proxy_Samples: one metered request\<close>

text \<open>A request for chat completions at the gateway of Gateway_Samples, without the relay, and the answer of upstream.\<close>

definition px_text :: string where
  "px_text = ''{\"model\":\"gpt-5\",\"max_tokens\":10,\"messages\":[{\"role\":\"user\",\"content\":\"hi\"}]}''"

definition px_answer :: string where
  "px_answer = ''{\"usage\":{\"total_tokens\":25}}''"

definition px_deno_env :: deno_env where
  "px_deno_env = \<lparr>DENO_MAX_INPUT_BYTES = None, DENO_TOKENIZER_ENDPOINT = None, DENO_TOKENIZER_AUTH_TOKEN = None,
     DENO_TOKENIZER_THRESHOLD_BYTES = None, DENO_TOKENIZER_TIMEOUT_MS = None, DENO_PREPARE_ENDPOINT = None, DENO_PREPARE_THRESHOLD_BYTES = None\<rparr>"

definition px_world :: proxy_world where
  "px_world =
     \<lparr>pw_sha256 = (\<lambda>_. []), pw_hmac = (\<lambda>_ _. ''mac''), pw_new_url = gw_new_url, pw_number_text = (\<lambda>_. []), pw_decode = (\<lambda>t. t),
      pw_env = gw_env, pw_deno_env = px_deno_env, pw_pepper = ''pepper'',
      pw_clients = (\<lambda>_. Inr (Some \<lparr>cl_id = ''client'', cl_name = ''A client'', cl_enabled = True\<rparr>)),
      pw_lease_ttl = None, pw_upstream_token = Some ''token'', pw_upstream_url = Some ''https://up.example/openai'', pw_version = None,
      pw_now = 1500, pw_turns = (\<lambda>_. \<lparr>tn_fate = Delivered, tn_now = 1500, tn_uuid = rt_generation gw_runtime, tn_between = (\<lambda>q. q)\<rparr>),
      pw_tokenizer = (\<lambda>_. Inr (JObj [(''estimatedInputTokens'', JNum (JsInt 20)), (''estimationPath'', JStr ''exact_bpe'')])),
      pw_deno = (\<lambda>_ _. Deno_unavailable),
      pw_transport = (\<lambda>_. Upstream_answers \<lparr>ua_status = 200, ua_content_type = None, ua_text = Some px_answer\<rparr>)\<rparr>"

definition px_request :: proxy_request where
  "px_request = \<lparr>rx_authorization = Some ''Bearer octg_sk_1'', rx_idempotency_key = None, rx_content_length = None, rx_body = Some [px_text],
     rx_body_fails = False\<rparr>"

definition px_id :: quota_identity where "px_id = \<lparr>i_pool = STANDARD, i_utcDay = ''1970-01-01''\<rparr>"

definition px_rid :: string where "px_rid = ''req_01ARZ3NDEKTSV4RRFFQ69G5FAV''"

definition px_lease :: in_flight_lease where
  "px_lease = \<lparr>l_requestId = px_rid, l_generation = rt_generation gw_runtime, l_expiresAtMs = 121500\<rparr>"

text \<open>The store after the reservation, the lease, the settlement and the end of the lease.\<close>

definition px_results :: rpc_results where
  "px_results = \<lparr>res_reserve = Some (Reserve_ok 1714 ''1970-01-02T00:00:00Z''), res_settle = None, res_markUncertain = None,
     res_markReserveOutcomeUnknown = None, res_release = None, res_reconcile = None\<rparr>"

definition px_entry :: request_entry where
  "px_entry = \<lparr>e_idempotencyKey = None, e_state = Req_reserved, e_tokens = 286, e_upperBoundTokens = 542, e_reservedTokens = 286,
     e_requestedDisposition = None, e_uncertaintyOrigin = None, e_actualTokens = None, e_results = px_results,
     e_createdAt = ''1970-01-01T00:00:01.500Z'', e_updatedAt = ''1970-01-01T00:00:01.500Z''\<rparr>"

definition px_s1 :: quota_store where
  "px_s1 = empty_store\<lparr>st_pool := Some \<lparr>utcDay = ''1970-01-01'', limit = 2000, confirmedTokens = 0, reservedTokens = 286,
       uncertainTokens = 0, requestCount = 1, updatedAt = ''1970-01-01T00:00:01.500Z''\<rparr>,
     st_entries := [(px_rid, px_entry)], st_unresolved := Some \<lparr>uncertainCount = 0, reservedCount = 1\<rparr>\<rparr>"

definition px_s2 :: quota_store where
  "px_s2 = px_s1\<lparr>st_in_flight := Some (Lease_state [px_lease])\<rparr>"

definition px_s3 :: quota_store where
  "px_s3 = px_s2\<lparr>st_pool := Some \<lparr>utcDay = ''1970-01-01'', limit = 2000, confirmedTokens = 25, reservedTokens = 0,
       uncertainTokens = 0, requestCount = 1, updatedAt = ''1970-01-01T00:00:01.500Z''\<rparr>,
     st_entries := [(px_rid, px_entry\<lparr>e_state := Req_settled, e_actualTokens := Some 25,
       e_results := px_results\<lparr>res_settle := Some Ok_result\<rparr>\<rparr>)],
     st_unresolved := Some \<lparr>uncertainCount = 0, reservedCount = 0\<rparr>\<rparr>"

definition px_s4 :: quota_store where
  "px_s4 = px_s3\<lparr>st_in_flight := Some (Lease_state [])\<rparr>"

definition px_body :: json where
  "px_body = JObj [(''model'', JStr ''gpt-5''), (''max_tokens'', JNum (JsInt 10)),
     (''messages'', JArr [JObj [(''role'', JStr ''user''), (''content'', JStr ''hi'')]])]"
definition px_data :: normalized_request where
  "px_data = \<lparr>nr_endpoint = Endpoint_chat, nr_model = ''gpt-5'', nr_inputText = ''hi'', nr_inputTextBytes = 2, nr_inputBytes = 2,
     nr_messageCount = 1, nr_maxOutputTokens = 10, nr_stream = False, nr_isToolUse = False, nr_opaqueInputBytes = 0\<rparr>"

definition px_name :: string where "px_name = quotaIdOf STANDARD ''1970-01-01''"

lemma px_ingress:
  "authenticate px_world (Some ''Bearer octg_sk_1'') rid = Inr (Inr ''client'')"
  "parseIdempotencyKey None = Key_absent"
  "resolveDenoRuntimeConfig gw_new_url px_deno_env = (Deno_disabled 1048576, Deno_disabled 1048576)"
  "resolveMaxInputBytes None = 1048576" "parseDeclaredContentLength None = Length_absent"
  "readJsonBody (\<lambda>t. t) None (Some [px_text]) False 1048576 = Inr (Body_read px_body)"
  "normalizeChatCompletions (\<lambda>_. []) px_body 1048576 = Inr px_data"
  by code_simp+

lemma px_reserved:
  "reserve gw_quota_env px_id 1500 px_rid (JsInt 286) (JsInt 542) None (Some ''client'') empty_store =
     Inr (Reserve_ok 1714 ''1970-01-02T00:00:00Z'', px_s1)"
  by code_simp

lemma px_acquired:
  "acquireInFlightLease 1500 (rt_generation gw_runtime) px_rid (JsInt 2) (JsInt 120000) px_s1 = Inr (Acquired px_lease, px_s2)"
  by code_simp

lemma px_settled:
  "settle gw_quota_env px_id 1500 px_rid (JsInt 25) px_s2 = Inr (Ok_result, px_s3)"
  by code_simp

lemma px_lease_ended:
  "releaseInFlightLease 1500 px_rid (Some (rt_generation gw_runtime)) px_s3 = Inr (Lease_release True, px_s4)"
  by code_simp

lemma px_spent: "look px_s4 px_rid = Some (Spent 25 286)"
  by code_simp

lemmas px_calls = px_reserved px_acquired px_settled px_lease_ended

lemma px_answer_read:
  "json_parse px_answer = Some (JObj [(''usage'', JObj [(''total_tokens'', JNum (JsInt 25))])])"
  "total_tokens (Some (JObj [(''total_tokens'', JNum (JsInt 25))])) = Some (JsInt 25)"
  by code_simp+

lemma wp_px_stub:
  "wp (px_stub px_world px_name op) Q E s = (case op 1500 (rt_generation gw_runtime) px_id (pr_quotas s px_name) of
     Inl e \<Rightarrow> E e (s\<lparr>pr_turn := Suc (pr_turn s)\<rparr>)
   | Inr (a, st) \<Rightarrow> Q a (s\<lparr>pr_quotas := (pr_quotas s)(px_name := st), pr_turn := Suc (pr_turn s)\<rparr>))"
  by (simp add: wp_def px_stub_def px_world_def stub_call_def px_name_def gw_day px_id_def and_then_def split: sum.split prod.split)

lemma px_fields:
  "pw_now px_world = 1500" "pw_env px_world = gw_env" "pw_new_url px_world = gw_new_url" "pw_deno_env px_world = px_deno_env"
  "pw_number_text px_world = (\<lambda>_. [])" "pw_decode px_world = (\<lambda>t. t)" "pw_lease_ttl px_world = None"
  "pw_transport px_world = (\<lambda>_. Upstream_answers \<lparr>ua_status = 200, ua_content_type = None, ua_text = Some px_answer\<rparr>)"
  "DENO_MAX_INPUT_BYTES px_deno_env = None" "rx_authorization px_request = Some ''Bearer octg_sk_1''" "rx_idempotency_key px_request = None"
  "rx_content_length px_request = None" "rx_body px_request = Some [px_text]" "\<not> rx_body_fails px_request"
  "ge_quota gw_env = gw_quota_env" "ge_policies gw_env = (\<lambda>_. Inr None)"
  "nr_endpoint px_data = Endpoint_chat" "nr_model px_data = ''gpt-5''" "nr_isToolUse px_data = False" "nr_stream px_data = False"
  "nr_maxOutputTokens px_data = 10"
  by (simp_all add: px_world_def px_deno_env_def px_request_def gw_env_def px_data_def)

lemmas px_stubs = stub_getState_def stub_reserve_def stub_settle_def stub_acquireInFlight_def stub_releaseInFlight_def wp_px_stub

definition px_done :: "octg_response \<Rightarrow> proxy_run \<Rightarrow> bool" where
  "px_done r s \<longleftrightarrow> os_body r = Body_text px_answer \<and> length (pr_sent s) = 1 \<and> pr_stub s = Some px_name \<and>
     look (pr_quotas s px_name) px_rid = Some (Spent 25 286)"

lemma px_completed:
  assumes "pr_quotas s px_name = px_s2" "pr_lease s = Some px_lease"
    "length (pr_sent s) = 1" "pr_stub s = Some px_name"
  shows "wp (handleCompletedUpstream px_world px_name px_rid False q \<lparr>ua_status = 200, ua_content_type = None, ua_text = Some px_answer\<rparr>)
    px_done (\<lambda>_ _. False) s"
proof -
  have "l_generation px_lease = rt_generation gw_runtime" by (simp add: px_lease_def)
  then show ?thesis
    using assms by (simp add: px_spent handleCompletedUpstream_def Let_def px_done_def px_answer_read px_unreserved_def px_end_lease_def
      px_stubs px_fields px_calls)
qed

text \<open>The same request with a streamed answer.\<close>

definition px_stream_text :: string where
  "px_stream_text = ''{\"model\":\"gpt-5\",\"max_tokens\":10,\"stream\":true,\"messages\":[{\"role\":\"user\",\"content\":\"hi\"}]}''"

definition px_stream_body :: json where
  "px_stream_body = JObj [(''model'', JStr ''gpt-5''), (''max_tokens'', JNum (JsInt 10)), (''stream'', JBool True),
     (''messages'', JArr [JObj [(''role'', JStr ''user''), (''content'', JStr ''hi'')]])]"

definition px_streaming :: "octg_response \<Rightarrow> proxy_run \<Rightarrow> bool" where
  "px_streaming r s \<longleftrightarrow> os_body r = Body_stream \<and> pr_stub s = Some px_name \<and> pr_lease s = Some px_lease"

lemma px_streamed:
  assumes "pr_lease s = Some px_lease" "pr_stub s = Some px_name"
  shows "wp (handleCompletedUpstream px_world px_name px_rid True q \<lparr>ua_status = 200, ua_content_type = None, ua_text = Some px_answer\<rparr>)
    px_streaming (\<lambda>_ _. False) s"
  using assms by (simp add: handleCompletedUpstream_def px_streaming_def octg_answer_def)

lemma px_stream_ingress:
  "readJsonBody (\<lambda>t. t) None (Some [px_stream_text]) False 1048576 = Inr (Body_read px_stream_body)"
  "normalizeChatCompletions (\<lambda>_. []) px_stream_body 1048576 = Inr (px_data\<lparr>nr_stream := True\<rparr>)"
  by code_simp+

lemma px_call:
  "\<exists>request. upstream_call px_world ''/chat/completions'' body m None None = Inr request"
  by (simp add: upstream_call_def px_world_def present_string_def ends_with_def)

text \<open>The run up to the answer of upstream, for both.\<close>

definition px_then_answered :: "bool \<Rightarrow> (octg_response \<Rightarrow> proxy_run \<Rightarrow> bool) \<Rightarrow> bool" where
  "px_then_answered b Q \<longleftrightarrow> (\<forall>s q. pr_quotas s px_name = px_s2 \<and> pr_lease s = Some px_lease \<and> length (pr_sent s) = 1 \<and> pr_stub s = Some px_name \<longrightarrow>
     wp (handleCompletedUpstream px_world px_name px_rid b q \<lparr>ua_status = 200, ua_content_type = None, ua_text = Some px_answer\<rparr>) Q (\<lambda>_ _. False) s)"

lemma px_sent:
  assumes "pr_quotas s px_name = px_s2" "pr_lease s = Some px_lease"
    "pr_sent s = []" "pr_stub s = Some px_name" "p_cacheEnabled policy = False" "px_then_answered b Q"
  shows "wp (send_upstream px_world px_name px_rid ''client'' None body (px_data\<lparr>nr_stream := b\<rparr>) STANDARD policy bt q) Q (\<lambda>_ _. False) s"
proof -
  let ?m = "\<lparr>um_client_id = ''client'', um_pool = toPoolLower STANDARD, um_request_id = px_rid\<rparr>"
  obtain request where "upstream_call px_world ''/chat/completions'' (buildUpstreamBody Endpoint_chat body (maxOutputTokens bt)) ?m None None = Inr request"
    using px_call by blast
  then show ?thesis
    using assms by (simp add: send_upstream_def callUpstream_def px_fields px_then_answered_def)
qed

lemma px_limits: "resolveMaxInFlightRequests (Some ''2'') = 2" "resolveInFlightLeaseTtlMs None = 120000"
  by code_simp+

lemma px_metered:
  assumes "pr_quotas s = (\<lambda>_. empty_store)" "pr_sent s = []" "pr_stub s = Some px_name" "px_then_answered b Q"
  shows "wp (meter px_world px_name px_rid ''client'' None body (px_data\<lparr>nr_stream := b\<rparr>) STANDARD DEFAULT_CLIENT_POLICY (Deno_disabled 1048576))
    Q (\<lambda>_ _. False) s"
proof -
  have route: "routeTokenization (Deno_disabled 1048576) (pw_tokenizer px_world) (pw_deno px_world) (tokenize_request_of px_rid px_data) (Some 2)
      = Routed_resolved Cloudflare_do \<lparr>tr_estimatedInputTokens = 20, tr_estimationPath = Exact_bpe\<rparr>"
    by code_simp
  let ?view = "\<lparr>qv_state = loadPool empty_store gw_quota_env px_id 1500, qv_pool = STANDARD, qv_remaining = 2000\<rparr>"
  have seen: "getState (Some px_name) gw_quota_env 1500 empty_store = Inr ?view" "limit (loadPool empty_store gw_quota_env px_id 1500) = 2000"
    using gw_seen by (simp_all add: px_name_def px_id_def)
  obtain q where q: "snapshotOf ?view = Inr q"
    by (auto simp: snapshotOf_def gw_day px_id_def store_eval and_then_def)
  have b: "resolveTokenBudget (proxy_budget_arguments 20 px_data ?view DEFAULT_CLIENT_POLICY) = Resolved gw_budget"
    using gw_budget_resolved by (simp add: proxy_budget_arguments_def px_fields seen(2) DEFAULT_CLIENT_POLICY_def)
  have d: "tokenize_request_of px_rid (px_data\<lparr>nr_stream := b\<rparr>) = tokenize_request_of px_rid px_data"
    "proxy_budget_arguments n (px_data\<lparr>nr_stream := b\<rparr>) v p = proxy_budget_arguments n px_data v p" for n v p
    by (simp_all add: tokenize_request_of_def proxy_budget_arguments_def)
  have c: "p_cacheEnabled DEFAULT_CLIENT_POLICY = False" "reservation gw_budget = 286" "upperBound gw_budget = 542" "nr_inputTextBytes px_data = 2"
    by (simp_all add: DEFAULT_CLIENT_POLICY_def gw_budget_def px_data_def)
  show ?thesis
    using assms
    by (simp add: meter_def meter_tokens_def Let_def px_stubs px_fields seen q route b c d reserveRequest_def reserveFailClosed_def px_calls
        after_reservation_def with_reservation_def gw_quota_fields px_limits px_sent and_then_def)
qed

lemma px_run_to:
  assumes "readJsonBody (\<lambda>t. t) None (Some [t]) False 1048576 = Inr (Body_read body)"
    "normalizeChatCompletions (\<lambda>_. []) body 1048576 = Inr (px_data\<lparr>nr_stream := b\<rparr>)" "px_then_answered b Q"
  shows "wp (handleProxy px_world Endpoint_chat px_rid (px_request\<lparr>rx_body := Some [t]\<rparr>)) (\<lambda>a s. \<exists>r. a = Some r \<and> Q r s) (\<lambda>_ _. False)
    (px_start (\<lambda>_. empty_store) \<lparr>registryCache = None, policyCache = []\<rparr>)"
proof -
  let ?s = "px_start (\<lambda>_. empty_store) \<lparr>registryCache = None, policyCache = []\<rparr>" and ?request = "px_request\<lparr>rx_body := Some [t]\<rparr>"
  have m: "min 1048576 MAX_INPUT_TEXT_BYTES = 1048576" by code_simp
  have s: "pr_quotas ?s = (\<lambda>_. empty_store)" "pr_sent ?s = []" "pr_caches ?s = \<lparr>registryCache = None, policyCache = []\<rparr>"
    by (simp_all add: px_start_def)
  obtain registry c1 where l: "loadRegistry (ge_registry gw_env) 1500 \<lparr>registryCache = None, policyCache = []\<rparr> = Inr (registry, c1)"
    "classifyModel ''gpt-5'' registry = Complimentary STANDARD" "policyCache c1 = []"
    by (simp add: gw_env_def loadRegistry_def listRegistryRows_def registry_map_def and_then_def classifyModel_def)
  obtain c2 where p: "loadPolicy (\<lambda>_. Inr None) ''client'' 1500 c1 = Inr (DEFAULT_CLIENT_POLICY, c2)"
    using l(3) by (auto simp: loadPolicy_def policy_of_row_def and_then_def)
  have run: "wp (admit_body px_world px_rid ''client'' None Endpoint_chat body 1048576 (Deno_disabled 1048576)) Q (\<lambda>_ _. False) ?s"
    using l p s assms(2,3) by (simp add: admit_body_def px_fields gw_day Let_def px_name_def[symmetric] px_metered)
  have "wp (route_request px_world Endpoint_chat px_rid ''client'' None ?request) (\<lambda>a s. \<exists>r. a = Some r \<and> Q r s) (\<lambda>_ _. False) ?s"
    using run assms(1) by (simp add: route_request_def px_fields px_ingress m deno_invalid_def use_prepare_def Let_def)
  then have "wp (proxy_main px_world Endpoint_chat px_rid ?request) (\<lambda>a s. \<exists>r. a = Some r \<and> Q r s) (\<lambda>_ _. False) ?s"
    by (simp add: proxy_main_def px_fields px_ingress)
  then show ?thesis unfolding handleProxy_def wp_simps by (rule wp_mono) simp_all
qed

lemma px_run:
  "wp (handleProxy px_world Endpoint_chat px_rid px_request) (\<lambda>a s. \<exists>r. a = Some r \<and> px_done r s) (\<lambda>_ _. False)
    (px_start (\<lambda>_. empty_store) \<lparr>registryCache = None, policyCache = []\<rparr>)"
proof -
  have "px_request\<lparr>rx_body := Some [px_text]\<rparr> = px_request" "px_data\<lparr>nr_stream := False\<rparr> = px_data" "px_then_answered False px_done"
    by (simp_all add: px_request_def px_data_def px_then_answered_def px_completed)
  then show ?thesis using px_run_to[of px_text px_body False px_done] px_ingress(6,7) by simp
qed

lemma px_stream_run:
  "wp (handleProxy px_world Endpoint_chat px_rid (px_request\<lparr>rx_body := Some [px_stream_text]\<rparr>)) (\<lambda>a s. \<exists>r. a = Some r \<and> px_streaming r s)
    (\<lambda>_ _. False) (px_start (\<lambda>_. empty_store) \<lparr>registryCache = None, policyCache = []\<rparr>)"
  by (rule px_run_to[OF px_stream_ingress]) (simp add: px_then_answered_def px_streamed)

end
