(* ===== verification/Proxy_Leases.thy ===== *)
theory Proxy_Leases
  imports Proxy_Steps
begin

section \<open>Proxy_Leases: the in-flight lease of a metered request\<close>

text \<open>
  The lease of a request through the steps of the handler, when no call is lost: the only controller that may have a lease
  of the request is the one that the run uses, and only while the run knows the lease and has marked it as acquired.
  The steps end it before every answer, other than a stream, which takes it over.
\<close>

subsection \<open>What a run knows of the lease\<close>

text \<open>What other requests do between two calls never makes or changes a lease of this request.\<close>

definition leases_undisturbed :: "proxy_world \<Rightarrow> string \<Rightarrow> bool" where
  "leases_undisturbed w rid \<longleftrightarrow> (\<forall>t quotas n. quotas_reachable (pw_sha256 w) quotas \<longrightarrow>
     leases_for rid (tn_between (pw_turns w t) quotas n) \<in> {[], leases_for rid (quotas n)})"

definition lease_free :: "string \<Rightarrow> proxy_run \<Rightarrow> bool" where
  "lease_free rid s \<longleftrightarrow> (\<forall>n. leases_for rid (pr_quotas s n) = [])"

definition lease_kept :: "proxy_world \<Rightarrow> string \<Rightarrow> proxy_run \<Rightarrow> bool" where
  "lease_kept w rid s \<longleftrightarrow> quotas_reachable (pw_sha256 w) (pr_quotas s) \<and>
     (\<forall>n. leases_for rid (pr_quotas s n) = [] \<or>
        pr_stub s = Some n \<and> pr_acquired s \<and> (\<exists>l. pr_lease s = Some l \<and> leases_for rid (pr_quotas s n) = [l]))"

lemma lease_kept_fields [simp]:
  "lease_kept w rid (s\<lparr>pr_turn := t\<rparr>) = lease_kept w rid s" "lease_kept w rid (s\<lparr>pr_caches := c\<rparr>) = lease_kept w rid s"
  "lease_kept w rid (s\<lparr>pr_reservation := r\<rparr>) = lease_kept w rid s" "lease_kept w rid (s\<lparr>pr_attempted := b\<rparr>) = lease_kept w rid s"
  "lease_kept w rid (s\<lparr>pr_reached := b\<rparr>) = lease_kept w rid s" "lease_kept w rid (s\<lparr>pr_sent := us\<rparr>) = lease_kept w rid s"
  by (simp_all add: lease_kept_def)

lemma lease_free_fields [simp]:
  "lease_free rid (s\<lparr>pr_turn := t\<rparr>) = lease_free rid s" "lease_free rid (s\<lparr>pr_reservation := r\<rparr>) = lease_free rid s"
  "lease_free rid (s\<lparr>pr_acquired := b\<rparr>) = lease_free rid s" "lease_free rid (s\<lparr>pr_lease := l\<rparr>) = lease_free rid s"
  "lease_free rid (s\<lparr>pr_stub := n\<rparr>) = lease_free rid s" "lease_free rid (s\<lparr>pr_caches := c\<rparr>) = lease_free rid s"
  by (simp_all add: lease_free_def)

lemma lease_kept_free: "lease_kept w rid s \<Longrightarrow> \<not> pr_acquired s \<Longrightarrow> lease_free rid s"
  by (auto simp: lease_kept_def lease_free_def)

lemma lease_free_kept: "lease_free rid s \<Longrightarrow> quotas_reachable (pw_sha256 w) (pr_quotas s) \<Longrightarrow> lease_kept w rid s"
  by (auto simp: lease_kept_def lease_free_def)

lemma lease_kept_reachable: "lease_kept w rid s \<Longrightarrow> quotas_reachable (pw_sha256 w) (pr_quotas s)"
  by (simp add: lease_kept_def)

subsection \<open>The calls\<close>

text \<open>A call that arrives: what others did before it, and then the operation or what it throws.\<close>

lemma wp_arrived:
  assumes u: "undisturbed w rid" "leases_undisturbed w rid" "calls_arrive w" and k: "lease_kept w rid s"
    and op: "\<And>now uuid i st r st'. reachable (pw_sha256 w) (Some name) st \<Longrightarrow> identity_of (Some name) = Inr i \<Longrightarrow>
      op now uuid i st = Inr (r, st') \<Longrightarrow> reachable (pw_sha256 w) (Some name) st'"
    and q: "\<And>now uuid i r q st t. lease_kept w rid (s\<lparr>pr_quotas := q\<rparr>) \<Longrightarrow> op now uuid i (q name) = Inr (r, st) \<Longrightarrow>
      reachable (pw_sha256 w) (Some name) st \<Longrightarrow> Q r (s\<lparr>pr_quotas := q(name := st), pr_turn := t\<rparr>)"
    and e: "\<And>now uuid i e q t. lease_kept w rid (s\<lparr>pr_quotas := q\<rparr>) \<Longrightarrow>
      identity_of (Some name) = Inl e \<or> op now uuid i (q name) = Inl e \<Longrightarrow> E e (s\<lparr>pr_quotas := q, pr_turn := t\<rparr>)"
  shows "wp (px_stub w name op) Q E s"
proof -
  define t where "t = pw_turns w (pr_turn s)"
  define q0 where "q0 = tn_between t (pr_quotas s)"
  have k0: "lease_kept w rid (s\<lparr>pr_quotas := q0\<rparr>)"
    unfolding lease_kept_def
  proof (intro conjI allI)
    show "quotas_reachable (pw_sha256 w) (pr_quotas (s\<lparr>pr_quotas := q0\<rparr>))"
      using u(1) k by (simp add: undisturbed_def lease_kept_def q0_def t_def)
    fix n
    have "leases_for rid (q0 n) \<in> {[], leases_for rid (pr_quotas s n)}"
      using u(2) k by (simp add: leases_undisturbed_def lease_kept_def q0_def t_def)
    then show "leases_for rid (pr_quotas (s\<lparr>pr_quotas := q0\<rparr>) n) = [] \<or> pr_stub (s\<lparr>pr_quotas := q0\<rparr>) = Some n \<and>
        pr_acquired (s\<lparr>pr_quotas := q0\<rparr>) \<and> (\<exists>l. pr_lease (s\<lparr>pr_quotas := q0\<rparr>) = Some l \<and> leases_for rid (pr_quotas (s\<lparr>pr_quotas := q0\<rparr>) n) = [l])"
      using k by (auto simp: lease_kept_def)
  qed
  have r: "reachable (pw_sha256 w) (Some name) (q0 name)" using k0 by (simp add: lease_kept_def quotas_reachable_def)
  have f: "tn_fate t = Delivered" using u(3) by (simp add: calls_arrive_def t_def)
  show ?thesis
  proof (cases "identity_of (Some name)")
    case (Inl err)
    then show ?thesis using e[OF k0, of err] by (simp add: wp_def px_stub_def Let_def stub_call_def f flip: t_def q0_def)
  next
    case (Inr i)
    show ?thesis
    proof (cases "op (tn_now t) (tn_uuid t) i (q0 name)")
      case (Inl err)
      then show ?thesis using e[OF k0, of err] by (simp add: wp_def px_stub_def Let_def stub_call_def f Inr flip: t_def q0_def)
    next
      case o: (Inr p)
      obtain a st where p: "p = (a, st)" by fastforce
      show ?thesis
        using q[OF k0 o[unfolded p] op[OF r Inr o[unfolded p]]]
        by (simp add: wp_def px_stub_def Let_def stub_call_def f Inr o p flip: t_def q0_def)
    qed
  qed
qed

lemma lease_kept_store:
  assumes "lease_kept w rid (s\<lparr>pr_quotas := q\<rparr>)" "reachable (pw_sha256 w) (Some name) st" "leases_for rid st = leases_for rid (q name)"
  shows "lease_kept w rid (s\<lparr>pr_quotas := q(name := st), pr_turn := t\<rparr>)"
  using assms by (auto simp: lease_kept_def quotas_reachable_def)

text \<open>The calls that leave the leases alone.\<close>

lemma wp_same_leases:
  assumes "undisturbed w rid" "leases_undisturbed w rid" "calls_arrive w" "lease_kept w rid s"
    and "\<And>now uuid i st r st'. reachable (pw_sha256 w) (Some name) st \<Longrightarrow> identity_of (Some name) = Inr i \<Longrightarrow>
      op now uuid i st = Inr (r, st') \<Longrightarrow> reachable (pw_sha256 w) (Some name) st'"
    and "\<And>now uuid i st r st'. op now uuid i st = Inr (r, st') \<Longrightarrow> loadInFlight st' = loadInFlight st"
    and "\<And>r q t. lease_kept w rid (s\<lparr>pr_quotas := q, pr_turn := t\<rparr>) \<Longrightarrow> Q r (s\<lparr>pr_quotas := q, pr_turn := t\<rparr>)"
    and "\<And>e q t. lease_kept w rid (s\<lparr>pr_quotas := q, pr_turn := t\<rparr>) \<Longrightarrow> E e (s\<lparr>pr_quotas := q, pr_turn := t\<rparr>)"
  shows "wp (px_stub w name op) Q E s"
proof (rule wp_arrived[OF assms(1-5)])
  fix now uuid i r q st t
  assume k: "lease_kept w rid (s\<lparr>pr_quotas := q\<rparr>)" "op now uuid i (q name) = Inr (r, st)" "reachable (pw_sha256 w) (Some name) st"
  show "Q r (s\<lparr>pr_quotas := q(name := st), pr_turn := t\<rparr>)"
    by (rule assms(7)[OF lease_kept_store[OF k(1,3) same_leases[OF assms(6)[OF k(2)]]]])
qed (use assms(8) in simp_all)

lemma wp_calls_same_leases:
  assumes u: "undisturbed w rid" "leases_undisturbed w rid" "calls_arrive w" "lease_kept w rid s"
    and e: "\<And>e q t. lease_kept w rid (s\<lparr>pr_quotas := q, pr_turn := t\<rparr>) \<Longrightarrow> E e (s\<lparr>pr_quotas := q, pr_turn := t\<rparr>)"
  shows "(\<And>r q t. lease_kept w rid (s\<lparr>pr_quotas := q, pr_turn := t\<rparr>) \<Longrightarrow> Q1 r (s\<lparr>pr_quotas := q, pr_turn := t\<rparr>)) \<Longrightarrow> wp (stub_getState w name) Q1 E s"
    "(\<And>r q t. lease_kept w rid (s\<lparr>pr_quotas := q, pr_turn := t\<rparr>) \<Longrightarrow> Q2 r (s\<lparr>pr_quotas := q, pr_turn := t\<rparr>)) \<Longrightarrow>
      wp (stub_reserve w name r' n ub key client) Q2 E s"
    "(\<And>r q t. lease_kept w rid (s\<lparr>pr_quotas := q, pr_turn := t\<rparr>) \<Longrightarrow> Q3 r (s\<lparr>pr_quotas := q, pr_turn := t\<rparr>)) \<Longrightarrow> wp (stub_settle w name r' m) Q3 E s"
    "(\<And>r q t. lease_kept w rid (s\<lparr>pr_quotas := q, pr_turn := t\<rparr>) \<Longrightarrow> Q3 r (s\<lparr>pr_quotas := q, pr_turn := t\<rparr>)) \<Longrightarrow> wp (stub_markUncertain w name r') Q3 E s"
    "(\<And>r q t. lease_kept w rid (s\<lparr>pr_quotas := q, pr_turn := t\<rparr>) \<Longrightarrow> Q4 r (s\<lparr>pr_quotas := q, pr_turn := t\<rparr>)) \<Longrightarrow>
      wp (stub_markReserveOutcomeUnknown w name r') Q4 E s"
    "(\<And>r q t. lease_kept w rid (s\<lparr>pr_quotas := q, pr_turn := t\<rparr>) \<Longrightarrow> Q3 r (s\<lparr>pr_quotas := q, pr_turn := t\<rparr>)) \<Longrightarrow> wp (stub_release w name r') Q3 E s"
  unfolding stub_getState_def stub_reserve_def stub_settle_def stub_markUncertain_def stub_markReserveOutcomeUnknown_def stub_release_def
  by (rule wp_same_leases[OF u]; auto simp: and_then_Inr intro: e reserve_record(1) transition_record[THEN conjunct1]
      dest: reserve_keeps_leases settle_keeps_leases transitions_keep_leases)+

text \<open>A lease is made for a request that has none, and it is ended when it is the one that the run knows.\<close>

lemma wp_acquire:
  assumes u: "undisturbed w rid" "leases_undisturbed w rid" "calls_arrive w" "lease_kept w rid s" "\<not> pr_acquired s" "pr_stub s = Some name"
    and q: "\<And>l q t. lease_kept w rid (s\<lparr>pr_quotas := q, pr_turn := t, pr_acquired := True, pr_lease := Some l\<rparr>) \<Longrightarrow>
      Q (Acquired l) (s\<lparr>pr_quotas := q, pr_turn := t\<rparr>)"
    "\<And>q t. lease_kept w rid (s\<lparr>pr_quotas := q, pr_turn := t\<rparr>) \<Longrightarrow> Q Concurrency_exceeded (s\<lparr>pr_quotas := q, pr_turn := t\<rparr>)"
    and e: "\<And>e q t. lease_kept w rid (s\<lparr>pr_quotas := q, pr_turn := t\<rparr>) \<Longrightarrow> E e (s\<lparr>pr_quotas := q, pr_turn := t\<rparr>)"
  shows "wp (stub_acquireInFlight w name rid lm ttl) Q E s"
  unfolding stub_acquireInFlight_def
proof (rule wp_arrived[OF u(1-4)])
  fix now uuid i r q st t
  assume k: "lease_kept w rid (s\<lparr>pr_quotas := q\<rparr>)"
    and run: "acquireInFlightLease now uuid rid (JsInt lm) (JsInt ttl) (q name) = Inr (r, st)" and re: "reachable (pw_sha256 w) (Some name) st"
  have free: "leases_for rid (q n) = []" for n using lease_kept_free[OF k] u(5) by (simp add: lease_free_def)
  have "reachable (pw_sha256 w) (Some name) (q name)" using k by (simp add: lease_kept_def quotas_reachable_def)
  note l = acquired_leases[OF run reachable_readable[OF this] free]
  show "Q r (s\<lparr>pr_quotas := q(name := st), pr_turn := t\<rparr>)"
    using k re free l u(6) by (cases r) (auto simp: lease_kept_def quotas_reachable_def intro!: q)
qed (use e in \<open>auto intro: lease_record(1)[THEN conjunct1]\<close>)

lemma nameless_leases:
  assumes "reachable sha256 name st" "identity_of name = Inl e"
  shows "leases_for r st = []"
proof -
  have "loadInFlight st = Legacy_in_flight []" using assms(1)[unfolded reachable_def]
    by (induction rule: rtranclp_induct)
      (auto simp: empty_store_def loadInFlight_def finalize_transaction_def quota_rpc_def assms(2) Let_def elim!: quota_step.cases split: if_splits)
  then show ?thesis by (simp add: leases_for_def stored_leases_def)
qed

text \<open>The end of the lease that the run knows: afterwards the request has none, whether the call succeeds or throws.\<close>

lemma wp_end:
  assumes u: "undisturbed w rid" "leases_undisturbed w rid" "calls_arrive w" "lease_kept w rid s" "pr_stub s = Some name" "pr_lease s = Some l"
    and r: "r' = rid \<or> r' = l_requestId l"
    and q: "\<And>r q t. lease_free rid (s\<lparr>pr_quotas := q\<rparr>) \<Longrightarrow> Q r (s\<lparr>pr_quotas := q, pr_turn := t\<rparr>)"
    and e: "\<And>e q t. lease_free rid (s\<lparr>pr_quotas := q\<rparr>) \<Longrightarrow> lease_kept w rid (s\<lparr>pr_quotas := q\<rparr>) \<Longrightarrow> E e (s\<lparr>pr_quotas := q, pr_turn := t\<rparr>)"
  shows "wp (stub_releaseInFlight w name r' (l_generation l)) Q E s"
  unfolding stub_releaseInFlight_def
proof (rule wp_arrived[OF u(1-4)])
  show "reachable (pw_sha256 w) (Some name) st'" if "reachable (pw_sha256 w) (Some name) st" "identity_of (Some name) = Inr i"
    "releaseInFlightLease now r' (Some (l_generation l)) st = Inr (r, st')" for now uuid i st r st'
    using that(3) by (rule lease_record(2)[OF that(1,2), THEN conjunct1])
  fix now uuid i q t
  assume k: "lease_kept w rid (s\<lparr>pr_quotas := q\<rparr>)"
  have re: "reachable (pw_sha256 w) (Some name) (q name)" using k by (simp add: lease_kept_def quotas_reachable_def)
  note rd = reachable_readable[OF re]
  have other: "n \<noteq> name \<Longrightarrow> leases_for rid (q n) = []" for n using k u(5) by (auto simp: lease_kept_def)
  have own: "leases_for rid (q name) = [] \<or> leases_for rid (q name) = [l]" using k u(6) by (auto simp: lease_kept_def)
  have r': "r' = rid" if "leases_for rid (q name) = [l]"
  proof -
    have "l \<in> set (leases_for rid (q name))" using that by simp
    then show ?thesis using r by (auto simp: leases_for_def)
  qed
  show "Q r (s\<lparr>pr_quotas := q(name := st), pr_turn := t\<rparr>)"
    if run: "releaseInFlightLease now r' (Some (l_generation l)) (q name) = Inr (r, st)" for r st
  proof -
    have "leases_for rid st = []"
    proof (cases "leases_for rid (q name) = []")
      case True
      then show ?thesis by (rule released_free[OF run rd])
    next
      case False
      then have l: "leases_for rid (q name) = [l]" using own by simp
      show ?thesis by (rule released_leases[OF rd l, of now]) (use run r'[OF l] in simp)
    qed
    then have "lease_free rid (s\<lparr>pr_quotas := q(name := st)\<rparr>)" using other by (simp add: lease_free_def)
    then show ?thesis by (rule q)
  qed
  show "E e (s\<lparr>pr_quotas := q, pr_turn := t\<rparr>)"
    if err: "identity_of (Some name) = Inl e \<or> releaseInFlightLease now r' (Some (l_generation l)) (q name) = Inl e" for e
  proof -
    have "leases_for rid (q name) = []"
    proof (rule ccontr)
      assume "leases_for rid (q name) \<noteq> []"
      then have l: "leases_for rid (q name) = [l]" using own by simp
      then have "identity_of (Some name) \<noteq> Inl e" using nameless_leases[OF re] by auto
      then show False using err r'[OF l] by (auto intro: released_leases[OF rd l, of now])
    qed
    then have "leases_for rid (q n) = []" for n using other by (cases "n = name") auto
    then show ?thesis by (intro e[OF _ k]) (simp add: lease_free_def)
  qed
qed


subsection \<open>The steps of the handler\<close>

text \<open>Every answer but a stream leaves no lease, and a throw leaves at most the lease that the run knows.\<close>

definition lease_ended :: "string \<Rightarrow> octg_response \<Rightarrow> proxy_run \<Rightarrow> bool" where
  "lease_ended rid r s \<longleftrightarrow> os_body r = Body_stream \<or> lease_free rid s"

lemma wp_px_end_lease:
  assumes "undisturbed w rid" "leases_undisturbed w rid" "calls_arrive w" "lease_kept w rid s" "pr_stub s = Some name"
    and "\<And>s'. lease_free rid s' \<Longrightarrow> Q k s'"
  shows "wp (px_then px_unreserved (px_then (px_end_lease w name rid) (px_return k))) Q (\<lambda>_. lease_kept w rid) s"
proof (cases "pr_lease s")
  case None
  then show ?thesis using assms(4) by (simp add: px_unreserved_def px_end_lease_def)
next
  case (Some l)
  let ?s = "s\<lparr>pr_reservation := Reservation_none\<rparr>"
  have "wp (stub_releaseInFlight w name rid (l_generation l)) (\<lambda>_ s. Q k (s\<lparr>pr_acquired := False, pr_lease := None\<rparr>))
      (\<lambda>_. lease_kept w rid) ?s"
    by (rule wp_end[OF assms(1-3)]) (use assms(4-6) Some in \<open>simp_all add: lease_free_def\<close>)
  then show ?thesis using Some by (simp add: px_unreserved_def px_end_lease_def)
qed

lemma wp_then_end:
  assumes u: "undisturbed w rid" "leases_undisturbed w rid" "calls_arrive w" "lease_kept w rid s" "pr_stub s = Some name"
    and q: "\<And>s'. lease_free rid s' \<Longrightarrow> Q k s'"
  shows "wp (px_then (stub_markUncertain w name rid) (px_then px_unreserved (px_then (px_end_lease w name rid) (px_return k)))) Q
      (\<lambda>_. lease_kept w rid) s"
    "wp (px_then (stub_settle w name rid n) (px_then px_unreserved (px_then (px_end_lease w name rid) (px_return k)))) Q
      (\<lambda>_. lease_kept w rid) s"
    "wp (px_then (stub_release w name rid) (px_then px_unreserved (px_then (px_end_lease w name rid) (px_return k)))) Q
      (\<lambda>_. lease_kept w rid) s"
proof -
  let ?rest = "px_then px_unreserved (px_then (px_end_lease w name rid) (px_return k))"
  have rest: "wp ?rest Q (\<lambda>_. lease_kept w rid) (s\<lparr>pr_quotas := q, pr_turn := t\<rparr>)"
    if "lease_kept w rid (s\<lparr>pr_quotas := q, pr_turn := t\<rparr>)" for q t
    by (rule wp_px_end_lease[OF u(1-3) that]) (use u(5) q in simp_all)
  show "wp (px_then (stub_markUncertain w name rid) ?rest) Q (\<lambda>_. lease_kept w rid) s"
    unfolding wp_simps(7)[of "stub_markUncertain w name rid"] by (rule wp_calls_same_leases(4)[OF u(1-4)]; (rule rest)?; assumption)
  show "wp (px_then (stub_settle w name rid n) ?rest) Q (\<lambda>_. lease_kept w rid) s"
    unfolding wp_simps(7)[of "stub_settle w name rid n"] by (rule wp_calls_same_leases(3)[OF u(1-4)]; (rule rest)?; assumption)
  show "wp (px_then (stub_release w name rid) ?rest) Q (\<lambda>_. lease_kept w rid) s"
    unfolding wp_simps(7)[of "stub_release w name rid"] by (rule wp_calls_same_leases(6)[OF u(1-4)]; (rule rest)?; assumption)
qed

lemma lease_ends_completed:
  assumes u: "undisturbed w rid" "leases_undisturbed w rid" "calls_arrive w" "lease_kept w rid s" "pr_stub s = Some name"
  shows "wp (handleCompletedUpstream w name rid stream q upstream) (lease_ended rid) (\<lambda>_. lease_kept w rid) s"
proof -
  let ?s = "s\<lparr>pr_reached := True\<rparr>"
  have s: "lease_kept w rid ?s" "pr_stub ?s = Some name" using u(4,5) by simp_all
  note ends = wp_then_end[OF u(1-3) s]
  consider (stream) "stream" "200 \<le> ua_status upstream \<and> ua_status upstream \<le> 299"
    | (failed) "\<not> (200 \<le> ua_status upstream \<and> ua_status upstream \<le> 299)"
    | (whole) "\<not> stream" "200 \<le> ua_status upstream \<and> ua_status upstream \<le> 299" by blast
  then show ?thesis
  proof cases
    case stream
    then show ?thesis using s(1) by (auto simp: handleCompletedUpstream_def lease_ended_def split: option.split)
  next
    case failed
    have "wp (px_then (stub_markUncertain w name rid) (px_then px_unreserved (px_then (px_end_lease w name rid)
        (px_return (upstreamResponse w rid q upstream))))) (lease_ended rid) (\<lambda>_. lease_kept w rid) ?s"
      by (rule ends(1)) (simp add: lease_ended_def)
    then show ?thesis using failed by (auto simp: handleCompletedUpstream_def Let_def)
  next
    case whole
    show ?thesis
    proof (cases "Option.bind (ua_text upstream) json_parse")
      case None
      have "wp (px_then (stub_markUncertain w name rid) (px_then px_unreserved (px_then (px_end_lease w name rid)
          (px_return (error_answer w (errInternal rid None None)))))) (lease_ended rid) (\<lambda>_. lease_kept w rid) ?s"
        by (rule ends(1)) (simp add: lease_ended_def)
      then show ?thesis using whole None by (auto simp: handleCompletedUpstream_def Let_def)
    next
      case (Some data)
      show ?thesis
      proof (cases "data = JNull")
        case True
        then show ?thesis using whole Some s(1) by (auto simp: handleCompletedUpstream_def Let_def)
      next
        case False
        define r where "r = octg_answer w rid q 200 ''application/json'' (Body_text (the (ua_text upstream)))"
        define m where "m = (case total_tokens (js_get data ''usage'') of
             Some n \<Rightarrow> px_then (stub_settle w name rid n) (px_then px_unreserved (px_then (px_end_lease w name rid) (px_return r)))
           | None \<Rightarrow> px_then (stub_markUncertain w name rid) (px_then px_unreserved (px_then (px_end_lease w name rid) (px_return r))))"
        have "wp m (lease_ended rid) (\<lambda>_. lease_kept w rid) ?s"
          unfolding m_def by (cases "total_tokens (js_get data ''usage'')"; simp only: option.case; rule ends) (simp_all add: lease_ended_def)
        moreover have "handleCompletedUpstream w name rid stream q upstream = px_then (px_set (\<lambda>s. s\<lparr>pr_reached := True\<rparr>)) m"
          using whole Some False
          by (cases data) (auto simp: handleCompletedUpstream_def Let_def px_then_assoc r_def m_def split: option.split)
        ultimately show ?thesis by simp
      qed
    qed
  qed
qed

lemma lease_ends_sent:
  assumes u: "undisturbed w rid" "leases_undisturbed w rid" "calls_arrive w" "lease_kept w rid s" "pr_stub s = Some name"
  shows "wp (send_upstream w name rid client ik body rd pool policy b q) (lease_ended rid) (\<lambda>_. lease_kept w rid) s"
proof -
  let ?s = "s\<lparr>pr_attempted := True\<rparr>" and ?r = "error_answer w (errInternal rid None None)"
  let ?call = "upstream_call w (if nr_endpoint rd = Endpoint_chat then ''/chat/completions'' else ''/responses'')
    (buildUpstreamBody (nr_endpoint rd) body (maxOutputTokens b))
    \<lparr>um_client_id = client, um_pool = toPoolLower pool, um_request_id = rid\<rparr>
    (if p_cacheEnabled policy then Some (''octg:'' @ client) else None) ik"
  have ends: "wp (px_then (stub_markUncertain w name rid) (px_then px_unreserved (px_then (px_end_lease w name rid) (px_return ()))))
      (\<lambda>_. lease_ended rid ?r) (\<lambda>_. lease_kept w rid) (?s\<lparr>pr_sent := us\<rparr>)"
    "wp (px_then (stub_release w name rid) (px_then px_unreserved (px_then (px_end_lease w name rid) (px_return ()))))
      (\<lambda>_. lease_ended rid ?r) (\<lambda>_. lease_kept w rid) ?s" for us
    by (rule wp_then_end[OF u(1-3)]; use u(4,5) in \<open>simp add: lease_ended_def\<close>)+
  show ?thesis
  proof (cases ?call)
    case (Inl e)
    then show ?thesis using upstream_call_error[OF Inl] ends(2) by (simp add: send_upstream_def callUpstream_def Inl)
  next
    case (Inr request)
    have "wp (handleCompletedUpstream w name rid stream q upstream) (lease_ended rid) (\<lambda>_. lease_kept w rid)
        (?s\<lparr>pr_sent := pr_sent s @ [request]\<rparr>)" for stream upstream
      by (rule lease_ends_completed[OF u(1-3)]) (use u(4,5) in simp_all)
    then show ?thesis using ends(1)[of "pr_sent s @ [request]"]
      by (auto simp: send_upstream_def callUpstream_def Inr upstream_config_error_def split: upstream_result.split)
  qed
qed


lemma lease_ends_reserved:
  assumes u: "undisturbed w rid" "leases_undisturbed w rid" "calls_arrive w" "lease_kept w rid s" "\<not> pr_acquired s" "pr_stub s = Some name"
  shows "wp (with_reservation w name rid client ik body rd pool policy b q) (lease_ended rid) (\<lambda>_. lease_kept w rid) s"
  unfolding with_reservation_def wp_simps(6)
proof (rule wp_acquire[OF u])
  fix l p t
  assume "lease_kept w rid (s\<lparr>pr_quotas := p, pr_turn := t, pr_acquired := True, pr_lease := Some l\<rparr>)"
  then have "wp (send_upstream w name rid client ik body rd pool policy b q) (lease_ended rid) (\<lambda>_. lease_kept w rid)
      (s\<lparr>pr_quotas := p, pr_turn := t, pr_acquired := True, pr_lease := Some l\<rparr>)"
    by (rule lease_ends_sent[OF u(1-3)]) (use u(6) in simp)
  then show "wp (case Acquired l of
      Concurrency_exceeded \<Rightarrow> px_then (stub_release w name rid) (px_then px_unreserved
        (px_return (error_answer w (errWorkerConcurrencyExceeded q rid))))
    | Acquired l \<Rightarrow> px_then (px_set (\<lambda>s. s\<lparr>pr_acquired := True, pr_lease := Some l\<rparr>))
        (send_upstream w name rid client ik body rd pool policy b q)) (lease_ended rid) (\<lambda>_. lease_kept w rid) (s\<lparr>pr_quotas := p, pr_turn := t\<rparr>)"
    by simp
next
  fix p t
  let ?s = "s\<lparr>pr_quotas := p, pr_turn := t\<rparr>" and ?r = "error_answer w (errWorkerConcurrencyExceeded q rid)"
  assume s': "lease_kept w rid ?s"
  have "wp (stub_release w name rid) (\<lambda>_ s. lease_ended rid ?r (s\<lparr>pr_reservation := Reservation_none\<rparr>)) (\<lambda>_. lease_kept w rid) ?s"
    by (rule wp_calls_same_leases(6)[OF u(1-3) s']) (use u(5) in \<open>auto simp: lease_ended_def dest: lease_kept_free\<close>)
  then show "wp (case Concurrency_exceeded of
      Concurrency_exceeded \<Rightarrow> px_then (stub_release w name rid) (px_then px_unreserved
        (px_return (error_answer w (errWorkerConcurrencyExceeded q rid))))
    | Acquired l \<Rightarrow> px_then (px_set (\<lambda>s. s\<lparr>pr_acquired := True, pr_lease := Some l\<rparr>))
        (send_upstream w name rid client ik body rd pool policy b q)) (lease_ended rid) (\<lambda>_. lease_kept w rid) ?s"
    by (simp add: px_unreserved_def)
qed

text \<open>Before the lease is acquired, no request has one, and every answer is fine.\<close>

definition unleased :: "proxy_world \<Rightarrow> string \<Rightarrow> proxy_run \<Rightarrow> bool" where
  "unleased w rid s \<longleftrightarrow> lease_kept w rid s \<and> \<not> pr_acquired s"

lemma unleasedD: "unleased w rid s \<Longrightarrow> lease_kept w rid s" "unleased w rid s \<Longrightarrow> lease_ended rid r s"
  by (auto simp: unleased_def lease_ended_def dest: lease_kept_free)

lemma wp_unleased_calls:
  assumes u: "undisturbed w rid" "leases_undisturbed w rid" "calls_arrive w" "unleased w rid s" "pr_stub s = Some name"
    and e: "\<And>e s'. unleased w rid s' \<Longrightarrow> pr_stub s' = Some name \<Longrightarrow> E e s'"
  shows "(\<And>r s'. unleased w rid s' \<Longrightarrow> pr_stub s' = Some name \<Longrightarrow> Q1 r s') \<Longrightarrow> wp (stub_getState w name) Q1 E s"
    "(\<And>r s'. unleased w rid s' \<Longrightarrow> pr_stub s' = Some name \<Longrightarrow> Q2 r s') \<Longrightarrow> wp (stub_reserve w name r' n ub key client) Q2 E s"
    "(\<And>r s'. unleased w rid s' \<Longrightarrow> pr_stub s' = Some name \<Longrightarrow> Q3 r s') \<Longrightarrow> wp (stub_markReserveOutcomeUnknown w name r') Q3 E s"
  using u(4,5)
  by (auto simp: unleased_def intro!: wp_calls_same_leases(1,2,5)[OF u(1-3)] e)

lemma lease_ends_unknown:
  assumes u: "undisturbed w rid" "leases_undisturbed w rid" "calls_arrive w" "unleased w rid s" "pr_stub s = Some name"
  shows "wp (rejectUnknownReservation w name rid q) (lease_ended rid) E s"
  unfolding rejectUnknownReservation_def wp_simps by (rule wp_unleased_calls(3)[OF u]; rule unleasedD)

lemma lease_ends_after_reservation:
  assumes u: "undisturbed w rid" "leases_undisturbed w rid" "calls_arrive w" "unleased w rid s" "pr_stub s = Some name"
  shows "wp (after_reservation w name rid client ik body rd pool policy q b outcome) (lease_ended rid) (\<lambda>_. lease_kept w rid) s"
  using lease_ends_unknown[OF u] lease_ends_reserved[OF u(1-3) _ _ u(5)] u(4) unleasedD(2)[OF u(4)]
  by (auto simp: after_reservation_def unleased_def split: reserve_outcome.split reserve_result.split)

lemma lease_ends_reserve_request:
  assumes u: "undisturbed w rid" "leases_undisturbed w rid" "calls_arrive w" "unleased w rid s" "pr_stub s = Some name"
    and q: "\<And>outcome s'. unleased w rid s' \<Longrightarrow> pr_stub s' = Some name \<Longrightarrow> Q outcome s'"
  shows "wp (reserveRequest w name rid b ik client) Q E s"
proof -
  let ?Q = "\<lambda>outcome s. Q outcome (s\<lparr>pr_reservation := reservation_of outcome\<rparr>)"
  let ?call = "stub_reserve w name rid (reservation b) (upperBound b) ik client"
  have q': "?Q outcome s'" if "unleased w rid s'" "pr_stub s' = Some name" for outcome s'
    by (rule q) (use that in \<open>simp_all add: unleased_def\<close>)
  have "wp ?call (\<lambda>r. ?Q (Reserve_resolved r)) (\<lambda>_. wp ?call (\<lambda>r. ?Q (Reserve_resolved r)) (\<lambda>_. ?Q Reserve_unknown)) s"
    by (rule wp_unleased_calls(2)[OF u]) (rule wp_unleased_calls(2)[OF u(1-3)] q' | assumption)+
  then show ?thesis by (simp add: reserveRequest_def reserveFailClosed_def reservation_of_def)
qed

lemma lease_ends_metered:
  assumes u: "undisturbed w rid" "leases_undisturbed w rid" "calls_arrive w" "unleased w rid s" "pr_stub s = Some name"
  shows "wp (meter w name rid client ik body rd pool policy cfg) (lease_ended rid) (\<lambda>_. lease_kept w rid) s"
  unfolding meter_def wp_simps
proof (rule wp_unleased_calls(1)[OF u])
  fix before :: quota_view and s'
  assume s': "unleased w rid s'" "pr_stub s' = Some name"
  have "wp (reserveRequest w name rid b ik client) (\<lambda>outcome. wp (after_reservation w name rid client ik body rd pool policy q b outcome)
      (lease_ended rid) (\<lambda>_. lease_kept w rid)) (\<lambda>_. lease_kept w rid) s'" for b q
    by (rule lease_ends_reserve_request[OF u(1-3) s']) (rule lease_ends_after_reservation[OF u(1-3)])
  then have "wp (meter_tokens w name rid client ik body rd pool policy cfg before q) (lease_ended rid) (\<lambda>_. lease_kept w rid) s'" for q
    using unleasedD(2)[OF s'(1)] by (auto simp: meter_tokens_def Let_def split: routed_outcome.split budget_outcome.split)
  then show "(case snapshotOf before of Inl e \<Rightarrow> (\<lambda>_. lease_kept w rid) e
     | Inr q \<Rightarrow> wp (meter_tokens w name rid client ik body rd pool policy cfg before q) (lease_ended rid) (\<lambda>_. lease_kept w rid)) s'"
    using unleasedD(1)[OF s'(1)] by (auto split: sum.split)
qed (rule unleasedD)

lemma lease_ends_tool_use:
  assumes u: "undisturbed w rid" "leases_undisturbed w rid" "calls_arrive w" "unleased w rid s" "pr_stub s = Some name"
  shows "wp (px_bind (stub_getState w name) (\<lambda>state. px_bind (px_of (snapshotOf state)) (\<lambda>q.
      px_return (error_answer w (errModelNotAllowed rid (Some q)))))) (lease_ended rid) (\<lambda>_. lease_kept w rid) s"
  unfolding wp_simps by (rule wp_unleased_calls(1)[OF u]) (auto intro: unleasedD split: sum.split)


lemma unleased_found:
  assumes "unleased w rid s"
  shows "unleased w rid (s\<lparr>pr_caches := c\<rparr>)" "unleased w rid (s\<lparr>pr_caches := c, pr_stub := n\<rparr>)"
    "unleased w rid (s\<lparr>pr_stub := n, pr_caches := c\<rparr>)"
  using assms by (auto simp: unleased_def lease_kept_def)

lemma lease_ends_admitted:
  assumes u: "undisturbed w rid" "leases_undisturbed w rid" "calls_arrive w" "unleased w rid s"
  shows "wp (admit_body w rid client ik ep body mx cfg) (lease_ended rid) (\<lambda>_. lease_kept w rid) s"
proof -
  note k = unleasedD[OF unleased_found(1)[OF u(4)]] unleasedD[OF unleased_found(2)[OF u(4)]] unleasedD[OF unleased_found(3)[OF u(4)]]
    unleasedD[OF u(4)]
  show ?thesis
  proof (cases "if ep = Endpoint_chat then normalizeChatCompletions (pw_number_text w) body mx else normalizeResponses (pw_number_text w) body mx")
    case (Inl e)
    then show ?thesis using k by (simp add: admit_body_def)
  next
    case (Inr rd)
    note run = admit_body_def[of w rid client ik ep body mx cfg, unfolded Inr sum.case]
    have m: "wp (meter w name rid client ik body rd pool policy cfg) (lease_ended rid) (\<lambda>_. lease_kept w rid)
        (s\<lparr>pr_stub := Some name, pr_caches := c\<rparr>)"
      "wp (px_bind (stub_getState w name) (\<lambda>state. px_bind (px_of (snapshotOf state)) (\<lambda>q.
        px_return (error_answer w (errModelNotAllowed rid (Some q)))))) (lease_ended rid) (\<lambda>_. lease_kept w rid)
        (s\<lparr>pr_stub := Some name, pr_caches := c\<rparr>)" for name pool policy c
      by (rule lease_ends_metered[OF u(1-3) unleased_found(3)[OF u(4)]] lease_ends_tool_use[OF u(1-3) unleased_found(3)[OF u(4)]]; simp)+
    have "wp (case classifyModel (nr_model rd) registry of
           No_pool \<Rightarrow> px_return (error_answer w (errModelRequiresPaid rid))
         | Complimentary pool \<Rightarrow>
             let name = quotaIdOf pool (utc_day_of (pw_now w))
             in px_then (px_set (\<lambda>s. s\<lparr>pr_stub := Some name\<rparr>))
               (px_bind (px_of (loadPolicy (ge_policies (pw_env w)) client (pw_now w) c1)) (\<lambda>(policy, caches2).
                px_then (px_set (\<lambda>s. s\<lparr>pr_caches := caches2\<rparr>))
                  (if nr_isToolUse rd \<and> p_toolsMode policy \<noteq> Tools_allow then
                     px_bind (stub_getState w name) (\<lambda>state.
                     px_bind (px_of (snapshotOf state)) (\<lambda>snapshot.
                       px_return (error_answer w (errModelNotAllowed rid (Some snapshot)))))
                   else meter w name rid client ik body rd pool policy cfg))))
        (lease_ended rid) (\<lambda>_. lease_kept w rid) (s\<lparr>pr_caches := c1\<rparr>)" for registry c1
      using k m by (auto simp: Let_def split: complimentary_pool.split sum.split)
    then show ?thesis unfolding run using k by (auto split: sum.split)
  qed
qed

lemma lease_ends_main:
  assumes u: "undisturbed w rid" "leases_undisturbed w rid" "calls_arrive w" "unleased w rid s"
  shows "wp (proxy_main w ep rid request) (\<lambda>r s. \<forall>a. r = Some a \<longrightarrow> lease_ended rid a s) (\<lambda>_. lease_kept w rid) s"
proof -
  note k = unleasedD[OF u(4)]
  have "wp (route_request w ep rid client ik request) (\<lambda>r s. \<forall>a. r = Some a \<longrightarrow> lease_ended rid a s) (\<lambda>_. lease_kept w rid) s" for client ik
    using k lease_ends_admitted[OF u] by (auto simp: route_request_def Let_def split: sum.split body_result.split)
  then show ?thesis
    using k by (auto simp: proxy_main_def Let_def split: sum.split endpoint.split relay_config.split)
qed

lemma lease_ends_failed:
  assumes u: "undisturbed w rid" "leases_undisturbed w rid" "calls_arrive w" "lease_kept w rid s"
  shows "wp (proxy_failed w rid) (lease_ended rid) E s"
proof (cases "pr_stub s")
  case None
  then have "lease_free rid s" using u(4) by (simp add: lease_kept_def lease_free_def)
  then show ?thesis using None by (simp add: proxy_failed_def lease_ended_def)
next
  case (Some name)
  let ?r = "error_answer w (errInternal rid None None)"
  define last_step where "last_step = (case (pr_acquired s, pr_lease s) of
        (True, Some l) \<Rightarrow> px_quiet (stub_releaseInFlight w name (l_requestId l) (l_generation l)) | _ \<Rightarrow> px_return ())"
  define record_step where "record_step = (case pr_reservation s of
         Reservation_unknown \<Rightarrow> px_quiet (stub_markReserveOutcomeUnknown w name rid)
       | Reservation_resolved \<Rightarrow>
           if pr_attempted s \<or> pr_reached s then px_quiet (stub_markUncertain w name rid) else px_quiet (stub_release w name rid)
       | Reservation_none \<Rightarrow> px_return ())"
  define P where "P s' \<longleftrightarrow> lease_kept w rid s' \<and> pr_stub s' = Some name \<and> pr_acquired s' = pr_acquired s \<and> pr_lease s' = pr_lease s" for s'
  have P: "P s" "P (s\<lparr>pr_quotas := q, pr_turn := t\<rparr>)" if "lease_kept w rid (s\<lparr>pr_quotas := q, pr_turn := t\<rparr>)" for q t
    using that u(4) Some by (simp_all add: P_def)
  have lease: "wp last_step (\<lambda>_. lease_ended rid ?r) E s'" if s': "P s'" for s'
  proof (cases "pr_acquired s \<and> pr_lease s \<noteq> None")
    case True
    then obtain l where l: "pr_acquired s" "pr_lease s = Some l" by auto
    have "wp (stub_releaseInFlight w name (l_requestId l) (l_generation l)) (\<lambda>_. lease_ended rid ?r) (\<lambda>_. lease_ended rid ?r) s'"
      by (rule wp_end[OF u(1-3)]) (use s' l in \<open>auto simp: P_def lease_ended_def lease_free_def\<close>)
    then show ?thesis by (simp add: last_step_def l)
  next
    case False
    then have "lease_free rid s'" using s' by (auto simp: P_def lease_kept_def lease_free_def)
    then show ?thesis using False by (auto simp: last_step_def lease_ended_def split: option.split bool.split)
  qed
  have "wp record_step (\<lambda>_. P) E s"
    using P u(4) Some by (auto simp: record_step_def P_def split: reservation_state.split intro!: wp_calls_same_leases(4,5,6)[OF u])
  then have "wp record_step (\<lambda>_. wp last_step (\<lambda>_. lease_ended rid ?r) E) E s" by (rule wp_mono) (use lease in simp_all)
  moreover have "proxy_failed w rid s = px_then record_step (px_then last_step (px_return ?r)) s"
    by (simp add: proxy_failed_def px_bind_def px_get_def Some px_then_assoc record_step_def last_step_def)
  ultimately show ?thesis unfolding wp_def[of "proxy_failed w rid"] by (simp add: wp_def[of "px_then _ _", symmetric])
qed

text \<open>The whole run, for a request that has no lease when it arrives.\<close>

definition no_lease :: "string \<Rightarrow> quotas \<Rightarrow> bool" where
  "no_lease rid quotas \<longleftrightarrow> (\<forall>n. rid \<notin> set (lease_holders (quotas n)))"

lemma lease_free_holders:
  assumes "quotas_reachable sha256 (pr_quotas s)"
  shows "lease_free rid s \<longleftrightarrow> no_lease rid (pr_quotas s)"
proof -
  have "leases_for rid (pr_quotas s n) = [] \<longleftrightarrow> rid \<notin> set (lease_holders (pr_quotas s n))" for n
    by (rule leases_for_holders, rule reachable_readable[of sha256 "Some n"]) (use assms in \<open>simp add: quotas_reachable_def\<close>)
  then show ?thesis by (simp add: lease_free_def no_lease_def)
qed

lemma proxy_lease_ended:
  assumes "undisturbed w rid" "leases_undisturbed w rid" "calls_arrive w" "quotas_reachable (pw_sha256 w) quotas" "no_lease rid quotas"
    "handleProxy w ep rid request (px_start quotas caches) = (Inr (Some a), s)"
  shows "lease_ended rid a s"
proof -
  have start: "unleased w rid (px_start quotas caches)"
    using lease_free_kept[of rid "px_start quotas caches" w] lease_free_holders[of "pw_sha256 w" "px_start quotas caches" rid] assms(4,5)
    by (simp add: unleased_def px_start_def)
  have "wp (handleProxy w ep rid request) (\<lambda>r s. \<forall>a. r = Some a \<longrightarrow> lease_ended rid a s) (\<lambda>_ _. False) (px_start quotas caches)"
    unfolding handleProxy_def wp_simps
    by (rule wp_mono[OF lease_ends_main[OF assms(1-3) start]])
      (auto intro!: lease_ends_failed[OF assms(1-3), THEN wp_mono])
  then show ?thesis using assms(6) by (simp add: wp_def)
qed


end
