(* ===== verification/Proxy_Contract.thy ===== *)
theory Proxy_Contract
  imports Proxy_Samples Proxy_Leases
begin

section \<open>Proxy_Contract: what the gateway promises about a metered request\<close>

text \<open>
  The handler of a request together with the quota controllers it calls.  \<open>undisturbed\<close> says that what others do between
  two of its calls keeps the stores reachable and leaves the record of this request, \<open>leases_undisturbed\<close> that it neither
  makes nor changes a lease of this request; \<open>calls_arrive\<close> that no call is lost.
\<close>

text \<open>C28: A request is answered, and upstream is called at most once and only on account.  Whatever calls are lost and whatever is
  thrown, the handler gives an answer; when the request was sent upstream, its tokens are on the account of the quota controller of its
  pool and day, reserved, in doubt or spent, and they are never given back.\<close>

theorem upstream_only_on_account:
  assumes "undisturbed w rid" "new_request w rid quotas" "handleProxy w ep rid request (px_start quotas caches) = (r, s)"
  shows "(\<exists>a. r = Inr a) \<and> length (pr_sent s) \<le> 1 \<and>
    (pr_sent s \<noteq> [] \<longrightarrow> (\<exists>name x. pr_stub s = Some name \<and> look (pr_quotas s name) rid = Some x \<and> x \<noteq> Freed))"
proof -
  obtain a where a: "r = Inr a" "handled w rid a s" using proxy_handled[OF assms] .
  show ?thesis
  proof (cases a)
    case None
    then show ?thesis using a by simp
  next
    case (Some b)
    then obtain x where x: "account w rid x s" "length (pr_sent s) \<le> 1" "pr_sent s \<noteq> [] \<longrightarrow> accounted x"
      using a(2) by (auto simp: answered_def)
    then show ?thesis using a(1) by (cases "pr_stub s") (auto simp: account_def accounted_def)
  qed
qed

lemma px_undisturbed [simp]: "undisturbed px_world rid"
  by (simp add: undisturbed_def px_world_def)

lemma px_arrive [simp]: "calls_arrive px_world"
  by (simp add: calls_arrive_def px_world_def)

lemma px_new [simp]: "new_request px_world rid (\<lambda>_. empty_store)"
proof -
  have "look empty_store rid = None" by (simp add: look_def store_eval)
  then show ?thesis by (simp add: new_request_def quotas_reachable_def)
qed

lemma px_ran:
  obtains r s where "handleProxy px_world Endpoint_chat px_rid px_request (px_start (\<lambda>_. empty_store) \<lparr>registryCache = None, policyCache = []\<rparr>)
    = (Inr (Some r), s)" "px_done r s"
  using px_run by (auto simp: wp_def split: prod.splits sum.splits)

theorem upstream_only_on_account_witness:
  "\<exists>r s name x. handleProxy px_world Endpoint_chat px_rid px_request (px_start (\<lambda>_. empty_store) \<lparr>registryCache = None, policyCache = []\<rparr>) = (r, s) \<and>
     length (pr_sent s) = 1 \<and> pr_stub s = Some name \<and> look (pr_quotas s name) px_rid = Some x \<and> x \<noteq> Freed"
proof -
  obtain r s where r: "handleProxy px_world Endpoint_chat px_rid px_request (px_start (\<lambda>_. empty_store) \<lparr>registryCache = None, policyCache = []\<rparr>)
    = (Inr (Some r), s)" "px_done r s" by (rule px_ran)
  then show ?thesis using upstream_only_on_account[OF px_undisturbed px_new r(1)] by (auto simp: px_done_def)
qed

text \<open>C29: Nothing stays reserved.  When no call is lost, a request that was not sent upstream has no record or a released one at every
  quota controller, and one that was sent holds no reservation any more when it is answered, unless its answer is a stream.  Nor does
  any answer but a stream leave an in-flight lease: no controller lists the request among the holders of a lease.\<close>

theorem nothing_stays_reserved:
  assumes "undisturbed w rid" "leases_undisturbed w rid" "calls_arrive w" "new_request w rid quotas"
    "\<forall>n. rid \<notin> set (lease_holders (quotas n))"
    "handleProxy w ep rid request (px_start quotas caches) = (Inr (Some a), s)"
  shows "(pr_sent s = [] \<longrightarrow> (\<forall>n. look (pr_quotas s n) rid = None \<or> look (pr_quotas s n) rid = Some Freed)) \<and>
    (os_body a \<noteq> Body_stream \<longrightarrow>
       (\<forall>n. (\<forall>t. look (pr_quotas s n) rid \<noteq> Some (Held t)) \<and> rid \<notin> set (lease_holders (pr_quotas s n))))"
proof -
  have "answered w rid a s" using proxy_handled[OF assms(1,4,6)] by auto
  then obtain x where x: "account w rid x s" "is_held x \<longrightarrow> os_body a = Body_stream" "pr_sent s = [] \<longrightarrow> x = None \<or> x = Some Freed"
    using assms(3) by (auto simp: answered_def)
  then have "look (pr_quotas s n) rid \<in> {None, x}" for n by (auto simp: account_def)
  then have look: "look (pr_quotas s n) rid = None \<or> look (pr_quotas s n) rid = x" for n by blast
  have "lease_ended rid a s"
    by (rule proxy_lease_ended[OF assms(1-3) _ _ assms(6)]) (use assms(4,5) in \<open>simp_all add: new_request_def no_lease_def\<close>)
  then have "os_body a \<noteq> Body_stream \<longrightarrow> no_lease rid (pr_quotas s)"
    using lease_free_holders[of "pw_sha256 w" s rid] x(1) by (auto simp: lease_ended_def account_def)
  then show ?thesis using x(2,3) look by (metis record_simps(4) option.distinct(1) no_lease_def)
qed

lemma px_leases [simp]: "leases_undisturbed px_world rid"
  by (simp add: leases_undisturbed_def px_world_def)

lemma px_no_lease [simp]: "lease_holders empty_store = []"
  by (simp add: lease_holders_def store_eval)

theorem nothing_stays_reserved_witness:
  "\<exists>r s. handleProxy px_world Endpoint_chat px_rid px_request (px_start (\<lambda>_. empty_store) \<lparr>registryCache = None, policyCache = []\<rparr>) = (r, s) \<and>
     length (pr_sent s) = 1 \<and> (\<forall>n t. look (pr_quotas s n) px_rid \<noteq> Some (Held t) \<and> px_rid \<notin> set (lease_holders (pr_quotas s n)))"
proof -
  obtain r s where r: "handleProxy px_world Endpoint_chat px_rid px_request (px_start (\<lambda>_. empty_store) \<lparr>registryCache = None, policyCache = []\<rparr>)
    = (Inr (Some r), s)" "px_done r s" by (rule px_ran)
  have free: "\<forall>n. px_rid \<notin> set (lease_holders ((\<lambda>_. empty_store) n))" by simp
  have "os_body r \<noteq> Body_stream" "length (pr_sent s) = 1" using r(2) by (simp_all add: px_done_def)
  then show ?thesis using nothing_stays_reserved[OF px_undisturbed px_leases px_arrive px_new free r(1)] r(1) by blast
qed

text \<open>C30: A whole answer is passed on as it is and settled.  When the client gets the text of an answer, one request was sent, and the
  text is the one that upstream answered it with, with a successful status; the account at its quota controller is spent with the total
  tokens that this text reports, or in doubt when it reports none.\<close>

theorem whole_answer_settled:
  assumes "undisturbed w rid" "new_request w rid quotas"
    "handleProxy w ep rid request (px_start quotas caches) = (Inr (Some a), s)" "os_body a = Body_text t"
  shows "\<exists>sent upstream name data. pr_sent s = [sent] \<and> pw_transport w sent = Upstream_answers upstream \<and>
    200 \<le> ua_status upstream \<and> ua_status upstream \<le> 299 \<and> ua_text upstream = Some t \<and>
    pr_stub s = Some name \<and> json_parse t = Some data \<and>
    (case total_tokens (js_get data ''usage'') of
       Some n \<Rightarrow> \<exists>h. look (pr_quotas s name) rid = Some (Spent (the_int n) h)
     | None \<Rightarrow> \<exists>h. look (pr_quotas s name) rid = Some (Doubtful h))"
proof -
  have "answered w rid a s" using proxy_handled[OF assms(1-3)] by auto
  then obtain x where x: "account w rid x s" "forwarded w s t" "settled_by t x"
    using assms(4) by (auto simp: answered_def)
  then obtain sent upstream where u: "pr_sent s = [sent]" "pw_transport w sent = Upstream_answers upstream"
    "200 \<le> ua_status upstream" "ua_status upstream \<le> 299" "ua_text upstream = Some t" by (auto simp: forwarded_def)
  have "x \<noteq> None" using x(3) by (auto simp: settled_by_def split: option.splits)
  then obtain name where "pr_stub s = Some name" "look (pr_quotas s name) rid = x"
    using x(1) by (cases "pr_stub s") (auto simp: account_def)
  then show ?thesis using u x(3) by (auto simp: settled_by_def split: option.splits)
qed

theorem whole_answer_settled_witness:
  "\<exists>r s sent upstream name h. handleProxy px_world Endpoint_chat px_rid px_request (px_start (\<lambda>_. empty_store) \<lparr>registryCache = None, policyCache = []\<rparr>) =
     (Inr (Some r), s) \<and> pr_sent s = [sent] \<and> pw_transport px_world sent = Upstream_answers upstream \<and> ua_text upstream = Some px_answer \<and>
     os_body r = Body_text px_answer \<and> pr_stub s = Some name \<and> look (pr_quotas s name) px_rid = Some (Spent 25 h)"
proof -
  obtain r s where r: "handleProxy px_world Endpoint_chat px_rid px_request (px_start (\<lambda>_. empty_store) \<lparr>registryCache = None, policyCache = []\<rparr>)
    = (Inr (Some r), s)" "px_done r s" by (rule px_ran)
  have body: "os_body r = Body_text px_answer" using r(2) by (simp add: px_done_def)
  from whole_answer_settled[OF px_undisturbed px_new r(1) body] r(1) body show ?thesis by (auto simp: px_answer_read)
qed

subsection \<open>The body that is sent\<close>

lemma js_get_delete [simp]: "js_get (delete_key v k) k' = (if k' = k then None else js_get v k')"
proof -
  have "map_of (filter (\<lambda>kx. fst kx \<noteq> k) kvs) k' = (if k' = k then None else map_of kvs k')" for kvs :: "(string \<times> json) list"
    by (induction kvs) auto
  then show ?thesis by (cases v) (simp_all add: delete_key_def)
qed

lemma record_delete [simp]: "is_record (delete_key v k) = is_record v"
  by (cases v) (simp_all add: delete_key_def)

lemma normalized_record:
  "normalizeChatCompletions nt body mx = Inr r \<Longrightarrow> is_record body" "normalizeResponses nt body mx = Inr r \<Longrightarrow> is_record body"
  by (cases body; simp add: normalizeChatCompletions_def normalizeResponses_def)+

lemma positive_limit: "0 < n \<Longrightarrow> is_safe_integer (JsInt n) \<Longrightarrow> optionalPositiveInteger (Some (JNum (JsInt n))) = Some (Some n)"
  by (simp add: optionalPositiveInteger_def positiveInteger_def)

lemma sent_chat_body:
  assumes "normalizeChatCompletions nt body mx = Inr r" "0 < n" "is_safe_integer (JsInt n)"
  shows "normalizeChatCompletions nt (buildUpstreamBody Endpoint_chat body n) mx = Inr (r\<lparr>nr_maxOutputTokens := n\<rparr>)"
proof -
  define b where "b = buildUpstreamBody Endpoint_chat body n"
  have rec: "is_record body" by (rule normalized_record(1)[OF assms(1)])
  have g: "js_get b k = (if k = ''max_completion_tokens'' then Some (JNum (JsInt n)) else if k = ''max_tokens'' then None else js_get body k)"
    if "k \<noteq> ''stream_options''" for k
    using rec that by (simp add: b_def buildUpstreamBody_def Let_def)
  have o: "is_object b" "is_object body" using rec by (simp_all add: b_def buildUpstreamBody_def Let_def)
  have k: "js_get b ''model'' = js_get body ''model''" "js_get b ''messages'' = js_get body ''messages''" "js_get b ''stream'' = js_get body ''stream''"
    "js_get b ''max_completion_tokens'' = Some (JNum (JsInt n))" "js_get b ''max_tokens'' = None"
    "list_ex (has_key b) TOOL_KEYS = list_ex (has_key body) TOOL_KEYS" "serialized_fields nt b TOOL_KEYS = serialized_fields nt body TOOL_KEYS"
    by (simp_all add: g has_key_def TOOL_KEYS_def serialized_fields_def)
  have absent: "optionalPositiveInteger None = Some None" by (simp add: optionalPositiveInteger_def)
  show ?thesis
    using assms(1) unfolding b_def[symmetric] normalizeChatCompletions_def
    by (auto simp: k o absent positive_limit[OF assms(2,3)] Let_def split: option.splits json.splits if_splits sum.splits)
qed

lemma sent_responses_body:
  assumes "normalizeResponses nt body mx = Inr r" "0 < n" "is_safe_integer (JsInt n)"
  shows "normalizeResponses nt (buildUpstreamBody Endpoint_responses body n) mx = Inr (r\<lparr>nr_maxOutputTokens := n\<rparr>)"
proof -
  define c where "c = normalizeResponsesUpstreamBody body"
  define b where "b = buildUpstreamBody Endpoint_responses body n"
  have same: "normalizeResponses nt c mx = Inr r" using assms(1) by (simp add: c_def upstream_body_same_request)
  have rec: "is_record c" by (rule normalized_record(2)[OF same])
  have g: "js_get b k = (if k = ''max_output_tokens'' then Some (JNum (JsInt n)) else js_get c k)" for k
    using rec by (simp add: b_def buildUpstreamBody_def c_def)
  have o: "is_object b" "is_object c" using rec by (simp_all add: b_def c_def buildUpstreamBody_def)
  have k: "js_get b ''model'' = js_get c ''model''" "js_get b ''input'' = js_get c ''input''" "js_get b ''stream'' = js_get c ''stream''"
    "js_get b ''instructions'' = js_get c ''instructions''" "has_key b ''item_reference'' = has_key c ''item_reference''"
    "present b ''previous_response_id'' = present c ''previous_response_id''" "present b ''conversation'' = present c ''conversation''"
    "present b ''instructions'' = present c ''instructions''" "js_get b ''max_output_tokens'' = Some (JNum (JsInt n))"
    "hasToolUse b = hasToolUse c"
    "serialized_fields nt b [''instructions'', ''tools'', ''tool_choice''] = serialized_fields nt c [''instructions'', ''tools'', ''tool_choice'']"
    by (simp_all add: g has_key_def present_def hasToolUse_def TOOL_KEYS_def serialized_fields_def)
  show ?thesis
    using same unfolding b_def[symmetric] normalizeResponses_def
    by (auto simp: k o positive_limit[OF assms(2,3)] Let_def split: option.splits json.splits if_splits sum.splits prod.splits)
qed

lemma chat_streams: "normalizeChatCompletions nt body mx = Inr r \<Longrightarrow> nr_stream r \<longleftrightarrow> js_get body ''stream'' = Some (JBool True)"
  by (auto simp: normalizeChatCompletions_def Let_def split: option.splits json.splits if_splits sum.splits)

text \<open>C22: The body that is sent upstream is the request that was metered.  For a body that the gateway accepts and any valid limit of the
  output, the body sent upstream normalizes to the same request (model, input text, bytes, messages, streaming, tools) with that limit;
  it carries the limit under the one key of the endpoint, a chat body has no second one, and a streamed chat asks for the usage.\<close>

theorem sent_body_same_request:
  assumes "(if ep = Endpoint_chat then normalizeChatCompletions nt body mx else normalizeResponses nt body mx) = Inr r"
    "0 < n" "is_safe_integer (JsInt n)"
  shows "(if ep = Endpoint_chat then normalizeChatCompletions nt (buildUpstreamBody ep body n) mx
      else normalizeResponses nt (buildUpstreamBody ep body n) mx) = Inr (r\<lparr>nr_maxOutputTokens := n\<rparr>) \<and>
    js_get (buildUpstreamBody ep body n) (if ep = Endpoint_chat then ''max_completion_tokens'' else ''max_output_tokens'') = Some (JNum (JsInt n)) \<and>
    (ep = Endpoint_chat \<longrightarrow> js_get (buildUpstreamBody ep body n) ''max_tokens'' = None \<and>
      (nr_stream r \<longrightarrow> js_get (buildUpstreamBody ep body n) ''stream_options'' = Some (JObj [(''include_usage'', JBool True)])))"
proof (cases ep)
  case Endpoint_chat
  then have c: "normalizeChatCompletions nt body mx = Inr r" using assms(1) by simp
  show ?thesis
    using sent_chat_body[OF c assms(2,3)] chat_streams[OF c] normalized_record(1)[OF c] Endpoint_chat
    by (simp add: buildUpstreamBody_def Let_def)
next
  case Endpoint_responses
  then have c: "normalizeResponses nt body mx = Inr r" using assms(1) by simp
  have "is_record (normalizeResponsesUpstreamBody body)" by (rule normalized_record(2)) (use c in \<open>simp add: upstream_body_same_request\<close>)
  then show ?thesis using sent_responses_body[OF c assms(2,3)] Endpoint_responses by (simp add: buildUpstreamBody_def)
qed

theorem sent_body_same_request_witness:
  "normalizeChatCompletions (\<lambda>_. []) (buildUpstreamBody Endpoint_chat px_body 7) 1048576 = Inr (px_data\<lparr>nr_maxOutputTokens := 7\<rparr>) \<and>
     js_get (buildUpstreamBody Endpoint_chat px_body 7) ''max_tokens'' = None"
proof -
  have "(if Endpoint_chat = Endpoint_chat then normalizeChatCompletions (\<lambda>_. []) px_body 1048576 else normalizeResponses (\<lambda>_. []) px_body 1048576) =
    Inr px_data" by (simp add: px_ingress(7))
  from sent_body_same_request[OF this, of 7] show ?thesis by (simp add: safe_int_def MAX_SAFE_INTEGER_def)
qed

end
