(* ===== verification/Stream_Contract.thy ===== *)
theory Stream_Contract
  imports Stream_Run Proxy_Contract
begin

section \<open>Stream_Contract: what the gateway promises about a streamed answer\<close>

text \<open>
  The account of a request after the handler has answered with a stream.  Until the finalization the tokens stay
  reserved; the finalization settles them by the usage of the whole text, or leaves them in doubt.
\<close>

subsection \<open>The steps of the finalization\<close>

lemma wp_error [simp]: "wp (px_error m) Q E = wp m (\<lambda>_. Q None) (\<lambda>e. Q (Some e))"
  by (simp add: px_error_def fun_eq_iff)

lemma wp_result: "wp m (\<lambda>_. P) (\<lambda>_. P) s \<Longrightarrow> m s = (r, s') \<Longrightarrow> P s'"
  by (cases r) (auto simp: wp_def)

text \<open>The numbers that a settlement accepts.\<close>

definition countable_tokens :: "jsnum \<Rightarrow> bool" where
  "countable_tokens n \<longleftrightarrow> is_safe_integer n \<and> 0 \<le> the_int n"

lemma wp_settle_countable:
  assumes "undisturbed w rid" "account w rid (Some x) s" "pr_stub s = Some name"
    and "\<And>r q t. countable_tokens n \<Longrightarrow> account w rid (Some (abs_step (Settle (the_int n)) x)) (s\<lparr>pr_quotas := q, pr_turn := t\<rparr>) \<Longrightarrow>
      Q r (s\<lparr>pr_quotas := q, pr_turn := t\<rparr>)"
    and "\<And>e y q t. y = x \<and> (calls_arrive w \<longrightarrow> \<not> countable_tokens n) \<or>
        y = abs_step (Settle (the_int n)) x \<and> countable_tokens n \<and> \<not> calls_arrive w \<Longrightarrow>
      account w rid (Some y) (s\<lparr>pr_quotas := q, pr_turn := t\<rparr>) \<Longrightarrow> E e (s\<lparr>pr_quotas := q, pr_turn := t\<rparr>)"
  shows "wp (stub_settle w name rid n) Q E s"
  unfolding stub_settle_def
proof (rule wp_stub[where R = "\<lambda>_ y. y = Some (abs_step (Settle (the_int n)) x) \<and> countable_tokens n" and tot = "countable_tokens n", OF assms(1-3)])
  fix now uuid i st r st'
  assume "reachable (pw_sha256 w) (Some name) st" "identity_of (Some name) = Inr i" "look st rid = Some x"
    "settle (ge_quota (pw_env w)) i now rid n st = Inr (r, st')"
  then show "reachable (pw_sha256 w) (Some name) st' \<and> look st' rid = Some (abs_step (Settle (the_int n)) x) \<and> countable_tokens n"
    using transition_record(4) by (fastforce simp: countable_tokens_def settle_def split: if_splits)
next
  show "\<exists>r. settle (ge_quota (pw_env w)) i now rid n st = Inr r" if "countable_tokens n" for now and uuid :: string and i st
    using that by (simp add: settle_def countable_tokens_def)
next
  fix e r y q t
  assume "y = Some x \<and> (countable_tokens n \<and> calls_arrive w \<longrightarrow> Some x = None) \<or>
      (y = Some (abs_step (Settle (the_int n)) x) \<and> countable_tokens n) \<and> \<not> calls_arrive w"
    "account w rid y (s\<lparr>pr_quotas := q, pr_turn := t\<rparr>)"
  then show "E e (s\<lparr>pr_quotas := q, pr_turn := t\<rparr>)" using assms(5) by auto
qed (use assms(4) in auto)

lemma wp_renew:
  assumes "undisturbed w rid" "account w rid x s" "pr_stub s = Some name"
    and "\<And>r q t. account w rid x (s\<lparr>pr_quotas := q, pr_turn := t\<rparr>) \<Longrightarrow> Q r (s\<lparr>pr_quotas := q, pr_turn := t\<rparr>)"
    and "\<And>e q t. account w rid x (s\<lparr>pr_quotas := q, pr_turn := t\<rparr>) \<Longrightarrow> E e (s\<lparr>pr_quotas := q, pr_turn := t\<rparr>)"
  shows "wp (stub_renewInFlight w name r g ttl) Q E s"
proof -
  have renew: "reachable (pw_sha256 w) (Some name) st' \<and> look st' = look st"
    if "reachable (pw_sha256 w) (Some name) st" "identity_of (Some name) = Inr i" "renewInFlightLease now r g (JsInt ttl) st = Inr (a, st')"
    for st i now a st'
    using same_look[OF lease_ops_same(2)[OF that(3)]]
      transition_rpc[OF that(1,2), where now = now and env = undefined and c = "Call_renewInFlight r g (JsInt ttl)" and a = "Ans_renew a"] that(3)
    by (simp add: tag_def)
  show ?thesis
    unfolding stub_renewInFlight_def
    by (rule wp_stub[where R = "\<lambda>_ y. y = x" and tot = False, OF assms(1-3)]) (use assms(4,5) renew in auto)
qed

text \<open>What a finalization may leave of a reservation of \<open>h\<close> tokens, \<open>n\<close> being the total that was found.\<close>

definition finalized_as :: "proxy_world \<Rightarrow> bool \<Rightarrow> jsnum option \<Rightarrow> int \<Rightarrow> abs_request \<Rightarrow> bool" where
  "finalized_as w interrupted n h x \<longleftrightarrow>
     (let final = (if interrupted then Doubtful h
        else case n of None \<Rightarrow> Doubtful h | Some m \<Rightarrow> if countable_tokens m then Spent (the_int m) h else Doubtful h)
      in if calls_arrive w then x = final
         else x \<in> {Held h, Doubtful h} \<union> (case n of None \<Rightarrow> {} | Some m \<Rightarrow> {Spent (the_int m) h}))"

text \<open>The run \<open>s\<close> goes on with the record \<open>x\<close>.\<close>

definition goes_on :: "proxy_world \<Rightarrow> string \<Rightarrow> string \<Rightarrow> upstream_request list \<Rightarrow> abs_request \<Rightarrow> proxy_run \<Rightarrow> bool" where
  "goes_on w rid name sent x s \<longleftrightarrow> account w rid (Some x) s \<and> pr_stub s = Some name \<and> pr_sent s = sent"

lemma goes_on_next: "goes_on w rid name sent x s \<Longrightarrow> account w rid (Some y) (s\<lparr>pr_quotas := q, pr_turn := t\<rparr>) \<Longrightarrow>
    goes_on w rid name sent y (s\<lparr>pr_quotas := q, pr_turn := t\<rparr>)"
  by (simp add: goes_on_def)

lemma goes_mark:
  assumes "undisturbed w rid" "goes_on w rid name sent x s"
    and "\<And>r s'. goes_on w rid name sent (abs_step Mark_uncertain x) s' \<Longrightarrow> Q r s'"
    and "\<And>e y s'. \<not> calls_arrive w \<Longrightarrow> y = x \<or> y = abs_step Mark_uncertain x \<Longrightarrow> goes_on w rid name sent y s' \<Longrightarrow> E e s'"
  shows "wp (stub_markUncertain w name rid) Q E s"
proof (rule wp_mark[OF assms(1), where x = "Some x"])
  fix r e y q t
  show "Q r (s\<lparr>pr_quotas := q, pr_turn := t\<rparr>)" if "account w rid (map_option (abs_step Mark_uncertain) (Some x)) (s\<lparr>pr_quotas := q, pr_turn := t\<rparr>)"
    using assms(3) goes_on_next[OF assms(2)] that by simp
  show "E e (s\<lparr>pr_quotas := q, pr_turn := t\<rparr>)" if lost: "y = Some x \<and> (calls_arrive w \<longrightarrow> Some x = None) \<or>
      y = map_option (abs_step Mark_uncertain) (Some x) \<and> \<not> calls_arrive w" and acc: "account w rid y (s\<lparr>pr_quotas := q, pr_turn := t\<rparr>)"
  proof -
    obtain z where z: "y = Some z" "\<not> calls_arrive w" "z = x \<or> z = abs_step Mark_uncertain x" using lost by auto
    show ?thesis by (rule assms(4)[OF z(2,3) goes_on_next[OF assms(2) acc[unfolded z(1)]]])
  qed
qed (use assms(2) in \<open>simp_all add: goes_on_def\<close>)

lemma goes_settle:
  assumes "undisturbed w rid" "goes_on w rid name sent x s"
    and "\<And>r s'. countable_tokens n \<Longrightarrow> goes_on w rid name sent (abs_step (Settle (the_int n)) x) s' \<Longrightarrow> Q r s'"
    and "\<And>e y s'. y = x \<and> (calls_arrive w \<longrightarrow> \<not> countable_tokens n) \<or>
        y = abs_step (Settle (the_int n)) x \<and> countable_tokens n \<and> \<not> calls_arrive w \<Longrightarrow> goes_on w rid name sent y s' \<Longrightarrow> E e s'"
  shows "wp (stub_settle w name rid n) Q E s"
  by (rule wp_settle_countable[OF assms(1)]; (rule assms(3,4))?; (use assms(2) goes_on_next[OF assms(2)] in \<open>auto simp: goes_on_def\<close>)?)

lemma goes_release:
  assumes "undisturbed w rid" "goes_on w rid name sent x s"
    and "\<And>r s'. goes_on w rid name sent x s' \<Longrightarrow> Q r s'" "\<And>e s'. goes_on w rid name sent x s' \<Longrightarrow> E e s'"
  shows "wp (stub_releaseInFlight w name rid g) Q E s"
  by (rule wp_lease_calls(2)[OF assms(1), where x = "Some x"])
    (use assms goes_on_next[OF assms(2)] in \<open>auto simp: goes_on_def\<close>)

lemma goes_renew:
  assumes "undisturbed w rid" "goes_on w rid name sent x s"
    and "\<And>r s'. goes_on w rid name sent x s' \<Longrightarrow> Q r s'" "\<And>e s'. goes_on w rid name sent x s' \<Longrightarrow> E e s'"
  shows "wp (stub_renewInFlight w name rid g ttl) Q E s"
  by (rule wp_renew[OF assms(1), where x = "Some x"])
    (use assms goes_on_next[OF assms(2)] in \<open>auto simp: goes_on_def\<close>)

lemma wp_finalizeUncertain:
  assumes u: "undisturbed w rid" and g: "goes_on w rid name sent x s" and l: "l_requestId l = rid"
    and q: "\<And>r y s'. y = abs_step Mark_uncertain x \<or> y = x \<and> \<not> calls_arrive w \<Longrightarrow> goes_on w rid name sent y s' \<Longrightarrow> Q r s'"
  shows "wp (finalizeUncertain w name l e) Q E s"
  unfolding finalizeUncertain_def wp_simps wp_error l
  by (rule goes_mark[OF u g]; rule goes_release[OF u], assumption; rule q; auto)

text \<open>The finalization of a stream whose tokens are reserved.\<close>

lemma wp_finalization:
  assumes u: "undisturbed w rid" and g: "goes_on w rid name sent (Held h) s" and l: "l_requestId l = rid"
    and q: "\<And>r y s'. finalized_as w (disconnected \<or> err \<noteq> None) (total_tokens usage) h y \<Longrightarrow> goes_on w rid name sent y s' \<Longrightarrow> Q r s'"
  shows "wp (finalization w name l usage disconnected err) Q E s"
proof (cases "disconnected \<or> err \<noteq> None")
  case True
  then have "finalization w name l usage disconnected err = finalizeUncertain w name l err" by (auto simp: finalization_def)
  then show ?thesis using True by (auto intro!: wp_finalizeUncertain[OF u g l] q simp: finalized_as_def)
next
  case False
  note q' = q[unfolded finalized_as_def Let_def] and uncertain = wp_finalizeUncertain[OF u _ l, of name sent]
  have doubtful: "wp (finalizeUncertain w name l e) Q E s'"
    if "goes_on w rid name sent y s'" "\<And>z. z = abs_step Mark_uncertain y \<or> z = y \<and> \<not> calls_arrive w \<Longrightarrow>
      finalized_as w False (total_tokens usage) h z" for e y s'
  proof (rule uncertain[OF that(1)])
    note f = that(2)
    show "Q r s''" if "z = abs_step Mark_uncertain y \<or> z = y \<and> \<not> calls_arrive w" "goes_on w rid name sent z s''" for r z s''
      by (rule q[OF _ that(2)]) (use f[OF that(1)] False in simp)
  qed
  have release: "wp (stub_releaseInFlight w name rid (l_generation l)) (\<lambda>_. Q r) (\<lambda>e. wp (finalizeUncertain w name l (Some e)) Q E) s'"
    if "goes_on w rid name sent y s'" "finalized_as w False (total_tokens usage) h y"
      "\<And>z. z = abs_step Mark_uncertain y \<or> z = y \<and> \<not> calls_arrive w \<Longrightarrow> finalized_as w False (total_tokens usage) h z" for y s' r
    by (rule goes_release[OF u that(1)]) (use that(2,3) q False doubtful in auto)
  show ?thesis
  proof (cases "total_tokens usage")
    case None
    have "wp (stub_markUncertain w name rid) (\<lambda>_. wp (stub_releaseInFlight w name rid (l_generation l)) (\<lambda>_. Q (Stage_uncertain, None))
        (\<lambda>e. wp (finalizeUncertain w name l (Some e)) Q E)) (\<lambda>e. wp (finalizeUncertain w name l (Some e)) Q E) s"
      by (rule goes_mark[OF u g]) (auto intro!: release doubtful simp: finalized_as_def None split: if_splits)
    then show ?thesis using False by (auto simp: finalization_def settle_stream_def None l)
  next
    case (Some n)
    have "wp (stub_settle w name rid n) (\<lambda>r. wp (stub_releaseInFlight w name rid (l_generation l))
        (\<lambda>_. Q (if r = Unknown_request then Stage_uncertain else Stage_success, None))
        (\<lambda>e. wp (finalizeUncertain w name l (Some e)) Q E)) (\<lambda>e. wp (finalizeUncertain w name l (Some e)) Q E) s"
      by (rule goes_settle[OF u g]) (auto intro!: release doubtful simp: finalized_as_def Some split: if_splits)
    then show ?thesis using False by (auto simp: finalization_def settle_stream_def Some l)
  qed
qed

subsection \<open>The events of a stream\<close>

definition interrupted :: "proxy_stream \<Rightarrow> bool" where
  "interrupted st \<longleftrightarrow> ps_disconnected st \<or> ps_renewal_error st \<noteq> None"

text \<open>
  The invariant of a stream.  While it is open its tokens are reserved; once it is closed it is finalized, and its
  account is what the finalization leaves.
\<close>

definition stream_inv :: "proxy_world \<Rightarrow> string \<Rightarrow> string \<Rightarrow> upstream_request list \<Rightarrow> int \<Rightarrow> proxy_stream \<Rightarrow> bool" where
  "stream_inv w rid name sent h st \<longleftrightarrow> ps_finalized st = (\<not> ps_open st) \<and> (ps_timer st \<longrightarrow> ps_open st) \<and>
     (ps_open st \<longrightarrow> \<not> interrupted st) \<and>
     (\<exists>x. goes_on w rid name sent x (ps_run st) \<and>
       (if ps_open st then x = Held h else finalized_as w (interrupted st) (total_tokens (tap_usage (ps_tap st))) h x))"

lemma stream_inv_renewal [simp]: "stream_inv w rid name sent h (st\<lparr>ps_renewal := r\<rparr>) = stream_inv w rid name sent h st"
  by (simp add: stream_inv_def interrupted_def)

lemma finalize_closes:
  assumes u: "undisturbed w rid" and l: "l_requestId l = rid" and g: "goes_on w rid name sent (Held h) (ps_run st)"
    and st: "\<not> ps_finalized st" "\<not> ps_open st"
  shows "stream_inv w rid name sent h (finalize w name l st)" "ps_finalized (finalize w name l st)"
proof -
  let ?n = "total_tokens (tap_usage (ps_tap st))"
  obtain r s where f: "finalization w name l (tap_usage (ps_tap st)) (ps_disconnected st) (ps_renewal_error st) (ps_run st) = (r, s)" by fastforce
  have "wp (finalization w name l (tap_usage (ps_tap st)) (ps_disconnected st) (ps_renewal_error st))
      (\<lambda>_ s. \<exists>x. goes_on w rid name sent x s \<and> finalized_as w (interrupted st) ?n h x) (\<lambda>_ _. False) (ps_run st)"
    by (rule wp_finalization[OF u g l]) (auto simp: interrupted_def)
  then obtain x where x: "goes_on w rid name sent x s" "finalized_as w (interrupted st) ?n h x"
    unfolding wp_def f by (auto split: sum.splits)
  then show "stream_inv w rid name sent h (finalize w name l st)" "ps_finalized (finalize w name l st)"
    using st by (auto simp: finalize_def f stream_inv_def interrupted_def)
qed

lemma stream_inv_step:
  assumes u: "undisturbed w rid" and l: "l_requestId l = rid" and i: "stream_inv w rid name sent h st"
  shows "stream_inv w rid name sent h (answer_step w name l e st)"
proof (cases "ps_open st")
  case False
  then have "answer_step w name l e st = st \<or> (\<exists>r. answer_step w name l e st = st\<lparr>ps_renewal := r\<rparr>)"
    using i by (cases e) (auto simp: answer_step_def stream_inv_def renewal_answered_def failRenewal_def split: option.split)
  then show ?thesis using i by (auto simp: stream_inv_def interrupted_def)
next
  case True
  then have st: "\<not> ps_finalized st" "\<not> interrupted st" "goes_on w rid name sent (Held h) (ps_run st)"
    using i by (auto simp: stream_inv_def)
  have close: "stream_inv w rid name sent h (finalize w name l st')" if "ps_run st' = ps_run st" "\<not> ps_finalized st'" "\<not> ps_open st'" for st'
    by (rule finalize_closes[OF u l]) (use that st in simp_all)
  show ?thesis
  proof (cases e)
    case (Chunk_arrives chunk)
    then show ?thesis using i True by (auto simp: answer_step_def stream_inv_def interrupted_def)
  next
    case (Upstream_ends rest)
    then show ?thesis using True st by (auto simp: answer_step_def intro!: close)
  next
    case Stream_cancelled
    then show ?thesis using True st by (auto simp: answer_step_def intro!: close)
  next
    case Renewal_timer
    have "wp (stub_renewInFlight w name rid (l_generation l) ttl) (\<lambda>_. goes_on w rid name sent (Held h)) (\<lambda>_. goes_on w rid name sent (Held h)) (ps_run st)" for ttl
      by (rule goes_renew[OF u st(3)])
    then have "goes_on w rid name sent (Held h) s'" if "stub_renewInFlight w name rid (l_generation l) ttl (ps_run st) = (r, s')" for ttl r s'
      using that wp_result by metis
    then show ?thesis
      using i Renewal_timer st True
      by (auto simp: answer_step_def renewLease_def l stream_inv_def interrupted_def split: prod.split)
  next
    case Renewal_answers
    show ?thesis
    proof (cases "Option.bind (ps_renewal st) renewal_failure")
      case None
      then show ?thesis using i Renewal_answers
        by (auto simp: answer_step_def renewal_answered_def stream_inv_def interrupted_def bind_eq_None_conv split: option.split)
    next
      case (Some err)
      then obtain r where r: "ps_renewal st = Some r" "renewal_failure r = Some err" by (auto simp: bind_eq_Some_conv)
      have f: "stream_inv w rid name sent h (failRenewal w name l err st)"
        using st by (auto simp: failRenewal_def interrupted_def intro!: close)
      have "answer_step w name l e st = (failRenewal w name l err st)\<lparr>ps_renewal := None\<rparr>"
        by (simp add: Renewal_answers answer_step_def renewal_answered_def r)
      then show ?thesis using f by simp
    qed
  qed
qed

lemma stream_inv_start:
  assumes "undisturbed w rid" "l_requestId l = rid" "goes_on w rid name sent (Held h) s"
  shows "stream_inv w rid name sent h (proxyStream w name l has_body s)"
proof (cases has_body)
  case True
  then show ?thesis using assms(3) by (auto simp: proxyStream_def stream_start_def stream_inv_def interrupted_def)
next
  case False
  have "stream_inv w rid name sent h (finalize w name l (stream_start False s))"
    by (rule finalize_closes(1)[OF assms(1,2)]) (use assms(3) in \<open>simp_all add: stream_start_def\<close>)
  then show ?thesis using False by (simp add: proxyStream_def)
qed

lemma stream_inv_fold:
  assumes "undisturbed w rid" "l_requestId l = rid" "stream_inv w rid name sent h st"
  shows "stream_inv w rid name sent h (fold (answer_step w name l) es st)"
  using assms(3) by (induction es arbitrary: st) (auto intro: stream_inv_step[OF assms(1,2)])

text \<open>After the handler answered with a stream.\<close>

lemma streamed_inv:
  assumes "undisturbed w rid" "new_request w rid quotas" "handleProxy w ep rid request (px_start quotas caches) = (Inr (Some a), s)"
    "os_body a = Body_stream" "stream_after w has_body es s = Some st"
  obtains name sent h where "length sent = 1" "stream_inv w rid name sent h st"
proof -
  have "answered w rid a s" using proxy_handled[OF assms(1-3)] by auto
  then obtain x where x: "account w rid x s" "length (pr_sent s) \<le> 1" "pr_sent s \<noteq> []" "is_held x" "leased rid s"
    using assms(4) by (auto simp: answered_def)
  then obtain h where h: "x = Some (Held h)" by (auto simp: is_held_def split: option.splits abs_request.splits)
  obtain name l where n: "pr_stub s = Some name" "pr_lease s = Some l"
    "st = fold (answer_step w name l) es (proxyStream w name l has_body s)"
    using assms(5) by (auto simp: stream_after_def split: option.splits)
  have l: "l_requestId l = rid" using x(5) n(2) by (auto simp: leased_def)
  have "goes_on w rid name (pr_sent s) (Held h) s" using x(1) h n(1) by (simp add: goes_on_def)
  then have "stream_inv w rid name (pr_sent s) h st"
    unfolding n(3) by (intro stream_inv_fold[OF assms(1) l] stream_inv_start[OF assms(1) l])
  moreover have "length (pr_sent s) = 1" using x(2,3) by (cases "pr_sent s") auto
  ultimately show thesis using that by blast
qed

text \<open>What the tap has read.\<close>

definition stream_read :: "bool \<Rightarrow> stream_event list \<Rightarrow> proxy_stream \<Rightarrow> bool" where
  "stream_read has_body es st \<longleftrightarrow>
     (ps_open st \<longrightarrow> ps_tap st = fold tap_chunk (ps_forwarded st) \<lparr>tap_pending = [], tap_usage = None\<rparr>) \<and>
     (ps_finalized st \<and> \<not> interrupted st \<longrightarrow>
       (\<exists>rest. tap_usage (ps_tap st) = stream_usage (ps_forwarded st) rest \<and> (Upstream_ends rest \<in> set es \<or> \<not> has_body \<and> rest = [])))"

lemma finalize_keeps [simp]:
  "ps_tap (finalize w name l st) = ps_tap st" "ps_forwarded (finalize w name l st) = ps_forwarded st"
  "ps_open (finalize w name l st) = ps_open st" "ps_disconnected (finalize w name l st) = ps_disconnected st"
  "ps_renewal_error (finalize w name l st) = ps_renewal_error st" "interrupted (finalize w name l st) = interrupted st"
  by (simp_all add: finalize_def interrupted_def split: prod.split)

lemma stream_read_step:
  assumes "stream_read has_body es st" "ps_open st \<longrightarrow> \<not> ps_finalized st"
  shows "stream_read has_body (es @ [e]) (answer_step w name l e st)"
proof (cases e)
  case (Upstream_ends rest)
  then show ?thesis using assms by (auto simp: stream_read_def answer_step_def stream_usage_def)
next
  case Renewal_answers
  have f: "interrupted (failRenewal w name l err st) \<or> failRenewal w name l err st = st" "\<not> ps_open (failRenewal w name l err st) \<or> failRenewal w name l err st = st" for err
    by (simp_all add: failRenewal_def) (auto simp: interrupted_def)
  show ?thesis
  proof (cases "\<exists>err. answer_step w name l e st = (failRenewal w name l err st)\<lparr>ps_renewal := None\<rparr> \<and> failRenewal w name l err st \<noteq> st")
    case True
    then obtain err where err: "answer_step w name l e st = (failRenewal w name l err st)\<lparr>ps_renewal := None\<rparr>"
      "failRenewal w name l err st \<noteq> st" by blast
    then have "interrupted (failRenewal w name l err st)" "\<not> ps_open (failRenewal w name l err st)" using f[of err] by simp_all
    then show ?thesis by (simp add: err(1) stream_read_def interrupted_def)
  next
    case False
    then have "answer_step w name l e st = st \<or> answer_step w name l e st = st\<lparr>ps_renewal := None\<rparr>"
      using Renewal_answers by (auto simp: answer_step_def renewal_answered_def split: option.splits)
    then show ?thesis using assms(1) by (auto simp: stream_read_def interrupted_def)
  qed
qed (use assms in \<open>auto simp: stream_read_def answer_step_def renewLease_def interrupted_def split: prod.split\<close>)

lemma closed_finalized:
  "(ps_open st \<longrightarrow> \<not> ps_finalized st) \<Longrightarrow> ps_open (answer_step w name l e st) \<longrightarrow> \<not> ps_finalized (answer_step w name l e st)"
  by (cases e) (auto simp: answer_step_def renewLease_def renewal_answered_def failRenewal_def split: prod.split option.split)

lemma stream_read_fold:
  assumes "stream_read has_body es st" "ps_open st \<longrightarrow> \<not> ps_finalized st"
  shows "stream_read has_body (es @ es') (fold (answer_step w name l) es' st)"
  using assms
proof (induction es' arbitrary: es st)
  case (Cons e es')
  then show ?case using Cons.IH[OF stream_read_step[OF Cons.prems, of e w name l] closed_finalized[OF Cons.prems(2)]] by simp
qed simp

lemma streamed_read:
  assumes "stream_after w has_body es s = Some st"
  shows "stream_read has_body es st"
proof -
  obtain name l where st: "st = fold (answer_step w name l) es (proxyStream w name l has_body s)"
    using assms by (auto simp: stream_after_def split: option.splits)
  have "stream_usage [] [] = None" by (simp add: stream_usage_def tap_flush_def consumeEventText_def)
  then have "stream_read has_body [] (proxyStream w name l has_body s)" "ps_open (proxyStream w name l has_body s) \<longrightarrow> \<not> ps_finalized (proxyStream w name l has_body s)"
    by (auto simp: proxyStream_def stream_read_def stream_start_def)
  from stream_read_fold[OF this, of es w name l] show ?thesis by (simp add: st)
qed

subsection \<open>The properties\<close>

text \<open>C31: A streamed answer is settled by its text.  When no call is lost, the finalization of a stream leaves the account of the
  request spent with the total of the usage that its whole text carries, or in doubt: when the text carries none that can be
  counted, when the client went away, upstream broke off or a renewal of the lease failed.\<close>

theorem stream_settled:
  assumes "undisturbed w rid" "calls_arrive w" "new_request w rid quotas"
    "handleProxy w ep rid request (px_start quotas caches) = (Inr (Some a), s)" "os_body a = Body_stream"
    "stream_after w has_body es s = Some st" "ps_finalized st"
  shows "\<exists>name h rest. pr_stub (ps_run st) = Some name \<and> (interrupted st \<or> Upstream_ends rest \<in> set es \<or> \<not> has_body \<and> rest = []) \<and>
    look (pr_quotas (ps_run st) name) rid = Some
      (if interrupted st then Doubtful h
       else case total_tokens (stream_usage (ps_forwarded st) rest) of
         None \<Rightarrow> Doubtful h
       | Some n \<Rightarrow> if countable_tokens n then Spent (the_int n) h else Doubtful h)"
proof -
  obtain name sent h where i: "stream_inv w rid name sent h st" using streamed_inv[OF assms(1,3-6)] .
  then obtain x where x: "goes_on w rid name sent x (ps_run st)" "finalized_as w (interrupted st) (total_tokens (tap_usage (ps_tap st))) h x"
    using assms(7) by (auto simp: stream_inv_def)
  then have r: "pr_stub (ps_run st) = Some name" "look (pr_quotas (ps_run st) name) rid = Some x"
    by (auto simp: goes_on_def account_def)
  show ?thesis
  proof (cases "interrupted st")
    case True
    then show ?thesis using r x(2) assms(2) by (auto simp: finalized_as_def)
  next
    case False
    then obtain rest where "tap_usage (ps_tap st) = stream_usage (ps_forwarded st) rest" "Upstream_ends rest \<in> set es \<or> \<not> has_body \<and> rest = []"
      using streamed_read[OF assms(6)] assms(7) by (auto simp: stream_read_def)
    then show ?thesis using r x(2) assms(2) False by (intro exI[of _ name] exI[of _ h] exI[of _ rest]) (simp add: finalized_as_def)
  qed
qed

text \<open>A stream of the sample request: a chunk with the usage, a renewal whose answer comes late, and the end.\<close>

definition px_chunk :: string where
  "px_chunk = ''data: '' @ px_answer @ [CHR 0x0A, CHR 0x0A]"

definition px_events :: "stream_event list" where
  "px_events = [Chunk_arrives px_chunk, Renewal_timer, Upstream_ends [], Renewal_answers]"

lemma px_stream_usage: "total_tokens (stream_usage [px_chunk] []) = Some (JsInt 25)" "countable_tokens (JsInt 25)"
  by code_simp+

lemma px_streamed_run:
  obtains a s where "handleProxy px_world Endpoint_chat px_rid (px_request\<lparr>rx_body := Some [px_stream_text]\<rparr>)
      (px_start (\<lambda>_. empty_store) \<lparr>registryCache = None, policyCache = []\<rparr>) = (Inr (Some a), s)"
    "os_body a = Body_stream" "pr_stub s = Some px_name" "pr_lease s = Some px_lease"
  using px_stream_run by (auto simp: wp_def px_streaming_def split: prod.splits sum.splits)

lemma px_stream_over:
  assumes "pr_stub s = Some name" "pr_lease s = Some l"
  obtains st where "stream_after w True px_events s = Some st" "ps_finalized st" "\<not> interrupted st" "ps_forwarded st = [px_chunk]"
proof -
  obtain r s1 where r: "stub_renewInFlight w name (l_requestId l) (l_generation l) (resolveInFlightLeaseTtlMs (pw_lease_ttl w)) s = (r, s1)" by fastforce
  have f: "ps_finalized (finalize w name l st)" for st by (simp add: finalize_def split: prod.split)
  obtain st where "stream_after w True px_events s = Some st" using assms by (simp add: stream_after_def)
  moreover have "ps_finalized st" "\<not> interrupted st" "ps_forwarded st = [px_chunk]" if "stream_after w True px_events s = Some st" for st
    using that r f by (auto simp: stream_after_def assms px_events_def proxyStream_def stream_start_def answer_step_def renewLease_def
      renewal_answered_def failRenewal_def interrupted_def split: option.splits)
  ultimately show thesis using that by blast
qed

theorem stream_settled_witness:
  "\<exists>a s st name h. handleProxy px_world Endpoint_chat px_rid (px_request\<lparr>rx_body := Some [px_stream_text]\<rparr>)
      (px_start (\<lambda>_. empty_store) \<lparr>registryCache = None, policyCache = []\<rparr>) = (Inr (Some a), s) \<and>
    stream_after px_world True px_events s = Some st \<and> look (pr_quotas (ps_run st) name) px_rid = Some (Spent 25 h)"
proof -
  obtain a s where s: "handleProxy px_world Endpoint_chat px_rid (px_request\<lparr>rx_body := Some [px_stream_text]\<rparr>)
      (px_start (\<lambda>_. empty_store) \<lparr>registryCache = None, policyCache = []\<rparr>) = (Inr (Some a), s)"
    "os_body a = Body_stream" "pr_stub s = Some px_name" "pr_lease s = Some px_lease" by (rule px_streamed_run)
  obtain st where st: "stream_after px_world True px_events s = Some st" "ps_finalized st" "\<not> interrupted st" "ps_forwarded st = [px_chunk]"
    by (rule px_stream_over[OF s(3,4)])
  have "Upstream_ends rest \<in> set px_events \<Longrightarrow> rest = []" for rest by (simp add: px_events_def)
  then show ?thesis
    using stream_settled[OF px_undisturbed px_arrive px_new s(1,2) st(1,2)] s(1) st px_stream_usage by fastforce
qed

text \<open>C32: The tokens of a streamed answer stay on account.  Whatever calls are lost and whatever happens to the stream, its tokens
  are reserved until the finalization, and after it they are reserved, in doubt, or spent with a total that the stream reported;
  they are never given back.\<close>

theorem stream_on_account:
  assumes "undisturbed w rid" "new_request w rid quotas"
    "handleProxy w ep rid request (px_start quotas caches) = (Inr (Some a), s)" "os_body a = Body_stream"
    "stream_after w has_body es s = Some st"
  shows "\<exists>name h x. length (pr_sent (ps_run st)) = 1 \<and> pr_stub (ps_run st) = Some name \<and> look (pr_quotas (ps_run st) name) rid = Some x \<and>
    (ps_finalized st \<or> x = Held h) \<and>
    (x = Held h \<or> x = Doubtful h \<or> (\<exists>n. total_tokens (tap_usage (ps_tap st)) = Some n \<and> x = Spent (the_int n) h))"
proof -
  obtain name sent h where i: "length sent = 1" "stream_inv w rid name sent h st" using streamed_inv[OF assms] .
  then obtain x where x: "goes_on w rid name sent x (ps_run st)"
    "if ps_open st then x = Held h else finalized_as w (interrupted st) (total_tokens (tap_usage (ps_tap st))) h x"
    by (auto simp: stream_inv_def)
  then have "length (pr_sent (ps_run st)) = 1" "pr_stub (ps_run st) = Some name" "look (pr_quotas (ps_run st) name) rid = Some x"
    using i(1) by (auto simp: goes_on_def account_def)
  moreover have "ps_finalized st \<or> x = Held h" using i(2) x(2) by (auto simp: stream_inv_def)
  moreover have "x = Held h \<or> x = Doubtful h \<or> (\<exists>n. total_tokens (tap_usage (ps_tap st)) = Some n \<and> x = Spent (the_int n) h)"
    using x(2) by (auto simp: finalized_as_def Let_def split: if_splits option.splits)
  ultimately show ?thesis by blast
qed

theorem stream_on_account_witness:
  "\<exists>a s st name h. handleProxy px_world Endpoint_chat px_rid (px_request\<lparr>rx_body := Some [px_stream_text]\<rparr>)
      (px_start (\<lambda>_. empty_store) \<lparr>registryCache = None, policyCache = []\<rparr>) = (Inr (Some a), s) \<and>
    stream_after px_world True [Chunk_arrives px_chunk] s = Some st \<and> look (pr_quotas (ps_run st) name) px_rid = Some (Held h)"
proof -
  obtain a s where s: "handleProxy px_world Endpoint_chat px_rid (px_request\<lparr>rx_body := Some [px_stream_text]\<rparr>)
      (px_start (\<lambda>_. empty_store) \<lparr>registryCache = None, policyCache = []\<rparr>) = (Inr (Some a), s)"
    "os_body a = Body_stream" "pr_stub s = Some px_name" "pr_lease s = Some px_lease" by (rule px_streamed_run)
  obtain st where st: "stream_after px_world True [Chunk_arrives px_chunk] s = Some st" "\<not> ps_finalized st"
    using s(3,4) by (simp add: stream_after_def proxyStream_def stream_start_def answer_step_def)
  then show ?thesis using stream_on_account[OF px_undisturbed px_new s(1,2) st(1)] s(1) by blast
qed

text \<open>After the finalization there is no further call and no further outcome.\<close>

lemma finalized_step:
  assumes "ps_finalized st" "\<not> ps_open st" "\<not> ps_timer st"
  shows "\<exists>r. answer_step w name l e st = st\<lparr>ps_renewal := r\<rparr>"
  using assms by (cases e) (auto simp: answer_step_def renewal_answered_def failRenewal_def split: option.split intro: exI[of _ "ps_renewal st"])

lemma finalized_fold:
  assumes "ps_finalized st" "\<not> ps_open st" "\<not> ps_timer st"
  shows "\<exists>r. fold (answer_step w name l) es st = st\<lparr>ps_renewal := r\<rparr>"
  using assms
proof (induction es arbitrary: st)
  case Nil
  show ?case by (auto intro: exI[of _ "ps_renewal st"])
next
  case (Cons e es)
  obtain r where r: "answer_step w name l e st = st\<lparr>ps_renewal := r\<rparr>" using finalized_step[OF Cons.prems] by blast
  obtain r' where "fold (answer_step w name l) es (st\<lparr>ps_renewal := r\<rparr>) = st\<lparr>ps_renewal := r, ps_renewal := r'\<rparr>"
    using Cons.IH[of "st\<lparr>ps_renewal := r\<rparr>"] Cons.prems by auto
  then show ?case by (auto simp: r)
qed

definition open_unfinalized :: "proxy_stream \<Rightarrow> bool" where
  "open_unfinalized st \<longleftrightarrow> ps_finalized st = (\<not> ps_open st) \<and> (ps_timer st \<longrightarrow> ps_open st)"

lemma open_unfinalized_finalize: "\<not> ps_open st \<Longrightarrow> \<not> ps_finalized st \<Longrightarrow> open_unfinalized (finalize w name l st)"
  by (simp add: open_unfinalized_def finalize_def split: prod.split)

lemma open_unfinalized_step: "open_unfinalized st \<Longrightarrow> open_unfinalized (answer_step w name l e st)"
proof (cases e)
  case Renewal_answers
  assume i: "open_unfinalized st"
  have f: "open_unfinalized (failRenewal w name l err st)" for err
    using i by (auto simp: failRenewal_def open_unfinalized_def finalize_def split: prod.split)
  have r: "open_unfinalized (t\<lparr>ps_renewal := x\<rparr>) = open_unfinalized t" for t x by (simp add: open_unfinalized_def)
  show ?thesis using i f Renewal_answers by (auto simp: answer_step_def renewal_answered_def r split: option.split)
qed (auto simp: answer_step_def renewLease_def open_unfinalized_def finalize_def split: prod.split)

lemma open_unfinalized_after:
  "open_unfinalized (fold (answer_step w name l) es (proxyStream w name l has_body s))"
proof -
  have "open_unfinalized (fold (answer_step w name l) es st)" if "open_unfinalized st" for st
    using that by (induction es arbitrary: st) (auto intro: open_unfinalized_step)
  moreover have "open_unfinalized (proxyStream w name l has_body s)"
    by (auto simp: proxyStream_def open_unfinalized_def stream_start_def finalize_def split: prod.split)
  ultimately show ?thesis .
qed

text \<open>C33: A stream is finalized, and once.  Once upstream has ended or the stream was cancelled, it is finalized, with one outcome,
  and nothing that happens afterwards calls the quota controller again or changes the outcome.\<close>

theorem stream_finalized_once:
  assumes "stream_after w has_body (es @ e # es') s = Some st'" "e = Stream_cancelled \<or> e = Upstream_ends rest"
  shows "\<exists>st. stream_after w has_body (es @ [e]) s = Some st \<and> ps_finalized st \<and> ps_run st' = ps_run st \<and> ps_outcome st' = ps_outcome st"
proof -
  obtain name l where n: "pr_stub s = Some name" "pr_lease s = Some l"
    using assms(1) by (auto simp: stream_after_def split: option.splits)
  define st where "st = fold (answer_step w name l) (es @ [e]) (proxyStream w name l has_body s)"
  have i: "open_unfinalized st" by (simp only: st_def open_unfinalized_after)
  have "\<not> ps_open st" using assms(2) by (auto simp: st_def answer_step_def)
  then have c: "ps_finalized st" "\<not> ps_open st" "\<not> ps_timer st" using i by (auto simp: open_unfinalized_def)
  have "st' = fold (answer_step w name l) es' st" using assms(1) n by (simp add: stream_after_def st_def)
  moreover obtain r where "fold (answer_step w name l) es' st = st\<lparr>ps_renewal := r\<rparr>" using finalized_fold[OF c] by blast
  moreover have "stream_after w has_body (es @ [e]) s = Some st" using n by (simp add: stream_after_def st_def)
  ultimately show ?thesis using c by simp
qed

theorem stream_finalized_once_witness:
  "\<exists>s st. stream_after px_world True [Chunk_arrives px_chunk, Stream_cancelled] s = Some st \<and> ps_finalized st"
proof -
  define s where "s = (px_start (\<lambda>_. empty_store) \<lparr>registryCache = None, policyCache = []\<rparr>)\<lparr>pr_stub := Some px_name, pr_lease := Some px_lease\<rparr>"
  obtain st' where "stream_after px_world True ([Chunk_arrives px_chunk] @ Stream_cancelled # [Renewal_answers]) s = Some st'"
    by (simp add: s_def stream_after_def)
  from stream_finalized_once[OF this, of "[]"] show ?thesis by auto
qed

end
