(* ===== verification/Slot_Contract.thy ===== *)
theory Slot_Contract
  imports Samples
begin

section \<open>Slot_Contract: the exclusive slot of the CPU gate\<close>

text \<open>
  The slot is held by one owner with one generation at a time, whatever claims and closes interleave, and a close
  that succeeds has the proof that nothing of its request is left open in the quota controller.
\<close>

subsection \<open>The transactions of the slot\<close>

text \<open>A claim, the marking transaction of a close, and the freeing transaction of a close that has its proof.\<close>

inductive slot_step :: "string option \<Rightarrow> quota_store \<Rightarrow> quota_store \<Rightarrow> bool" for idName where
  claim: "claimRelayCpuGateSlot idName env owner st = Inr (res, st') \<Longrightarrow> slot_step idName st st'"
| mark: "close_mark owner g st = (m, st') \<Longrightarrow> slot_step idName st st'"
| free: "close_proof fence inspected \<Longrightarrow> close_free owner g st = (res, st') \<Longrightarrow> slot_step idName st st'"

fun slot_holder :: "slot_state \<Rightarrow> (slot_owner \<times> int) option" where
  "slot_holder Slot_idle = None"
| "slot_holder (Slot_held owner g) = Some (owner, g)"
| "slot_holder (Slot_closing owner g) = Some (owner, g)"

text \<open>The counter of generations is that of the holder, and a slot that was never claimed has none.\<close>

definition slot_ok :: "quota_store \<Rightarrow> bool" where
  "slot_ok st \<longleftrightarrow> (\<forall>owner g. slot_holder (stored_slot st) = Some (owner, g) \<longrightarrow> st_slot_generation st = Some g) \<and>
     (\<forall>g. st_slot_generation st = Some g \<longrightarrow> 1 \<le> g \<and> safe_int g)"

definition slot_generation :: "quota_store \<Rightarrow> int" where
  "slot_generation st = (case st_slot_generation st of None \<Rightarrow> 0 | Some g \<Rightarrow> g)"

lemma slot_store_simps [simp]:
  "stored_slot (st\<lparr>st_slot := None\<rparr>) = Slot_idle" "stored_slot (st\<lparr>st_slot := Some x\<rparr>) = x"
  "stored_slot (st\<lparr>st_slot_generation := y\<rparr>) = stored_slot st"
  "stored_slot (st\<lparr>st_slot := Some x, st_slot_generation := y\<rparr>) = x"
  by (simp_all add: stored_slot_def)

lemma slot_owner_eq: "so_pool a = so_pool b \<and> so_requestId a = so_requestId b \<longleftrightarrow> a = (b :: slot_owner)"
  by auto

lemma claim_cases:
  assumes "claimRelayCpuGateSlot idName env owner st = Inr (res, st')"
  obtains (fresh) "stored_slot st = Slot_idle" "safe_int (slot_generation st + 1)"
      "res = Slot_claimed (Slot_held owner (slot_generation st + 1))"
      "st' = st\<lparr>st_slot := Some (Slot_held owner (slot_generation st + 1)), st_slot_generation := Some (slot_generation st + 1)\<rparr>"
  | (again) g where "stored_slot st = Slot_held owner g" "res = Slot_claimed (Slot_held owner g)" "st' = st"
  | (busy) "slot_holder (stored_slot st) \<noteq> None" "res = Slot_busy" "st' = st"
      "\<And>g. stored_slot st \<noteq> Slot_held owner g"
  using assms
  by (auto simp: claimRelayCpuGateSlot_def and_then_Inr Let_def slot_generation_def slot_owner_eq split: slot_state.splits if_splits)

lemma mark_cases:
  assumes "close_mark owner g st = (m, st')"
  obtains "st' = st" | "stored_slot st = Slot_held owner g" "st' = st\<lparr>st_slot := Some (Slot_closing owner g)\<rparr>" "m = Mark_closing"
  using assms by (auto simp: close_mark_def matchesOwner_def slot_owner_eq split: slot_state.splits if_splits)

lemma free_cases:
  assumes "close_free owner g st = (res, st')"
  obtains "st' = st" "res = Slot_blocked" | "stored_slot st = Slot_closing owner g" "st' = st\<lparr>st_slot := None\<rparr>" "res = Slot_closed"
  using assms by (auto simp: close_free_def matchesOwner_def slot_owner_eq stored_slot_def split: option.splits slot_state.splits if_splits)

lemma slot_step_ok:
  assumes "slot_ok st" "slot_step idName st st'"
  shows "slot_ok st'"
  using assms(2)
proof cases
  case (claim env owner res)
  then show ?thesis
  proof (cases rule: claim_cases)
    case fresh
    have "0 \<le> slot_generation st" using assms(1) by (fastforce simp: slot_ok_def slot_generation_def split: option.split)
    then show ?thesis using fresh by (simp add: slot_ok_def)
  qed (use assms(1) in simp_all)
next
  case (mark owner g m)
  from mark(1) show ?thesis by (cases rule: mark_cases) (use assms(1) in \<open>auto simp: slot_ok_def\<close>)
next
  case (free fence inspected owner g res)
  from free(2) show ?thesis by (cases rule: free_cases) (use assms(1) in \<open>auto simp: slot_ok_def\<close>)
qed

interpretation slot: invariant_system "slot_step idName" empty_store slot_ok for idName
proof
  show "slot_ok empty_store" by (simp add: slot_ok_def stored_slot_def empty_store_def)
  show "slot_ok s'" if "slot_ok s" "slot_step idName s s'" for s s'
    using slot_step_ok that .
qed

subsection \<open>Mutual exclusion\<close>

text \<open>Generations only grow, and a holder that stays was never replaced.\<close>

definition slot_since :: "quota_store \<Rightarrow> quota_store \<Rightarrow> bool" where
  "slot_since st st' \<longleftrightarrow> slot_generation st \<le> slot_generation st' \<and>
     (slot_generation st' = slot_generation st \<longrightarrow>
        slot_holder (stored_slot st') = slot_holder (stored_slot st) \<or> slot_holder (stored_slot st') = None)"

lemma slot_since_refl: "slot_since st st"
  by (simp add: slot_since_def)

lemma slot_since_step:
  assumes "slot_ok b" "slot_step idName b c" "slot_since a b"
  shows "slot_since a c"
  using assms(2)
proof cases
  case (claim env owner res)
  then show ?thesis
  proof (cases rule: claim_cases)
    case fresh
    have "slot_generation c = slot_generation b + 1" using fresh by (simp add: slot_generation_def)
    then show ?thesis using assms(3) by (simp add: slot_since_def)
  qed (use assms(3) in simp_all)
next
  case (mark owner g m)
  from mark(1) show ?thesis
    by (cases rule: mark_cases) (use assms(3) in \<open>auto simp: slot_since_def slot_generation_def\<close>)
next
  case (free fence inspected owner g res)
  from free(2) show ?thesis
    by (cases rule: free_cases) (use assms(3) in \<open>auto simp: slot_since_def slot_generation_def\<close>)
qed

text \<open>C10: The slot excludes: along any interleaving of claims and closes, two holders with the same generation are the same owner,
  a later holder with another owner has a larger generation, and the stored generation counter is that of the holder.\<close>

theorem slot_exclusive:
  assumes "(slot_step idName)\<^sup>*\<^sup>* empty_store st" "(slot_step idName)\<^sup>*\<^sup>* st st'"
    and "slot_holder (stored_slot st) = Some (owner, g)" "slot_holder (stored_slot st') = Some (owner', g')"
  shows "g \<le> g' \<and> (owner' \<noteq> owner \<longrightarrow> g < g') \<and> st_slot_generation st' = Some g'"
proof -
  have o: "slot_ok st" using slot.always[OF assms(1)] .
  have o': "slot_ok st'" using slot.keeps_many[OF assms(2) o] .
  have "slot_since st st'"
    by (rule slot.stable(1)[where P = "slot_since st", OF assms(2) o slot_since_refl]) (assumption | rule slot_since_step)+
  moreover have "slot_generation st = g" "st_slot_generation st' = Some g'" "slot_generation st' = g'"
    using o o' assms(3,4) by (simp_all add: slot_ok_def slot_generation_def)
  ultimately show ?thesis using assms(3,4) by (auto simp: slot_since_def)
qed

definition slot_env :: quota_env where
  "slot_env = day_env"

definition slot_owner_1 :: slot_owner where
  "slot_owner_1 = \<lparr>so_pool = STANDARD, so_requestId = ''req_01ARZ3NDEKTSV4RRFFQ69G5FAV''\<rparr>"

lemma slot_claimed:
  "claimRelayCpuGateSlot (Some ''cpu-gate-slot:v1:preview'') day_env slot_owner_1 empty_store
     = Inr (Slot_claimed (Slot_held slot_owner_1 1),
            empty_store\<lparr>st_slot := Some (Slot_held slot_owner_1 1), st_slot_generation := Some 1\<rparr>)"
proof -
  have "RELAY_REQUEST_ID_PATTERN ''req_01ARZ3NDEKTSV4RRFFQ69G5FAV''" using example_valid(1) by (simp add: valid_context_def example_context_def)
  then show ?thesis
    by (simp add: claimRelayCpuGateSlot_def assertSlotIdentity_def isCpuGateSlotName_def CPU_GATE_SLOT_PREFIX_def relay_fields
        assertOwner_def slot_owner_ok_def slot_owner_1_def stored_slot_def empty_store_def safe_int_def MAX_SAFE_INTEGER_def)
qed

definition slot_owner_2 :: slot_owner where
  "slot_owner_2 = slot_owner_1\<lparr>so_pool := MINI\<rparr>"

abbreviation slot_first :: quota_store where
  "slot_first \<equiv> empty_store\<lparr>st_slot := Some (Slot_held slot_owner_1 1), st_slot_generation := Some 1\<rparr>"

abbreviation slot_second :: quota_store where
  "slot_second \<equiv> empty_store\<lparr>st_slot := Some (Slot_held slot_owner_2 2), st_slot_generation := Some 2\<rparr>"

lemma slot_taken_over: "(slot_step (Some ''cpu-gate-slot:v1:preview''))\<^sup>*\<^sup>* slot_first slot_second"
proof -
  let ?id = "Some ''cpu-gate-slot:v1:preview''"
  let ?closing = "slot_first\<lparr>st_slot := Some (Slot_closing slot_owner_1 1)\<rparr>" and ?idle = "slot_first\<lparr>st_slot := None\<rparr>"
  have id: "RELAY_REQUEST_ID_PATTERN ''req_01ARZ3NDEKTSV4RRFFQ69G5FAV''" using example_valid(1) by (simp add: valid_context_def example_context_def)
  have "close_mark slot_owner_1 1 slot_first = (Mark_closing, ?closing)"
    by (simp add: close_mark_def matchesOwner_def)
  then have 1: "slot_step ?id slot_first ?closing" by (rule slot_step.mark)
  have "close_free slot_owner_1 1 ?closing = (Slot_closed, ?idle)"
    by (simp add: close_free_def matchesOwner_def)
  then have 2: "slot_step ?id ?closing ?idle" by (rule slot_step.free[of Fenced "Absent True", rotated]) simp
  have "claimRelayCpuGateSlot ?id day_env slot_owner_2 ?idle = Inr (Slot_claimed (Slot_held slot_owner_2 2), slot_second)"
    using id by (simp add: claimRelayCpuGateSlot_def assertSlotIdentity_def isCpuGateSlotName_def CPU_GATE_SLOT_PREFIX_def relay_fields
        assertOwner_def slot_owner_ok_def slot_owner_2_def slot_owner_1_def stored_slot_def empty_store_def safe_int_def MAX_SAFE_INTEGER_def)
  then have 3: "slot_step ?id ?idle slot_second" by (rule slot_step.claim)
  show ?thesis using 1 2 3 by (meson converse_rtranclp_into_rtranclp rtranclp.rtrancl_refl)
qed

theorem slot_exclusive_witness:
  "\<exists>st st'. (slot_step (Some ''cpu-gate-slot:v1:preview''))\<^sup>*\<^sup>* st st' \<and> slot_holder (stored_slot st) = Some (slot_owner_1, 1) \<and>
     slot_holder (stored_slot st') = Some (slot_owner_2, 2) \<and> slot_owner_2 \<noteq> slot_owner_1 \<and> st_slot_generation st' = Some 2"
proof -
  have r: "(slot_step (Some ''cpu-gate-slot:v1:preview''))\<^sup>*\<^sup>* empty_store slot_first"
    by (rule r_into_rtranclp) (rule slot_step.claim[OF slot_claimed])
  have h: "slot_holder (stored_slot slot_first) = Some (slot_owner_1, 1)" "slot_holder (stored_slot slot_second) = Some (slot_owner_2, 2)" by simp_all
  have "slot_owner_2 \<noteq> slot_owner_1" by (simp add: slot_owner_2_def slot_owner_1_def)
  then show ?thesis using slot_exclusive[OF r slot_taken_over h] slot_taken_over h by blast
qed

text \<open>C16: A close succeeds only for an idle slot or for the holder itself: the owner and the generation are those of the slot, the
  quota controller of the owner's pool and day gave its proof, and the slot was still closing for them when it was freed.\<close>

theorem close_needs_proof:
  assumes "closeRelayCpuGateSlot idName env ask between owner generation st = Inr (Slot_closed, st')"
  shows "stored_slot st = Slot_idle \<and> st' = st \<or>
    slot_holder (stored_slot st) = Some (owner, the_int generation) \<and>
    (\<exists>target fence inspected st1. close_target owner = Some target \<and> ask target (so_requestId owner) = Inr (fence, inspected) \<and>
       close_proof fence inspected \<and> close_mark owner (the_int generation) st = (Mark_closing, st1) \<and>
       stored_slot (between st1) = Slot_closing owner (the_int generation) \<and> st' = (between st1)\<lparr>st_slot := None\<rparr>)"
proof -
  obtain m st1 where m: "close_mark owner (the_int generation) st = (m, st1)" by (metis surj_pair)
  show ?thesis
  proof (cases m)
    case Mark_idle
    then show ?thesis using assms m
      by (auto simp: closeRelayCpuGateSlot_def and_then_Inr close_mark_def split: if_splits slot_state.splits)
  next
    case Mark_blocked
    then show ?thesis using assms m by (auto simp: closeRelayCpuGateSlot_def and_then_Inr split: if_splits)
  next
    case Mark_closing
    have sl: "slot_holder (stored_slot st) = Some (owner, the_int generation)"
      using m Mark_closing by (auto simp: close_mark_def matchesOwner_def slot_owner_eq split: slot_state.splits if_splits)
    obtain target fence inspected where p: "close_target owner = Some target" "ask target (so_requestId owner) = Inr (fence, inspected)"
      "close_proof fence inspected" "close_free owner (the_int generation) (between st1) = (Slot_closed, st')"
      using assms m Mark_closing by (auto simp: closeRelayCpuGateSlot_def and_then_Inr split: if_splits option.splits)
    from p(4) have "stored_slot (between st1) = Slot_closing owner (the_int generation) \<and> st' = (between st1)\<lparr>st_slot := None\<rparr>"
      by (cases rule: free_cases) simp_all
    then show ?thesis using sl p(1-3) m Mark_closing by blast
  qed
qed

theorem close_needs_proof_witness:
  "closeRelayCpuGateSlot (Some ''cpu-gate-slot:v1:preview'') day_env (\<lambda>_ _. Inr (Fenced, Absent True)) id slot_owner_1 (JsInt 1)
     (empty_store\<lparr>st_slot := Some (Slot_held slot_owner_1 1), st_slot_generation := Some 1\<rparr>)
   = Inr (Slot_closed, empty_store\<lparr>st_slot_generation := Some 1\<rparr>) \<and> slot_holder (Slot_held slot_owner_1 1) = Some (slot_owner_1, 1)"
proof -
  let ?st = "empty_store\<lparr>st_slot := Some (Slot_held slot_owner_1 1), st_slot_generation := Some 1\<rparr>"
  have "RELAY_REQUEST_ID_PATTERN ''req_01ARZ3NDEKTSV4RRFFQ69G5FAV''" using example_valid(1) by (simp add: valid_context_def example_context_def)
  moreover have "relayRequestUtcDayOf ''req_01ARZ3NDEKTSV4RRFFQ69G5FAV'' = Some ''2016-07-30''" by code_simp
  ultimately have c: "closeRelayCpuGateSlot (Some ''cpu-gate-slot:v1:preview'') day_env (\<lambda>_ _. Inr (Fenced, Absent True)) id slot_owner_1 (JsInt 1) ?st
     = Inr (Slot_closed, empty_store\<lparr>st_slot_generation := Some 1\<rparr>)"
    by (simp add: closeRelayCpuGateSlot_def assertSlotIdentity_def isCpuGateSlotName_def CPU_GATE_SLOT_PREFIX_def relay_fields
        assertOwner_def slot_owner_ok_def slot_owner_1_def stored_slot_def empty_store_def safe_int_def MAX_SAFE_INTEGER_def
        close_mark_def matchesOwner_def close_target_def close_free_def)
  then show ?thesis using close_needs_proof[OF c] by simp
qed

subsection \<open>What the proof says\<close>

text \<open>The proof that closes the slot is sound: when the inspection of a controller passes the test with some fence result, then
  either the request has neither record nor grant and is fenced, or its grant is terminal, its request is closed and no active
  lease of the grant is left.\<close>

lemma close_proof_sound:
  assumes "getRelayCpuGateGrantInspection st env i r now = Inr inspected" "close_proof fence inspected"
  shows "getEntry st r = None \<and> getRelayGrant st r = None \<and> kv_get (st_fences st) r = Some True \<or>
    (\<exists>g x. getRelayGrant st r = Some g \<and> isTerminalGrantState (gr_state g) \<and> look st r = Some x \<and> (\<forall>t. x \<noteq> Held t \<and> x \<noteq> Doubtful t) \<and>
       (\<forall>l \<in> set (active_leases now st). l_requestId l = r \<longrightarrow> l_generation l \<noteq> gr_leaseGeneration g))"
proof (cases inspected)
  case (Absent fenced)
  then show ?thesis using assms(1,2)
    by (cases fence) (auto simp: getRelayCpuGateGrantInspection_def and_then_Inr Let_def split: option.splits if_splits)
next
  case Non_fixture
  then show ?thesis using assms(2) by (cases fence) simp_all
next
  case (Fixture ins)
  obtain g e ls mig where ge: "getRelayGrant st r = Some g" "getEntry st r = Some e"
    "normalizeInFlightState (loadInFlight st) now = Inr (ls, mig)" "in_state ins = gr_state g" "in_requestState ins = e_state e"
    "in_activeLease ins = list_ex (\<lambda>l. l_requestId l = r \<and> l_generation l = gr_leaseGeneration g) (withoutExpiredLeases ls now)"
    using assms(1) Fixture
    by (auto simp: getRelayCpuGateGrantInspection_def and_then_Inr Let_def split: option.splits if_splits)
  have p: "\<not> in_activeLease ins" "isTerminalGrantState (gr_state g)" "e_state e \<noteq> Req_reserved \<and> e_state e \<noteq> Req_uncertain"
    using assms(2) ge(4,5) by (cases fence; auto simp: Fixture isTerminalGrantState_def)+
  have "\<forall>t. abs_entry e \<noteq> Held t \<and> abs_entry e \<noteq> Doubtful t" using p(3) by (auto simp: abs_entry_def split: request_state.splits)
  then show ?thesis using ge p(1,2) purge_active(2)[OF ge(3)] by (auto simp: look_def list_ex_iff)
qed

theorem close_proof_sound_witness:
  "getRelayCpuGateGrantInspection (empty_store\<lparr>st_fences := [(''r'', True)]\<rparr>) day_env day_identity ''r'' 5 = Inr (Absent True) \<and>
   close_proof Fenced (Absent True) \<and> getEntry (empty_store\<lparr>st_fences := [(''r'', True)]\<rparr>) ''r'' = None"
proof -
  have i: "getRelayCpuGateGrantInspection (empty_store\<lparr>st_fences := [(''r'', True)]\<rparr>) day_env day_identity ''r'' 5 = Inr (Absent True)"
    by (simp add: getRelayCpuGateGrantInspection_def store_eval)
  have "look (empty_store\<lparr>st_fences := [(''r'', True)]\<rparr>) ''r'' = None" by (simp add: look_def store_eval)
  then show ?thesis using close_proof_sound[OF i, of Fenced] i by auto
qed

end
