(* ===== verification/Deno_Http.thy ===== *)
theory Deno_Http
  imports Callback Proxy Stream_Tail
begin

section \<open>Deno_Http: the Deno service, its configuration and its tokenizer routes\<close>

text \<open>
  apps/deno-tokenizer/src/config.ts and http.ts: the configuration from the environment, the bearer check, the content
  types, the bounded reads and the routes \<open>/tokenize\<close> and \<open>/prepare\<close>.  The encoder, SHA-256, the URL parser, the lossy
  text decoder, the numbers of JSON and the random bytes of a marker are arguments.
\<close>

subsection \<open>config.ts\<close>

record service_config =
  sc_authToken :: string
  sc_maxInputBytes :: int
  sc_maxRawBodyBytes :: int

record relay_service_config =
  rs_environment :: relay_environment
  rs_callbackOrigin :: string
  rs_serviceAuthToken :: string
  rs_ingressAuthToken :: string
  rs_gatewayBBaseUrl :: string
  rs_gatewayBToken :: string
  rs_maxInputBytes :: int
  rs_maxRequestDurationMs :: int
  rs_leaseTtlMs :: int
  rs_leaseRenewalIntervalMs :: int

definition is_graphic :: "char \<Rightarrow> bool" where "is_graphic c \<longleftrightarrow> CHR 0x21 \<le> c \<and> c \<le> CHR 0x7E"

definition relayServiceTokenPattern :: "string \<Rightarrow> bool" where
  "relayServiceTokenPattern s \<longleftrightarrow> 32 \<le> length s \<and> length s \<le> 256 \<and> list_all is_graphic s"

definition relayPlainTokenPattern :: "string \<Rightarrow> bool" where
  "relayPlainTokenPattern s \<longleftrightarrow> s \<noteq> [] \<and> list_all is_graphic s"

definition all_digits :: "string \<Rightarrow> bool" where "all_digits s \<longleftrightarrow> s \<noteq> [] \<and> list_all is_digit s"

definition relayMaxRequestDurationMs :: int where "relayMaxRequestDurationMs = 3600000"
definition relayLeaseTtlMs :: int where "relayLeaseTtlMs = 120000"
definition relayLeaseRenewalIntervalMs :: int where "relayLeaseRenewalIntervalMs = 30000"
definition relayMaxInputBytesRaw :: string where "relayMaxInputBytesRaw = ''1048576''"

definition invalidRelayConfig :: js_error where "invalidRelayConfig = TypeError ''Invalid Deno relay configuration.''"

definition requireRelayEnv :: "(string \<Rightarrow> string option) \<Rightarrow> string \<Rightarrow> string throws" where
  "requireRelayEnv readEnv name =
     (case readEnv name of None \<Rightarrow> Inl invalidRelayConfig | Some value \<Rightarrow> if value = [] then Inl invalidRelayConfig else Inr value)"

definition requireExactMs :: "(string \<Rightarrow> string option) \<Rightarrow> string \<Rightarrow> int \<Rightarrow> int throws" where
  "requireExactMs readEnv name expectedMs =
     and_then (requireRelayEnv readEnv name) (\<lambda>raw.
       if \<not> all_digits raw \<or> js_number raw \<noteq> JsInt expectedMs then Inl invalidRelayConfig else Inr expectedMs)"

text \<open>\<open>origin\<close> is the origin of a parsed URL.\<close>

definition resolveCallbackOrigin :: "(string \<Rightarrow> url option) \<Rightarrow> (url \<Rightarrow> string) \<Rightarrow> string \<Rightarrow> string throws" where
  "resolveCallbackOrigin new_url origin raw =
     (case new_url raw of
        None \<Rightarrow> Inl invalidRelayConfig
      | Some u \<Rightarrow>
          let pathOnly = (u_pathname u = ''/'' \<or> u_pathname u = []);
              noExtras = (u_username u = [] \<and> u_password u = [] \<and> u_search u = [] \<and> u_hash u = [])
          in if u_protocol u \<noteq> ''https:'' \<or> \<not> pathOnly \<or> \<not> noExtras then Inl invalidRelayConfig else Inr (origin u))"

definition resolveGatewayBBaseUrl :: "(string \<Rightarrow> url option) \<Rightarrow> string \<Rightarrow> string throws" where
  "resolveGatewayBBaseUrl new_url raw =
     (case new_url raw of
        None \<Rightarrow> Inl invalidRelayConfig
      | Some u \<Rightarrow>
          let noExtras = (u_username u = [] \<and> u_password u = [] \<and> u_search u = [] \<and> u_hash u = [])
          in if u_protocol u \<noteq> ''https:'' \<or> \<not> noExtras \<or> \<not> ends_with (u_pathname u) ''/openai''
             then Inl invalidRelayConfig else Inr raw)"

definition resolveRelayServiceConfig ::
  "(string \<Rightarrow> url option) \<Rightarrow> (url \<Rightarrow> string) \<Rightarrow> (string \<Rightarrow> string option) \<Rightarrow> relay_service_config throws" where
  "resolveRelayServiceConfig new_url origin readEnv =
     (let require = requireRelayEnv readEnv;
          unless = (\<lambda>bad. if bad then Inl invalidRelayConfig else Inr ())
      in and_then (require ''OCTG_RELAY_ENVIRONMENT'') (\<lambda>environmentRaw.
         and_then (case parse_environment environmentRaw of None \<Rightarrow> Inl invalidRelayConfig | Some e \<Rightarrow> Inr e) (\<lambda>environment.
         and_then (require ''OCTG_RELAY_SERVICE_AUTH_TOKEN'') (\<lambda>serviceAuthToken.
         and_then (require ''OCTG_RELAY_INGRESS_AUTH_TOKEN'') (\<lambda>ingressAuthToken.
         and_then (unless (\<not> relayServiceTokenPattern serviceAuthToken)) (\<lambda>_.
         and_then (unless (\<not> relayServiceTokenPattern ingressAuthToken)) (\<lambda>_.
         and_then (require ''OCTG_RELAY_GATEWAY_B_TOKEN'') (\<lambda>gatewayBToken.
         and_then (unless (\<not> relayPlainTokenPattern gatewayBToken)) (\<lambda>_.
         and_then (require ''MAX_INPUT_BYTES'') (\<lambda>maxInputBytesRaw.
         and_then (unless (maxInputBytesRaw \<noteq> relayMaxInputBytesRaw)) (\<lambda>_.
         let maxInputBytes = resolveMaxInputBytes (Some maxInputBytesRaw)
         in and_then (unless (maxInputBytes \<noteq> RELAY_MAX_INGRESS_BODY_BYTES)) (\<lambda>_.
         and_then (and_then (require ''OCTG_RELAY_CALLBACK_ORIGIN'') (resolveCallbackOrigin new_url origin)) (\<lambda>callbackOrigin.
         and_then (and_then (require ''OCTG_RELAY_GATEWAY_B_BASE_URL'') (resolveGatewayBBaseUrl new_url)) (\<lambda>gatewayBBaseUrl.
         and_then (requireExactMs readEnv ''OCTG_RELAY_MAX_REQUEST_DURATION_MS'' relayMaxRequestDurationMs) (\<lambda>maxRequestDurationMs.
         and_then (requireExactMs readEnv ''OCTG_RELAY_LEASE_TTL_MS'' relayLeaseTtlMs) (\<lambda>leaseTtlMs.
         and_then (requireExactMs readEnv ''OCTG_RELAY_LEASE_RENEWAL_INTERVAL_MS'' relayLeaseRenewalIntervalMs) (\<lambda>leaseRenewalIntervalMs.
           Inr \<lparr>rs_environment = environment, rs_callbackOrigin = callbackOrigin, rs_serviceAuthToken = serviceAuthToken,
              rs_ingressAuthToken = ingressAuthToken, rs_gatewayBBaseUrl = gatewayBBaseUrl, rs_gatewayBToken = gatewayBToken,
              rs_maxInputBytes = maxInputBytes, rs_maxRequestDurationMs = maxRequestDurationMs, rs_leaseTtlMs = leaseTtlMs,
              rs_leaseRenewalIntervalMs = leaseRenewalIntervalMs\<rparr>)))))))))))))))))"

definition resolveServiceConfig :: "(string \<Rightarrow> string option) \<Rightarrow> service_config throws" where
  "resolveServiceConfig readEnv =
     (let invalid = TypeError ''Invalid Deno tokenizer configuration.''
      in case readEnv ''OCTG_TOKENIZER_AUTH_TOKEN'' of
        None \<Rightarrow> Inl invalid
      | Some authToken \<Rightarrow>
          if authToken = [] then Inl invalid
          else (case readEnv ''MAX_INPUT_BYTES'' of
             None \<Rightarrow> Inl invalid
           | Some maxInputBytesRaw \<Rightarrow>
               let normalized = js_trim maxInputBytesRaw
               in if \<not> all_digits normalized \<or> \<not> is_safe_integer (js_number normalized) \<or> the_int (js_number normalized) \<le> 0
                  then Inl invalid
                  else let maxInputBytes = resolveMaxInputBytes (Some maxInputBytesRaw)
                       in (case readEnv ''OCTG_EXPECTED_MAX_INPUT_BYTES'' of
                          None \<Rightarrow> Inl invalid
                        | Some expectedRaw \<Rightarrow>
                            if \<not> is_safe_integer (js_number expectedRaw) \<or> the_int (js_number expectedRaw) \<noteq> maxInputBytes then Inl invalid
                            else Inr \<lparr>sc_authToken = authToken, sc_maxInputBytes = maxInputBytes,
                                   sc_maxRawBodyBytes = 6 * maxInputBytes + 16\<rparr>)))"

subsection \<open>Requests, answers and bodies\<close>

text \<open>A body arrives in chunks and then ends or fails; cancelling it may fail too.\<close>

record body_source =
  bs_chunks :: "string list"
  bs_fails :: bool
  bs_cancel_fails :: bool

record deno_request =
  dq_pathname :: string
  dq_method :: string
  dq_authorization :: "string option"
  dq_content_type :: "string option"
  dq_content_length :: "string option"
  dq_idempotency_key :: "string option"
  dq_relay_context :: "string option"
  dq_body :: "body_source option"

datatype deno_body = Deno_empty | Deno_json json | Deno_text string

record deno_response =
  dr_status :: int
  dr_headers :: "(string \<times> string) list"
  dr_body :: deno_body

type_synonym exact_encoder = "string \<Rightarrow> jsnum throws"

record deno_world =
  dw_sha256 :: "string \<Rightarrow> string"
  dw_decode :: "string \<Rightarrow> string"
  dw_number_text :: "rat \<Rightarrow> string"
  dw_count :: exact_encoder
  dw_random :: "nat \<Rightarrow> string"

definition deno_error :: "int \<Rightarrow> deno_response" where
  "deno_error status = \<lparr>dr_status = status, dr_headers = [], dr_body = Deno_empty\<rparr>"

definition successResponse :: "jsnum \<Rightarrow> deno_response" where
  "successResponse baseTokenCount = \<lparr>dr_status = 200, dr_headers = [(''content-type'', ''application/json; charset=utf-8'')],
     dr_body = Deno_json (JObj [(''baseTokenCount'', JNum baseTokenCount)])\<rparr>"

definition contentLengthResponse :: "string option \<Rightarrow> int \<Rightarrow> deno_response option" where
  "contentLengthResponse contentLength maxRawBodyBytes =
     (case contentLength of
        None \<Rightarrow> None
      | Some v \<Rightarrow>
          if \<not> all_digits v then Some (deno_error 400)
          else if \<not> is_safe_integer (js_number v) \<or> the_int (js_number v) > maxRawBodyBytes then Some (deno_error 413) else None)"

text \<open>The loops over the chunks are the one of the callbacks.\<close>

definition boundedBody :: "deno_request \<Rightarrow> int \<Rightarrow> deno_response + string" where
  "boundedBody request maxRawBodyBytes =
     (case contentLengthResponse (dq_content_length request) maxRawBodyBytes of
        Some r \<Rightarrow> Inl r
      | None \<Rightarrow>
          (case dq_body request of
             None \<Rightarrow> Inr []
           | Some b \<Rightarrow>
               (case read_chunks maxRawBodyBytes 0 [] (bs_chunks b) of
                  None \<Rightarrow> Inl (deno_error (if bs_cancel_fails b then 400 else 413))
                | Some bytes \<Rightarrow> if bs_fails b then Inl (deno_error 400) else Inr bytes)))"

definition tokenizeInputOf :: "json \<Rightarrow> string option" where
  "tokenizeInputOf v =
     (if \<not> is_record v then None
      else if own_keys v \<noteq> [''inputText''] then None
      else case js_get v ''inputText'' of Some (JStr s) \<Rightarrow> Some s | _ \<Rightarrow> None)"

definition parseInput :: "string \<Rightarrow> string option \<Rightarrow> string option" where
  "parseInput rawBody mediaType =
     (case utf8_decode_fatal rawBody of
        None \<Rightarrow> None
      | Some bodyText \<Rightarrow>
          if mediaType = Some ''text/plain'' then Some bodyText
          else (case json_parse bodyText of None \<Rightarrow> None | Some parsed \<Rightarrow> tokenizeInputOf parsed))"

subsection \<open>Content types and the bearer token\<close>

record parsed_content_type =
  ct_mediaType :: "string option"
  ct_charset :: "string option"

text \<open>The two sides of the first separator.\<close>

definition cut_at :: "char \<Rightarrow> string \<Rightarrow> (string \<times> string) option" where
  "cut_at c s = (case dropWhile (\<lambda>d. d \<noteq> c) s of [] \<Rightarrow> None | _ # r \<Rightarrow> Some (takeWhile (\<lambda>d. d \<noteq> c) s, r))"

definition charset_parameter :: "string \<Rightarrow> string option \<Rightarrow> string option" where
  "charset_parameter part charset =
     (case cut_at (CHR ''='') part of
        None \<Rightarrow> charset
      | Some (key, v) \<Rightarrow>
          if ascii_lower (js_trim key) = ''charset'' then
            (let value = ascii_lower (js_trim v)
             in Some (if startsWith value [CHR 0x22] \<and> ends_with value [CHR 0x22] then js_trim (butlast (tl value)) else value))
          else charset)"

definition parseContentType :: "string option \<Rightarrow> parsed_content_type" where
  "parseContentType contentType =
     (case contentType of
        None \<Rightarrow> \<lparr>ct_mediaType = None, ct_charset = None\<rparr>
      | Some v \<Rightarrow>
          if v = [] then \<lparr>ct_mediaType = None, ct_charset = None\<rparr>
          else let parts = map js_trim (split_at (CHR '';'') v)
               in \<lparr>ct_mediaType = Some (ascii_lower (hd parts)), ct_charset = fold charset_parameter (tl parts) None\<rparr>)"

definition utf8_charset :: "parsed_content_type \<Rightarrow> bool" where
  "utf8_charset t \<longleftrightarrow> ct_charset t = None \<or> ct_charset t = Some ''utf-8''"

definition acceptsPayload :: "parsed_content_type \<Rightarrow> bool" where
  "acceptsPayload t \<longleftrightarrow> ct_mediaType t \<in> {Some ''application/json'', Some ''text/plain''} \<and> utf8_charset t"

definition acceptsPreparePayload :: "parsed_content_type \<Rightarrow> bool" where
  "acceptsPreparePayload t \<longleftrightarrow> ct_mediaType t = Some ''application/json'' \<and> utf8_charset t"

definition isAuthorized :: "(string \<Rightarrow> string) \<Rightarrow> string option \<Rightarrow> string \<Rightarrow> bool" where
  "isAuthorized sha256 authorization expectedToken =
     (let authorizationValue = (case authorization of None \<Rightarrow> [] | Some v \<Rightarrow> v);
          hasBearerPrefix = startsWith authorizationValue BEARER_PREFIX;
          presentedToken = (if hasBearerPrefix then drop (length BEARER_PREFIX) authorizationValue else [])
      in hasBearerPrefix \<and>
         difference (codes (take 32 (sha256 (utf8_encode expectedToken)))) (codes (take 32 (sha256 (utf8_encode presentedToken)))) = 0)"

datatype raw_body = Raw_bytes string | Raw_too_large | Raw_read_failure

definition isDeclaredOversize :: "string \<Rightarrow> int \<Rightarrow> bool" where
  "isDeclaredOversize contentLength maxBytes \<longleftrightarrow>
     all_digits contentLength \<and> is_safe_integer (js_number contentLength) \<and> the_int (js_number contentLength) > maxBytes"

definition readBoundedRawBody :: "deno_request \<Rightarrow> int \<Rightarrow> raw_body" where
  "readBoundedRawBody request maxBytes =
     (if (case dq_content_length request of None \<Rightarrow> False | Some v \<Rightarrow> isDeclaredOversize v maxBytes) then Raw_too_large
      else case dq_body request of
        None \<Rightarrow> Raw_bytes []
      | Some b \<Rightarrow>
          (case read_chunks maxBytes 0 [] (bs_chunks b) of
             None \<Rightarrow> Raw_too_large
           | Some bytes \<Rightarrow> if bs_fails b then Raw_read_failure else Raw_bytes bytes))"

subsection \<open>/prepare\<close>

definition prepare_json_type :: "string \<times> string" where "prepare_json_type = (''content-type'', ''application/json'')"

definition normalize_error_name :: "normalize_error \<Rightarrow> string" where
  "normalize_error_name e =
     (case e of Input_too_large \<Rightarrow> ''input_too_large'' | Non_text \<Rightarrow> ''non_text'' | Max_tokens_conflict \<Rightarrow> ''max_tokens_conflict''
      | Invalid_body \<Rightarrow> ''invalid_body'')"

definition prepareError :: "int \<Rightarrow> string \<Rightarrow> deno_response" where
  "prepareError status code = \<lparr>dr_status = status, dr_headers = [prepare_json_type], dr_body = Deno_json (JObj [(''code'', JStr code)])\<rparr>"

definition prepareInternalFailure :: deno_response where "prepareInternalFailure = deno_error 500"

definition generateMarker :: "string \<Rightarrow> string" where
  "generateMarker bytes = ''octg_prepare_'' @ concat (map hex2 (take 16 bytes))"

text \<open>The occurrences that do not overlap, for a needle that is not empty; \<open>skip\<close> characters are passed over.\<close>

fun count_from :: "nat \<Rightarrow> string \<Rightarrow> string \<Rightarrow> nat" where
  "count_from skip needle [] = 0"
| "count_from (Suc skip) needle (c # cs) = count_from skip needle cs"
| "count_from 0 needle (c # cs) =
     (if startsWith (c # cs) needle then Suc (count_from (length needle - 1) needle cs) else count_from 0 needle cs)"

definition countOccurrences :: "string \<Rightarrow> string \<Rightarrow> nat" where
  "countOccurrences haystack needle = count_from 0 needle haystack"

definition with_marker :: "json \<Rightarrow> json \<Rightarrow> json" where
  "with_marker marker upstreamBody =
     (case delete_key upstreamBody ''max_output_tokens'' of JObj kvs \<Rightarrow> JObj ((''max_output_tokens'', marker) # kvs) | v \<Rightarrow> v)"

text \<open>The loop over the candidates: a marker with its text, or a failure.\<close>

fun choose_marker :: "(rat \<Rightarrow> string) \<Rightarrow> json \<Rightarrow> string list \<Rightarrow> (string \<times> string) option" where
  "choose_marker fs upstreamBody [] = None"
| "choose_marker fs upstreamBody (candidate # candidates) =
     (let candidateSerialized = stringify fs (with_marker (JStr candidate) upstreamBody);
          markerJson = quote candidate
      in if \<not> startsWith candidateSerialized (CHR 0x7B # quote ''max_output_tokens'' @ CHR '':'' # markerJson @ [CHR '',''])
         then None
         else if countOccurrences candidateSerialized markerJson = 1 then Some (candidate, candidateSerialized)
         else choose_marker fs upstreamBody candidates)"

definition prepare_metadata :: "normalized_request \<Rightarrow> int \<Rightarrow> int \<Rightarrow> string \<Rightarrow> json" where
  "prepare_metadata n rawBodyBytes estimatedInputTokens outputMarker =
     (let int_field = (\<lambda>k x. (k, JNum (JsInt x)))
      in JObj [int_field ''version'' 1, (''model'', JStr (nr_model n)), int_field ''rawBodyBytes'' rawBodyBytes,
        int_field ''inputBytes'' (nr_inputBytes n), int_field ''inputTextBytes'' (nr_inputTextBytes n),
        int_field ''opaqueInputBytes'' (nr_opaqueInputBytes n), int_field ''messageCount'' (nr_messageCount n),
        int_field ''estimatedInputTokens'' estimatedInputTokens, (''estimationPath'', JStr ''exact_bpe''),
        int_field ''maxOutputTokens'' (nr_maxOutputTokens n), (''stream'', JBool (nr_stream n)),
        (''isToolUse'', JBool (nr_isToolUse n)), (''outputMarker'', JStr outputMarker)])"

definition exact_estimate :: "exact_encoder \<Rightarrow> normalized_request \<Rightarrow> int throws" where
  "exact_estimate count n =
     and_then (count (nr_inputText n)) (\<lambda>base.
       estimatedInputTokensOf base (JsInt (nr_messageCount n)) (JsInt (nr_opaqueInputBytes n)))"

definition prepared_answer :: "deno_world \<Rightarrow> string \<Rightarrow> json \<Rightarrow> normalized_request \<Rightarrow> int \<Rightarrow> deno_response" where
  "prepared_answer w rawBytes parsedBody n estimatedInputTokens =
     (case choose_marker (dw_number_text w) (normalizeResponsesUpstreamBody parsedBody) (map (\<lambda>i. generateMarker (dw_random w i)) [0..<16]) of
        None \<Rightarrow> prepareInternalFailure
      | Some (outputMarker, serialized) \<Rightarrow>
          let metadataHeader = encodeBase64UrlNoPadding (utf8_encode (stringify (dw_number_text w)
                (prepare_metadata n (int (length rawBytes)) estimatedInputTokens outputMarker)))
          in if utf8_length metadataHeader > 4096 then prepareInternalFailure
             else \<lparr>dr_status = 200, dr_headers = [prepare_json_type, (''X-OCTG-Prepare-Metadata'', metadataHeader)],
                    dr_body = Deno_text serialized\<rparr>)"

definition handlePrepare :: "deno_world \<Rightarrow> service_config \<Rightarrow> deno_request \<Rightarrow> deno_response" where
  "handlePrepare w config request =
     (if dq_method request \<noteq> ''POST'' then deno_error 405
      else if \<not> isAuthorized (dw_sha256 w) (dq_authorization request) (sc_authToken config) then deno_error 401
      else if \<not> acceptsPreparePayload (parseContentType (dq_content_type request)) then deno_error 415
      else case readBoundedRawBody request (sc_maxInputBytes config) of
        Raw_read_failure \<Rightarrow> prepareInternalFailure
      | Raw_too_large \<Rightarrow> prepareError 413 ''request_too_large''
      | Raw_bytes bytes \<Rightarrow>
          (case json_parse (dw_decode w bytes) of
             None \<Rightarrow> prepareError 400 ''invalid_body''
           | Some parsedBody \<Rightarrow>
               (case normalizeResponses (dw_number_text w) parsedBody (sc_maxInputBytes config) of
                  Inl e \<Rightarrow> prepareError (if e = Input_too_large then 413 else 400) (normalize_error_name e)
                | Inr n \<Rightarrow>
                    (case exact_estimate (dw_count w) n of
                       Inl _ \<Rightarrow> prepareInternalFailure
                     | Inr estimatedInputTokens \<Rightarrow> prepared_answer w bytes parsedBody n estimatedInputTokens))))"

subsection \<open>/tokenize\<close>

definition handleTokenize :: "deno_world \<Rightarrow> service_config \<Rightarrow> deno_request \<Rightarrow> deno_response" where
  "handleTokenize w config request =
     (if dq_method request \<noteq> ''POST'' then deno_error 405
      else if \<not> isAuthorized (dw_sha256 w) (dq_authorization request) (sc_authToken config) then deno_error 401
      else let contentType = parseContentType (dq_content_type request)
      in if \<not> acceptsPayload contentType then deno_error 415
      else case boundedBody request (sc_maxRawBodyBytes config) of
        Inl r \<Rightarrow> r
      | Inr rawBody \<Rightarrow>
          (case parseInput rawBody (ct_mediaType contentType) of
             None \<Rightarrow> deno_error 400
           | Some inputText \<Rightarrow>
               if int (length (utf8_encode inputText)) > sc_maxInputBytes config then deno_error 413
               else (case dw_count w inputText of Inl _ \<Rightarrow> deno_error 500 | Inr n \<Rightarrow> successResponse n)))"

end
