(* ===== verification/Deno_Relay.thy ===== *)
theory Deno_Relay
  imports Deno_Http
begin

section \<open>Deno_Relay: the relay of the Deno service\<close>

text \<open>
  apps/deno-tokenizer/src/relay.ts and relay-usage.ts, with the routes of http.ts and main.ts.  A request is checked, the gateway
  decides, the grant is activated once, upstream is called, and the answer is forwarded with one terminal report.  A run
  keeps the calls it has made, in order; \<open>rw_fetch\<close> gives the answer of each by its number, or none when it rejects or times out.
  While an answer is forwarded the run is a state machine over the events of the delivery: what upstream sends, the timer of
  the renewals and their answers, and the client that goes away.
\<close>

subsection \<open>Calls\<close>

record relay_answer =
  ra_status :: int
  ra_grant :: "string option"
  ra_content_type :: "string option"
  ra_body :: "body_source option"

record active_grant =
  ag_grantId :: string
  ag_leaseGeneration :: string
  ag_credential :: string

record allowed_decision =
  ad_grantId :: string
  ad_leaseGeneration :: string
  ad_maxOutputTokens :: int
  ad_cacheEnabled :: bool
  ad_quota :: quota_snapshot

datatype relay_call =
    Call_decision string "string option" request_meta
  | Call_activation active_grant
  | Call_renewal active_grant
  | Call_terminal active_grant relay_terminal
  | Call_upstream relay_context allowed_decision "string option" json

record relay_world =
  rw_config :: relay_service_config
  rw_deno :: deno_world
  rw_fetch :: "nat \<Rightarrow> upstream_request \<Rightarrow> relay_answer option"

definition contextHeader :: string where "contextHeader = ''x-octg-relay-context''"
definition grantHeader :: string where "grantHeader = ''x-octg-relay-grant''"
definition responseMetaHeader :: string where "responseMetaHeader = ''x-octg-relay-response-meta''"
definition decisionCallbackPath :: string where "decisionCallbackPath = ''/internal/relay/v1/decision''"
definition activationCallbackPath :: string where "activationCallbackPath = ''/internal/relay/v1/activation''"
definition renewalCallbackPath :: string where "renewalCallbackPath = ''/internal/relay/v1/renewal''"
definition terminalCallbackPath :: string where "terminalCallbackPath = ''/internal/relay/v1/terminal''"
definition upstreamResponsesPath :: string where "upstreamResponsesPath = ''/responses''"

definition callbackHeaders :: "relay_service_config \<Rightarrow> string \<Rightarrow> string \<Rightarrow> (string \<times> string) list" where
  "callbackHeaders config credentialName credentialValue =
     [(''authorization'', ''Bearer '' @ rs_serviceAuthToken config), (''content-type'', ''application/json''),
      (credentialName, credentialValue)]"

definition grant_json :: "active_grant \<Rightarrow> json" where
  "grant_json g = JObj [(''version'', JNum (JsInt 1)), (''grantId'', JStr (ag_grantId g)), (''leaseGeneration'', JStr (ag_leaseGeneration g))]"

definition buildUpstreamRequest :: "relay_service_config \<Rightarrow> relay_context \<Rightarrow> allowed_decision \<Rightarrow> string option \<Rightarrow> json \<Rightarrow> upstream_request" where
  "buildUpstreamRequest config claims decision idempotencyKey body =
     \<lparr>ur_url = rs_gatewayBBaseUrl config @ upstreamResponsesPath,
      ur_headers =
        [(''content-type'', ''application/json''), (''cf-aig-authorization'', ''Bearer '' @ rs_gatewayBToken config),
         (''cf-aig-request-timeout'', ''25000''), (''cf-aig-max-attempts'', ''1''),
         (''cf-aig-metadata'', meta_text \<lparr>um_client_id = c_clientId claims, um_pool = toPoolLower (q_pool (ad_quota decision)),
            um_request_id = c_requestId claims\<rparr>),
         (''cf-aig-collect-log-payload'', ''false'')] @
        (case idempotencyKey of None \<Rightarrow> [] | Some k \<Rightarrow> [(''Idempotency-Key'', k)]) @
        (if ad_cacheEnabled decision then [(''cf-aig-cache-key'', ''octg:'' @ c_clientId claims)] else [(''cf-aig-skip-cache'', ''true'')]),
      ur_body = body\<rparr>"

fun call_request :: "relay_service_config \<Rightarrow> relay_call \<Rightarrow> upstream_request" where
  "call_request config (Call_decision contextToken idempotencyKey metadata) =
     \<lparr>ur_url = rs_callbackOrigin config @ decisionCallbackPath,
      ur_headers = callbackHeaders config contextHeader contextToken @
        (case idempotencyKey of None \<Rightarrow> [] | Some k \<Rightarrow> [(''idempotency-key'', k)]),
      ur_body = JObj [(''version'', JNum (JsInt 1)), (''metadata'', meta_json metadata)]\<rparr>"
| "call_request config (Call_activation g) =
     \<lparr>ur_url = rs_callbackOrigin config @ activationCallbackPath, ur_headers = callbackHeaders config grantHeader (ag_credential g),
      ur_body = grant_json g\<rparr>"
| "call_request config (Call_renewal g) =
     \<lparr>ur_url = rs_callbackOrigin config @ renewalCallbackPath, ur_headers = callbackHeaders config grantHeader (ag_credential g),
      ur_body = grant_json g\<rparr>"
| "call_request config (Call_terminal g report) =
     \<lparr>ur_url = rs_callbackOrigin config @ terminalCallbackPath, ur_headers = callbackHeaders config grantHeader (ag_credential g),
      ur_body = terminal_json report\<rparr>"
| "call_request config (Call_upstream claims decision idempotencyKey body) =
     buildUpstreamRequest config claims decision idempotencyKey body"

type_synonym calls = "relay_call list"

definition send :: "relay_world \<Rightarrow> relay_call \<Rightarrow> calls \<Rightarrow> relay_answer option \<times> calls" where
  "send w c calls = (rw_fetch w (length calls) (call_request (rw_config w) c), calls @ [c])"

definition readBoundedCallbackJson :: "relay_answer \<Rightarrow> json option" where
  "readBoundedCallbackJson response =
     (case ra_body response of
        None \<Rightarrow> None
      | Some b \<Rightarrow>
          (case read_chunks RELAY_MAX_CALLBACK_BODY_BYTES 0 [] (bs_chunks b) of
             None \<Rightarrow> None
           | Some bytes \<Rightarrow>
               if bs_fails b then None
               else (case parseRelayJsonBody bytes RELAY_MAX_CALLBACK_BODY_BYTES of Inl _ \<Rightarrow> None | Inr v \<Rightarrow> Some v)))"

definition sendTerminalReport :: "relay_world \<Rightarrow> active_grant \<Rightarrow> terminal_outcome \<Rightarrow> calls \<Rightarrow> calls" where
  "sendTerminalReport w g outcome calls =
     snd (send w (Call_terminal g \<lparr>t_grantId = ag_grantId g, t_leaseGeneration = ag_leaseGeneration g, t_outcome = outcome\<rparr>) calls)"

datatype activation_outcome = Activation_activated | Activation_refused relay_error_code | Activation_unknown

definition activation_of :: "relay_answer option \<Rightarrow> activation_outcome" where
  "activation_of answer =
     (case answer of
        None \<Rightarrow> Activation_unknown
      | Some response \<Rightarrow>
          if ra_status response \<noteq> 200 then Activation_unknown
          else (case Option.bind (readBoundedCallbackJson response) parseRelayActivationResponse of
             None \<Rightarrow> Activation_unknown
           | Some None \<Rightarrow> Activation_activated
           | Some (Some code) \<Rightarrow> Activation_refused code))"

definition activateOnce :: "relay_world \<Rightarrow> active_grant \<Rightarrow> calls \<Rightarrow> activation_outcome \<times> calls" where
  "activateOnce w g calls = (case send w (Call_activation g) calls of (answer, calls') \<Rightarrow> (activation_of answer, calls'))"

definition terminalOutcomeForDenial :: "relay_error_code \<Rightarrow> terminal_outcome option" where
  "terminalOutcomeForDenial code =
     (if code = Lease_lost then Some Outcome_release else if code = Grant_replayed then Some Outcome_uncertain else None)"

text \<open>Whether the answer of a renewal confirms it; anything else rejects.\<close>

definition renewal_confirmed :: "relay_answer option \<Rightarrow> bool" where
  "renewal_confirmed answer =
     (case answer of
        None \<Rightarrow> False
      | Some response \<Rightarrow>
          ra_status response = 200 \<and>
          (case Option.bind (readBoundedCallbackJson response) parseRelayRenewalResponse of Some (True, _) \<Rightarrow> True | _ \<Rightarrow> False))"

subsection \<open>Context, credential and response metadata\<close>

definition transportValidContextToken :: "string option \<Rightarrow> string option" where
  "transportValidContextToken v =
     (case v of
        None \<Rightarrow> None
      | Some token \<Rightarrow>
          if length (utf8_encode token) > 4096 then None
          else (let segments = split_at (CHR ''.'') token
                in if length segments \<noteq> 2 then None
                   else if \<not> list_all (\<lambda>s. s \<noteq> [] \<and> list_all is_base64url s) segments then None else Some token))"

definition isBoundedGrantCredential :: "string \<Rightarrow> bool" where
  "isBoundedGrantCredential v \<longleftrightarrow> v \<noteq> [] \<and> length (utf8_encode v) \<le> 4096"

definition decodeContextClaims :: "string \<Rightarrow> relay_context option" where
  "decodeContextClaims token =
     (let payload = hd (split_at (CHR ''.'') token);
          padded = payload @ replicate (nat ((4 - utf16_length payload mod 4) mod 4)) (CHR ''='')
      in case Option.bind (atob (replaceAll (CHR ''_'') ''/'' (replaceAll (CHR ''-'') ''+'' padded))) utf8_decode_fatal of
        None \<Rightarrow> None
      | Some t \<Rightarrow> Option.bind (json_parse t) parseRelayContext)"

definition RELAY_MAX_RESPONSE_META_JSON_BYTES :: int where "RELAY_MAX_RESPONSE_META_JSON_BYTES = 2048"
definition RELAY_MAX_RESPONSE_META_HEADER_BYTES :: int where "RELAY_MAX_RESPONSE_META_HEADER_BYTES = 2800"

definition response_meta_json :: "relay_context \<Rightarrow> allowed_decision \<Rightarrow> json" where
  "response_meta_json claims decision =
     (let q = ad_quota decision
      in JObj [(''version'', JNum (JsInt 1)), (''requestId'', JStr (c_requestId claims)), (''pool'', JStr (pool_name_string (q_pool q))),
        (''limit'', JNum (JsInt (q_limit q))), (''used'', JNum (JsInt (q_used q))), (''remaining'', JNum (JsInt (q_remaining q))),
        (''resetAt'', JStr (q_resetAt q)), (''route'', JStr ''responses'')])"

definition buildResponseMetaHeader :: "relay_context \<Rightarrow> allowed_decision \<Rightarrow> string option" where
  "buildResponseMetaHeader claims decision =
     (let bytes = utf8_encode (stringify (\<lambda>_. []) (response_meta_json claims decision))
      in if int (length bytes) > RELAY_MAX_RESPONSE_META_JSON_BYTES then None
         else let header = encodeBase64UrlNoPadding bytes
              in if int (length header) > RELAY_MAX_RESPONSE_META_HEADER_BYTES then None else Some header)"

subsection \<open>relay-usage.ts: the usage of an answer\<close>

definition isSafeTotalTokens :: "json \<Rightarrow> int option" where
  "isSafeTotalTokens v = (case v of JNum n \<Rightarrow> if is_safe_integer n \<and> 0 \<le> the_int n then Some (the_int n) else None | _ \<Rightarrow> None)"

definition extractUsageTotalTokens :: "string \<Rightarrow> int option" where
  "extractUsageTotalTokens t =
     Option.bind (Option.bind (extractUsageFromEvent t) (\<lambda>usage. js_get usage ''total_tokens'')) isSafeTotalTokens"

definition last_found :: "string \<Rightarrow> int option \<Rightarrow> int option" where
  "last_found event found =
     (if \<not> sublist USAGE_NEEDLE event \<and> \<not> sublist RESPONSE_COMPLETED_NEEDLE event then found
      else case extractUsageTotalTokens event of Some n \<Rightarrow> Some n | None \<Rightarrow> found)"

definition extractUsageFromTailText :: "string \<Rightarrow> int option" where
  "extractUsageFromTailText t = (case drain t of (events, rest) \<Rightarrow> fold last_found (events @ [rest]) None)"

fun skip_partial :: "string \<Rightarrow> string" where
  "skip_partial [] = []"
| "skip_partial (c # cs) =
     (let b = of_char c :: nat in if b < 0x80 \<or> 0xC2 \<le> b \<and> b \<le> 0xF4 then c # cs else skip_partial cs)"

definition decodeTailBytes :: "(string \<Rightarrow> string) \<Rightarrow> string \<Rightarrow> string" where
  "decodeTailBytes decode bytes = decode (skip_partial bytes)"

definition isEventStreamContentType :: "string option \<Rightarrow> bool" where
  "isEventStreamContentType contentType =
     (case contentType of None \<Rightarrow> False | Some v \<Rightarrow> ascii_lower (js_trim (hd (split_at (CHR '';'') v))) = ''text/event-stream'')"

definition tailCapacityBytes :: nat where "tailCapacityBytes = 32768"
definition maxNonStreamResponseBytes :: int where "maxNonStreamResponseBytes = 1048576"

subsection \<open>Answers\<close>

datatype relay_body = Relay_error relay_error_code | Relay_bytes "string option" | Relay_source "body_source option" | Relay_stream

record relay_response =
  lr_status :: int
  lr_headers :: "(string \<times> string) list"
  lr_body :: relay_body

definition relayErrorResponse :: "int \<Rightarrow> relay_error_code \<Rightarrow> relay_response" where
  "relayErrorResponse status code = \<lparr>lr_status = status, lr_headers = [(''content-type'', ''application/json'')], lr_body = Relay_error code\<rparr>"

definition methodNotAllowedResponse :: relay_response where
  "methodNotAllowedResponse =
     \<lparr>lr_status = 405, lr_headers = [(''content-type'', ''application/json''), (''allow'', ''POST'')], lr_body = Relay_error Invalid_request\<rparr>"

definition forwardedUpstreamHeaders :: "string option \<Rightarrow> (string \<times> string) list" where
  "forwardedUpstreamHeaders contentType = (case contentType of None \<Rightarrow> [] | Some v \<Rightarrow> [(''content-type'', v)])"

definition forwarded_response :: "int \<Rightarrow> string option \<Rightarrow> string \<Rightarrow> relay_body \<Rightarrow> relay_response" where
  "forwarded_response status contentType metaHeader body =
     \<lparr>lr_status = status, lr_headers = forwardedUpstreamHeaders contentType @ [(responseMetaHeader, metaHeader)], lr_body = body\<rparr>"

subsection \<open>Delivery\<close>

datatype delivery_event =
    Source_chunk string
  | Source_done
  | Source_fails
  | Client_cancels
  | Renewal_due
  | Renewal_returns "relay_answer option"
  | Report_returns

datatype client_end = Client_closed | Client_errored | Client_cancelled

text \<open>An event stream on its way to the client.\<close>

record stream_run =
  sr_grant :: active_grant
  sr_response :: relay_response
  sr_tail :: ring
  sr_usage :: "int option"
  sr_finalized :: bool
  sr_renewing :: bool
  sr_out :: "string list"
  sr_client :: "client_end option"
  sr_calls :: calls

definition stream_finalize :: "relay_world \<Rightarrow> terminal_outcome \<Rightarrow> stream_run \<Rightarrow> stream_run" where
  "stream_finalize w outcome s =
     (if sr_finalized s then s
      else s\<lparr>sr_finalized := True, sr_calls := sendTerminalReport w (sr_grant s) outcome (sr_calls s)\<rparr>)"

definition parse_tail :: "relay_world \<Rightarrow> stream_run \<Rightarrow> stream_run" where
  "parse_tail w s =
     (case extractUsageFromTailText (decodeTailBytes (dw_decode (rw_deno w)) (getTail (sr_tail s))) of
        Some n \<Rightarrow> s\<lparr>sr_usage := Some n\<rparr> | None \<Rightarrow> s)"

definition outcome_of_usage :: "int option \<Rightarrow> terminal_outcome" where
  "outcome_of_usage usage = (case usage of Some n \<Rightarrow> Outcome_settle n | None \<Rightarrow> Outcome_uncertain)"

definition renew_due :: "active_grant \<Rightarrow> bool \<Rightarrow> bool \<Rightarrow> calls \<Rightarrow> bool \<times> calls" where
  "renew_due g renewing stopped calls = (if renewing \<or> stopped then (renewing, calls) else (True, calls @ [Call_renewal g]))"

fun stream_step :: "relay_world \<Rightarrow> delivery_event \<Rightarrow> stream_run \<Rightarrow> stream_run" where
  "stream_step w (Source_chunk chunk) s =
     (if sr_finalized s then s
      else let s1 = s\<lparr>sr_out := sr_out s @ [chunk], sr_tail := ring_write (sr_tail s) chunk\<rparr>
           in if sr_usage s = None \<and> mightContainUsage chunk then parse_tail w s1 else s1)"
| "stream_step w Source_done s =
     (if sr_finalized s then s
      else let s1 = (if sr_usage s = None then parse_tail w s else s)
           in (stream_finalize w (outcome_of_usage (sr_usage s1)) s1)\<lparr>sr_client := Some Client_closed\<rparr>)"
| "stream_step w Source_fails s =
     (if sr_finalized s then s else (stream_finalize w Outcome_uncertain s)\<lparr>sr_client := Some Client_errored\<rparr>)"
| "stream_step w Client_cancels s =
     (if sr_client s \<noteq> None then s else (stream_finalize w Outcome_uncertain s)\<lparr>sr_client := Some Client_cancelled\<rparr>)"
| "stream_step w Renewal_due s =
     (case renew_due (sr_grant s) (sr_renewing s) (sr_finalized s) (sr_calls s) of
        (renewing, calls) \<Rightarrow> s\<lparr>sr_renewing := renewing, sr_calls := calls\<rparr>)"
| "stream_step w (Renewal_returns answer) s =
     (if \<not> sr_renewing s then s
      else let s1 = s\<lparr>sr_renewing := False\<rparr>
           in if \<not> renewal_confirmed answer \<and> \<not> sr_finalized s
              then (stream_finalize w Outcome_uncertain s1)\<lparr>sr_client := Some Client_errored\<rparr> else s1)"
| "stream_step w Report_returns s = s"

text \<open>Another answer is read whole, reported, and only then given to the client; \<open>bd_result\<close> is set while its report is awaited.\<close>

record body_run =
  bd_grant :: active_grant
  bd_status :: int
  bd_content_type :: "string option"
  bd_meta :: string
  bd_bytes :: string
  bd_renewing :: bool
  bd_result :: "string option option"
  bd_calls :: calls

definition body_finish :: "relay_world \<Rightarrow> string option \<Rightarrow> body_run \<Rightarrow> body_run" where
  "body_finish w result s =
     s\<lparr>bd_result := Some result,
       bd_calls := sendTerminalReport w (bd_grant s)
         (case result of None \<Rightarrow> Outcome_uncertain
          | Some bytes \<Rightarrow> outcome_of_usage (extractUsageTotalTokens (dw_decode (rw_deno w) bytes))) (bd_calls s)\<rparr>"

definition body_answer :: "string option \<Rightarrow> body_run \<Rightarrow> relay_response" where
  "body_answer result s =
     (case result of
        None \<Rightarrow> relayErrorResponse 500 Upstream_invalid_response
      | Some bytes \<Rightarrow> forwarded_response (bd_status s) (bd_content_type s) (bd_meta s) (Relay_bytes (Some bytes)))"

text \<open>A failed renewal cancels the reader, which ends the read at once.\<close>

fun body_step :: "relay_world \<Rightarrow> delivery_event \<Rightarrow> body_run \<Rightarrow> relay_response option \<times> body_run" where
  "body_step w (Source_chunk chunk) s =
     (if bd_result s \<noteq> None then (None, s)
      else if int (length (bd_bytes s @ chunk)) > maxNonStreamResponseBytes then (None, body_finish w None s)
      else (None, s\<lparr>bd_bytes := bd_bytes s @ chunk\<rparr>))"
| "body_step w Source_done s = (if bd_result s \<noteq> None then (None, s) else (None, body_finish w (Some (bd_bytes s)) s))"
| "body_step w Source_fails s = (if bd_result s \<noteq> None then (None, s) else (None, body_finish w None s))"
| "body_step w Client_cancels s = (None, s)"
| "body_step w Renewal_due s =
     (case renew_due (bd_grant s) (bd_renewing s) False (bd_calls s) of
        (renewing, calls) \<Rightarrow> (None, s\<lparr>bd_renewing := renewing, bd_calls := calls\<rparr>))"
| "body_step w (Renewal_returns answer) s =
     (if \<not> bd_renewing s then (None, s)
      else let s1 = s\<lparr>bd_renewing := False\<rparr>
           in if \<not> renewal_confirmed answer \<and> bd_result s = None then (None, body_finish w None s1) else (None, s1))"
| "body_step w Report_returns s = (case bd_result s of None \<Rightarrow> (None, s) | Some result \<Rightarrow> (Some (body_answer result s), s))"

subsection \<open>relay.ts: the handler\<close>

datatype relay_state = Answered relay_response calls | Streaming stream_run | Reading body_run

definition relayUpstreamResponse :: "relay_world \<Rightarrow> relay_answer \<Rightarrow> active_grant \<Rightarrow> string \<Rightarrow> calls \<Rightarrow> relay_state" where
  "relayUpstreamResponse w response g metaHeader calls =
     (if isEventStreamContentType (ra_content_type response) \<and> ra_body response \<noteq> None
      then Streaming \<lparr>sr_grant = g, sr_response = forwarded_response (ra_status response) (ra_content_type response) metaHeader Relay_stream,
             sr_tail = new_ring tailCapacityBytes, sr_usage = None, sr_finalized = False, sr_renewing = False, sr_out = [],
             sr_client = None, sr_calls = calls\<rparr>
      else if ra_body response = None
      then Answered (forwarded_response (ra_status response) (ra_content_type response) metaHeader (Relay_bytes None))
             (sendTerminalReport w g Outcome_uncertain calls)
      else Reading \<lparr>bd_grant = g, bd_status = ra_status response, bd_content_type = ra_content_type response, bd_meta = metaHeader,
             bd_bytes = [], bd_renewing = False, bd_result = None, bd_calls = calls\<rparr>)"

definition relay_upstream ::
  "relay_world \<Rightarrow> active_grant \<Rightarrow> relay_context \<Rightarrow> allowed_decision \<Rightarrow> string option \<Rightarrow> json \<Rightarrow> calls \<Rightarrow> relay_state" where
  "relay_upstream w g claims decision idempotencyKey upstreamBody calls =
     (case send w (Call_upstream claims decision idempotencyKey upstreamBody) calls of
        (None, calls1) \<Rightarrow> Answered (relayErrorResponse 500 Internal_error) (sendTerminalReport w g Outcome_uncertain calls1)
      | (Some upstream, calls1) \<Rightarrow>
          if ra_status upstream < 200 \<or> 300 \<le> ra_status upstream
          then Answered \<lparr>lr_status = ra_status upstream, lr_headers = forwardedUpstreamHeaders (ra_content_type upstream),
                   lr_body = Relay_source (ra_body upstream)\<rparr> (sendTerminalReport w g Outcome_uncertain calls1)
          else (case buildResponseMetaHeader claims decision of
             None \<Rightarrow> Answered (relayErrorResponse 500 Internal_error) (sendTerminalReport w g Outcome_uncertain calls1)
           | Some metaHeader \<Rightarrow> relayUpstreamResponse w upstream g metaHeader calls1))"

definition relay_activate ::
  "relay_world \<Rightarrow> active_grant \<Rightarrow> string \<Rightarrow> allowed_decision \<Rightarrow> string option \<Rightarrow> json \<Rightarrow> calls \<Rightarrow> relay_state" where
  "relay_activate w g contextToken decision idempotencyKey requestBody calls =
     (case decodeContextClaims contextToken of
        None \<Rightarrow> Answered (relayErrorResponse 500 Internal_error) (sendTerminalReport w g Outcome_release calls)
      | Some claims \<Rightarrow>
          let upstreamBody = set_key (delete_key (normalizeResponsesUpstreamBody requestBody) ''max_output_tokens'')
                ''max_output_tokens'' (JNum (JsInt (ad_maxOutputTokens decision)))
          in (case activateOnce w g calls of
               (Activation_activated, calls1) \<Rightarrow> relay_upstream w g claims decision idempotencyKey upstreamBody calls1
             | (Activation_refused code, calls1) \<Rightarrow>
                 Answered (relayErrorResponse 500 code)
                   (case terminalOutcomeForDenial code of Some outcome \<Rightarrow> sendTerminalReport w g outcome calls1 | None \<Rightarrow> calls1)
             | (Activation_unknown, calls1) \<Rightarrow>
                 Answered (relayErrorResponse 500 Internal_error) (sendTerminalReport w g Outcome_uncertain calls1)))"

definition relay_decide ::
  "relay_world \<Rightarrow> string \<Rightarrow> string option \<Rightarrow> json \<Rightarrow> request_meta \<Rightarrow> calls \<Rightarrow> relay_state" where
  "relay_decide w contextToken idempotencyKey requestBody metadata calls =
     (case send w (Call_decision contextToken idempotencyKey metadata) calls of
        (None, calls1) \<Rightarrow> Answered (relayErrorResponse 500 Internal_error) calls1
      | (Some response, calls1) \<Rightarrow>
          if ra_status response \<noteq> 200 then Answered (relayErrorResponse 500 Internal_error) calls1
          else (case Option.bind (readBoundedCallbackJson response) parseRelayDecision of
             None \<Rightarrow> Answered (relayErrorResponse 500 Internal_error) calls1
           | Some (Decision_reject code status) \<Rightarrow> Answered (relayErrorResponse status code) calls1
           | Some (Decision_allow grantId leaseGeneration maxOut cacheEnabled quota) \<Rightarrow>
               (case ra_grant response of
                  None \<Rightarrow> Answered (relayErrorResponse 500 Internal_error) calls1
                | Some credential \<Rightarrow>
                    if \<not> isBoundedGrantCredential credential then Answered (relayErrorResponse 500 Internal_error) calls1
                    else relay_activate w \<lparr>ag_grantId = grantId, ag_leaseGeneration = leaseGeneration, ag_credential = credential\<rparr>
                      contextToken
                      \<lparr>ad_grantId = grantId, ad_leaseGeneration = leaseGeneration, ad_maxOutputTokens = maxOut,
                       ad_cacheEnabled = cacheEnabled, ad_quota = quota\<rparr> idempotencyKey requestBody calls1)))"

text \<open>The request itself: its shape, its credential, its body and its tokens.\<close>

definition relay_metadata :: "normalized_request \<Rightarrow> int \<Rightarrow> int \<Rightarrow> request_meta" where
  "relay_metadata n estimatedInputTokens rawBodyBytes =
     \<lparr>m_model = nr_model n, m_estimatedInputTokens = estimatedInputTokens, m_maxOutputTokens = nr_maxOutputTokens n,
      m_inputBytes = nr_inputBytes n, m_rawBodyBytes = rawBodyBytes, m_isToolUse = nr_isToolUse n, m_stream = nr_stream n\<rparr>"

definition relay_body_of :: "relay_world \<Rightarrow> string \<Rightarrow> string option \<Rightarrow> string \<Rightarrow> relay_state" where
  "relay_body_of w contextToken idempotencyKey bytes =
     (let refuse = (\<lambda>status code. Answered (relayErrorResponse status code) [])
      in case parseRelayJsonBody bytes RELAY_MAX_INGRESS_BODY_BYTES of
        Inl _ \<Rightarrow> refuse 400 Invalid_request
      | Inr requestBody \<Rightarrow>
          if \<not> is_record requestBody then refuse 400 Invalid_request
          else (case normalizeResponses (dw_number_text (rw_deno w)) requestBody (rs_maxInputBytes (rw_config w)) of
             Inl e \<Rightarrow> if e = Input_too_large then refuse 413 Code_request_too_large else refuse 400 Invalid_request
           | Inr n \<Rightarrow>
               (case exact_estimate (dw_count (rw_deno w)) n of
                  Inl _ \<Rightarrow> refuse 500 Internal_error
                | Inr estimatedInputTokens \<Rightarrow>
                    relay_decide w contextToken idempotencyKey requestBody
                      (relay_metadata n estimatedInputTokens (int (length bytes))) [])))"

definition RELAY_INGRESS_ROUTE :: string where "RELAY_INGRESS_ROUTE = ''/relay/v1/responses''"

definition handleRelay :: "relay_world \<Rightarrow> deno_request \<Rightarrow> relay_state" where
  "handleRelay w request =
     (let refuse = (\<lambda>status code. Answered (relayErrorResponse status code) [])
      in if dq_pathname request \<noteq> RELAY_INGRESS_ROUTE then refuse 404 Invalid_request
         else if dq_method request \<noteq> ''POST'' then Answered methodNotAllowedResponse []
         else if \<not> isAuthorized (dw_sha256 (rw_deno w)) (dq_authorization request) (rs_ingressAuthToken (rw_config w))
         then refuse 401 Unauthorized_service
         else if \<not> acceptsPreparePayload (parseContentType (dq_content_type request)) then refuse 400 Invalid_request
         else case transportValidContextToken (dq_relay_context request) of
           None \<Rightarrow> refuse 500 Invalid_context
         | Some contextToken \<Rightarrow>
             (case parseIdempotencyKey (map_option JStr (dq_idempotency_key request)) of
                Key_invalid \<Rightarrow> refuse 400 Invalid_request
              | key \<Rightarrow>
                  (case readBoundedRawBody request RELAY_MAX_INGRESS_BODY_BYTES of
                     Raw_read_failure \<Rightarrow> refuse 500 Internal_error
                   | Raw_too_large \<Rightarrow> refuse 413 Code_request_too_large
                   | Raw_bytes bytes \<Rightarrow>
                       relay_body_of w contextToken (case key of Key_valid k \<Rightarrow> Some k | _ \<Rightarrow> None) bytes)))"

fun relay_step :: "relay_world \<Rightarrow> delivery_event \<Rightarrow> relay_state \<Rightarrow> relay_state" where
  "relay_step w event (Answered r calls) = Answered r calls"
| "relay_step w event (Streaming s) = Streaming (stream_step w event s)"
| "relay_step w event (Reading s) =
     (case body_step w event s of (None, s') \<Rightarrow> Reading s' | (Some r, s') \<Rightarrow> Answered r (bd_calls s'))"

definition relay_run :: "relay_world \<Rightarrow> deno_request \<Rightarrow> delivery_event list \<Rightarrow> relay_state" where
  "relay_run w request events = fold (relay_step w) events (handleRelay w request)"

subsection \<open>The routes of the service\<close>

datatype service_answer = Service_response deno_response | Service_relay relay_state

definition tokenizer_handler :: "relay_world option \<Rightarrow> deno_world \<Rightarrow> service_config \<Rightarrow> deno_request \<Rightarrow> service_answer" where
  "tokenizer_handler relay w config request =
     (if dq_pathname request = ''/health'' then
        Service_response (if dq_method request \<noteq> ''GET'' then deno_error 405
          else \<lparr>dr_status = 200, dr_headers = [(''content-type'', ''application/json; charset=utf-8'')],
                 dr_body = Deno_json (JObj [(''status'', JStr ''ok'')])\<rparr>)
      else if dq_pathname request = ''/prepare'' then Service_response (handlePrepare w config request)
      else if dq_pathname request = ''/relay/v1/responses'' then
        (case relay of None \<Rightarrow> Service_response (deno_error 404) | Some rw \<Rightarrow> Service_relay (handleRelay rw request))
      else if dq_pathname request \<noteq> ''/tokenize'' then Service_response (deno_error 404)
      else Service_response (handleTokenize w config request))"

definition resolve_relay_world ::
  "(string \<Rightarrow> url option) \<Rightarrow> (url \<Rightarrow> string) \<Rightarrow> (string \<Rightarrow> string option) \<Rightarrow> deno_world \<Rightarrow>
     (nat \<Rightarrow> upstream_request \<Rightarrow> relay_answer option) \<Rightarrow> relay_world option throws" where
  "resolve_relay_world new_url origin readEnv w fetch =
     (if readEnv ''OCTG_RELAY_ENABLED'' \<noteq> Some ''true'' then Inr None
      else and_then (resolveRelayServiceConfig new_url origin readEnv) (\<lambda>config.
        Inr (Some \<lparr>rw_config = config, rw_deno = w, rw_fetch = fetch\<rparr>)))"

end
