(* ===== verification/Relay_Client.thy ===== *)
theory Relay_Client
  imports Deno_Relay
begin

section \<open>Relay_Client: the relay route of the gateway\<close>

text \<open>
  apps/gateway-worker/src/relay-client.ts and the relay route of proxy.ts: the context of a request is signed, the
  request is forwarded to the Deno service once with its body as it came, and the answer becomes a public one.  The
  network, the random bytes and the resolution of a path against a URL are arguments.
\<close>

subsection \<open>The call\<close>

record ingress_request =
  ir_url :: string
  ir_headers :: "(string \<times> string) list"
  ir_body :: "string list option"

record relayed_response =
  rl_status :: int
  rl_meta :: "string option"
  rl_content_type :: "string option"
  rl_body :: "body_source option"

record ingress_world =
  iw_px :: proxy_world
  iw_random :: string
  iw_url_from :: "string \<Rightarrow> string \<Rightarrow> string option"
  iw_fetch :: "ingress_request \<Rightarrow> relayed_response throws"

definition buildRelayIngressContext :: "relay_environment \<Rightarrow> string \<Rightarrow> string \<Rightarrow> string option \<Rightarrow> string \<Rightarrow> int \<Rightarrow> relay_context" where
  "buildRelayIngressContext environment requestId clientId idempotencyKeyHash randomBytes now =
     \<lparr>c_environment = environment, c_requestId = requestId, c_clientId = clientId, c_idempotencyKeyHash = idempotencyKeyHash,
      c_nonce = encodeBase64UrlNoPadding randomBytes, c_issuedAtMs = now, c_expiresAtMs = now + RELAY_MAX_CONTEXT_LIFETIME_MS\<rparr>"

definition ingress_key_hash :: "(string \<Rightarrow> string) \<Rightarrow> string \<Rightarrow> string option \<Rightarrow> string option" where
  "ingress_key_hash sha256 clientId rawKey =
     (case rawKey of
        None \<Rightarrow> None
      | Some k \<Rightarrow> Some (concat (map hex2 (sha256 (utf8_encode clientId @ CHR 0x00 # utf8_encode k)))))"

definition CONTEXT_HEADER :: string where "CONTEXT_HEADER = ''X-OCTG-Relay-Context''"
definition IDEMPOTENCY_KEY_HEADER :: string where "IDEMPOTENCY_KEY_HEADER = ''Idempotency-Key''"

definition relay_ingress_request ::
  "(string \<Rightarrow> string \<Rightarrow> string option) \<Rightarrow> proxy_request \<Rightarrow> string \<Rightarrow> enabled_relay_config \<Rightarrow> ingress_request throws" where
  "relay_ingress_request url_from request contextToken config =
     (case url_from RELAY_INGRESS_ROUTE (rc_ingressEndpoint config) of
        None \<Rightarrow> Inl (TypeError ''Invalid URL'')
      | Some href \<Rightarrow> Inr
          \<lparr>ir_url = href,
           ir_headers =
             [(''authorization'', ''Bearer '' @ rc_ingressAuthToken config), (''content-type'', ''application/json''),
              (CONTEXT_HEADER, contextToken)] @
             (case rx_idempotency_key request of
                None \<Rightarrow> []
              | Some k \<Rightarrow> if 0 < length k then [(IDEMPOTENCY_KEY_HEADER, k)] else []),
           ir_body = rx_body request\<rparr>)"

subsection \<open>The metadata of a good answer\<close>

definition decodeResponseMeta :: "string option \<Rightarrow> response_meta option" where
  "decodeResponseMeta headerValue =
     (case headerValue of
        None \<Rightarrow> None
      | Some v \<Rightarrow>
          if v = [] then None
          else if utf16_length v > RELAY_MAX_RESPONSE_META_HEADER_BYTES then None
          else
            let padded = v @ replicate (nat ((4 - utf16_length v mod 4) mod 4)) (CHR ''='')
            in (case atob (replaceAll (CHR ''_'') ''/'' (replaceAll (CHR ''-'') ''+'' padded)) of
                  None \<Rightarrow> None
                | Some bytes \<Rightarrow>
                    if int (length bytes) > RELAY_MAX_RESPONSE_META_JSON_BYTES then None
                    else Option.bind (Option.bind (utf8_decode_fatal bytes) json_parse) parseRelayResponseMeta))"

definition isPublicMetaValid :: "response_meta \<Rightarrow> string \<Rightarrow> bool" where
  "isPublicMetaValid meta requestId \<longleftrightarrow>
     (if rm_requestId meta \<noteq> requestId then False
      else if rm_limit meta < 0 \<or> rm_used meta < 0 \<or> rm_remaining meta < 0 then False
      else rm_used meta + rm_remaining meta = rm_limit meta)"

subsection \<open>Public answers\<close>

text \<open>The body of a public answer: the JSON text of an error, or the bytes of the relayed answer.\<close>

datatype public_body = Public_error json | Public_bytes "body_source option"

record public_response =
  pb_status :: int
  pb_headers :: "(string \<times> string) list"
  pb_body :: public_body

definition publicErrorResponse :: "octg_http_error \<Rightarrow> (string \<times> string) list \<Rightarrow> public_response" where
  "publicErrorResponse err versionHeaders =
     \<lparr>pb_status = he_status err,
      pb_headers = (''content-type'', ''application/json'') # buildOctgHeaders (he_requestId err) (he_quota err) (he_route err) @ versionHeaders,
      pb_body = Public_error (error_json err)\<rparr>"

definition makeRelayError :: "int \<Rightarrow> string \<Rightarrow> string \<Rightarrow> string \<Rightarrow> string \<Rightarrow> relay_error_code \<Rightarrow> octg_http_error" where
  "makeRelayError status requestId message type route code =
     \<lparr>he_status = status,
      he_body = \<lparr>eb_message = message, eb_type = type, eb_param = None, eb_code = relay_code_name code, eb_quota = None\<rparr>,
      he_requestId = requestId, he_quota = None, he_route = Some route\<rparr>"

definition RELAY_REJECT_ERRORS :: "string \<Rightarrow> relay_error_code \<Rightarrow> octg_http_error option" where
  "RELAY_REJECT_ERRORS requestId code =
     (case code of
        Invalid_request \<Rightarrow> Some (errInvalidRequest requestId None)
      | Client_disabled \<Rightarrow> Some (errClientDisabled requestId)
      | Model_requires_paid \<Rightarrow> Some (errModelRequiresPaid requestId)
      | Model_not_allowed \<Rightarrow> Some (errModelNotAllowed requestId None)
      | Code_request_too_large \<Rightarrow> Some (errInputTooLarge requestId)
      | _ \<Rightarrow> None)"

definition relayRejectError :: "relay_error_code \<Rightarrow> string \<Rightarrow> octg_http_error" where
  "relayRejectError code requestId =
     (case RELAY_REJECT_ERRORS requestId code of
        Some mapped \<Rightarrow> mapped
      | None \<Rightarrow>
          (case code of
             Duplicate_idempotency_key \<Rightarrow>
               makeRelayError 409 requestId ''Duplicate Idempotency-Key.'' ''invalid_request_error'' ''reject:duplicate_idempotency_key'' code
           | Insufficient_quota \<Rightarrow>
               makeRelayError 429 requestId ''Complimentary quota exceeded.'' ''complimentary_quota_exceeded'' ''reject:complimentary_quota'' code
           | Worker_concurrency_exceeded \<Rightarrow>
               makeRelayError 429 requestId ''Worker concurrency limit reached for this quota pool.'' ''rate_limit_error''
                 ''reject:worker_concurrency'' code
           | _ \<Rightarrow> errInternal requestId None None))"

definition INGRESS_ERROR_ENVELOPE_MAX_BYTES :: int where "INGRESS_ERROR_ENVELOPE_MAX_BYTES = 8192"

text \<open>
  The loop of \<open>relayFailureResponse\<close> over the chunks that are left: the body was read to its end, its reading failed,
  or the prefix is too long for an envelope.
\<close>

datatype envelope_read = Envelope_whole "string list" | Envelope_failed | Envelope_long "string list" "string list"

fun read_envelope :: "string list \<Rightarrow> int \<Rightarrow> bool \<Rightarrow> string list \<Rightarrow> envelope_read" where
  "read_envelope prefix' bytes fails chunks =
     (if bytes > INGRESS_ERROR_ENVELOPE_MAX_BYTES then Envelope_long prefix' chunks
      else case chunks of
        [] \<Rightarrow> if fails then Envelope_failed else Envelope_whole prefix'
      | c # cs \<Rightarrow> read_envelope (prefix' @ [c]) (bytes + int (length c)) fails cs)"

definition parseBoundedEnvelope :: "string list \<Rightarrow> relay_error_code option" where
  "parseBoundedEnvelope chunks =
     Option.bind (Option.bind (utf8_decode_fatal (concat chunks)) json_parse) parseRelayInternalError"

text \<open>\<open>passthroughResponse\<close>: the chunks read and, from the reader, those that are left.\<close>

definition passthroughResponse ::
  "string list \<Rightarrow> (string list \<times> bool) option \<Rightarrow> relayed_response \<Rightarrow> string \<Rightarrow> (string \<times> string) list \<Rightarrow> public_response" where
  "passthroughResponse prefix' reader relayed requestId versionHeaders =
     \<lparr>pb_status = rl_status relayed,
      pb_headers = [(''content-type'', case rl_content_type relayed of None \<Rightarrow> ''application/json'' | Some t \<Rightarrow> t),
        (''X-OCTG-Request-Id'', requestId)] @ versionHeaders,
      pb_body = Public_bytes (Some
        (case reader of
           None \<Rightarrow> \<lparr>bs_chunks = prefix', bs_fails = False, bs_cancel_fails = False\<rparr>
         | Some (rest, fails) \<Rightarrow> \<lparr>bs_chunks = prefix' @ rest, bs_fails = fails, bs_cancel_fails = False\<rparr>))\<rparr>"

definition relayFailureResponse :: "relayed_response \<Rightarrow> string \<Rightarrow> (string \<times> string) list \<Rightarrow> public_response" where
  "relayFailureResponse relayed requestId versionHeaders =
     (case rl_body relayed of
        None \<Rightarrow> passthroughResponse [] None relayed requestId versionHeaders
      | Some b \<Rightarrow>
          (case read_envelope [] 0 (bs_fails b) (bs_chunks b) of
             Envelope_failed \<Rightarrow> publicErrorResponse (errInternal requestId None None) versionHeaders
           | Envelope_long prefix' rest \<Rightarrow> passthroughResponse prefix' (Some (rest, bs_fails b)) relayed requestId versionHeaders
           | Envelope_whole prefix' \<Rightarrow>
               (case parseBoundedEnvelope prefix' of
                  Some code \<Rightarrow>
                    if relayErrorCodeStatus code \<noteq> rl_status relayed
                    then publicErrorResponse (errInternal requestId None None) versionHeaders
                    else publicErrorResponse (relayRejectError code requestId) versionHeaders
                | None \<Rightarrow> passthroughResponse prefix' None relayed requestId versionHeaders)))"

definition relayPublicResponse :: "relayed_response \<Rightarrow> string \<Rightarrow> (string \<times> string) list \<Rightarrow> public_response" where
  "relayPublicResponse relayed requestId versionHeaders =
     (if rl_status relayed \<ge> 200 \<and> rl_status relayed < 300 then
        (case decodeResponseMeta (rl_meta relayed) of
           None \<Rightarrow> publicErrorResponse (errInternal requestId None None) versionHeaders
         | Some meta \<Rightarrow>
             if \<not> isPublicMetaValid meta requestId then publicErrorResponse (errInternal requestId None None) versionHeaders
             else \<lparr>pb_status = rl_status relayed,
               pb_headers = (''content-type'', case rl_content_type relayed of None \<Rightarrow> ''application/json'' | Some t \<Rightarrow> t) #
                 buildOctgHeaders requestId
                   (Some \<lparr>q_pool = rm_pool meta, q_limit = rm_limit meta, q_used = rm_used meta, q_remaining = rm_remaining meta,
                     q_resetAt = rm_resetAt meta\<rparr>) (Some ''free_shared'') @ versionHeaders,
               pb_body = Public_bytes (rl_body relayed)\<rparr>)
      else relayFailureResponse relayed requestId versionHeaders)"

subsection \<open>The relay route of the handler\<close>

text \<open>The answer, or what was thrown, with the request that was sent to the Deno service.\<close>

definition relay_route ::
  "ingress_world \<Rightarrow> enabled_relay_config \<Rightarrow> string \<Rightarrow> string \<Rightarrow> string option \<Rightarrow> proxy_request \<Rightarrow>
     public_response throws \<times> ingress_request option" where
  "relay_route iw config requestId clientId idempotencyKey request =
     (let w = iw_px iw;
          ctx = buildRelayIngressContext (rc_environment config) requestId clientId
            (ingress_key_hash (pw_sha256 w) clientId idempotencyKey) (iw_random iw) (pw_now w)
      in case and_then (signRelayContext (pw_hmac w) ctx (rc_contextHmacKey config)) (\<lambda>token.
                relay_ingress_request (iw_url_from iw) request token config) of
           Inl e \<Rightarrow> (Inl e, None)
         | Inr sent \<Rightarrow>
             (and_then (iw_fetch iw sent) (\<lambda>relayed. Inr (relayPublicResponse relayed requestId (workerVersionHeaders (pw_version w)))),
              Some sent))"

text \<open>The handler up to this route; \<open>None\<close> for a request that it answers itself or that takes another route.\<close>

definition handleRelayed :: "ingress_world \<Rightarrow> string \<Rightarrow> proxy_request \<Rightarrow> (public_response \<times> ingress_request option) option" where
  "handleRelayed iw requestId request =
     (let w = iw_px iw
      in case authenticate w (rx_authorization request) requestId of
           Inr (Inr clientId) \<Rightarrow>
             (let key = parseIdempotencyKey (map_option JStr (rx_idempotency_key request));
                  idempotencyKey = (case key of Key_valid k \<Rightarrow> Some k | _ \<Rightarrow> None)
              in if key = Key_invalid then None
                 else case resolveRelayConfig (pw_new_url w) (ge_relay (pw_env w)) of
                   Relay_enabled config \<Rightarrow>
                     (case relay_route iw config requestId clientId idempotencyKey request of
                        (Inr response, sent) \<Rightarrow> Some (response, sent)
                      | (Inl e, sent) \<Rightarrow>
                          Some (publicErrorResponse (errInternal requestId None None) (workerVersionHeaders (pw_version w)), sent))
                 | _ \<Rightarrow> None)
         | _ \<Rightarrow> None)"

end
