(* ===== verification/Deno_Delivery.thy ===== *)
theory Deno_Delivery
  imports Deno_Relay
begin

section \<open>Deno_Delivery: what a run of the relay can be\<close>

text \<open>
  The shapes of the calls of a run: what is sent before upstream is called, and the renewals and the one report that
  follow it.  Each step of the delivery keeps them.
\<close>

subsection \<open>The calls after upstream\<close>

definition report_call :: "active_grant \<Rightarrow> terminal_outcome \<Rightarrow> relay_call" where
  "report_call g outcome =
     Call_terminal g \<lparr>t_grantId = ag_grantId g, t_leaseGeneration = ag_leaseGeneration g, t_outcome = outcome\<rparr>"

lemma sendTerminalReport_eq [simp]: "sendTerminalReport w g outcome calls = calls @ [report_call g outcome]"
  by (simp add: sendTerminalReport_def send_def report_call_def)

lemma report_call_eq [simp]: "report_call g o1 = report_call h o2 \<longleftrightarrow> g = h \<and> o1 = o2"
  by (auto simp: report_call_def)

lemma report_call_other [simp]: "report_call g x \<noteq> Call_renewal h" "report_call g x \<noteq> Call_upstream c d k b"
  "report_call g x \<noteq> Call_decision t k m" "report_call g x \<noteq> Call_activation h"
  "Call_renewal h \<noteq> report_call g x" "Call_upstream c d k b \<noteq> report_call g x" "Call_decision t k m \<noteq> report_call g x"
  "Call_activation h \<noteq> report_call g x"
  by (simp_all add: report_call_def)

text \<open>Renewals, and at most one report among them.\<close>

definition follows :: "active_grant \<Rightarrow> terminal_outcome option \<Rightarrow> calls \<Rightarrow> bool" where
  "follows g rep calls \<longleftrightarrow>
     (\<exists>r1 r2. set r1 \<union> set r2 \<subseteq> {Call_renewal g} \<and>
        calls = r1 @ (case rep of None \<Rightarrow> [] | Some x \<Rightarrow> [report_call g x]) @ r2)"

lemma follows_none [intro]: "follows g None []"
  by (auto simp: follows_def intro: exI[of _ "[]"])

lemma follows_renewal [intro]: "follows g rep calls \<Longrightarrow> follows g rep (calls @ [Call_renewal g])"
  unfolding follows_def
proof (elim exE conjE)
  fix r1 r2 assume "set r1 \<union> set r2 \<subseteq> {Call_renewal g}" "calls = r1 @ (case rep of None \<Rightarrow> [] | Some x \<Rightarrow> [report_call g x]) @ r2"
  then show "\<exists>r1 r2. set r1 \<union> set r2 \<subseteq> {Call_renewal g} \<and>
      calls @ [Call_renewal g] = r1 @ (case rep of None \<Rightarrow> [] | Some x \<Rightarrow> [report_call g x]) @ r2"
    by (intro exI[of _ r1] exI[of _ "r2 @ [Call_renewal g]"]) simp
qed

lemma follows_report [intro]: "follows g None calls \<Longrightarrow> follows g (Some x) (calls @ [report_call g x])"
  unfolding follows_def
proof (elim exE conjE)
  fix r1 r2 assume "set r1 \<union> set r2 \<subseteq> {Call_renewal g}" "calls = r1 @ (case None of None \<Rightarrow> [] | Some x \<Rightarrow> [report_call g x]) @ r2"
  then show "\<exists>r1 r2. set r1 \<union> set r2 \<subseteq> {Call_renewal g} \<and>
      calls @ [report_call g x] = r1 @ (case Some x of None \<Rightarrow> [] | Some x \<Rightarrow> [report_call g x]) @ r2"
    by (intro exI[of _ "r1 @ r2"] exI[of _ "[]"]) simp
qed

text \<open>The reports of a run.\<close>

fun report_of :: "relay_call \<Rightarrow> terminal_outcome option" where
  "report_of (Call_terminal g report) = Some (t_outcome report)"
| "report_of _ = None"

definition reports :: "calls \<Rightarrow> terminal_outcome list" where
  "reports calls = List.map_filter report_of calls"

lemma reports_simps [simp]: "reports [] = []" "reports (c # cs) = (case report_of c of None \<Rightarrow> [] | Some x \<Rightarrow> [x]) @ reports cs"
  "reports (xs @ ys) = reports xs @ reports ys" "report_of (report_call g x) = Some x"
  by (auto simp: reports_def List.map_filter_def report_call_def split: option.splits)

lemma reports_renewals: "set r \<subseteq> {Call_renewal g} \<Longrightarrow> reports r = []"
  by (induction r) auto

fun is_upstream :: "relay_call \<Rightarrow> bool" where
  "is_upstream (Call_upstream claims decision key body) = True"
| "is_upstream _ = False"

lemma is_upstream_report [simp]: "\<not> is_upstream (report_call g x)"
  by (simp add: report_call_def)

lemma follows_reports: "follows g rep calls \<Longrightarrow> reports calls = (case rep of None \<Rightarrow> [] | Some x \<Rightarrow> [x])"
  by (auto simp: follows_def reports_renewals split: option.splits)

lemma follows_no_upstream: "follows g rep calls \<Longrightarrow> filter is_upstream calls = []"
  unfolding follows_def filter_empty_conv by (fastforce split: option.splits)

subsection \<open>The two ways of delivery\<close>

definition decoded :: "relay_world \<Rightarrow> string \<Rightarrow> string" where
  "decoded w = dw_decode (rw_deno w)"

text \<open>The usage in the last bytes of what was forwarded.\<close>

definition tail_usage :: "relay_world \<Rightarrow> string list \<Rightarrow> int option" where
  "tail_usage w out = extractUsageFromTailText (decodeTailBytes (decoded w) (last_bytes tailCapacityBytes (concat out)))"

definition stream_open :: "relay_world \<Rightarrow> active_grant \<Rightarrow> calls \<Rightarrow> string list \<Rightarrow> stream_run \<Rightarrow> bool" where
  "stream_open w g base chunks s \<longleftrightarrow>
     sr_grant s = g \<and> \<not> sr_finalized s \<and> sr_client s = None \<and> sr_out s = chunks \<and>
     ring_holds (sr_tail s) (concat (sr_out s)) \<and> rb_capacity (sr_tail s) = tailCapacityBytes \<and>
     (\<forall>n. sr_usage s = Some n \<longrightarrow> (\<exists>k. tail_usage w (take k (sr_out s)) = Some n)) \<and>
     (\<exists>after. sr_calls s = base @ after \<and> follows g None after)"

text \<open>The outcome that may be reported for what was forwarded.\<close>

definition fair_outcome :: "relay_world \<Rightarrow> string list \<Rightarrow> client_end \<Rightarrow> terminal_outcome \<Rightarrow> bool" where
  "fair_outcome w out c x \<longleftrightarrow>
     (case x of Outcome_release \<Rightarrow> False
      | Outcome_settle n \<Rightarrow> c = Client_closed \<and> (\<exists>k. tail_usage w (take k out) = Some n)
      | Outcome_uncertain \<Rightarrow> c = Client_closed \<longrightarrow> tail_usage w out = None)"

definition stream_over :: "relay_world \<Rightarrow> active_grant \<Rightarrow> calls \<Rightarrow> string list \<Rightarrow> stream_run \<Rightarrow> bool" where
  "stream_over w g base chunks s \<longleftrightarrow>
     sr_finalized s \<and> (\<exists>more. chunks = sr_out s @ more) \<and>
     (\<exists>c x after. sr_client s = Some c \<and> sr_calls s = base @ after \<and> follows g (Some x) after \<and> fair_outcome w (sr_out s) c x)"

text \<open>The bytes of some of the first chunks.\<close>

definition received :: "string list \<Rightarrow> string \<Rightarrow> bool" where
  "received chunks b \<longleftrightarrow> (\<exists>pre more. chunks = pre @ more \<and> b = concat pre)"

lemma received_all [simp]: "received chunks (concat chunks)"
  by (auto simp: received_def)

lemma received_more [simp]: "received chunks b \<Longrightarrow> received (chunks @ rest) b"
  unfolding received_def by (metis append_assoc)

definition body_ok :: "relay_world \<Rightarrow> active_grant \<Rightarrow> calls \<Rightarrow> string list \<Rightarrow> body_run \<Rightarrow> bool" where
  "body_ok w g base chunks s \<longleftrightarrow>
     bd_grant s = g \<and>
     (case bd_result s of
        None \<Rightarrow> bd_bytes s = concat chunks \<and> (\<exists>after. bd_calls s = base @ after \<and> follows g None after)
      | Some None \<Rightarrow> \<exists>after. bd_calls s = base @ after \<and> follows g (Some Outcome_uncertain) after
      | Some (Some b) \<Rightarrow> received chunks b \<and>
          (\<exists>after. bd_calls s = base @ after \<and> follows g (Some (outcome_of_usage (extractUsageTotalTokens (decoded w b)))) after))"

lemma outcome_of_usage_simps [simp]: "outcome_of_usage u \<noteq> Outcome_release" "outcome_of_usage u = Outcome_settle n \<longleftrightarrow> u = Some n"
  "Outcome_settle n = outcome_of_usage u \<longleftrightarrow> u = Some n"
  "outcome_of_usage u = Outcome_uncertain \<longleftrightarrow> u = None"
  by (auto simp: outcome_of_usage_def split: option.splits)

lemma parse_tail_fields [simp]: "sr_grant (parse_tail w s) = sr_grant s" "sr_finalized (parse_tail w s) = sr_finalized s"
  "sr_client (parse_tail w s) = sr_client s" "sr_out (parse_tail w s) = sr_out s" "sr_tail (parse_tail w s) = sr_tail s"
  "sr_calls (parse_tail w s) = sr_calls s" "sr_renewing (parse_tail w s) = sr_renewing s" "sr_response (parse_tail w s) = sr_response s"
  by (simp_all add: parse_tail_def split: option.splits)

lemma parse_tail_usage:
  assumes "ring_holds (sr_tail s) (concat (sr_out s))" "rb_capacity (sr_tail s) = tailCapacityBytes"
  shows "sr_usage (parse_tail w s) = (case tail_usage w (sr_out s) of Some n \<Rightarrow> Some n | None \<Rightarrow> sr_usage s)"
  using ring_holds_tail[OF assms(1)] assms(2) by (simp add: parse_tail_def tail_usage_def decoded_def split: option.splits)

definition event_chunks :: "delivery_event \<Rightarrow> string list" where
  "event_chunks event = (case event of Source_chunk c \<Rightarrow> [c] | _ \<Rightarrow> [])"

lemma event_chunks_simps [simp]: "event_chunks (Source_chunk c) = [c]" "event_chunks Source_done = []" "event_chunks Source_fails = []"
  "event_chunks Client_cancels = []" "event_chunks Renewal_due = []" "event_chunks (Renewal_returns a) = []" "event_chunks Report_returns = []"
  by (simp_all add: event_chunks_def)

lemma stream_finalize_open:
  "\<not> sr_finalized s \<Longrightarrow> stream_finalize w x s = s\<lparr>sr_finalized := True, sr_calls := sr_calls s @ [report_call (sr_grant s) x]\<rparr>"
  by (simp add: stream_finalize_def)

lemma stream_ends:
  assumes "stream_open w g base chunks s" "fair_outcome w chunks c x"
  shows "stream_over w g base chunks ((stream_finalize w x s)\<lparr>sr_client := Some c\<rparr>)"
proof -
  obtain after where "sr_calls s = base @ after" "follows g None after" "sr_grant s = g" "sr_out s = chunks" "\<not> sr_finalized s"
    using assms(1) by (auto simp: stream_open_def)
  then show ?thesis using assms(2) by (auto simp: stream_over_def stream_finalize_open)
qed

lemma fair_uncertain: "c \<noteq> Client_closed \<Longrightarrow> fair_outcome w out c Outcome_uncertain"
  by (simp add: fair_outcome_def)

lemma stream_over_step: "stream_over w g base chunks s \<Longrightarrow> stream_over w g base (chunks @ event_chunks event) (stream_step w event s)"
  by (cases event) (auto simp: stream_over_def renew_due_def)

lemma stream_open_renewing: "stream_open w g base chunks (s\<lparr>sr_renewing := b\<rparr>) = stream_open w g base chunks s"
  by (simp add: stream_open_def)

lemma stream_open_usage: "stream_open w g base chunks s \<Longrightarrow> sr_usage s = Some n \<Longrightarrow> \<exists>k. tail_usage w (take k chunks) = Some n"
  by (auto simp: stream_open_def)

lemma stream_open_parse:
  assumes "stream_open w g base chunks s"
  shows "stream_open w g base chunks (parse_tail w s)"
proof -
  have s: "ring_holds (sr_tail s) (concat (sr_out s))" "rb_capacity (sr_tail s) = tailCapacityBytes" "sr_out s = chunks"
    using assms by (auto simp: stream_open_def)
  have "\<exists>k. tail_usage w (take k chunks) = Some n" if "sr_usage (parse_tail w s) = Some n" for n
  proof (cases "tail_usage w chunks")
    case None
    then show ?thesis using that assms s by (simp add: parse_tail_usage stream_open_def)
  next
    case (Some m)
    then show ?thesis using that s by (auto simp: parse_tail_usage intro!: exI[of _ "length chunks"])
  qed
  then show ?thesis using assms by (auto simp: stream_open_def)
qed

lemma stream_open_chunk:
  assumes "stream_open w g base chunks s"
  shows "stream_open w g base (chunks @ [c]) (s\<lparr>sr_out := sr_out s @ [c], sr_tail := ring_write (sr_tail s) c\<rparr>)"
proof -
  have "\<exists>k. tail_usage w (take k (chunks @ [c])) = Some n" if u: "sr_usage s = Some n" for n
  proof -
    obtain k where "tail_usage w (take k chunks) = Some n" using stream_open_usage[OF assms u] by auto
    then show ?thesis by (intro exI[of _ "min k (length chunks)"]) (cases "k \<le> length chunks", simp_all)
  qed
  then show ?thesis using assms ring_holds_write[of "sr_tail s" "concat chunks" c] by (auto simp: stream_open_def)
qed

lemma stream_open_done:
  assumes ok: "stream_open w g base chunks s"
  shows "stream_over w g base chunks (stream_step w Source_done s)"
proof -
  define s1 where "s1 = (if sr_usage s = None then parse_tail w s else s)"
  have open1: "stream_open w g base chunks s1" using ok stream_open_parse[OF ok] by (simp add: s1_def)
  have "tail_usage w chunks = None" if "sr_usage s1 = None"
    using that ok by (auto simp: s1_def stream_open_def parse_tail_usage split: option.splits if_splits)
  moreover have "\<exists>k. tail_usage w (take k chunks) = Some n" if "sr_usage s1 = Some n" for n
    using stream_open_usage[OF open1 that] .
  ultimately have "fair_outcome w chunks Client_closed (outcome_of_usage (sr_usage s1))"
    by (auto simp: fair_outcome_def outcome_of_usage_def split: option.splits)
  moreover have "stream_step w Source_done s = (stream_finalize w (outcome_of_usage (sr_usage s1)) s1)\<lparr>sr_client := Some Client_closed\<rparr>"
    using ok by (simp add: s1_def Let_def stream_open_def)
  ultimately show ?thesis using stream_ends[OF open1] by metis
qed

lemma stream_open_step:
  assumes ok: "stream_open w g base chunks s"
  shows "stream_open w g base (chunks @ event_chunks event) (stream_step w event s) \<or>
    stream_over w g base (chunks @ event_chunks event) (stream_step w event s)"
proof (cases event)
  case (Source_chunk c)
  then show ?thesis using stream_open_chunk[OF ok, of c] stream_open_parse[OF stream_open_chunk[OF ok, of c]] ok
    by (simp add: Let_def stream_open_def[of w g base chunks])
next
  case Source_done
  then show ?thesis using stream_open_done[OF ok] by (simp del: stream_step.simps)
next
  case Source_fails
  then show ?thesis using stream_ends[OF ok fair_uncertain, of Client_errored] ok by (simp add: stream_open_def)
next
  case Client_cancels
  then show ?thesis using stream_ends[OF ok fair_uncertain, of Client_cancelled] ok by (simp add: stream_open_def)
next
  case Renewal_due
  then show ?thesis using ok by (auto simp: stream_open_def renew_due_def)
next
  case (Renewal_returns a)
  have "stream_open w g base chunks (s\<lparr>sr_renewing := False\<rparr>)" using ok by (simp add: stream_open_renewing)
  from stream_ends[OF this fair_uncertain, of Client_errored] this ok show ?thesis
    by (simp add: Renewal_returns Let_def)
next
  case Report_returns
  then show ?thesis using ok by simp
qed

lemma body_finish_ok:
  assumes "bd_grant s = g" "bd_calls s = base @ after" "follows g None after" "\<And>b. result = Some b \<Longrightarrow> b = concat chunks"
  shows "body_ok w g base chunks (body_finish w result s)"
  using assms by (cases result) (auto simp: body_ok_def body_finish_def decoded_def)

lemma body_open_step:
  assumes ok: "body_ok w g base chunks s" and "bd_result s = None"
  shows "body_ok w g base (chunks @ event_chunks event) (snd (body_step w event s)) \<and> fst (body_step w event s) = None"
proof -
  obtain after where s: "bd_grant s = g" "bd_bytes s = concat chunks" "bd_calls s = base @ after" "follows g None after" "bd_result s = None"
    using assms by (auto simp: body_ok_def)
  note fin = body_finish_ok[of s g base after]
  show ?thesis
  proof (cases event)
    case (Source_chunk c)
    then show ?thesis using s fin[of None] by (auto simp: body_ok_def[of w g base _ "s\<lparr>bd_bytes := _\<rparr>"])
  next
    case Source_done
    then show ?thesis using s fin[of "Some (concat chunks)" chunks w] by simp
  next
    case Source_fails
    then show ?thesis using s fin[of None] by simp
  next
    case (Renewal_returns a)
    have "body_ok w g base chunks (body_finish w None (s\<lparr>bd_renewing := False\<rparr>))"
      using s body_finish_ok[of "s\<lparr>bd_renewing := False\<rparr>" g base after None] by simp
    then show ?thesis using s ok by (simp add: Renewal_returns Let_def body_ok_def[of w g base _ "s\<lparr>bd_renewing := _\<rparr>"] body_ok_def[of w g base _ s])
  qed (insert s ok, auto simp: body_ok_def renew_due_def)
qed

lemma body_ok_renewing: "body_ok w g base chunks (s\<lparr>bd_renewing := b\<rparr>) = body_ok w g base chunks s"
  by (simp add: body_ok_def split: option.splits)

lemma body_ok_renewal:
  assumes "body_ok w g base chunks s"
  shows "body_ok w g base chunks (s\<lparr>bd_renewing := b, bd_calls := bd_calls s @ [Call_renewal (bd_grant s)]\<rparr>)"
  using assms by (auto simp: body_ok_def split: option.splits)

lemma body_over_step:
  assumes "body_ok w g base chunks s" "bd_result s = Some result"
  shows "body_ok w g base (chunks @ event_chunks event) (snd (body_step w event s)) \<and>
    bd_result (snd (body_step w event s)) = Some result \<and> fst (body_step w event s) \<in> {None, Some (body_answer result (snd (body_step w event s)))}"
proof -
  have "body_ok w g base (chunks @ more) s" for more using assms by (cases result) (auto simp: body_ok_def)
  from this[of "event_chunks event"] body_ok_renewal[OF this[of "[]"]] assms show ?thesis
    by (cases event) (auto simp: renew_due_def body_ok_renewing)
qed

subsection \<open>Before upstream\<close>

text \<open>The grant and the decision that an answer of the gateway carries.\<close>

definition granted :: "relay_answer option \<Rightarrow> (active_grant \<times> allowed_decision) option" where
  "granted answer =
     (case answer of
        None \<Rightarrow> None
      | Some response \<Rightarrow>
          if ra_status response \<noteq> 200 then None
          else (case Option.bind (readBoundedCallbackJson response) parseRelayDecision of
             Some (Decision_allow grantId generation n cache quota) \<Rightarrow>
               map_option (\<lambda>credential.
                 (\<lparr>ag_grantId = grantId, ag_leaseGeneration = generation, ag_credential = credential\<rparr>,
                  \<lparr>ad_grantId = grantId, ad_leaseGeneration = generation, ad_maxOutputTokens = n, ad_cacheEnabled = cache, ad_quota = quota\<rparr>))
                 (ra_grant response)
           | _ \<Rightarrow> None))"

definition answer_to :: "relay_world \<Rightarrow> nat \<Rightarrow> relay_call \<Rightarrow> relay_answer option" where
  "answer_to w n c = rw_fetch w n (call_request (rw_config w) c)"

text \<open>A run that ends without a call of upstream: the calls it may have made.\<close>

definition stopped_early :: "relay_world \<Rightarrow> calls \<Rightarrow> bool" where
  "stopped_early w calls \<longleftrightarrow>
     calls = [] \<or> (\<exists>t k m. calls = [Call_decision t k m]) \<or>
     (\<exists>t k m g d. granted (answer_to w 0 (Call_decision t k m)) = Some (g, d) \<and>
        (calls = [Call_decision t k m, report_call g Outcome_release] \<or>
         (\<exists>rep. calls = [Call_decision t k m, Call_activation g] @ (case rep of None \<Rightarrow> [] | Some x \<Rightarrow> [report_call g x]) \<and>
            (case activation_of (answer_to w 1 (Call_activation g)) of
               Activation_activated \<Rightarrow> False
             | Activation_unknown \<Rightarrow> rep = Some Outcome_uncertain
             | Activation_refused code \<Rightarrow> rep = terminalOutcomeForDenial code))))"

text \<open>The calls up to the one of upstream.\<close>

definition began :: "relay_world \<Rightarrow> active_grant \<Rightarrow> calls \<Rightarrow> bool" where
  "began w g base \<longleftrightarrow>
     (\<exists>t k m claims d body. base = [Call_decision t k m, Call_activation g, Call_upstream claims d k body] \<and>
        granted (answer_to w 0 (Call_decision t k m)) = Some (g, d) \<and>
        activation_of (answer_to w 1 (Call_activation g)) = Activation_activated \<and>
        js_get body ''max_output_tokens'' = Some (JNum (JsInt (ad_maxOutputTokens d))))"

lemma relay_decide_granted:
  assumes "granted (answer_to w 0 (Call_decision t k m)) = Some (g, d)"
  shows "relay_decide w t k requestBody m [] = (if isBoundedGrantCredential (ag_credential g)
     then relay_activate w g t d k requestBody [Call_decision t k m]
     else Answered (relayErrorResponse 500 Internal_error) [Call_decision t k m])"
  using assms by (auto simp: relay_decide_def send_def granted_def answer_to_def split: option.splits relay_decision.splits if_splits)

lemma relay_activate_activated:
  assumes "decodeContextClaims t = Some claims" "activation_of (answer_to w 1 (Call_activation g)) = Activation_activated"
  shows "relay_activate w g t d k requestBody [Call_decision t k m] =
    relay_upstream w g claims d k (set_key (delete_key (normalizeResponsesUpstreamBody requestBody) ''max_output_tokens'')
      ''max_output_tokens'' (JNum (JsInt (ad_maxOutputTokens d)))) [Call_decision t k m, Call_activation g]"
  using assms by (simp add: relay_activate_def activateOnce_def send_def answer_to_def Let_def)

subsection \<open>The whole run\<close>

text \<open>What is answered after the whole body was read, and what is reported for it.\<close>

definition answered_ok :: "relay_world \<Rightarrow> active_grant \<Rightarrow> calls \<Rightarrow> string list \<Rightarrow> relay_response \<Rightarrow> calls \<Rightarrow> bool" where
  "answered_ok w g base chunks r calls \<longleftrightarrow>
     (\<exists>after x. calls = base @ after \<and> follows g (Some x) after \<and>
        (case lr_body r of
           Relay_bytes (Some b) \<Rightarrow> received chunks b \<and>
             x = outcome_of_usage (extractUsageTotalTokens (decoded w b))
         | _ \<Rightarrow> x = Outcome_uncertain))"

lemma answered_ok_more: "answered_ok w g base chunks r calls \<Longrightarrow> answered_ok w g base (chunks @ rest) r calls"
  unfolding answered_ok_def by (cases "lr_body r") (fastforce split: option.splits)+

lemma body_answer_ok: "body_ok w g base chunks s \<Longrightarrow> bd_result s = Some result \<Longrightarrow> answered_ok w g base chunks (body_answer result s) (bd_calls s)"
  by (cases result) (auto simp: answered_ok_def body_ok_def body_answer_def relayErrorResponse_def forwarded_response_def)

definition relay_ok :: "relay_world \<Rightarrow> active_grant \<Rightarrow> calls \<Rightarrow> string list \<Rightarrow> relay_state \<Rightarrow> bool" where
  "relay_ok w g base chunks st \<longleftrightarrow>
     (case st of
        Streaming s \<Rightarrow> stream_open w g base chunks s \<or> stream_over w g base chunks s
      | Reading s \<Rightarrow> body_ok w g base chunks s
      | Answered r calls \<Rightarrow> answered_ok w g base chunks r calls)"

lemma relay_ok_simps [simp]: "relay_ok w g base chunks (Streaming s) = (stream_open w g base chunks s \<or> stream_over w g base chunks s)"
  "relay_ok w g base chunks (Reading b) = body_ok w g base chunks b"
  "relay_ok w g base chunks (Answered r calls) = answered_ok w g base chunks r calls"
  by (simp_all add: relay_ok_def)

lemma relay_ok_step:
  assumes "relay_ok w g base chunks st"
  shows "relay_ok w g base (chunks @ event_chunks event) (relay_step w event st)"
proof (cases st)
  case (Answered r calls)
  then show ?thesis using assms by (simp add: answered_ok_more)
next
  case (Streaming s)
  then show ?thesis using assms stream_open_step[of w g base chunks s event] stream_over_step[of w g base chunks s event]
    by (auto simp del: stream_step.simps)
next
  case (Reading s)
  then have ok: "body_ok w g base chunks s" using assms by simp
  obtain r s' where step: "body_step w event s = (r, s')" by force
  show ?thesis
  proof (cases "bd_result s")
    case None
    then show ?thesis using body_open_step[OF ok None, of event] step by (simp add: Reading)
  next
    case (Some result)
    then show ?thesis using body_over_step[OF ok Some, of event] step body_answer_ok[of w g base _ s' result]
      by (auto simp: Reading)
  qed
qed

lemma relay_ok_fold: "relay_ok w g base chunks st \<Longrightarrow> relay_ok w g base (chunks @ concat (map event_chunks events)) (fold (relay_step w) events st)"
proof (induction events arbitrary: st chunks)
  case (Cons e es)
  from Cons.IH[OF relay_ok_step[OF Cons.prems, of e]] show ?case by simp
qed simp

end
