(* ===== verification/Deno_Samples.thy ===== *)
theory Deno_Samples
  imports Deno_Delivery Token
begin

section \<open>Deno_Samples: a run of the relay\<close>

text \<open>A small request whose answer reports 25 tokens, against a gateway that grants and activates.\<close>

definition dn_config :: relay_service_config where
  "dn_config = \<lparr>rs_environment = Preview, rs_callbackOrigin = ''https://gw.example'', rs_serviceAuthToken = ''service'',
     rs_ingressAuthToken = ''ingress'', rs_gatewayBBaseUrl = ''https://up.example/openai'', rs_gatewayBToken = ''token'',
     rs_maxInputBytes = 1048576, rs_maxRequestDurationMs = 3600000, rs_leaseTtlMs = 120000, rs_leaseRenewalIntervalMs = 30000\<rparr>"

definition dn_grant :: active_grant where
  "dn_grant = \<lparr>ag_grantId = k_grantId example_credential, ag_leaseGeneration = k_leaseGeneration example_credential,
     ag_credential = ''credential''\<rparr>"

definition dn_quota :: quota_snapshot where
  "dn_quota = \<lparr>q_pool = MINI, q_limit = 1000, q_used = 286, q_remaining = 714, q_resetAt = ''1970-01-02T00:00:00.000Z''\<rparr>"

definition dn_decision :: allowed_decision where
  "dn_decision = \<lparr>ad_grantId = ag_grantId dn_grant, ad_leaseGeneration = ag_leaseGeneration dn_grant, ad_maxOutputTokens = 10,
     ad_cacheEnabled = False, ad_quota = dn_quota\<rparr>"

definition dn_text :: "json \<Rightarrow> string" where "dn_text v = stringify (\<lambda>_. []) v"

definition dn_body :: "string \<Rightarrow> body_source option" where
  "dn_body t = Some \<lparr>bs_chunks = [t], bs_fails = False, bs_cancel_fails = False\<rparr>"

definition dn_decided :: relay_answer where
  "dn_decided = \<lparr>ra_status = 200, ra_grant = Some ''credential'', ra_content_type = None,
     ra_body = dn_body (dn_text (decision_json (Decision_allow (ag_grantId dn_grant) (ag_leaseGeneration dn_grant) 10 False dn_quota)))\<rparr>"

definition dn_activated :: relay_answer where
  "dn_activated = \<lparr>ra_status = 200, ra_grant = None, ra_content_type = None,
     ra_body = dn_body (dn_text (JObj [(''version'', JNum (JsInt 1)), (''activated'', JBool True), (''code'', JNull)]))\<rparr>"

definition dn_usage :: string where "dn_usage = ''{\"usage\":{\"total_tokens\":25}}''"

definition dn_upstream :: relay_answer where
  "dn_upstream = \<lparr>ra_status = 200, ra_grant = None, ra_content_type = Some ''application/json'', ra_body = dn_body dn_usage\<rparr>"

definition dn_deno :: deno_world where
  "dn_deno = \<lparr>dw_sha256 = (\<lambda>t. t), dw_decode = (\<lambda>t. t), dw_number_text = (\<lambda>_. []), dw_count = (\<lambda>_. Inr (JsInt 1)), dw_random = (\<lambda>_. [])\<rparr>"

definition dn_world :: relay_world where
  "dn_world = \<lparr>rw_config = dn_config, rw_deno = dn_deno,
     rw_fetch = (\<lambda>n _. if n = 0 then Some dn_decided else if n = 1 then Some dn_activated else if n = 2 then Some dn_upstream else None)\<rparr>"

definition dn_payload :: json where "dn_payload = JObj [(''model'', JStr ''gpt-5''), (''input'', JStr ''hi'')]"

definition dn_request :: "string \<Rightarrow> deno_request" where
  "dn_request tok = \<lparr>dq_pathname = ''/relay/v1/responses'', dq_method = ''POST'', dq_authorization = Some ''Bearer ingress'',
     dq_content_type = Some ''application/json'', dq_content_length = None, dq_idempotency_key = None,
     dq_relay_context = Some tok, dq_body = dn_body (dn_text dn_payload)\<rparr>"

lemma dn_gate: "isAuthorized (\<lambda>t. t) (Some ''Bearer ingress'') ''ingress''" "acceptsPreparePayload (parseContentType (Some ''application/json''))"
  by code_simp+

lemma dn_read: "parseRelayJsonBody (dn_text dn_payload) 1048576 = Inr dn_payload"
  by code_simp

lemma dn_grants: "granted (Some dn_decided) = Some (dn_grant, dn_decision)"
  by code_simp

lemma dn_activates: "activation_of (Some dn_activated) = Activation_activated"
  by code_simp

lemma dn_meta: "buildResponseMetaHeader example_context dn_decision \<noteq> None"
  by code_simp

lemma dn_reported: "extractUsageTotalTokens dn_usage = Some 25"
  by code_simp

lemma dn_normal: "normalizeResponses (\<lambda>_. []) dn_payload 1048576 = Inr \<lparr>nr_endpoint = Endpoint_responses, nr_model = ''gpt-5'',
    nr_inputText = ''hi'', nr_inputTextBytes = 2, nr_inputBytes = 2, nr_messageCount = 1, nr_maxOutputTokens = 4096, nr_stream = False,
    nr_isToolUse = False, nr_opaqueInputBytes = 0\<rparr>"
  by code_simp

lemma dn_bounded: "isBoundedGrantCredential (ag_credential dn_grant)"
  by code_simp

lemma dn_key: "parseIdempotencyKey None = Key_absent"
  by code_simp

lemma dn_estimate: "estimatedInputTokensOf (JsInt 1) (JsInt 1) (JsInt 0) = Inr 8"
  by code_simp

lemma dn_type: "isEventStreamContentType (Some ''application/json'') = False"
  by code_simp

lemma dn_size: "int (length dn_usage) \<le> maxNonStreamResponseBytes" "int (length (dn_text dn_payload)) \<le> RELAY_MAX_INGRESS_BODY_BYTES"
  by code_simp+

lemma dn_run:
  assumes "transportValidContextToken (Some tok) = Some tok" "decodeContextClaims tok = Some example_context"
  shows "\<exists>r m body. relay_run dn_world (dn_request tok) [Source_chunk dn_usage, Source_done, Report_returns] =
    Answered r [Call_decision tok None m, Call_activation dn_grant, Call_upstream example_context dn_decision None body,
      report_call dn_grant (Outcome_settle 25)]"
proof -
  obtain h where h: "buildResponseMetaHeader example_context dn_decision = Some h" using dn_meta by auto
  have "\<exists>m. handleRelay dn_world (dn_request tok) = relay_decide dn_world tok None dn_payload m []"
    using assms dn_gate dn_read dn_normal dn_estimate dn_key dn_size
    by (simp add: handleRelay_def dn_request_def dn_world_def dn_config_def dn_deno_def RELAY_INGRESS_ROUTE_def readBoundedRawBody_def
      dn_body_def relay_body_of_def exact_estimate_def and_then_def RELAY_MAX_INGRESS_BODY_BYTES_def dn_payload_def) blast
  then obtain m where "handleRelay dn_world (dn_request tok) = relay_decide dn_world tok None dn_payload m []" ..
  moreover have "granted (answer_to dn_world 0 c) = Some (dn_grant, dn_decision)" "activation_of (answer_to dn_world 1 c) = Activation_activated" for c
    using dn_grants dn_activates by (simp_all add: answer_to_def dn_world_def)
  ultimately have "\<exists>body. handleRelay dn_world (dn_request tok) =
      relay_upstream dn_world dn_grant example_context dn_decision None body [Call_decision tok None m, Call_activation dn_grant]"
    using dn_bounded by (simp add: relay_decide_granted relay_activate_activated[OF assms(2)]) blast
  then obtain body where "handleRelay dn_world (dn_request tok) =
      relay_upstream dn_world dn_grant example_context dn_decision None body [Call_decision tok None m, Call_activation dn_grant]" ..
  then show ?thesis using h dn_type dn_size(1) dn_reported
    by (simp add: relay_run_def relay_upstream_def send_def dn_world_def dn_upstream_def relayUpstreamResponse_def dn_body_def
      body_finish_def outcome_of_usage_def dn_deno_def)
qed

end
