(* ===== verification/Deno_Contract.thy ===== *)
theory Deno_Contract
  imports Deno_Samples Routing_Contract
begin

section \<open>Deno_Contract: what the relay promises\<close>

text \<open>
  A run of the relay against any gateway and any upstream, with any events while an answer is delivered.
\<close>

fun calls_of :: "relay_state \<Rightarrow> calls" where
  "calls_of (Answered r calls) = calls"
| "calls_of (Streaming s) = sr_calls s"
| "calls_of (Reading s) = bd_calls s"

subsection \<open>The shape of a run\<close>

lemma record_upstream [simp]: "is_record v \<Longrightarrow> is_record (delete_key (normalizeResponsesUpstreamBody v) k)"
  by (cases v) (auto simp: normalizeResponsesUpstreamBody_def delete_key_def set_key_def split: option.splits json.splits)

lemma rb_capacity_new: "rb_capacity (new_ring n) = n"
  by (simp add: new_ring_def)

lemma relayUpstreamResponse_ok:
  "relay_ok w g base [] (relayUpstreamResponse w response g metaHeader base)"
  by (auto simp: relayUpstreamResponse_def answered_ok_def stream_open_def body_ok_def forwarded_response_def ring_holds_new rb_capacity_new
    intro!: follows_report[OF follows_none, simplified])

lemma relay_upstream_ok:
  "relay_ok w g (calls @ [Call_upstream claims d k body]) [] (relay_upstream w g claims d k body calls)"
  by (auto simp: relay_upstream_def send_def answered_ok_def relayErrorResponse_def relayUpstreamResponse_ok
    intro!: follows_report[OF follows_none, simplified] split: option.splits)

definition shaped :: "relay_world \<Rightarrow> string list \<Rightarrow> relay_state \<Rightarrow> bool" where
  "shaped w chunks st \<longleftrightarrow>
     (\<exists>r calls. st = Answered r calls \<and> stopped_early w calls) \<or> (\<exists>g base. began w g base \<and> relay_ok w g base chunks st)"

lemma relay_activate_shaped:
  assumes "granted (answer_to w 0 (Call_decision t k m)) = Some (g, d)" "is_record requestBody"
  shows "shaped w [] (relay_activate w g t d k requestBody [Call_decision t k m])"
proof (cases "decodeContextClaims t")
  case None
  then show ?thesis using assms(1) by (auto simp: shaped_def relay_activate_def stopped_early_def)
next
  case (Some claims)
  define a where "a = activation_of (answer_to w 1 (Call_activation g))"
  show ?thesis
  proof (cases "a = Activation_activated")
    case True
    define body where "body = set_key (delete_key (normalizeResponsesUpstreamBody requestBody) ''max_output_tokens'')
      ''max_output_tokens'' (JNum (JsInt (ad_maxOutputTokens d)))"
    have "began w g ([Call_decision t k m, Call_activation g] @ [Call_upstream claims d k body])"
      using assms True by (auto simp: began_def a_def body_def js_get_set_key)
    moreover have "relay_activate w g t d k requestBody [Call_decision t k m]
        = relay_upstream w g claims d k body [Call_decision t k m, Call_activation g]"
      using relay_activate_activated[OF Some True[unfolded a_def]] by (simp add: body_def)
    ultimately show ?thesis using relay_upstream_ok unfolding shaped_def by metis
  next
    case False
    then show ?thesis using Some assms(1)
      by (cases a) (fastforce simp: shaped_def relay_activate_def activateOnce_def send_def a_def answer_to_def stopped_early_def Let_def split: option.splits)+
  qed
qed


lemma relay_decide_shaped:
  assumes "is_record requestBody"
  shows "shaped w [] (relay_decide w t k requestBody m [])"
proof -
  have stop: "shaped w [] (Answered r [Call_decision t k m])" for r by (auto simp: shaped_def stopped_early_def)
  show ?thesis
  proof (cases "granted (answer_to w 0 (Call_decision t k m))")
    case None
    then show ?thesis using stop
      by (auto simp: relay_decide_def send_def granted_def answer_to_def Let_def split: option.splits relay_decision.splits)
  next
    case (Some gd)
    obtain g d where gd: "gd = (g, d)" by (cases gd)
    then show ?thesis using stop relay_activate_shaped[OF _ assms] Some by (simp add: relay_decide_granted)
  qed
qed

lemma handleRelay_shaped: "shaped w [] (handleRelay w request)"
proof -
  have stop: "shaped w [] (Answered r [])" for r by (auto simp: shaped_def stopped_early_def)
  have body: "shaped w [] (relay_body_of w t k bytes)" for t k bytes
    using stop relay_decide_shaped by (auto simp: relay_body_of_def Let_def split: sum.splits)
  show ?thesis using stop body
    by (auto simp: handleRelay_def Let_def split: option.splits parsed_key.splits raw_body.splits)
qed

lemma relay_run_shaped: "shaped w (concat (map event_chunks events)) (relay_run w request events)"
proof -
  have "fold (relay_step w) events (Answered r calls) = Answered r calls" for r calls by (induction events) simp_all
  then show ?thesis using handleRelay_shaped[of w request] relay_ok_fold[of w _ _ "[]" "handleRelay w request" events]
    unfolding shaped_def relay_run_def by (metis append_Nil)
qed

text \<open>A run is over when its answer is complete.\<close>

fun run_over :: "relay_state \<Rightarrow> bool" where
  "run_over (Answered r calls) = True"
| "run_over (Streaming s) = (sr_client s \<noteq> None)"
| "run_over (Reading s) = False"

lemma relay_ok_calls:
  assumes "relay_ok w g base chunks st"
  obtains rep after where "calls_of st = base @ after" "follows g rep after" "rep \<noteq> Some Outcome_release" "run_over st \<longrightarrow> rep \<noteq> None"
proof (cases st)
  case (Answered r calls)
  then obtain after x where x: "calls = base @ after" "follows g (Some x) after"
    "case lr_body r of Relay_bytes (Some b) \<Rightarrow> received chunks b \<and> x = outcome_of_usage (extractUsageTotalTokens (decoded w b))
      | _ \<Rightarrow> x = Outcome_uncertain"
    using assms by (auto simp: answered_ok_def)
  then have "x \<noteq> Outcome_release" by (auto split: relay_body.splits option.splits)
  then show ?thesis using that[of after "Some x"] x Answered by simp
next
  case (Streaming s)
  then consider "stream_open w g base chunks s" | "stream_over w g base chunks s" using assms by auto
  then show ?thesis
  proof cases
    case 1
    then show ?thesis using that[of _ None] Streaming by (auto simp: stream_open_def)
  next
    case 2
    then obtain c x after where "sr_calls s = base @ after" "follows g (Some x) after" "fair_outcome w (sr_out s) c x"
      by (auto simp: stream_over_def)
    then show ?thesis using that[of after "Some x"] Streaming by (cases x) (auto simp: fair_outcome_def)
  qed
next
  case (Reading s)
  have "\<exists>rep after. bd_calls s = base @ after \<and> follows g rep after \<and> rep \<noteq> Some Outcome_release"
    using assms Reading by (fastforce simp: body_ok_def split: option.splits)
  then show ?thesis using that Reading by auto
qed

lemma stopped_early_calls:
  assumes "stopped_early w calls"
  shows "filter is_upstream calls = [] \<and> length (reports calls) \<le> 1 \<and>
    (Outcome_release \<in> set (reports calls) \<longrightarrow>
      (\<forall>g. Call_activation g \<in> set calls \<longrightarrow> activation_of (answer_to w 1 (Call_activation g)) = Activation_refused Lease_lost))"
proof -
  consider "calls = []" | t k m where "calls = [Call_decision t k m]"
    | t k m g where "calls = [Call_decision t k m, report_call g Outcome_release]"
    | t k m g rep where "calls = [Call_decision t k m, Call_activation g] @ (case rep of None \<Rightarrow> [] | Some x \<Rightarrow> [report_call g x])"
        "case activation_of (answer_to w 1 (Call_activation g)) of Activation_activated \<Rightarrow> False
         | Activation_unknown \<Rightarrow> rep = Some Outcome_uncertain | Activation_refused code \<Rightarrow> rep = terminalOutcomeForDenial code"
    using assms unfolding stopped_early_def by blast
  then show ?thesis
  proof cases
    case 4
    then show ?thesis
      by (cases "activation_of (answer_to w 1 (Call_activation g))") (auto simp: terminalOutcomeForDenial_def split: if_splits option.splits)
  qed auto
qed

lemma began_calls: "began w g base \<Longrightarrow> reports base = [] \<and> filter is_upstream base \<noteq> []"
  by (auto simp: began_def)

lemma unique_split:
  assumes "xs @ u # ys = before @ v # after" "filter P xs = []" "filter P ys = []" "P v"
  shows "before = xs \<and> v = u \<and> after = ys"
proof -
  have no: "v \<notin> set xs" "v \<notin> set ys" using assms by (auto simp: filter_empty_conv)
  moreover have "v \<in> set (xs @ u # ys)" using assms(1) by simp
  ultimately have "u = v" by auto
  then have eq: "xs @ v # ys = before @ v # after" using assms(1) by simp
  have "v \<notin> set before"
  proof
    assume "v \<in> set before"
    then obtain p q where "before = p @ v # q" by (auto simp: in_set_conv_decomp)
    then have "count_list (before @ v # after) v \<ge> 2" by (simp add: count_list_append)
    then show False using no unfolding eq[symmetric] by (simp add: count_list_append)
  qed
  then show ?thesis using eq no \<open>u = v\<close> append_Cons_eq_iff by metis
qed

lemma stopped_early_settles: "stopped_early w calls \<Longrightarrow> Outcome_settle n \<notin> set (reports calls)"
proof -
  assume "stopped_early w calls"
  then consider "reports calls = []" | "reports calls = [Outcome_release]" | "reports calls = [Outcome_uncertain]"
    unfolding stopped_early_def
    by (elim disjE exE conjE)
      (auto simp: terminalOutcomeForDenial_def split: activation_outcome.splits if_splits option.splits)
  then show ?thesis by cases auto
qed

lemma stream_finalize_fields [simp]: "sr_client (stream_finalize w x s) = sr_client s" "sr_finalized (stream_finalize w x s)"
  by (simp_all add: stream_finalize_def)

lemma stream_client_stays: "sr_client s \<noteq> None \<Longrightarrow> sr_client (stream_step w e s) \<noteq> None"
  by (cases e) (auto simp: Let_def renew_due_def)

text \<open>A finalized stream is one that the client has lost or got whole.\<close>

definition stream_sound :: "relay_state \<Rightarrow> bool" where
  "stream_sound st \<longleftrightarrow> (case st of Streaming s \<Rightarrow> sr_finalized s \<longrightarrow> sr_client s \<noteq> None | _ \<Rightarrow> True)"

lemma relay_run_sound: "stream_sound (fold (relay_step w) events (handleRelay w request))"
  using relay_run_shaped[of w events request]
  by (auto simp: shaped_def relay_run_def stream_sound_def stream_open_def stream_over_def split: relay_state.splits)

subsection \<open>The context token\<close>

lemma u64_url:
  assumes "n < 64"
  shows "is_base64url (u64 n) \<and> utf16_units_of_byte (u64 n) = 1 \<and> u64 n \<noteq> CHR ''.''"
proof -
  have "list_all (\<lambda>n. is_base64url (u64 n) \<and> utf16_units_of_byte (u64 n) = 1 \<and> u64 n \<noteq> CHR ''.'') [0..<64]" by code_simp
  moreover have "n \<in> set [0..<64]" using assms by (simp add: atLeast_upt[symmetric])
  ultimately show ?thesis unfolding list_all_iff by blast
qed

lemma base64url_text:
  assumes "decodeBase64UrlNoPadding t = Some bytes"
  shows "list_all is_base64url t \<and> utf16_length t = int (length t)"
proof -
  have t: "t = map u64 (digit_groups bytes)" using assms by (simp add: decode_iff encode_groups digit_groups_encode)
  have r: "n \<in> set (digit_groups bytes) \<Longrightarrow> n < 64" for n using digit_groups_range by blast
  have "utf16_length (map u64 ns) = int (length ns)" if "\<forall>n \<in> set ns. n < 64" for ns
    using that u64_url by (induction ns) (simp_all add: utf16_length_def)
  then show ?thesis unfolding t using r u64_url by (simp add: list_all_iff)
qed

lemma base64url_normal:
  assumes "decodeBase64UrlNoPadding t = Some bytes"
  shows "utf16_length (replaceAll (CHR ''_'') ''/'' (replaceAll (CHR ''-'') ''+'' t)) = int (length t)"
proof -
  have t: "t = map u64 (digit_groups bytes)" using assms by (simp add: decode_iff encode_groups digit_groups_encode)
  have r: "\<forall>n \<in> set (digit_groups bytes). n < 64" using digit_groups_range by blast
  show ?thesis unfolding t normalized_digits[OF r] b64_length[OF r] by simp
qed

lemma atob_padded_text:
  assumes "decodeBase64UrlNoPadding t = Some bytes"
  shows "atob (replaceAll (CHR ''_'') ''/'' (replaceAll (CHR ''-'') ''+'' (t @ replicate (nat ((4 - utf16_length t mod 4) mod 4)) (CHR ''='')))) = Some bytes"
proof -
  have "replaceAll c r (s @ replicate n (CHR ''='')) = replaceAll c r s @ replicate n (CHR ''='')" if "c \<noteq> CHR ''=''" for c r s n
    using that by (induction n) (simp_all add: replaceAll_def)
  moreover have "utf16_length (replaceAll (CHR ''_'') ''/'' (replaceAll (CHR ''-'') ''+'' t)) = utf16_length t"
    using base64url_text[OF assms] base64url_normal[OF assms] by simp
  ultimately show ?thesis using atob_decode[OF assms] by simp
qed

text \<open>A token that the gateway verifies passes the shape check of the relay, which reads the same claims from it without the key.\<close>

lemma context_decodes:
  assumes "verifyRelayContext hmac token key env now = Inr (Some ctx)"
  shows "transportValidContextToken (Some token) = Some token \<and> decodeContextClaims token = Some ctx"
proof -
  have v: "verifyRelayToken hmac token key RELAY_CONTEXT_PURPOSE parseRelayContext context_json = Inr (Some ctx)"
    using assms unfolding verifyRelayContext_def by (simp split: sum.splits option.splits if_splits)
  then have len: "utf16_length token \<le> 4096"
    unfolding verifyRelayToken_def RELAY_MAX_CONTEXT_HEADER_BYTES_def by (simp split: if_splits)
  obtain pp mp where t: "split_at (CHR ''.'') token = [pp, mp]" "pp \<noteq> []" "mp \<noteq> []"
    using v unfolding verifyRelayToken_def by (simp split: if_splits list.splits)
  obtain pb mb where d: "decodeBase64UrlNoPadding pp = Some pb" "decodeBase64UrlNoPadding mp = Some mb"
    using v t unfolding verifyRelayToken_def by (simp split: if_splits option.splits)
  obtain tx j where x: "utf8_decode_fatal pb = Some tx" "json_parse tx = Some j" "parseRelayContext j = Some ctx"
    using v t d unfolding verifyRelayToken_def by (simp split: if_splits option.splits sum.splits)
  note url = base64url_text[OF d(1)] base64url_text[OF d(2)]
  have "token = pp @ CHR ''.'' # mp" using t(1) by (simp add: split_at_pair)
  then have "length (utf8_encode token) \<le> 4096" using len url by (simp add: utf16_length_def utf16_units_of_byte_def)
  then have "transportValidContextToken (Some token) = Some token"
    using t url by (simp add: transportValidContextToken_def Let_def)
  then show ?thesis using x t atob_padded_text[OF d(1)] by (simp add: decodeContextClaims_def Let_def)
qed

lemma dn_delivered:
  obtains tok r m body where "verifyRelayContext (\<lambda>_ _. ''mac'') tok [] Preview 1500 = Inr (Some example_context)"
    "relay_run dn_world (dn_request tok) [Source_chunk dn_usage, Source_done, Report_returns] =
      Answered r ([Call_decision tok None m, Call_activation dn_grant] @ Call_upstream example_context dn_decision None body #
        [report_call dn_grant (Outcome_settle 25)])"
proof -
  obtain tok where "verifyRelayContext (\<lambda>_ _. ''mac'') tok [] Preview 1500 = Inr (Some example_context)"
    using example_context_verifies by blast
  with dn_run[of tok] context_decodes[OF this] that show ?thesis by auto
qed

subsection \<open>Promises\<close>

text \<open>C34: Upstream is called at most once, and only with an activated grant.\<close>

theorem upstream_needs_activation:
  assumes "calls_of (relay_run w request events) = before @ Call_upstream claims d k body # after"
  shows "\<exists>t m g. before = [Call_decision t k m, Call_activation g] \<and>
    granted (answer_to w 0 (Call_decision t k m)) = Some (g, d) \<and>
    activation_of (answer_to w 1 (Call_activation g)) = Activation_activated \<and>
    js_get body ''max_output_tokens'' = Some (JNum (JsInt (ad_maxOutputTokens d))) \<and> filter is_upstream after = []"
proof -
  have "filter is_upstream (calls_of (relay_run w request events)) \<noteq> []" using assms by simp
  then obtain g base where b: "began w g base" "relay_ok w g base (concat (map event_chunks events)) (relay_run w request events)"
    using relay_run_shaped[of w events request] stopped_early_calls[of w] by (fastforce simp: shaped_def)
  obtain rep more where m: "calls_of (relay_run w request events) = base @ more" "follows g rep more"
    using relay_ok_calls[OF b(2)] by metis
  obtain t k' m' d' claims' body' where base: "base = [Call_decision t k' m', Call_activation g] @ [Call_upstream claims' d' k' body']"
    "granted (answer_to w 0 (Call_decision t k' m')) = Some (g, d')"
    "activation_of (answer_to w 1 (Call_activation g)) = Activation_activated"
    "js_get body' ''max_output_tokens'' = Some (JNum (JsInt (ad_maxOutputTokens d')))"
    using b(1) by (auto simp: began_def)
  have "before = [Call_decision t k' m', Call_activation g] \<and> Call_upstream claims d k body = Call_upstream claims' d' k' body' \<and> after = more"
    using assms m(1) base(1) follows_no_upstream[OF m(2)] by (intro unique_split[where P = is_upstream]) auto
  then show ?thesis using base(2-4) follows_no_upstream[OF m(2)] by auto
qed

theorem upstream_needs_activation_witness:
  "\<exists>tok m g. granted (answer_to dn_world 0 (Call_decision tok None m)) = Some (g, dn_decision) \<and>
    activation_of (answer_to dn_world 1 (Call_activation g)) = Activation_activated"
proof -
  obtain tok r m body where "relay_run dn_world (dn_request tok) [Source_chunk dn_usage, Source_done, Report_returns] =
      Answered r ([Call_decision tok None m, Call_activation dn_grant] @ Call_upstream example_context dn_decision None body #
        [report_call dn_grant (Outcome_settle 25)])" using dn_delivered .
  then have "calls_of (relay_run dn_world (dn_request tok) [Source_chunk dn_usage, Source_done, Report_returns]) =
      [Call_decision tok None m, Call_activation dn_grant] @ Call_upstream example_context dn_decision None body #
        [report_call dn_grant (Outcome_settle 25)]" by simp
  from upstream_needs_activation[OF this] show ?thesis by blast
qed


text \<open>C35: There is one report, and what upstream saw is never given back.  A run reports at most once; it reports a release only when
  upstream was not called and an activation, if there was one, was refused for a lost lease; and once upstream was called and the
  answer is complete, exactly one report was sent, a settlement or an uncertain one.\<close>

theorem one_terminal_report:
  assumes "st = relay_run w request events"
  shows "length (reports (calls_of st)) \<le> 1 \<and>
    (Outcome_release \<in> set (reports (calls_of st)) \<longrightarrow>
      filter is_upstream (calls_of st) = [] \<and>
      (\<forall>g. Call_activation g \<in> set (calls_of st) \<longrightarrow>
        activation_of (answer_to w 1 (Call_activation g)) = Activation_refused Lease_lost)) \<and>
    (filter is_upstream (calls_of st) \<noteq> [] \<and> run_over st \<longrightarrow>
      (\<exists>x. reports (calls_of st) = [x] \<and> x \<noteq> Outcome_release))"
proof -
  have "shaped w (concat (map event_chunks events)) st" by (simp add: assms relay_run_shaped)
  then consider r calls where "st = Answered r calls" "stopped_early w calls"
    | g base where "began w g base" "relay_ok w g base (concat (map event_chunks events)) st" by (auto simp: shaped_def)
  then show ?thesis
  proof cases
    case 1
    then show ?thesis using stopped_early_calls[OF 1(2)] by simp
  next
    case 2
    obtain rep after where m: "calls_of st = base @ after" "follows g rep after" "rep \<noteq> Some Outcome_release" "run_over st \<longrightarrow> rep \<noteq> None"
      using relay_ok_calls[OF 2(2)] .
    then have "reports (calls_of st) = (case rep of None \<Rightarrow> [] | Some x \<Rightarrow> [x])"
      using began_calls[OF 2(1)] follows_reports[OF m(2)] by simp
    then show ?thesis using m by (cases rep) auto
  qed
qed

theorem one_terminal_report_witness:
  "\<exists>tok x. reports (calls_of (relay_run dn_world (dn_request tok) [Source_chunk dn_usage, Source_done, Report_returns])) = [x] \<and>
    x \<noteq> Outcome_release"
proof -
  obtain tok r m body where run: "relay_run dn_world (dn_request tok) [Source_chunk dn_usage, Source_done, Report_returns] =
      Answered r ([Call_decision tok None m, Call_activation dn_grant] @ Call_upstream example_context dn_decision None body #
        [report_call dn_grant (Outcome_settle 25)])" using dn_delivered .
  then have "filter is_upstream (calls_of (relay_run dn_world (dn_request tok) [Source_chunk dn_usage, Source_done, Report_returns])) \<noteq> [] \<and>
    run_over (relay_run dn_world (dn_request tok) [Source_chunk dn_usage, Source_done, Report_returns])" by simp
  with one_terminal_report[OF refl, of dn_world "dn_request tok" "[Source_chunk dn_usage, Source_done, Report_returns]"]
  show ?thesis by blast
qed

text \<open>What was delivered when \<open>n\<close> tokens are settled: a whole body that reports them, or a stream that ended with
  an event that reports them in the last bytes of some moment.\<close>

definition delivered_usage :: "relay_world \<Rightarrow> int \<Rightarrow> relay_state \<Rightarrow> bool" where
  "delivered_usage w n st \<longleftrightarrow>
     (case st of
        Answered r calls \<Rightarrow> \<exists>b. lr_body r = Relay_bytes (Some b) \<and> extractUsageTotalTokens (decoded w b) = Some n
      | Streaming s \<Rightarrow> sr_client s = Some Client_closed \<and> (\<exists>k. tail_usage w (take k (sr_out s)) = Some n)
      | Reading s \<Rightarrow> \<exists>b. bd_result s = Some (Some b) \<and> extractUsageTotalTokens (decoded w b) = Some n)"

lemma relay_ok_settles:
  assumes "relay_ok w g base chunks st" "reports base = []" "Outcome_settle n \<in> set (reports (calls_of st))"
  shows "delivered_usage w n st"
proof (cases st)
  case (Answered r calls)
  then obtain after x where x: "calls = base @ after" "follows g (Some x) after"
    "case lr_body r of Relay_bytes (Some b) \<Rightarrow> received chunks b \<and> x = outcome_of_usage (extractUsageTotalTokens (decoded w b))
      | _ \<Rightarrow> x = Outcome_uncertain"
    using assms(1) by (auto simp: answered_ok_def)
  then have "x = Outcome_settle n" using assms(2,3) follows_reports[OF x(2)] Answered by simp
  then show ?thesis using x(3) Answered by (auto simp: delivered_usage_def split: relay_body.splits option.splits)
next
  case (Streaming s)
  then consider after where "sr_calls s = base @ after" "follows g None after" | "stream_over w g base chunks s"
    using assms(1) by (auto simp: stream_open_def)
  then show ?thesis
  proof cases
    case 1
    then show ?thesis using assms(2,3) follows_reports[OF 1(2)] Streaming by simp
  next
    case 2
    then obtain c x after where x: "sr_client s = Some c" "sr_calls s = base @ after" "follows g (Some x) after" "fair_outcome w (sr_out s) c x"
      by (auto simp: stream_over_def)
    then have "x = Outcome_settle n" using assms(2,3) follows_reports[OF x(3)] Streaming by simp
    then show ?thesis using x Streaming by (auto simp: delivered_usage_def fair_outcome_def)
  qed
next
  case (Reading s)
  then have ok: "body_ok w g base chunks s" using assms(1) by simp
  obtain b where "bd_result s = Some (Some b)"
    using ok assms(2,3) Reading by (cases "bd_result s") (auto simp: body_ok_def dest!: follows_reports split: option.splits)
  then show ?thesis using ok assms(2,3) Reading by (auto simp: body_ok_def delivered_usage_def dest!: follows_reports)
qed

text \<open>C36: Only reported usage is settled.\<close>

theorem settled_usage_was_delivered:
  assumes "Outcome_settle n \<in> set (reports (calls_of (relay_run w request events)))"
  shows "delivered_usage w n (relay_run w request events)"
proof -
  define st where "st = relay_run w request events"
  have "shaped w (concat (map event_chunks events)) st" by (simp add: st_def relay_run_shaped)
  then consider r calls where "st = Answered r calls" "stopped_early w calls"
    | g base where "began w g base" "relay_ok w g base (concat (map event_chunks events)) st" by (auto simp: shaped_def)
  then have "delivered_usage w n st"
  proof cases
    case 1
    then show ?thesis using assms stopped_early_settles[OF 1(2)] by (simp flip: st_def)
  next
    case 2
    then have "reports base = []" using began_calls by blast
    then show ?thesis using assms 2(2) relay_ok_settles[OF 2(2), of n] by (simp flip: st_def)
  qed
  then show ?thesis by (simp add: st_def)
qed

theorem settled_usage_was_delivered_witness:
  "\<exists>tok. delivered_usage dn_world 25 (relay_run dn_world (dn_request tok) [Source_chunk dn_usage, Source_done, Report_returns])"
proof -
  obtain tok r m body where run: "relay_run dn_world (dn_request tok) [Source_chunk dn_usage, Source_done, Report_returns] =
      Answered r ([Call_decision tok None m, Call_activation dn_grant] @ Call_upstream example_context dn_decision None body #
        [report_call dn_grant (Outcome_settle 25)])" using dn_delivered .
  have "Outcome_settle 25 \<in> set (reports (calls_of (relay_run dn_world (dn_request tok) [Source_chunk dn_usage, Source_done, Report_returns])))"
    by (simp add: run)
  from settled_usage_was_delivered[OF this] show ?thesis by blast
qed

text \<open>C37: A delivery ends.  Whatever happened before, a run is over once upstream has ended or failed and its report has
  returned, and it stays over.\<close>

theorem delivery_ends:
  shows "run_over (relay_run w request (events @ [Source_done, Report_returns] @ later)) \<and>
    run_over (relay_run w request (events @ [Source_fails, Report_returns] @ later))"
proof -
  have stays: "run_over st \<Longrightarrow> run_over (fold (relay_step w) es st)" for es st
  proof (induction es arbitrary: st)
    case (Cons e es)
    have "run_over (relay_step w e st)" using Cons.prems by (cases st) (simp_all add: stream_client_stays)
    then show ?case using Cons.IH by simp
  qed simp
  have "run_over (relay_step w Report_returns (relay_step w e st))" if "e = Source_done \<or> e = Source_fails" "stream_sound st" for e st
    using that by (cases st) (auto simp: stream_sound_def body_finish_def Let_def split: option.splits)
  then show ?thesis using stays relay_run_sound by (auto simp: relay_run_def)
qed

text \<open>The bytes of a stream reach the client as they came: all of them while the stream is open, a first part of them when it was cut.\<close>

lemma stream_bytes_unchanged:
  assumes "relay_run w request events = Streaming s"
  shows "\<exists>later. concat (map event_chunks events) = sr_out s @ later \<and> (sr_client s = None \<longrightarrow> later = [])"
  using relay_run_shaped[of w events request] assms by (fastforce simp: shaped_def stream_open_def stream_over_def)

end
