(* ===== verification/Relay_Client_Contract.thy ===== *)
theory Relay_Client_Contract
  imports Relay_Client Deno_Contract Proxy_Samples
begin

section \<open>Relay_Client_Contract: the gateway and the relay together\<close>

text \<open>
  What the gateway signs is accepted by its own callbacks and read by the relay; what the relay answers with reaches the
  client, with the quota of the decision; and no internal error answer gets out as it came.
\<close>

declare read_envelope.simps [simp del]

subsection \<open>Failures\<close>

lemma read_envelope_result:
  "read_envelope p n fails cs =
     (if n + int (length (concat cs)) > INGRESS_ERROR_ENVELOPE_MAX_BYTES
      then read_envelope p n fails cs
      else if fails then Envelope_failed else Envelope_whole (p @ cs))"
  "n + int (length (concat cs)) > INGRESS_ERROR_ENVELOPE_MAX_BYTES \<Longrightarrow>
     \<exists>q rest. read_envelope p n fails cs = Envelope_long q rest \<and> q @ rest = p @ cs"
proof (induction cs arbitrary: p n)
  case Nil
  case 1
  show ?case by (simp add: read_envelope.simps[of p n fails "[]"])
next
  case Nil
  case 2
  then show ?case by (simp add: read_envelope.simps[of p n fails "[]"])
next
  case (Cons c cs)
  case 1
  show ?case using Cons(1)[of "p @ [c]" "n + int (length c)"] by (auto simp: read_envelope.simps[of p n fails "c # cs"])
next
  case (Cons c cs)
  case 2
  then show ?case using Cons(2)[of "n + int (length c)" "p @ [c]"] by (auto simp: read_envelope.simps[of p n fails "c # cs"])
qed

lemma relayRejectError_status: "he_status (relayRejectError code rid) = relayErrorCodeStatus code"
  by (cases code) (simp_all add: relayRejectError_def RELAY_REJECT_ERRORS_def makeRelayError_def relayErrorCodeStatus_def
    errInvalidRequest_def errClientDisabled_def errModelRequiresPaid_def errModelNotAllowed_def errInputTooLarge_def errInternal_def makeError_def)

text \<open>The answer as it came, with the headers that the gateway gives it.\<close>

definition relayed_on :: "relayed_response \<Rightarrow> string \<Rightarrow> (string \<times> string) list \<Rightarrow> string list \<Rightarrow> bool \<Rightarrow> public_response" where
  "relayed_on r rid vh chunks fails =
     \<lparr>pb_status = rl_status r,
      pb_headers = [(''content-type'', case rl_content_type r of None \<Rightarrow> ''application/json'' | Some t \<Rightarrow> t), (''X-OCTG-Request-Id'', rid)] @ vh,
      pb_body = Public_bytes (Some \<lparr>bs_chunks = chunks, bs_fails = fails, bs_cancel_fails = False\<rparr>)\<rparr>"

text \<open>C40: A failed answer of the relay.  An internal error envelope never reaches the client: within its size limit it becomes the public
  error of its code, with the status that it came with, or an internal error when the status is another one or the body breaks
  off; every other answer is passed on as it came, byte for byte.\<close>

theorem relay_failure_public:
  assumes "\<not> (rl_status r \<ge> 200 \<and> rl_status r < 300)" "rl_body r = Some b"
  shows "relayPublicResponse r rid vh =
    (if int (length (concat (bs_chunks b))) > INGRESS_ERROR_ENVELOPE_MAX_BYTES then relayed_on r rid vh (bs_chunks b) (bs_fails b)
     else if bs_fails b then publicErrorResponse (errInternal rid None None) vh
     else case parseBoundedEnvelope (bs_chunks b) of
       None \<Rightarrow> relayed_on r rid vh (bs_chunks b) False
     | Some code \<Rightarrow>
         if he_status (relayRejectError code rid) = rl_status r then publicErrorResponse (relayRejectError code rid) vh
         else publicErrorResponse (errInternal rid None None) vh)"
proof -
  have f: "relayPublicResponse r rid vh = relayFailureResponse r rid vh" using assms(1) by (simp only: relayPublicResponse_def if_False)
  show ?thesis
  proof (cases "int (length (concat (bs_chunks b))) > INGRESS_ERROR_ENVELOPE_MAX_BYTES")
  case True
  then obtain q rest where "read_envelope [] 0 (bs_fails b) (bs_chunks b) = Envelope_long q rest" "q @ rest = bs_chunks b"
    using read_envelope_result(2)[of 0 "bs_chunks b" "[]" "bs_fails b"] by auto
  then show ?thesis using assms(2) True by (simp add: f relayFailureResponse_def passthroughResponse_def relayed_on_def)
next
  case False
  then have "read_envelope [] 0 (bs_fails b) (bs_chunks b) = (if bs_fails b then Envelope_failed else Envelope_whole (bs_chunks b))"
    using read_envelope_result(1)[of "[]" 0 "bs_fails b" "bs_chunks b"] by (simp split: if_splits)
  then show ?thesis using assms(2) False
    by (auto simp: f relayFailureResponse_def passthroughResponse_def relayed_on_def relayRejectError_status split: option.split)
  qed
qed

definition rl_sample :: "string \<Rightarrow> relayed_response" where
  "rl_sample t = \<lparr>rl_status = 429, rl_meta = None, rl_content_type = None, rl_body = Some \<lparr>bs_chunks = [t], bs_fails = False, bs_cancel_fails = False\<rparr>\<rparr>"

theorem relay_failure_public_witness:
  "pb_body (relayPublicResponse (rl_sample ''{\"version\":1,\"error\":{\"code\":\"insufficient_quota\"}}'') ''rid'' []) =
    Public_error (error_json (relayRejectError Insufficient_quota ''rid''))"
proof -
  let ?t = "''{\"version\":1,\"error\":{\"code\":\"insufficient_quota\"}}''"
  have p: "parseBoundedEnvelope [?t] = Some Insufficient_quota" by code_simp
  have "he_status (relayRejectError Insufficient_quota ''rid'') = 429" by (simp add: relayRejectError_status relayErrorCodeStatus_def)
  with p relay_failure_public[of "rl_sample ?t" "\<lparr>bs_chunks = [?t], bs_fails = False, bs_cancel_fails = False\<rparr>" "''rid''" "[]"] show ?thesis
    by (simp add: rl_sample_def publicErrorResponse_def INGRESS_ERROR_ENVELOPE_MAX_BYTES_def)
qed

subsection \<open>The metadata of an answer\<close>

lemma reset_at_utf8:
  assumes "RELAY_RESET_AT_PATTERN s"
  shows "utf8_valid s"
proof -
  note r = assms[unfolded RELAY_RESET_AT_PATTERN_def Let_def]
  have "utf8_valid (take 10 s)" using r pattern_utf8(5)[of "take 10 s"] by (simp add: RELAY_UTC_DAY_PATTERN_def)
  moreover have "utf8_valid (take 9 (drop 10 s))" using r by (auto intro!: matches_ascii simp: class_ascii list_all_iff)
  moreover have "utf8_valid (drop 19 s)"
  proof -
    have "list_all (\<lambda>c. (of_char c :: nat) < 128) (drop 19 s)"
    proof (cases "drop 19 s = ''Z''")
      case False
      then obtain ds where ds: "list_all is_digit ds" "drop 19 s = CHR ''.'' # ds @ ''Z''" using r by metis
      then show ?thesis by (auto simp: ds(2) class_ascii elim!: list.pred_mono_strong)
    qed simp
    then show ?thesis by (rule utf8_valid_ascii)
  qed
  moreover have "s = take 10 s @ take 9 (drop 10 s) @ drop 19 s"
    using append_take_drop_id[of 10 s] append_take_drop_id[of 9 "drop 10 s"] by (simp add: drop_drop)
  ultimately show ?thesis by (metis utf8_valid_append)
qed

lemma granted_quota:
  assumes "granted answer = Some (g, d)"
  obtains v where "parseRelayQuotaSnapshot v = Some (ad_quota d)"
proof -
  obtain response u where u: "parseRelayDecision u = Some (Decision_allow (ag_grantId g) (ag_leaseGeneration g) (ad_maxOutputTokens d) (ad_cacheEnabled d) (ad_quota d))"
    using assms by (auto simp: granted_def bind_eq_Some_conv split: option.splits if_splits relay_decision.splits)
  then show thesis using that by (auto simp: parseRelayDecision_def split: if_splits option.splits)
qed

lemma quota_snapshot_sound:
  assumes "parseRelayQuotaSnapshot v = Some q"
  shows "valid_count (q_limit q)" "valid_count (q_used q)" "valid_count (q_remaining q)" "RELAY_RESET_AT_PATTERN (q_resetAt q)"
  using assms by (auto simp: parseRelayQuotaSnapshot_def json_iff valid_count_def split: if_splits option.splits)

lemma context_request_id: "parseRelayContext j = Some ctx \<Longrightarrow> RELAY_REQUEST_ID_PATTERN (c_requestId ctx)"
  by (auto simp: parseRelayContext_def Let_def split: if_splits option.splits)

text \<open>What the relay writes, the gateway reads.\<close>

lemma response_meta_parses:
  assumes "RELAY_REQUEST_ID_PATTERN (c_requestId ctx)" "valid_count (q_limit (ad_quota d))" "valid_count (q_used (ad_quota d))"
    "valid_count (q_remaining (ad_quota d))" "RELAY_RESET_AT_PATTERN (q_resetAt (ad_quota d))"
  shows "parseRelayResponseMeta (response_meta_json ctx d) =
    Some \<lparr>rm_requestId = c_requestId ctx, rm_pool = q_pool (ad_quota d), rm_limit = q_limit (ad_quota d), rm_used = q_used (ad_quota d),
      rm_remaining = q_remaining (ad_quota d), rm_resetAt = q_resetAt (ad_quota d)\<rparr>"
  using assms
  by (simp add: parseRelayResponseMeta_def response_meta_json_def Let_def hasExactKeys_def RELAY_RESPONSE_META_KEYS_def field_def
      isSafeInteger_iff is_one_def valid_count_def)

lemma response_meta_record:
  assumes "RELAY_REQUEST_ID_PATTERN (c_requestId ctx)" "valid_count (q_limit (ad_quota d))" "valid_count (q_used (ad_quota d))"
    "valid_count (q_remaining (ad_quota d))" "RELAY_RESET_AT_PATTERN (q_resetAt (ad_quota d))" "response_meta_json ctx d = JObj m"
  shows "claim_record m"
proof (rule claim_recordI)
  show "claim_keys (map fst m)"
    using assms(6) unfolding claim_keys_def response_meta_json_def
    by (auto simp: Let_def is_digit_code intro!: utf8_valid_ascii)
  show "list_all claim_value (map snd m)"
    using assms pattern_utf8(1) reset_at_utf8 count_claim
    by (auto simp: response_meta_json_def Let_def count_claim[simplified])
qed

lemma response_meta_decodes:
  assumes "RELAY_REQUEST_ID_PATTERN (c_requestId ctx)" "valid_count (q_limit (ad_quota d))" "valid_count (q_used (ad_quota d))"
    "valid_count (q_remaining (ad_quota d))" "RELAY_RESET_AT_PATTERN (q_resetAt (ad_quota d))" "buildResponseMetaHeader ctx d = Some h"
  shows "decodeResponseMeta (Some h) = parseRelayResponseMeta (response_meta_json ctx d)"
proof -
  obtain m where m: "response_meta_json ctx d = JObj m" by (simp add: response_meta_json_def Let_def)
  define t where "t = CHR 0x7B # join '','' (map member_text m) @ [CHR 0x7D]"
  note r = record_text[OF response_meta_record[OF assms(1-5) m], folded t_def]
  have h: "h = encodeBase64UrlNoPadding t" "int (length t) \<le> RELAY_MAX_RESPONSE_META_JSON_BYTES"
    "int (length h) \<le> RELAY_MAX_RESPONSE_META_HEADER_BYTES"
    using assms(6) by (simp_all only: buildResponseMetaHeader_def m r(1,5) Let_def option.inject not_less option.distinct split: if_splits)
  have d: "decodeBase64UrlNoPadding h = Some t" by (simp add: h(1) decode_encode)
  have "h \<noteq> []" by (simp add: h(1) encode_empty t_def)
  moreover have "utf16_length h = int (length h)" using base64url_text[OF d] by simp
  ultimately show ?thesis using h(2,3) atob_padded_text[OF d] r(2,4) by (simp add: decodeResponseMeta_def Let_def m)
qed

text \<open>The counters of the snapshot that a decision carries add up.\<close>

lemma snapshot_adds_up: "buildQuotaSnapshot state i = Inr q \<Longrightarrow> q_used q + q_remaining q = q_limit q"
  by (auto simp: buildQuotaSnapshot_def remainingOf_def and_then_Inr)

text \<open>C39: An answer of the relay reaches the client with its quota.  The metadata that the relay adds to the answer of a request, from the
  claims of its token and the decision of the gateway, is accepted by the gateway when the counters of the decision add up, and the
  public answer has the status and the bytes of the relayed one and the headers of that decision.\<close>

theorem relay_answer_published:
  assumes "decodeContextClaims token = Some ctx" "granted answer = Some (g, d)" "buildResponseMetaHeader ctx d = Some h"
    "q_used (ad_quota d) + q_remaining (ad_quota d) = q_limit (ad_quota d)"
    "rl_status r \<ge> 200" "rl_status r < 300" "rl_meta r = Some h"
  shows "relayPublicResponse r (c_requestId ctx) vh =
    \<lparr>pb_status = rl_status r,
     pb_headers = (''content-type'', case rl_content_type r of None \<Rightarrow> ''application/json'' | Some t \<Rightarrow> t) #
       buildOctgHeaders (c_requestId ctx) (Some (ad_quota d)) (Some ''free_shared'') @ vh,
     pb_body = Public_bytes (rl_body r)\<rparr>"
proof -
  obtain j where "parseRelayContext j = Some ctx"
    using assms(1) by (auto simp: decodeContextClaims_def Let_def bind_eq_Some_conv split: option.splits)
  then have rid: "RELAY_REQUEST_ID_PATTERN (c_requestId ctx)" by (rule context_request_id)
  obtain v where "parseRelayQuotaSnapshot v = Some (ad_quota d)" using granted_quota[OF assms(2)] .
  note q = quota_snapshot_sound[OF this]
  let ?meta = "\<lparr>rm_requestId = c_requestId ctx, rm_pool = q_pool (ad_quota d), rm_limit = q_limit (ad_quota d), rm_used = q_used (ad_quota d),
      rm_remaining = q_remaining (ad_quota d), rm_resetAt = q_resetAt (ad_quota d)\<rparr>"
  have "decodeResponseMeta (Some h) = Some ?meta"
    using response_meta_decodes[OF rid q assms(3)] response_meta_parses[OF rid q] by simp
  moreover have "isPublicMetaValid ?meta (c_requestId ctx)" using q assms(4) by (simp add: isPublicMetaValid_def valid_count_def)
  ultimately show ?thesis using assms(5-7) by (cases "ad_quota d") (simp add: relayPublicResponse_def)
qed

theorem relay_answer_published_witness:
  "\<exists>h. (''X-OCTG-Quota-Remaining'', ''714'') \<in> set (pb_headers (relayPublicResponse ((rl_sample [])\<lparr>rl_status := 200, rl_meta := Some h\<rparr>)
    (c_requestId example_context) []))"
proof -
  obtain tok where "verifyRelayContext (\<lambda>_ _. ''mac'') tok [] Preview 1500 = Inr (Some example_context)" using dn_delivered .
  then have t: "decodeContextClaims tok = Some example_context" using context_decodes by blast
  obtain h where h: "buildResponseMetaHeader example_context dn_decision = Some h" using dn_meta by auto
  have q: "q_used (ad_quota dn_decision) + q_remaining (ad_quota dn_decision) = q_limit (ad_quota dn_decision)"
    by (simp add: dn_decision_def dn_quota_def)
  have n: "int_string 714 = ''714''" by code_simp
  show ?thesis
    using relay_answer_published[OF t dn_grants h q, of "(rl_sample [])\<lparr>rl_status := 200, rl_meta := Some h\<rparr>" "[]"] n
    by (intro exI[of _ h]) (simp add: rl_sample_def buildOctgHeaders_def present_string_def dn_decision_def dn_quota_def)
qed

subsection \<open>The context of a request\<close>

lemma group_encode_short: "3 * length (group_encode bytes) \<le> 4 * length bytes + 2"
proof (induction bytes rule: group_encode.induct)
  case (4 a b c s)
  show ?case using 4[OF refl refl refl] by (simp add: Let_def)
qed (simp_all add: Let_def)

lemma encode_length: "utf16_length (encodeBase64UrlNoPadding bytes) = int (length (group_encode bytes))"
  using base64url_text[OF decode_encode] by (simp add: encode_groups)

lemma nat_string_short: "n < 10 ^ Suc k \<Longrightarrow> length (nat_string n) \<le> Suc k"
proof (induction k arbitrary: n)
  case 0
  then show ?case by (simp add: nat_string.simps[of n])
next
  case (Suc k)
  show ?case
  proof (cases "n < 10")
    case True
    then show ?thesis by (simp add: nat_string.simps[of n])
  next
    case False
    have "n div 10 < 10 ^ Suc k" using Suc.prems by (simp add: less_mult_imp_div_less)
    then show ?thesis using Suc.IH[of "n div 10"] False by (simp add: nat_string.simps[of n])
  qed
qed

lemma count_short: "valid_count n \<Longrightarrow> length (int_string n) \<le> 16"
  using nat_string_short[of "nat n" 15] by (auto simp: valid_count_def safe_int_def MAX_SAFE_INTEGER_def int_string_def)

lemma escape_short: "length (escape_body s) \<le> 6 * length s"
proof (induction s)
  case (Cons c s)
  have "length (escape_char c) \<le> 6"
    by (simp add: escape_char_def)
  then show ?case using Cons by simp
qed simp

lemma quote_short: "utf8_valid s \<Longrightarrow> length (quote s) \<le> 6 * length s + 2"
  using escape_short[of s] by (simp add: quote_def quote_body_well_formed utf8_valid_encode)

lemma member_short:
  assumes "utf8_valid k" "utf8_valid v" "valid_count n"
  shows "length (member_text (k, JStr v)) \<le> 6 * length k + 6 * length v + 5" "length (member_text (k, JNum (JsInt n))) \<le> 6 * length k + 19"
    "length (member_text (k, JNull)) \<le> 6 * length k + 7"
  using quote_short[OF assms(1)] quote_short[OF assms(2)] count_short[OF assms(3)] by (simp_all add: member_text_def)

text \<open>Whatever the client is called, the token of a valid context is below the limit of its header.\<close>

lemma context_fits:
  assumes "valid_context c" "utf8_valid (c_clientId c)" "\<And>k x. length (hmac k x) \<le> 32"
  obtains tok where "signRelayContext hmac c key = Inr tok" "utf16_length tok \<le> RELAY_MAX_CONTEXT_HEADER_BYTES"
proof -
  obtain m where m: "context_json c = JObj m" by (simp add: context_json_def)
  have r: "claim_record m" by (rule context_record[OF assms(1,2) m])
  define t where "t = CHR 0x7B # join '','' (map member_text (sorted_members m)) @ [CHR 0x7D]"
  define mac where "mac = computeRelayMac hmac key RELAY_CONTEXT_PURPOSE t"
  define tok where "tok = encodeBase64UrlNoPadding t @ CHR ''.'' # encodeBase64UrlNoPadding mac"
  have tok: "signRelayContext hmac c key = Inr tok"
    using canonical_claims[OF r] canonical_reads_back(1)[OF r] m
    by (simp add: signRelayContext_def signRelayToken_def Let_def tok_def mac_def t_def)
  note v = assms(1)[unfolded valid_context_def]
  have u: "utf8_valid (c_requestId c)" "utf8_valid (c_nonce c)" using v pattern_utf8 by blast+
  have l: "length (c_requestId c) = 30" "length (c_nonce c) = 43" "length (c_clientId c) \<le> 128"
    using v by (auto simp: RELAY_REQUEST_ID_PATTERN_def RELAY_NONCE_PATTERN_def utf8_length_def dest: matches_length)
  have k: "list_all utf8_valid RELAY_CONTEXT_CLAIM_KEYS" using claim_keys_constant(1) by (simp add: claim_keys_def list_all_iff)
  have hash: "length (member_text (''idempotencyKeyHash'', hash_json (c_idempotencyKeyHash c))) \<le> 6 * 18 + 6 * 64 + 5"
  proof (cases "c_idempotencyKeyHash c")
    case None
    then show ?thesis using member_short(3)[of "''idempotencyKeyHash''" "[]" 0] k
      by (simp add: hash_json_def RELAY_CONTEXT_CLAIM_KEYS_def valid_count_def safe_int_def MAX_SAFE_INTEGER_def)
  next
    case (Some h)
    then have "RELAY_KEY_HASH_PATTERN h" using v by (simp add: valid_hash_def)
    then have "utf8_valid h" "length h = 64"
      using pattern_utf8(4) by (auto simp: RELAY_KEY_HASH_PATTERN_def dest: matches_length)
    then show ?thesis using member_short(1)[of "''idempotencyKeyHash''" h 0] k Some
      by (simp add: hash_json_def RELAY_CONTEXT_CLAIM_KEYS_def valid_count_def safe_int_def MAX_SAFE_INTEGER_def)
  qed
  have "sum_list (map (\<lambda>kx. Suc (length (member_text kx))) m) \<le> 2600"
  proof -
    note str = member_short(1)[where n = 0] and num = member_short(2)[where v = "[]"]
    have env: "length (environment_name (c_environment c)) \<le> 10" by (cases "c_environment c") simp_all
    have one: "valid_count 1" "valid_count 0" by (simp_all add: valid_count_def safe_int_def MAX_SAFE_INTEGER_def)
    have ks: "utf8_valid ''version''" "utf8_valid ''audience''" "utf8_valid ''environment''" "utf8_valid ''route''" "utf8_valid ''requestId''"
      "utf8_valid ''clientId''" "utf8_valid ''nonce''" "utf8_valid ''issuedAtMs''" "utf8_valid ''expiresAtMs''"
      using k by (simp_all add: RELAY_CONTEXT_CLAIM_KEYS_def)
    have counts: "valid_count (c_issuedAtMs c)" "valid_count (c_expiresAtMs c)" using v by simp_all
    have a: "length RELAY_CONTEXT_AUDIENCE = 15" by (simp add: RELAY_CONTEXT_AUDIENCE_def)
    have "m = [(''version'', JNum (JsInt 1)), (''audience'', JStr RELAY_CONTEXT_AUDIENCE),
      (''environment'', JStr (environment_name (c_environment c))), (''route'', JStr ''responses''),
      (''requestId'', JStr (c_requestId c)), (''clientId'', JStr (c_clientId c)),
      (''idempotencyKeyHash'', hash_json (c_idempotencyKeyHash c)), (''nonce'', JStr (c_nonce c)),
      (''issuedAtMs'', JNum (JsInt (c_issuedAtMs c))), (''expiresAtMs'', JNum (JsInt (c_expiresAtMs c)))]"
      using m by (simp add: context_json_def)
    then show ?thesis
      using num[OF ks(1) _ one(1)] str[OF ks(2) constant_utf8(1) one(2)] str[OF ks(3) constant_utf8(3) one(2), of "c_environment c"]
        str[OF ks(4) constant_utf8(4) one(2)] str[OF ks(5) u(1) one(2)] str[OF ks(6) assms(2) one(2)] hash str[OF ks(7) u(2) one(2)]
        num[OF ks(8) _ counts(1)] num[OF ks(9) _ counts(2)] env l a by simp
  qed
  moreover have "length t = Suc (sum_list (map (\<lambda>kx. Suc (length (member_text kx))) m))"
  proof -
    have "length (join '','' (map member_text (sorted_members m))) + 1
        = sum_list (map (\<lambda>x. Suc (length x)) (map member_text (sorted_members m)))"
      using claim_record_sorted[OF r] by (intro join_length) (simp add: claim_record_def)
    also have "\<dots> = sum_list (map (\<lambda>kx. Suc (length (member_text kx))) m)"
      using sum_sorted_members[of "\<lambda>kx. Suc (length (member_text kx))" m] by (simp add: comp_def)
    finally show ?thesis by (simp add: t_def)
  qed
  ultimately have "length t \<le> 2601" by simp
  moreover have "length mac \<le> 32" using assms(3) by (simp add: mac_def computeRelayMac_def)
  ultimately have "length (group_encode t) \<le> 3500" "length (group_encode mac) \<le> 50"
    using group_encode_short[of t] group_encode_short[of mac] by linarith+
  moreover have "utf16_length tok = utf16_length (encodeBase64UrlNoPadding t) + 1 + utf16_length (encodeBase64UrlNoPadding mac)"
    by (simp add: tok_def utf16_length_def utf16_units_of_byte_def)
  ultimately have "utf16_length tok \<le> RELAY_MAX_CONTEXT_HEADER_BYTES" by (simp add: encode_length RELAY_MAX_CONTEXT_HEADER_BYTES_def)
  with tok show thesis by (rule that)
qed

text \<open>
  What the route relies on: the sizes of the digests and of the random bytes, the names of the clients, and a clock within the safe
  integers.
\<close>

definition ingress_sound :: "ingress_world \<Rightarrow> bool" where
  "ingress_sound iw \<longleftrightarrow> (\<forall>k x. length (pw_hmac (iw_px iw) k x) = 32) \<and> (\<forall>x. length (pw_sha256 (iw_px iw) x) = 32) \<and>
     length (iw_random iw) = 32 \<and>
     (\<forall>h r. pw_clients (iw_px iw) h = Inr (Some r) \<longrightarrow> utf8_valid (cl_id r) \<and> cl_id r \<noteq> [] \<and> length (cl_id r) \<le> 128) \<and>
     0 \<le> pw_now (iw_px iw) \<and> safe_int (pw_now (iw_px iw) + RELAY_MAX_CONTEXT_LIFETIME_MS)"

lemma nonce_pattern:
  assumes "length bytes = 32"
  shows "RELAY_NONCE_PATTERN (encodeBase64UrlNoPadding bytes)"
proof -
  have len: "length (group_encode bytes) = 4 * (length bytes div 3) + (if length bytes mod 3 = 0 then 0 else length bytes mod 3 + 1)" for bytes
    by (induction bytes rule: group_encode.induct) (simp_all add: Let_def)
  show ?thesis
    using base64url_text[OF decode_encode, of bytes] len[of bytes] assms
    by (simp add: RELAY_NONCE_PATTERN_def matches_simps encode_groups)
qed

lemma hash_pattern:
  assumes "length bytes = 32"
  shows "RELAY_KEY_HASH_PATTERN (concat (map hex2 bytes))"
proof -
  have hex: "n < 16 \<Longrightarrow> is_lower_hex (hex_char n)" for n
  proof -
    assume "n < 16"
    moreover have "list_all (\<lambda>n. is_lower_hex (hex_char n)) [0..<16]" by code_simp
    ultimately show "is_lower_hex (hex_char n)" using below_upt[of n 16] unfolding list_all_iff by blast
  qed
  have "(of_char c :: nat) div 16 < 16" for c :: char by (simp add: div_less_iff_less_mult)
  then have "list_all is_lower_hex (hex2 c)" for c using hex by (simp add: hex2_def)
  then have "list_all is_lower_hex (concat (map hex2 bs))" "length (concat (map hex2 bs)) = 2 * length bs" for bs
    by (induction bs) (simp_all add: hex2_def)
  then show ?thesis using assms by (simp add: RELAY_KEY_HASH_PATTERN_def matches_simps)
qed

lemma authenticated_client:
  "authenticate w header rid = Inr (Inr clientId) \<Longrightarrow> \<exists>h r. pw_clients w h = Inr (Some r) \<and> cl_id r = clientId"
  by (auto simp: authenticate_def and_then_Inr split: option.splits if_splits)

text \<open>The context of a request is valid, and its binding to the forwarded key is the one that the decision controller computes.\<close>

lemma ingress_context:
  assumes "ingress_sound iw" "RELAY_REQUEST_ID_PATTERN rid" "authenticate (iw_px iw) header rid' = Inr (Inr clientId)"
    and ctx_def: "ctx = buildRelayIngressContext env rid clientId (ingress_key_hash (pw_sha256 (iw_px iw)) clientId key) (iw_random iw) (pw_now (iw_px iw))"
  shows "valid_context ctx" "utf8_valid (c_clientId ctx)" "isKeyBindingConsistent (pw_sha256 (iw_px iw)) ctx key"
proof -
  note i = assms(1)[unfolded ingress_sound_def]
  have client: "utf8_valid clientId" "clientId \<noteq> []" "length clientId \<le> 128" using authenticated_client[OF assms(3)] i by blast+
  have hash: "valid_hash (ingress_key_hash (pw_sha256 (iw_px iw)) clientId key)"
    using i by (cases key) (simp_all add: ingress_key_hash_def valid_hash_def hash_pattern)
  have "valid_count (pw_now (iw_px iw))" "valid_count (pw_now (iw_px iw) + RELAY_MAX_CONTEXT_LIFETIME_MS)"
    using i by (simp_all add: valid_count_def safe_int_def RELAY_MAX_CONTEXT_LIFETIME_MS_def MAX_SAFE_INTEGER_def)
  then show "valid_context ctx"
    using assms(2) client hash i nonce_pattern
    by (simp add: ctx_def buildRelayIngressContext_def valid_context_def utf8_length_def RELAY_MAX_CONTEXT_LIFETIME_MS_def)
  show "utf8_valid (c_clientId ctx)" using client by (simp add: ctx_def buildRelayIngressContext_def)
  show "isKeyBindingConsistent (pw_sha256 (iw_px iw)) ctx key"
    by (cases key) (simp_all add: isKeyBindingConsistent_def ctx_def buildRelayIngressContext_def ingress_key_hash_def
      idempotencyKeyHashOf_def constantTimeHexEqual_iff)
qed

text \<open>C38: What the gateway signs is accepted everywhere.  The request that the gateway forwards has the body of the client as it came and a
  token whose context names this request and its client; for a minute the callbacks of the gateway verify it, the relay reads the
  same claims from it, and its key binding is the one of the forwarded idempotency key.\<close>

theorem relayed_context_accepted:
  assumes "ingress_sound iw" "RELAY_REQUEST_ID_PATTERN rid" "handleRelayed iw rid request = Some (response, Some sent)"
    "pw_now (iw_px iw) \<le> t" "t < pw_now (iw_px iw) + RELAY_MAX_CONTEXT_LIFETIME_MS"
  shows "\<exists>config token ctx. resolveRelayConfig (pw_new_url (iw_px iw)) (ge_relay (pw_env (iw_px iw))) = Relay_enabled config \<and>
    ir_body sent = rx_body request \<and> map_of (ir_headers sent) CONTEXT_HEADER = Some token \<and>
    verifyRelayContext (pw_hmac (iw_px iw)) token (rc_contextHmacKey config) (rc_environment config) t = Inr (Some ctx) \<and>
    transportValidContextToken (Some token) = Some token \<and> decodeContextClaims token = Some ctx \<and> c_requestId ctx = rid \<and>
    authenticate (iw_px iw) (rx_authorization request) rid = Inr (Inr (c_clientId ctx)) \<and>
    isKeyBindingConsistent (pw_sha256 (iw_px iw)) ctx (map_of (ir_headers sent) IDEMPOTENCY_KEY_HEADER)"
proof -
  let ?w = "iw_px iw"
  define parsed where "parsed = parseIdempotencyKey (map_option JStr (rx_idempotency_key request))"
  define key where "key = (case parsed of Key_valid k \<Rightarrow> Some k | _ \<Rightarrow> None)"
  obtain clientId config where c: "authenticate ?w (rx_authorization request) rid = Inr (Inr clientId)" "parsed \<noteq> Key_invalid"
    "resolveRelayConfig (pw_new_url ?w) (ge_relay (pw_env ?w)) = Relay_enabled config"
    "snd (relay_route iw config rid clientId key request) = Some sent"
    using assms(3)
    by (auto simp: handleRelayed_def Let_def key_def parsed_def split: sum.splits if_splits relay_config.splits prod.splits)
  define ctx where "ctx = buildRelayIngressContext (rc_environment config) rid clientId (ingress_key_hash (pw_sha256 ?w) clientId key) (iw_random iw) (pw_now ?w)"
  have v: "valid_context ctx" "utf8_valid (c_clientId ctx)" "isKeyBindingConsistent (pw_sha256 ?w) ctx key"
    by (rule ingress_context[OF assms(1,2) c(1) ctx_def])+
  have mac: "length (pw_hmac ?w k x) = 32" for k x using assms(1) by (simp add: ingress_sound_def)
  then have mac_ne: "pw_hmac ?w k x \<noteq> []" for k x by (metis list.size(3) zero_neq_numeral)
  obtain token where t: "signRelayContext (pw_hmac ?w) ctx (rc_contextHmacKey config) = Inr token"
    "utf16_length token \<le> RELAY_MAX_CONTEXT_HEADER_BYTES"
    using context_fits[OF v(1,2), of "pw_hmac ?w" "rc_contextHmacKey config"] mac by auto
  have sent: "relay_ingress_request (iw_url_from iw) request token config = Inr sent"
    using c(4) t(1) by (auto simp: relay_route_def Let_def ctx_def[symmetric] and_then_def split: sum.splits)
  have forwarded: "map_of (ir_headers sent) IDEMPOTENCY_KEY_HEADER = key" "map_of (ir_headers sent) CONTEXT_HEADER = Some token"
    "ir_body sent = rx_body request"
    using sent c(2)
    by (auto simp: relay_ingress_request_def key_def parsed_def parseIdempotencyKey_def CONTEXT_HEADER_def IDEMPOTENCY_KEY_HEADER_def
      split: option.splits if_splits)
  have fields: "c_environment ctx = rc_environment config" "c_requestId ctx = rid" "c_clientId ctx = clientId" "c_issuedAtMs ctx = pw_now ?w"
    "c_expiresAtMs ctx = pw_now ?w + RELAY_MAX_CONTEXT_LIFETIME_MS"
    by (simp_all add: ctx_def buildRelayIngressContext_def)
  have verified: "verifyRelayContext (pw_hmac ?w) token (rc_contextHmacKey config) (rc_environment config) t = Inr (Some ctx)"
    using signed_context_verifies[OF mac_ne v(2) t(1) v(1) _ _ t(2), of t] assms(4,5) fields by simp
  show ?thesis using c(1,3) forwarded verified context_decodes[OF verified] v(3) fields by metis
qed

definition rl_world :: ingress_world where
  "rl_world = \<lparr>iw_px = px_world\<lparr>pw_hmac := (\<lambda>_ _. replicate 32 (CHR ''m'')), pw_sha256 := (\<lambda>_. replicate 32 (CHR ''h''))\<rparr>,
     iw_random = replicate 32 (CHR ''r''), iw_url_from = (\<lambda>path base. Some (base @ path)), iw_fetch = (\<lambda>_. Inr (rl_sample []))\<rparr>"

lemma rl_sound: "ingress_sound rl_world"
  by (auto simp: ingress_sound_def rl_world_def px_world_def safe_int_def MAX_SAFE_INTEGER_def RELAY_MAX_CONTEXT_LIFETIME_MS_def
    intro!: utf8_valid_ascii)

lemma rl_sent:
  assumes "RELAY_REQUEST_ID_PATTERN rid"
  obtains response sent where "handleRelayed rl_world rid px_request = Some (response, Some sent)"
proof -
  let ?ctx = "buildRelayIngressContext (rc_environment gw_config) rid ''client'' (ingress_key_hash (pw_sha256 (iw_px rl_world)) ''client'' None)
    (iw_random rl_world) (pw_now (iw_px rl_world))"
  have auth: "authenticate (iw_px rl_world) (Some ''Bearer octg_sk_1'') rid = Inr (Inr ''client'')"
    by (simp add: authenticate_def rl_world_def px_world_def startsWith_def and_then_def)
  note v = ingress_context[OF rl_sound assms auth refl, where env = "rc_environment gw_config" and key = None]
  have mac: "length (pw_hmac (iw_px rl_world) k x) \<le> 32" for k x using rl_sound by (simp add: ingress_sound_def)
  obtain token where "signRelayContext (pw_hmac (iw_px rl_world)) ?ctx (rc_contextHmacKey gw_config) = Inr token"
    by (rule context_fits[OF v(1,2) mac])
  moreover have "resolveRelayConfig (pw_new_url (iw_px rl_world)) (ge_relay (pw_env (iw_px rl_world))) = Relay_enabled gw_config"
    using gw_config_resolved by (simp add: rl_world_def px_world_def gw_env_def)
  ultimately show thesis
    using that auth px_ingress(2)
    by (auto simp: handleRelayed_def relay_route_def Let_def px_request_def and_then_def relay_ingress_request_def rl_world_def)
qed

theorem relayed_context_accepted_witness:
  "\<exists>(sent :: ingress_request) token ctx. map_of (ir_headers sent) CONTEXT_HEADER = Some token \<and> decodeContextClaims token = Some ctx \<and> c_requestId ctx = px_rid"
proof -
  have rid: "RELAY_REQUEST_ID_PATTERN px_rid" using example_valid(1) by (simp add: valid_context_def example_context_def px_rid_def)
  obtain response sent where s: "handleRelayed rl_world px_rid px_request = Some (response, Some sent)" using rl_sent[OF rid] .
  have now: "pw_now (iw_px rl_world) \<le> 1500" "1500 < pw_now (iw_px rl_world) + RELAY_MAX_CONTEXT_LIFETIME_MS"
    by (simp_all add: rl_world_def px_world_def RELAY_MAX_CONTEXT_LIFETIME_MS_def)
  from relayed_context_accepted[OF rl_sound rid s now] obtain token ctx where
    "map_of (ir_headers sent) CONTEXT_HEADER = Some token" "decodeContextClaims token = Some ctx" "c_requestId ctx = px_rid" by metis
  then show ?thesis by blast
qed

text \<open>The handler of the proxy answers every request itself but those of this route and of the prepare route.\<close>

lemma unanswered_routes:
  assumes "fst (handleProxy w ep rid request s) = Inr None"
  shows "ep = Endpoint_responses"
proof -
  have admitted: "fst (px_bind m (\<lambda>r. px_return (Some r)) s) \<noteq> Inr None" for m :: "octg_response px" and s
    by (auto simp: px_bind_def px_return_def split: prod.splits sum.splits)
  then have failed: "fst (px_bind (proxy_failed w rid) (\<lambda>r. px_return (Some r)) s) \<noteq> Inr None" for s .
  have "fst (proxy_main w ep rid request s) = Inr None"
    using assms failed by (auto simp: handleProxy_def px_catch_def split: prod.splits sum.splits)
  then show ?thesis
    using admitted
    by (cases ep) (auto simp: proxy_main_def px_bind_def[of "px_of _"] px_of_def px_return_def route_request_def Let_def use_prepare_def
      split: sum.splits if_splits deno_config.splits declared_length.splits body_result.splits)
qed

end
