(* ===== verification/Spec2Isabelle.thy ===== *)
theory Spec2Isabelle
  imports Stream_Contract Slot_Contract Relay_Client_Contract
begin

text \<open>
  A development for OCTG, a gateway that shares the complimentary token allowance of an OpenAI project among its
  clients and keeps a fail-closed quota before a request reaches upstream.

  The program.  The gateway (apps/gateway-worker/src) is a Cloudflare worker.  For every pool of models and UTC day
  there is one quota controller (durable-objects/quota-controller/src), a durable object with transactional storage
  that holds the ledger of the day: the confirmed, reserved and uncertain tokens, the record of every request, the
  idempotency keys, the in-flight leases and the grants of the relay.  The gateway reserves tokens there before it
  calls upstream and settles, releases or marks the request uncertain afterwards.  For the relay, another service
  makes the call of upstream: it shows a signed context to the decision controller of the gateway, gets a grant whose
  credential is signed too, activates it, renews its lease and reports how the call ended.  packages/shared/src has
  what both sides share: strict JSON, the wire records, signed tokens, the token budget, the normalization of
  requests.  The tokenizer controller (durable-objects/tokenizer-controller/src) estimates the tokens of an input.

  Theories and sources.
  Prelude, Doubles, Numbers, Dates: results of operations that may throw (\<open>Inl\<close> is the thrown error),
    association lists for the key families of a storage, IEEE doubles, JavaScript numbers and numeric strings, UTC days.
  Json, Json_Text: relay-json.ts, the JSON reader of the runtime and its writer.  Relay_Parse, Relay_Claims,
    Relay_Routing: relay-parse.ts, relay-claims.ts, relay-routing.ts.  Credential, Token: relay-credential.ts.
  Pool: pool.ts, estimate.ts, token-budget.ts, idempotency.ts, tokenization.ts, classify.ts, relay-errors.ts.
    Normalize: normalize.ts.  Usage: usage.ts.  Errors: errors.ts.
  Quota_Store, Leases: the record \<open>quota_store\<close> has a field for every key family of store.ts.  Grant, Lifecycle,
    Admission, Grant_Lifecycle, Cpu_Gate, Controller: relay-grant.ts, quota-lifecycle.ts, relay-admission.ts,
    relay-grant-lifecycle.ts, relay-cpu-gate.ts with relay-cpu-gate-slot.ts, and the calls of quota-controller.ts.
    An operation takes the store, the clock and the fresh identifiers and gives its answer and the new store; a
    throw leaves the store as it was, as a transaction does.
  Gateway_Config, Decision, Callback: relay-auth.ts with policy.ts and the registry of db.ts,
    relay-decision-controller.ts, relay-callback.ts.  The state of the gateway is the quota controller of every name
    and the configuration caches; a call of a quota controller may be lost before it runs or lose its answer.
  Tokenization: the tokenizer controller and its caller.  Stream_Tail, Stream_Run: stream.ts, its pure part and the
    streams it passes on, which fold the events of a stream (chunks, its end, the client's leaving, the timer of the
    renewals and their answers) over the state that \<open>proxyStream\<close> keeps in its closure.
  Proxy: proxy.ts with auth.ts, crypto.ts, request-body.ts, quota-reservation.ts and upstream.ts.  A run of the handler
    threads the stores of the quota controllers and the local variables of the handler; every call of a controller has
    its turn, with its fate, its clock and what other requests did before it.
  Relay_Client: relay-client.ts and the route of proxy.ts over the relay.
  Deno_Http, Deno_Relay: the service under apps/deno-tokenizer (config.ts, http.ts, main.ts, relay.ts, relay-usage.ts).  A
    run of the relay keeps the calls it made; while an answer is delivered it is a state machine over events.

  What the lemmas show.
  Ledger: each operation refines a transition of an abstract request (held, doubtful, spent, freed), and the counters
    are sums over the requests; the locale \<open>request_store\<close> states the contract once.  Soundness: the invariant of a
    controller and that every operation keeps it.  Frames: what an operation may change of a request or a grant.
    Reachability: the locale \<open>invariant_system\<close> and its interpretations carry the invariants to all reachable
    states.  Lease_Frames: which requests have an in-flight lease, and which calls leave the leases alone.  Grant_Origin: every stored grant carries a valid context of its own controller.
  Quota_Contract, Grant_Contract, Slot_Contract: the promises of the quota controller.  Wire_Contract, Token: the
    parsers accept exactly the valid values, tokens verify exactly when they were signed with valid claims in force.
  Routing_Contract, Decision_Contract: the gateway and the quota controllers together.
  Proxy_Steps: the weakest preconditions of the steps of the handler and what each step does to the account of its
    request.  Proxy_Leases: the same for the in-flight lease of the request.  Proxy_Contract: a request is sent upstream only on
    account, nothing stays reserved and no lease is left, a whole answer is passed on as it is and settled by its usage, and the body
    that is sent is the request that was metered.
    Stream_Contract: a stream stays on the account of its request and settles it once, however it ends.
  Deno_Delivery: the shapes of the calls of a relay run, kept by every event of the delivery.  Deno_Contract: upstream
    needs an activated grant, one terminal report that never releases what upstream may have seen, delivery ends.  Relay_Client_Contract: the
    context that the gateway sends is one the relay accepts, and what the client gets of its answers and failures.
  Samples, Gateway_Samples, Proxy_Samples, Deno_Samples: concrete runs that the witnesses evaluate.

  Bounds.  Ledgers are integers, and the arguments of the calls are \<open>jsnum\<close>, which has NaN, infinities and fractions.  The
  source checks that the arguments it stores are safe integers, but not the sums that it makes of them: the totals of a pool are
  added as doubles, so the sums of the model are those of the source as long as they stay below 2^53.  Quotients and products that the source computes in
  doubles are rounded as IEEE does.  The JSON reader has fuel: twice the length of the text plus two, which Json_Text
  shows to be enough for every text that any fuel reads.  All other loops have a termination proof.

  Not modelled.
  Logs and observations (resource-observation.ts, relay-observation.ts, observation.ts), the audit rows of db.ts,
  written best effort.  The hash, the message authentication code, the URL parser, the encoder of tokens, the streaming
  text decoder and the network are arguments.  One operation reads the clock once.  Of proxy.ts, the route over the
  prepare service: it rewrites a body while it streams through two connections (prepared-body.ts,
  deno-prepare-client.ts).  The administration pages, the scheduled jobs, the routes of the CPU gate and the scripts of deployment are
  request routing and database reads over the operations modelled here.
\<close>

end
